(* ===== verification/Go_Prelude.thy ===== *)
theory Go_Prelude
  imports Main "HOL-Library.AList" "HOL-Library.Sublist" "HOL-Library.List_Lexorder"
    "HOL-Library.Char_ord" "HOL-Library.Word"
begin

section \<open>Prelude: the parts of Go every component uses\<close>

text \<open>
  Go strings are byte strings (\<^typ>\<open>string\<close>). The functions of package \<open>strings\<close> the
  code calls are defined here by their documented behaviour; case mapping and white space are
  those of the ASCII range. A Go map is an association list with distinct keys: the order of
  the list is the order in which the runtime happens to range over the map, which Go leaves
  open, so a lemma about every list is a lemma about every iteration order. A Go \<open>error\<close> is a
  \<open>goerr\<close>, with \<open>None\<close> for \<open>nil\<close>, and a call that returns a value or an error is a sum with
  the error on the left.
\<close>

named_theorems go_simps \<open>unfolding rules of small helper functions\<close>
named_theorems wf_intros \<open>well-formedness of maps and values is kept by the operations\<close>

subsection \<open>Strings\<close>

abbreviation HasPrefix :: "string \<Rightarrow> string \<Rightarrow> bool" where
  "HasPrefix s p \<equiv> prefix p s"

abbreviation HasSuffix :: "string \<Rightarrow> string \<Rightarrow> bool" where
  "HasSuffix s p \<equiv> suffix p s"

text \<open>\<open>Index s sep\<close>: the position of the first occurrence, \<open>None\<close> for Go's \<open>-1\<close>.\<close>

fun Index :: "string \<Rightarrow> string \<Rightarrow> nat option" where
  "Index [] sep = (if sep = [] then Some 0 else None)"
| "Index (c # s) sep = (if prefix sep (c # s) then Some 0 else map_option Suc (Index s sep))"

definition Contains :: "string \<Rightarrow> string \<Rightarrow> bool" where
  [go_simps]: "Contains s sub = (Index s sub \<noteq> None)"

text \<open>\<open>LastIndex s sep\<close>: the position of the last occurrence.\<close>

fun LastIndex :: "string \<Rightarrow> string \<Rightarrow> nat option" where
  "LastIndex [] sep = (if sep = [] then Some 0 else None)"
| "LastIndex (c # s) sep =
     (case LastIndex s sep of
        Some i \<Rightarrow> Some (Suc i)
      | None \<Rightarrow> if prefix sep (c # s) then Some 0 else None)"

text \<open>\<open>SplitN(s, sep, 2)\<close> for a non-empty separator.\<close>

definition SplitN2 :: "string \<Rightarrow> string \<Rightarrow> string list" where
  "SplitN2 s sep =
     (case Index s sep of
        None \<Rightarrow> [s]
      | Some i \<Rightarrow> [take i s, drop (i + length sep) s])"

lemma Index_bound: "Index s sep = Some i \<Longrightarrow> i + length sep \<le> length s"
proof (induction s arbitrary: i)
  case Nil
  then show ?case by (auto split: if_splits)
next
  case (Cons c s)
  show ?case
  proof (cases "prefix sep (c # s)")
    case True
    with Cons.prems show ?thesis by (auto dest: prefix_length_le)
  next
    case False
    with Cons.prems obtain j where "Index s sep = Some j" "i = Suc j" by auto
    with Cons.IH[of j] show ?thesis by simp
  qed
qed

function Split :: "string \<Rightarrow> string \<Rightarrow> string list" where
  "Split s sep =
     (if sep = [] then map (\<lambda>c. [c]) s
      else case Index s sep of
        None \<Rightarrow> [s]
      | Some i \<Rightarrow> take i s # Split (drop (i + length sep) s) sep)"
  by pat_completeness auto
termination
proof (relation "measure (\<lambda>(s, sep). length s)", goal_cases)
  case (2 s sep i)
  then have "length sep > 0" "i + length sep \<le> length s"
    by (auto dest: Index_bound)
  then show ?case by (auto intro: diff_less)
qed simp

declare Split.simps [simp del]

fun Join :: "string list \<Rightarrow> string \<Rightarrow> string" where
  "Join [] sep = []"
| "Join [x] sep = x"
| "Join (x # y # ys) sep = x @ sep @ Join (y # ys) sep"

definition isSpace :: "char \<Rightarrow> bool" where
  "isSpace c = (c \<in> {CHR 0x09, CHR 0x0A, CHR 0x0B, CHR 0x0C, CHR 0x0D, CHR '' ''})"

definition TrimSpace :: "string \<Rightarrow> string" where
  "TrimSpace s = rev (dropWhile isSpace (rev (dropWhile isSpace s)))"

definition TrimPrefix :: "string \<Rightarrow> string \<Rightarrow> string" where
  "TrimPrefix s p = (if prefix p s then drop (length p) s else s)"

definition TrimSuffix :: "string \<Rightarrow> string \<Rightarrow> string" where
  "TrimSuffix s p = (if suffix p s then take (length s - length p) s else s)"

definition upperC :: "char \<Rightarrow> bool" where
  "upperC c = (CHR ''A'' \<le> c \<and> c \<le> CHR ''Z'')"

definition lowerC :: "char \<Rightarrow> bool" where
  "lowerC c = (CHR ''a'' \<le> c \<and> c \<le> CHR ''z'')"

definition toLowerC :: "char \<Rightarrow> char" where
  "toLowerC c = (if upperC c then char_of (of_char c + 32 :: nat) else c)"

definition toUpperC :: "char \<Rightarrow> char" where
  "toUpperC c = (if lowerC c then char_of (of_char c - 32 :: nat) else c)"

definition ToLower :: "string \<Rightarrow> string" where
  "ToLower = map toLowerC"

definition ToUpper :: "string \<Rightarrow> string" where
  "ToUpper = map toUpperC"

definition EqualFold :: "string \<Rightarrow> string \<Rightarrow> bool" where
  "EqualFold s t = (ToLower s = ToLower t)"

text \<open>Facts about the first occurrence.\<close>

lemma Index_split: "Index s sep = Some i \<Longrightarrow> s = take i s @ sep @ drop (i + length sep) s"
proof (induction s arbitrary: i)
  case Nil
  then show ?case by (auto split: if_splits)
next
  case (Cons c s)
  show ?case
  proof (cases "prefix sep (c # s)")
    case True
    with Cons.prems show ?thesis by (auto simp: prefix_def)
  next
    case False
    with Cons.prems obtain j where "Index s sep = Some j" "i = Suc j" by auto
    with Cons.IH[of j] show ?thesis by simp
  qed
qed

lemma Index_first_char:
  "c \<notin> set a \<Longrightarrow> Index (a @ c # cs @ b) (c # cs) = Some (length a)"
proof (induction a)
  case Nil
  have "prefix (c # cs) (c # cs @ b)" by (auto simp: prefix_def)
  then show ?case by simp
qed auto

lemma Index_char_None: "c \<notin> set s \<Longrightarrow> Index s (c # cs) = None"
  by (induction s) auto

lemma Index_None_notin: "Index s [c] = None \<longleftrightarrow> c \<notin> set s"
  by (induction s) auto

lemma Contains_append: "Contains (a @ sub @ b) sub"
proof (induction a)
  case Nil
  show ?case
  proof (cases "sub @ b")
    case Nil then show ?thesis by (simp add: go_simps)
  next
    case (Cons x xs)
    have "prefix sub (sub @ b)" by (auto simp: prefix_def)
    with Cons show ?thesis by (auto simp: go_simps)
  qed
qed (auto simp: go_simps)

lemma Contains_iff: "Contains s sub \<longleftrightarrow> (\<exists>a b. s = a @ sub @ b)"
  by (auto simp: Contains_append)
    (metis (no_types, lifting) Contains_def Index_split not_Some_eq)

lemma SplitN2_first_char:
  "c \<notin> set a \<Longrightarrow> SplitN2 (a @ c # cs @ b) (c # cs) = [a, b]"
  by (simp add: SplitN2_def Index_first_char)

lemma SplitN2_char_None: "c \<notin> set s \<Longrightarrow> SplitN2 s (c # cs) = [s]"
  by (simp add: SplitN2_def Index_char_None)

lemma Split_char_None: "c \<notin> set s \<Longrightarrow> Split s (c # cs) = [s]"
  by (simp add: Split.simps[of s] Index_char_None)

lemma Split_first_char:
  "c \<notin> set a \<Longrightarrow> Split (a @ c # cs @ b) (c # cs) = a # Split b (c # cs)"
  by (simp add: Split.simps[of "a @ c # cs @ b"] Index_first_char)

lemma Split_nonempty: "sep \<noteq> [] \<Longrightarrow> Split s sep \<noteq> []"
  by (subst Split.simps) (simp split: option.splits)

text \<open>Splitting and joining again gives the string back.\<close>

lemma Join_Cons: "ys \<noteq> [] \<Longrightarrow> Join (x # ys) sep = x @ sep @ Join ys sep"
  by (cases ys) auto

lemma Join_Split: "sep \<noteq> [] \<Longrightarrow> Join (Split s sep) sep = s"
proof (induction s sep rule: Split.induct)
  case (1 s sep)
  show ?case
  proof (cases "Index s sep")
    case None
    with 1 show ?thesis by (simp add: Split.simps[of s])
  next
    case (Some i)
    with 1 have IH: "Join (Split (drop (i + length sep) s) sep) sep = drop (i + length sep) s"
      by simp
    from Some 1 have "Split s sep = take i s # Split (drop (i + length sep) s) sep"
      by (simp add: Split.simps[of s])
    with IH 1 Index_split[OF Some] show ?thesis
      by (simp add: Join_Cons Split_nonempty)
  qed
qed

text \<open>Trimming is idempotent, and the identity on strings with no white space at an end.\<close>

lemma dropWhile_last:
  "xs \<noteq> [] \<Longrightarrow> \<not> P (last xs) \<Longrightarrow> dropWhile P xs \<noteq> [] \<and> last (dropWhile P xs) = last xs"
  by (induction xs) auto

lemma dropWhile_hd: "xs = [] \<or> \<not> P (hd xs) \<Longrightarrow> dropWhile P xs = xs"
  by (cases xs) auto

lemma TrimSpace_id:
  assumes "s = [] \<or> (\<not> isSpace (hd s) \<and> \<not> isSpace (last s))"
  shows "TrimSpace s = s"
proof -
  from assms have "dropWhile isSpace s = s" by (intro dropWhile_hd) auto
  moreover from assms have "dropWhile isSpace (rev s) = rev s"
    by (intro dropWhile_hd) (auto simp: hd_rev)
  ultimately show ?thesis by (simp add: TrimSpace_def)
qed

lemma TrimSpace_ends:
  "TrimSpace s = [] \<or> (\<not> isSpace (hd (TrimSpace s)) \<and> \<not> isSpace (last (TrimSpace s)))"
proof -
  let ?d = "dropWhile isSpace s"
  let ?e = "dropWhile isSpace (rev ?d)"
  have t: "TrimSpace s = rev ?e" by (simp add: TrimSpace_def)
  show ?thesis
  proof (cases "?e = []")
    case True
    with t show ?thesis by simp
  next
    case False
    then have "\<not> isSpace (hd ?e)" by (rule hd_dropWhile)
    moreover have d: "?d \<noteq> []" using False by (cases "?d = []") simp_all
    then have "\<not> isSpace (hd ?d)" by (rule hd_dropWhile)
    moreover from this d have "last ?e = hd ?d"
      using dropWhile_last[of "rev ?d" isSpace] by (simp add: last_rev)
    ultimately show ?thesis
      using t False by (simp add: hd_rev last_rev)
  qed
qed

lemma TrimSpace_idem [simp]: "TrimSpace (TrimSpace s) = TrimSpace s"
  using TrimSpace_ends by (rule TrimSpace_id)

lemma TrimSpace_Nil [simp]: "TrimSpace [] = []"
  by (simp add: TrimSpace_def)

lemma TrimSpace_set: "set (TrimSpace s) \<subseteq> set s"
  unfolding TrimSpace_def by (auto dest!: set_dropWhileD)

lemma TrimSpace_no_space: "\<forall>c \<in> set s. \<not> isSpace c \<Longrightarrow> TrimSpace s = s"
  by (rule TrimSpace_id) (cases s; auto)

text \<open>Lower case.\<close>

lemma of_char_nat_less: "(of_char c :: nat) < 256"
  by simp

lemma toLowerC_not_upper: "\<not> upperC (toLowerC c)"
proof (cases "upperC c")
  case True
  then have b: "(65::nat) \<le> of_char c" "(of_char c :: nat) \<le> 90"
    by (simp_all add: upperC_def less_eq_char_def)
  then have "(of_char (toLowerC c) :: nat) = of_char c + 32"
    using True by (simp add: toLowerC_def)
  with b show ?thesis by (simp add: upperC_def less_eq_char_def)
next
  case False
  then show ?thesis by (simp add: toLowerC_def)
qed

lemma toLowerC_idem [simp]: "toLowerC (toLowerC c) = toLowerC c"
  using toLowerC_not_upper[of c] by (simp add: toLowerC_def[of "toLowerC c"])

lemma ToLower_idem [simp]: "ToLower (ToLower s) = ToLower s"
  by (simp add: ToLower_def)

lemma ToLower_Nil_iff [simp]: "ToLower s = [] \<longleftrightarrow> s = []" "ToLower [] = []"
  by (simp_all add: ToLower_def)

lemma length_ToLower [simp]: "length (ToLower s) = length s"
  by (simp add: ToLower_def)

lemma EqualFold_refl [simp]: "EqualFold s s"
  by (simp add: EqualFold_def)

subsection \<open>Maps built by ranging over another map\<close>

text \<open>A loop that writes, for every entry of a map with distinct keys, a value computed from the
  entry and from what the result held for that key.\<close>

lemma fold_update_lookup:
  "distinct (map fst ov) \<Longrightarrow>
   map_of (fold (\<lambda>(k, v) r. AList.update k (f k (map_of r k) v) r) ov b) key
   = (case map_of ov key of None \<Rightarrow> map_of b key | Some v \<Rightarrow> Some (f key (map_of b key) v))"
proof (induction ov arbitrary: b)
  case (Cons kv ov)
  obtain k v where kv: "kv = (k, v)" by (cases kv)
  with Cons.prems have "map_of ov k = None" by (auto simp: map_of_eq_None_iff)
  with Cons kv show ?case by (auto simp: update_conv' split: option.splits)
qed simp

lemma fold_update_distinct_keys:
  "distinct (map fst b) \<Longrightarrow>
   distinct (map fst (fold (\<lambda>(k, v) r. AList.update k (f k (map_of r k) v) r) ov b))"
  by (induction ov arbitrary: b) (auto simp: distinct_update)

lemma fold_put_lookup:
  "map_of (fold (\<lambda>(k, v) r. AList.update k v r) ov b) key
   = (case map_of (rev ov) key of None \<Rightarrow> map_of b key | Some v \<Rightarrow> Some v)"
  by (induction ov arbitrary: b) (auto simp: update_conv' map_add_def split: option.splits)

lemma fold_put_distinct:
  "distinct (map fst b) \<Longrightarrow> distinct (map fst (fold (\<lambda>(k, v) r. AList.update k v r) ov b))"
  by (induction ov arbitrary: b) (auto simp: distinct_update)

lemma map_of_rev_keys: "distinct (map fst xs) \<Longrightarrow> map_of (rev xs) = map_of xs"
  by (intro map_of_inject_set[THEN iffD2]) (simp_all add: rev_map[symmetric])

subsection \<open>Separators\<close>

lemma first_sep_unique:
  "c \<notin> set a \<Longrightarrow> c \<notin> set b \<Longrightarrow> a @ c # x = b @ c # y \<longleftrightarrow> a = b \<and> x = y"
proof (induction a arbitrary: b)
  case Nil
  then show ?case by (cases b) auto
next
  case (Cons d a)
  then show ?case by (cases b) auto
qed

text \<open>An element of two lists put together is in the one or in the other.\<close>

lemma append_split:
  assumes "cs @ ds = a @ c # b"
  shows "(\<exists>b'. cs = a @ c # b') \<or> (\<exists>a'. a = cs @ a' \<and> ds = a' @ c # b)"
proof -
  from assms[unfolded append_eq_append_conv2] obtain us where
    "cs = a @ us \<and> us @ ds = c # b \<or> cs @ us = a \<and> ds = us @ c # b" by blast
  then show ?thesis by (cases us) auto
qed

end
