(* ===== verification/Go_Error.thy ===== *)
theory Go_Error
  imports Go_Prelude
begin

section \<open>Errors, and the error list of package merr\<close>

text \<open>
  The error values the program distinguishes: a plain message, the API status errors that the
  code asks for with \<open>IsNotFound\<close>, \<open>IsAlreadyExists\<close>, \<open>IsConflict\<close> and \<open>IsForbidden\<close>, the
  sentinel values compared with \<open>==\<close> or \<open>errors.Is\<close> (\<open>apply.ErrReplace\<close>, \<open>generic.ErrSkip\<close>,
  \<open>apply.ErrOwnerNotFound\<close>, \<open>apply.ErrNoInformerFound\<close>), an error wrapped with \<open>%w\<close>, and a
  \<open>merr.Errors\<close>. The second half is \<open>pkg/merr/error.go\<close>.
\<close>

datatype goerr =
    Err string
  | NotFound string
  | AlreadyExists string
  | Conflict string
  | Forbidden string
  | ErrReplace
  | ErrSkip
  | ErrOwnerNotFound
  | ErrNoInformerFound
  | Wrap string goerr
  | Multi "goerr list"

type_synonym 'a result = "goerr + 'a"

text \<open>\<open>Errors.Error\<close> writes a separator only when the buffer already holds text, so an empty
  first message leaves no leading comma.\<close>

fun errors_buf :: "string \<Rightarrow> string list \<Rightarrow> string" where
  "errors_buf buf [] = buf"
| "errors_buf buf (m # ms) = errors_buf ((if buf \<noteq> [] then buf @ '', '' else buf) @ m) ms"

fun err_text :: "goerr \<Rightarrow> string" where
  "err_text (Err m) = m"
| "err_text (NotFound m) = m"
| "err_text (AlreadyExists m) = m"
| "err_text (Conflict m) = m"
| "err_text (Forbidden m) = m"
| "err_text ErrReplace = ''replace object with changes''"
| "err_text ErrSkip = ''ignore handler error''"
| "err_text ErrOwnerNotFound = ''owner not found''"
| "err_text ErrNoInformerFound = ''informer not found''"
| "err_text (Wrap pre e) = pre @ '': '' @ err_text e"
| "err_text (Multi es) = errors_buf [] (map err_text es)"

definition NewErrors :: "goerr option list \<Rightarrow> goerr option" where
  "NewErrors inErrors =
     (let errors = List.map_filter id inErrors in
      if errors = [] then None
      else if length errors = 1 then Some (hd errors)
      else Some (Multi errors))"

definition Errors_Err :: "goerr list \<Rightarrow> goerr option" where
  "Errors_Err e = NewErrors (map Some e)"

definition Errors_Error :: "goerr list \<Rightarrow> string" where
  "Errors_Error e = errors_buf [] (map err_text e)"

text \<open>The predicates of \<open>k8s.io/apimachinery/pkg/api/errors\<close> look through wrapped errors
  (\<open>errors.As\<close>), not into the elements of a \<open>merr.Errors\<close>, which has no \<open>Unwrap\<close>.\<close>

fun unwrap :: "goerr \<Rightarrow> goerr" where
  "unwrap (Wrap _ e) = unwrap e"
| "unwrap e = e"

definition IsNotFound :: "goerr option \<Rightarrow> bool" where
  "IsNotFound e = (case e of None \<Rightarrow> False | Some x \<Rightarrow> (case unwrap x of NotFound _ \<Rightarrow> True | _ \<Rightarrow> False))"

definition IsAlreadyExists :: "goerr option \<Rightarrow> bool" where
  "IsAlreadyExists e =
     (case e of None \<Rightarrow> False | Some x \<Rightarrow> (case unwrap x of AlreadyExists _ \<Rightarrow> True | _ \<Rightarrow> False))"

definition IsConflict :: "goerr option \<Rightarrow> bool" where
  "IsConflict e = (case e of None \<Rightarrow> False | Some x \<Rightarrow> (case unwrap x of Conflict _ \<Rightarrow> True | _ \<Rightarrow> False))"

definition IsForbidden :: "goerr option \<Rightarrow> bool" where
  "IsForbidden e = (case e of None \<Rightarrow> False | Some x \<Rightarrow> (case unwrap x of Forbidden _ \<Rightarrow> True | _ \<Rightarrow> False))"

text \<open>\<open>errors.Is(err, target)\<close> for a sentinel target.\<close>

definition errors_Is :: "goerr option \<Rightarrow> goerr \<Rightarrow> bool" where
  "errors_Is e t = (case e of None \<Rightarrow> False | Some x \<Rightarrow> unwrap x = t)"

subsection \<open>Facts\<close>

lemma map_filter_id_Some [simp]: "List.map_filter id (map Some xs) = xs"
  by (induction xs) (auto simp: List.map_filter_simps)

lemma NewErrors_None_iff: "NewErrors es = None \<longleftrightarrow> set es \<subseteq> {None}"
  by (induction es)
    (auto simp: NewErrors_def List.map_filter_simps Let_def split: option.splits if_splits)

lemma NewErrors_Nil [simp]: "NewErrors [] = None"
  by (simp add: NewErrors_def List.map_filter_simps)

lemma NewErrors_map_Some_None [simp]: "NewErrors (map Some es) = None \<longleftrightarrow> es = []"
  by (simp add: NewErrors_def Let_def)

lemma NewErrors_single [simp]: "NewErrors [e] = e"
  by (cases e) (simp_all add: NewErrors_def List.map_filter_simps Let_def)

lemma IsAlreadyExists_None [simp]: "\<not> IsAlreadyExists None"
  by (simp add: IsAlreadyExists_def)

lemma errors_buf_nonempty: "\<forall>m \<in> set ms. m \<noteq> [] \<Longrightarrow> buf \<noteq> [] \<Longrightarrow>
    errors_buf buf ms = buf @ concat (map (\<lambda>m. '', '' @ m) ms)"
  by (induction ms arbitrary: buf) auto

text \<open>The number of messages behind an error is the number of errors collected.\<close>

fun err_count :: "goerr option \<Rightarrow> nat" where
  "err_count None = 0"
| "err_count (Some (Multi es)) = length es"
| "err_count (Some _) = 1"

lemma Join_concat: "m @ concat (map (\<lambda>m. sep @ m) ms) = Join (m # ms) sep"
proof (induction ms arbitrary: m)
  case (Cons a ms)
  show ?case by (simp add: Cons.IH[symmetric])
qed simp

lemma errors_buf_Join:
  "\<forall>m \<in> set ms. m \<noteq> [] \<Longrightarrow> errors_buf [] ms = Join ms '', ''"
proof (induction ms)
  case (Cons m ms)
  then have "errors_buf [] (m # ms) = m @ concat (map (\<lambda>m. '', '' @ m) ms)"
    by (simp add: errors_buf_nonempty)
  also have "\<dots> = Join (m # ms) '', ''"
    by (rule Join_concat)
  finally show ?case .
qed simp

end
