(* ===== verification/Condition.thy ===== *)
theory Condition
  imports Go_Error
begin

section \<open>Status conditions: pkg/condition, pkg/genericcondition, pkg/kstatus\<close>

text \<open>
  \<open>pkg/condition/condition.go\<close> reads and writes a condition of an object by reflection: the
  slice is the field \<open>Status.Conditions\<close> or else the field \<open>Conditions\<close>, its elements have the
  fields of \<open>GenericCondition\<close>. An object is a \<open>condobj\<close>: the two fields, absent when the struct
  has none, and whether the caller passed a pointer. A setter returns the changed object, and
  \<open>None\<close> where the code stops the program: \<open>logrus.Fatalf\<close> when no conditions field exists, a
  panic when the value is not a pointer (or not addressable when a condition has to be
  appended). The clock is a parameter of each write that may touch \<open>LastUpdateTime\<close>.
\<close>

record cond =
  c_type :: string
  c_status :: string
  c_lastUpdateTime :: string
  c_lastTransitionTime :: string
  c_reason :: string
  c_message :: string

record condobj =
  co_pointer :: bool
  co_statusConditions :: "cond list option"
  co_conditions :: "cond list option"

subsection \<open>Finding the condition\<close>

definition condSlice :: "condobj \<Rightarrow> cond list option" where
  "condSlice obj = (case co_statusConditions obj of Some cs \<Rightarrow> Some cs | None \<Rightarrow> co_conditions obj)"

definition set_condSlice :: "condobj \<Rightarrow> cond list \<Rightarrow> condobj" where
  "set_condSlice obj cs =
     (case co_statusConditions obj of
        Some _ \<Rightarrow> obj\<lparr>co_statusConditions := Some cs\<rparr>
      | None \<Rightarrow> obj\<lparr>co_conditions := Some cs\<rparr>)"

fun findCond_from :: "nat \<Rightarrow> cond list \<Rightarrow> string \<Rightarrow> nat option" where
  "findCond_from i [] name = None"
| "findCond_from i (c # cs) name =
     (if c_type c = name then Some i else findCond_from (Suc i) cs name)"

definition findCond :: "cond list \<Rightarrow> string \<Rightarrow> nat option" where
  "findCond cs name = findCond_from 0 cs name"

definition findOrNotCreateCond :: "condobj \<Rightarrow> string \<Rightarrow> cond option option" where
  "findOrNotCreateCond obj name =
     (case condSlice obj of
        None \<Rightarrow> None
      | Some cs \<Rightarrow> Some (map_option (\<lambda>i. cs ! i) (findCond cs name)))"

definition newCond :: "string \<Rightarrow> cond" where
  "newCond name = \<lparr>c_type = name, c_status = ''Unknown'', c_lastUpdateTime = '''',
     c_lastTransitionTime = '''', c_reason = '''', c_message = ''''\<rparr>"

definition findOrCreateCond :: "condobj \<Rightarrow> string \<Rightarrow> (condobj \<times> nat) option" where
  "findOrCreateCond obj name =
     (case condSlice obj of
        None \<Rightarrow> None
      | Some cs \<Rightarrow>
          (case findCond cs name of
             Some i \<Rightarrow> Some (obj, i)
           | None \<Rightarrow>
               if \<not> co_pointer obj then None
               else
                 let cs' = cs @ [newCond name] in
                 (case findCond cs' name of
                    Some i \<Rightarrow> Some (set_condSlice obj cs', i)
                  | None \<Rightarrow> None)))"

text \<open>Writing a field of the condition that \<open>findOrCreateCond\<close> returns.\<close>

definition upd_cond :: "condobj \<Rightarrow> string \<Rightarrow> (cond \<Rightarrow> cond) \<Rightarrow> condobj option" where
  "upd_cond obj name f =
     (case findOrCreateCond obj name of
        None \<Rightarrow> None
      | Some (obj', i) \<Rightarrow>
          (case condSlice obj' of
             None \<Rightarrow> None
           | Some cs \<Rightarrow> Some (set_condSlice obj' (cs[i := f (cs ! i)]))))"

definition touchTS :: "string \<Rightarrow> cond \<Rightarrow> cond" where
  "touchTS now c = c\<lparr>c_lastUpdateTime := now\<rparr>"

definition setValue_Status :: "string \<Rightarrow> string \<Rightarrow> cond \<Rightarrow> cond" where
  "setValue_Status now v c = (if c_status c \<noteq> v then touchTS now (c\<lparr>c_status := v\<rparr>) else c)"

definition setValue_Message :: "string \<Rightarrow> string \<Rightarrow> cond \<Rightarrow> cond" where
  "setValue_Message now v c = (if c_message c \<noteq> v then touchTS now (c\<lparr>c_message := v\<rparr>) else c)"

definition setStatus :: "string \<Rightarrow> condobj \<Rightarrow> string \<Rightarrow> string \<Rightarrow> condobj option" where
  "setStatus now obj condName status =
     (if \<not> co_pointer obj then None else upd_cond obj condName (setValue_Status now status))"

definition getStatus :: "condobj \<Rightarrow> string \<Rightarrow> string option" where
  "getStatus obj condName =
     map_option (\<lambda>c. case c of None \<Rightarrow> '''' | Some c \<Rightarrow> c_status c) (findOrNotCreateCond obj condName)"

definition setTS :: "condobj \<Rightarrow> string \<Rightarrow> string \<Rightarrow> condobj option" where
  "setTS obj condName ts = upd_cond obj condName (\<lambda>c. c\<lparr>c_lastUpdateTime := ts\<rparr>)"

definition getTS :: "condobj \<Rightarrow> string \<Rightarrow> string option" where
  "getTS obj condName =
     map_option (\<lambda>c. case c of None \<Rightarrow> '''' | Some c \<Rightarrow> c_lastUpdateTime c)
       (findOrNotCreateCond obj condName)"

subsection \<open>The methods of Cond\<close>

definition Cond_True :: "string \<Rightarrow> string \<Rightarrow> condobj \<Rightarrow> condobj option" where
  "Cond_True now c obj = setStatus now obj c ''True''"

definition Cond_False :: "string \<Rightarrow> string \<Rightarrow> condobj \<Rightarrow> condobj option" where
  "Cond_False now c obj = setStatus now obj c ''False''"

definition Cond_Unknown :: "string \<Rightarrow> string \<Rightarrow> condobj \<Rightarrow> condobj option" where
  "Cond_Unknown now c obj = setStatus now obj c ''Unknown''"

definition Cond_SetStatusBool :: "string \<Rightarrow> string \<Rightarrow> condobj \<Rightarrow> bool \<Rightarrow> condobj option" where
  "Cond_SetStatusBool now c obj v =
     (if v then setStatus now obj c ''True'' else setStatus now obj c ''False'')"

definition Cond_IsTrue :: "string \<Rightarrow> condobj \<Rightarrow> bool option" where
  "Cond_IsTrue c obj = map_option (\<lambda>s. s = ''True'') (getStatus obj c)"

definition Cond_IsFalse :: "string \<Rightarrow> condobj \<Rightarrow> bool option" where
  "Cond_IsFalse c obj = map_option (\<lambda>s. s = ''False'') (getStatus obj c)"

definition Cond_IsUnknown :: "string \<Rightarrow> condobj \<Rightarrow> bool option" where
  "Cond_IsUnknown c obj = map_option (\<lambda>s. s = ''Unknown'') (getStatus obj c)"

definition Cond_CreateUnknownIfNotExists :: "string \<Rightarrow> string \<Rightarrow> condobj \<Rightarrow> condobj option" where
  "Cond_CreateUnknownIfNotExists now c obj =
     (case condSlice obj of
        None \<Rightarrow> None
      | Some cs \<Rightarrow> if findCond cs c = None then Cond_Unknown now c obj else Some obj)"

definition Cond_Reason :: "string \<Rightarrow> condobj \<Rightarrow> string \<Rightarrow> condobj option" where
  "Cond_Reason c obj reason = upd_cond obj c (\<lambda>cd. cd\<lparr>c_reason := reason\<rparr>)"

definition Cond_GetReason :: "string \<Rightarrow> condobj \<Rightarrow> string option" where
  "Cond_GetReason c obj =
     map_option (\<lambda>cd. case cd of None \<Rightarrow> '''' | Some cd \<Rightarrow> c_reason cd) (findOrNotCreateCond obj c)"

definition Cond_Message :: "string \<Rightarrow> string \<Rightarrow> condobj \<Rightarrow> string \<Rightarrow> condobj option" where
  "Cond_Message now c obj message = upd_cond obj c (setValue_Message now message)"

definition Cond_GetMessage :: "string \<Rightarrow> condobj \<Rightarrow> string option" where
  "Cond_GetMessage c obj =
     map_option (\<lambda>cd. case cd of None \<Rightarrow> '''' | Some cd \<Rightarrow> c_message cd) (findOrNotCreateCond obj c)"

definition Cond_SetMessageIfBlank :: "string \<Rightarrow> string \<Rightarrow> condobj \<Rightarrow> string \<Rightarrow> condobj option" where
  "Cond_SetMessageIfBlank now c obj message =
     (case Cond_GetMessage c obj of
        None \<Rightarrow> None
      | Some m \<Rightarrow> if m = '''' then Cond_Message now c obj message else Some obj)"

text \<open>\<open>err == generic.ErrSkip\<close> compares the interface values: a wrapped \<open>ErrSkip\<close> is another error.\<close>

definition Cond_SetError ::
    "string \<Rightarrow> string \<Rightarrow> string \<Rightarrow> condobj \<Rightarrow> string \<Rightarrow> goerr option \<Rightarrow> condobj option" where
  "Cond_SetError now1 now2 c obj reason err =
     (case err of
        None \<Rightarrow> Option.bind (Cond_True now1 c obj) (\<lambda>o1.
          Option.bind (Cond_Message now2 c o1 '''') (\<lambda>o2. Cond_Reason c o2 reason))
      | Some e \<Rightarrow>
          if e = ErrSkip then
            Option.bind (Cond_True now1 c obj) (\<lambda>o1.
              Option.bind (Cond_Message now2 c o1 '''') (\<lambda>o2. Cond_Reason c o2 reason))
          else
            let reason = (if reason = '''' then ''Error'' else reason) in
            Option.bind (Cond_False now1 c obj) (\<lambda>o1.
              Option.bind (Cond_Message now2 c o1 (err_text e)) (\<lambda>o2. Cond_Reason c o2 reason)))"

definition Cond_MatchesError :: "string \<Rightarrow> condobj \<Rightarrow> string \<Rightarrow> goerr option \<Rightarrow> bool option" where
  "Cond_MatchesError c obj reason err =
     (case err of
        None \<Rightarrow> Option.bind (Cond_IsTrue c obj) (\<lambda>t. Option.bind (Cond_GetMessage c obj) (\<lambda>m.
          Option.bind (Cond_GetReason c obj) (\<lambda>r. Some (t \<and> m = '''' \<and> r = reason))))
      | Some e \<Rightarrow>
          let reason = (if reason = '''' then ''Error'' else reason) in
          Option.bind (Cond_IsFalse c obj) (\<lambda>f. Option.bind (Cond_GetMessage c obj) (\<lambda>m.
            Option.bind (Cond_GetReason c obj) (\<lambda>r. Some (f \<and> m = err_text e \<and> r = reason)))))"

subsection \<open>kstatus\<close>

definition kstatus_SetError :: "(nat \<Rightarrow> string) \<Rightarrow> condobj \<Rightarrow> string \<Rightarrow> condobj option" where
  "kstatus_SetError now obj message =
     Option.bind (Cond_False (now 0) ''Reconciling'' obj) (\<lambda>o1.
     Option.bind (Cond_Message (now 1) ''Reconciling'' o1 '''') (\<lambda>o2.
     Option.bind (Cond_Reason ''Reconciling'' o2 '''') (\<lambda>o3.
     Option.bind (Cond_True (now 2) ''Stalled'' o3) (\<lambda>o4.
     Option.bind (Cond_Reason ''Stalled'' o4 ''Stalled'') (\<lambda>o5.
     Cond_Message (now 3) ''Stalled'' o5 message)))))"

definition kstatus_SetTransitioning :: "(nat \<Rightarrow> string) \<Rightarrow> condobj \<Rightarrow> string \<Rightarrow> condobj option" where
  "kstatus_SetTransitioning now obj message =
     Option.bind (Cond_True (now 0) ''Reconciling'' obj) (\<lambda>o1.
     Option.bind (Cond_Message (now 1) ''Reconciling'' o1 message) (\<lambda>o2.
     Option.bind (Cond_Reason ''Reconciling'' o2 ''Reconciling'') (\<lambda>o3.
     Option.bind (Cond_False (now 2) ''Stalled'' o3) (\<lambda>o4.
     Option.bind (Cond_Reason ''Stalled'' o4 '''') (\<lambda>o5.
     Cond_Message (now 3) ''Stalled'' o5 '''')))))"

definition kstatus_SetActive :: "(nat \<Rightarrow> string) \<Rightarrow> condobj \<Rightarrow> condobj option" where
  "kstatus_SetActive now obj =
     Option.bind (Cond_False (now 0) ''Reconciling'' obj) (\<lambda>o1.
     Option.bind (Cond_Message (now 1) ''Reconciling'' o1 '''') (\<lambda>o2.
     Option.bind (Cond_Reason ''Reconciling'' o2 '''') (\<lambda>o3.
     Option.bind (Cond_False (now 2) ''Stalled'' o3) (\<lambda>o4.
     Option.bind (Cond_Reason ''Stalled'' o4 '''') (\<lambda>o5.
     Cond_Message (now 3) ''Stalled'' o5 '''')))))"

subsection \<open>The view of an object: its condition of a type\<close>

definition cond_view :: "condobj \<Rightarrow> string \<Rightarrow> cond option" where
  "cond_view obj name =
     (case condSlice obj of None \<Rightarrow> None | Some cs \<Rightarrow> List.find (\<lambda>c. c_type c = name) cs)"

definition settable :: "condobj \<Rightarrow> bool" where
  "settable obj = (co_pointer obj \<and> condSlice obj \<noteq> None)"

definition cond_types :: "condobj \<Rightarrow> string list" where
  "cond_types obj = (case condSlice obj of None \<Rightarrow> [] | Some cs \<Rightarrow> map c_type cs)"

lemma findCond_from_shift:
  "findCond_from (Suc i) cs name = map_option Suc (findCond_from i cs name)"
  by (induction i cs name rule: findCond_from.induct) auto

lemma findCond_Cons:
  "findCond (c # cs) name = (if c_type c = name then Some 0 else map_option Suc (findCond cs name))"
  by (simp add: findCond_def findCond_from_shift)

lemma findCond_Nil [simp]: "findCond [] name = None"
  by (simp add: findCond_def)

lemma findCond_find: "map_option (\<lambda>i. cs ! i) (findCond cs name) = List.find (\<lambda>c. c_type c = name) cs"
  by (induction cs) (auto simp: findCond_Cons map_option.compositionality comp_def)

lemma findCond_None_iff: "findCond cs name = None \<longleftrightarrow> name \<notin> c_type ` set cs"
  by (induction cs) (auto simp: findCond_Cons)

lemma findCond_append:
  "findCond (cs @ [c]) name =
     (case findCond cs name of
        Some i \<Rightarrow> Some i
      | None \<Rightarrow> if c_type c = name then Some (length cs) else None)"
  by (induction cs) (auto simp: findCond_Cons split: option.splits)

lemma find_update_found:
  "findCond cs name = Some i \<Longrightarrow> c_type (f (cs ! i)) = c_type (cs ! i) \<Longrightarrow>
   List.find (\<lambda>c. c_type c = m) (cs[i := f (cs ! i)])
   = (if m = name then Some (f (cs ! i)) else List.find (\<lambda>c. c_type c = m) cs)"
proof (induction cs arbitrary: i)
  case (Cons c cs)
  then show ?case by (cases i) (auto simp: findCond_Cons split: if_splits)
qed simp

lemma types_update:
  "c_type (f (cs ! i)) = c_type (cs ! i) \<Longrightarrow> map c_type (cs[i := f (cs ! i)]) = map c_type cs"
  by (metis (no_types, lifting) list_update_id map_update)

lemma condSlice_set [simp]: "condSlice obj \<noteq> None \<Longrightarrow> condSlice (set_condSlice obj cs) = Some cs"
  by (auto simp: condSlice_def set_condSlice_def split: option.splits)

lemma co_pointer_set [simp]: "co_pointer (set_condSlice obj cs) = co_pointer obj"
  by (auto simp: set_condSlice_def split: option.splits)

lemma set_condSlice_same: "condSlice obj = Some cs \<Longrightarrow> set_condSlice obj cs = obj"
  by (auto simp: condSlice_def set_condSlice_def split: option.splits)

lemma set_condSlice_twice [simp]:
  "condSlice obj \<noteq> None \<Longrightarrow> set_condSlice (set_condSlice obj cs) cs' = set_condSlice obj cs'"
  by (auto simp: condSlice_def set_condSlice_def split: option.splits)

lemma find_append_other: "c_type x \<noteq> m \<Longrightarrow>
    List.find (\<lambda>c. c_type c = m) (cs @ [x]) = List.find (\<lambda>c. c_type c = m) cs"
  by (induction cs) auto

lemma find_None_type: "List.find (\<lambda>c. c_type c = m) cs = None \<longleftrightarrow> m \<notin> c_type ` set cs"
  by (auto simp: find_None_iff)

lemma c_type_newCond [simp]: "c_type (newCond n) = n"
  by (simp add: newCond_def)

lemma upd_cond_spec:
  assumes "settable obj" and f: "\<And>c. c_type (f c) = c_type c"
  shows "\<exists>o'. upd_cond obj n f = Some o' \<and> settable o'
    \<and> cond_view o' n = Some (f (case cond_view obj n of None \<Rightarrow> newCond n | Some c \<Rightarrow> c))
    \<and> (\<forall>m. m \<noteq> n \<longrightarrow> cond_view o' m = cond_view obj m)
    \<and> cond_types o' = (if n \<in> set (cond_types obj) then cond_types obj else cond_types obj @ [n])"
proof -
  from assms obtain cs where cs: "condSlice obj = Some cs" and p: "co_pointer obj"
    by (auto simp: settable_def)
  show ?thesis
  proof (cases "findCond cs n")
    case (Some i)
    then have ni: "n \<in> c_type ` set cs" using findCond_None_iff[of cs n] by auto
    have "List.find (\<lambda>c. c_type c = n) cs = Some (cs ! i)"
      using findCond_find[of cs n] Some by simp
    then show ?thesis
      using Some cs p ni find_update_found[OF Some, of f] types_update[of f cs i] f
      by (auto simp: upd_cond_def findOrCreateCond_def settable_def cond_view_def cond_types_def)
  next
    case None
    then have ni: "n \<notin> c_type ` set cs" using findCond_None_iff[of cs n] by auto
    let ?cs = "cs @ [newCond n]"
    have fi: "findCond ?cs n = Some (length cs)" by (simp add: findCond_append None)
    have up: "upd_cond obj n f = Some (set_condSlice obj (?cs[length cs := f (?cs ! length cs)]))"
      using cs p None fi by (simp add: upd_cond_def findOrCreateCond_def)
    have m: "List.find (\<lambda>c. c_type c = m) ?cs = List.find (\<lambda>c. c_type c = m) cs" if "m \<noteq> n" for m
      using that by (intro find_append_other) simp
    show ?thesis
      using up cs p ni find_update_found[OF fi, of f] m f types_update[of f ?cs "length cs"]
      by (auto simp: settable_def cond_view_def cond_types_def find_None_type[THEN iffD2])
  qed
qed

lemma upd_cond_id:
  assumes "settable obj" "cond_view obj n = Some c" "f c = c"
  shows "upd_cond obj n f = Some obj"
proof -
  from assms obtain cs where cs: "condSlice obj = Some cs" by (auto simp: settable_def)
  with assms have "map_option (\<lambda>i. cs ! i) (findCond cs n) = Some c"
    by (simp add: cond_view_def findCond_find)
  then obtain i where i: "findCond cs n = Some i" "cs ! i = c" by auto
  then have "cs[i := c] = cs" by (metis list_update_id)
  with i cs assms show ?thesis
    by (simp add: upd_cond_def findOrCreateCond_def set_condSlice_same)
qed

subsection \<open>The contract of a condition store\<close>

text \<open>What the setters rely on: a store holds at most one record per name; updating one name
  succeeds, applies the function to the record (a fresh one if there was none), and is seen at
  that name only. An update that changes nothing leaves the store as it is.\<close>

locale condition_store =
  fixes view :: "'o \<Rightarrow> string \<Rightarrow> 'c option" and upd :: "'o \<Rightarrow> string \<Rightarrow> ('c \<Rightarrow> 'c) \<Rightarrow> 'o option"
    and ok :: "'o \<Rightarrow> bool" and fresh :: "string \<Rightarrow> 'c" and keeps :: "('c \<Rightarrow> 'c) \<Rightarrow> bool"
  assumes upd: "ok s \<Longrightarrow> keeps f \<Longrightarrow>
      \<exists>s'. upd s n f = Some s' \<and> ok s'
        \<and> view s' n = Some (f (case view s n of None \<Rightarrow> fresh n | Some c \<Rightarrow> c))
        \<and> (\<forall>m. m \<noteq> n \<longrightarrow> view s' m = view s m)"
    and upd_id: "ok s \<Longrightarrow> view s n = Some c \<Longrightarrow> f c = c \<Longrightarrow> upd s n f = Some s"
begin

definition cur :: "'o \<Rightarrow> string \<Rightarrow> 'c" where
  "cur s n = (case view s n of None \<Rightarrow> fresh n | Some c \<Rightarrow> c)"

definition run :: "(string \<times> ('c \<Rightarrow> 'c)) list \<Rightarrow> 'o \<Rightarrow> 'o option" where
  "run us s = fold (\<lambda>(n, f) r. Option.bind r (\<lambda>s. upd s n f)) us (Some s)"

lemma run_simps [simp]:
  "run [] s = Some s"
  "run ((n, f) # us) s = (case upd s n f of None \<Rightarrow> None | Some s' \<Rightarrow> run us s')"
proof -
  have "fold (\<lambda>(n, f) r. Option.bind r (\<lambda>s. upd s n f)) us None = None" for us
    by (induction us) auto
  then show "run ((n, f) # us) s = (case upd s n f of None \<Rightarrow> None | Some s' \<Rightarrow> run us s')"
    by (simp add: run_def split: option.splits)
qed (simp add: run_def)

lemma run_spec:
  assumes "ok s" "\<forall>(n, f) \<in> set us. keeps f"
  shows "\<exists>s'. run us s = Some s' \<and> ok s'
    \<and> (\<forall>n \<in> fst ` set us. view s' n = Some (fold (\<lambda>(m, f) c. if m = n then f c else c) us (cur s n)))
    \<and> (\<forall>n. n \<notin> fst ` set us \<longrightarrow> view s' n = view s n)"
  using assms
proof (induction us arbitrary: s)
  case (Cons u us)
  obtain n f where u: "u = (n, f)" by (cases u)
  with Cons.prems upd[of s f n] obtain s1 where s1: "upd s n f = Some s1" "ok s1"
    "view s1 n = Some (f (cur s n))" "\<forall>m. m \<noteq> n \<longrightarrow> view s1 m = view s m"
    by (auto simp: cur_def)
  with Cons.IH[OF s1(2)] Cons.prems u obtain s' where s': "run us s1 = Some s'" "ok s'"
    "\<forall>n \<in> fst ` set us. view s' n = Some (fold (\<lambda>(m, f) c. if m = n then f c else c) us (cur s1 n))"
    "\<forall>n. n \<notin> fst ` set us \<longrightarrow> view s' n = view s1 n"
    by auto
  have c1: "cur s1 m = (if m = n then f (cur s n) else cur s m)" for m
    using s1 by (auto simp: cur_def)
  have none: "fold (\<lambda>(m, f) c. if m = n then f c else c) us c = c" if "n \<notin> fst ` set us" for c
    using that by (induction us) auto
  have "view s' m = Some (fold (\<lambda>(m', f) c. if m' = m then f c else c) (u # us) (cur s m))"
    if "m \<in> fst ` set (u # us)" for m
    using that s' s1 c1 u none by (cases "m \<in> fst ` set us") auto
  with s' s1 u show ?case by auto
qed simp

lemma run_id:
  assumes "ok s" "\<forall>(n, f) \<in> set us. \<exists>c. view s n = Some c \<and> f c = c"
  shows "run us s = Some s"
  using assms(2) by (induction us) (auto simp: upd_id[OF assms(1)])

end

definition keeps_type :: "(cond \<Rightarrow> cond) \<Rightarrow> bool" where
  "keeps_type f = (\<forall>c. c_type (f c) = c_type c)"

interpretation cs: condition_store cond_view upd_cond settable newCond keeps_type
proof
  show "\<exists>s'. upd_cond s n f = Some s' \<and> settable s'
      \<and> cond_view s' n = Some (f (case cond_view s n of None \<Rightarrow> newCond n | Some c \<Rightarrow> c))
      \<and> (\<forall>m. m \<noteq> n \<longrightarrow> cond_view s' m = cond_view s m)"
    if "settable s" "keeps_type f" for s n f
    using upd_cond_spec[OF that(1), of f n] that(2) by (auto simp: keeps_type_def)
qed (rule upd_cond_id)

text \<open>Every setter is a run of updates.\<close>

lemma keeps_type_setters [simp]:
  "keeps_type (setValue_Status now v)" "keeps_type (setValue_Message now v)"
  "keeps_type (\<lambda>cd. cd\<lparr>c_reason := r\<rparr>)" "keeps_type (\<lambda>cd. cd\<lparr>c_lastUpdateTime := r\<rparr>)"
  by (simp_all add: keeps_type_def setValue_Status_def setValue_Message_def touchTS_def)

lemma bind_run: "Option.bind (upd_cond obj n f) (cs.run us) = cs.run ((n, f) # us) obj"
  by (simp split: option.splits Option.bind_split)

lemma upd_run: "upd_cond obj n f = cs.run [(n, f)] obj"
  by (simp split: option.splits)

lemma settable_pointer: "settable obj \<Longrightarrow> co_pointer obj"
  by (simp add: settable_def)

lemma upd_cond_pointer: "upd_cond obj n f = Some o' \<Longrightarrow> co_pointer o' = co_pointer obj"
  by (auto simp: upd_cond_def findOrCreateCond_def Let_def split: option.splits if_splits)

lemma status_message_reason_run:
  assumes "co_pointer obj"
  shows "Option.bind (setStatus n1 obj c st) (\<lambda>o1.
      Option.bind (Cond_Message n2 c o1 m) (\<lambda>o2. Cond_Reason c o2 r))
    = cs.run [(c, setValue_Status n1 st), (c, setValue_Message n2 m), (c, \<lambda>cd. cd\<lparr>c_reason := r\<rparr>)] obj"
  using assms
  by (simp add: setStatus_def Cond_Message_def Cond_Reason_def split: option.splits Option.bind_split)

lemma settable_view: "settable obj \<Longrightarrow> findOrNotCreateCond obj n = Some (cond_view obj n)"
  by (auto simp: settable_def findOrNotCreateCond_def cond_view_def findCond_find)

lemma run_types:
  assumes "settable s" "\<forall>(n, f) \<in> set us. keeps_type f" "distinct (cond_types s)" "cs.run us s = Some s'"
  shows "distinct (cond_types s') \<and> set (cond_types s') = set (cond_types s) \<union> fst ` set us"
  using assms
proof (induction us arbitrary: s)
  case (Cons u us)
  obtain n f where u: "u = (n, f)" by (cases u)
  with Cons.prems have "\<And>c. c_type (f c) = c_type c" by (auto simp: keeps_type_def)
  from upd_cond_spec[OF Cons.prems(1), of f n, OF this] obtain s1 where s1: "upd_cond s n f = Some s1"
    "settable s1" "cond_types s1 = (if n \<in> set (cond_types s) then cond_types s else cond_types s @ [n])"
    by blast
  moreover from this Cons.prems have "distinct (cond_types s1)" by simp
  ultimately show ?case using Cons.IH[of s1] Cons.prems u by auto
qed simp

lemma SetError_run:
  assumes "co_pointer obj"
  shows "Cond_SetError n1 n2 c obj reason err =
    (let skip = (err = None \<or> err = Some ErrSkip) in
     cs.run [(c, setValue_Status n1 (if skip then ''True'' else ''False'')),
       (c, setValue_Message n2 (if skip then '''' else err_text (the err))),
       (c, \<lambda>cd. cd\<lparr>c_reason := (if skip \<or> reason \<noteq> '''' then reason else ''Error'')\<rparr>)] obj)"
  by (cases err)
    (simp_all add: Cond_SetError_def Cond_True_def Cond_False_def Let_def
      status_message_reason_run[OF assms] del: cs.run_simps)

text \<open>Recording an error on a condition does what MatchesError checks: on an object with
  a conditions field, SetError succeeds, and afterwards MatchesError answers yes for the same
  reason and error, with the single exception of ErrSkip, which SetError records as success but
  MatchesError compares as an error. The other conditions are untouched, and no
  condition type ever occurs twice.\<close>

theorem SetError_then_MatchesError:
  assumes "settable obj" "distinct (cond_types obj)"
  shows "\<exists>obj'. Cond_SetError n1 n2 c obj reason err = Some obj'
    \<and> Cond_MatchesError c obj' reason err = Some (err \<noteq> Some ErrSkip)
    \<and> (\<forall>m. m \<noteq> c \<longrightarrow> cond_view obj' m = cond_view obj m)
    \<and> distinct (cond_types obj') \<and> set (cond_types obj') = insert c (set (cond_types obj))"
proof -
  define skip where "skip = (err = None \<or> err = Some ErrSkip)"
  define us where "us = [(c, setValue_Status n1 (if skip then ''True'' else ''False'')),
       (c, setValue_Message n2 (if skip then '''' else err_text (the err))),
       (c, \<lambda>cd. cd\<lparr>c_reason := (if skip \<or> reason \<noteq> '''' then reason else ''Error'')\<rparr>)]"
  have k: "\<forall>(n, f) \<in> set us. keeps_type f" by (auto simp: us_def)
  have run: "Cond_SetError n1 n2 c obj reason err = cs.run us obj"
    by (simp only: us_def skip_def SetError_run[OF settable_pointer[OF assms(1)]] Let_def)
  from cs.run_spec[OF assms(1) k] obtain o' where o': "cs.run us obj = Some o'" "settable o'"
    "\<forall>n \<in> fst ` set us. cond_view o' n
       = Some (fold (\<lambda>(m, f) c. if m = n then f c else c) us (cs.cur obj n))"
    "\<forall>n. n \<notin> fst ` set us \<longrightarrow> cond_view o' n = cond_view obj n"
    by blast
  then have v: "findOrNotCreateCond o' c = Some (Some
      (fold (\<lambda>(m, f) c'. if m = c then f c' else c') us (cs.cur obj c)))"
    by (simp add: settable_view us_def)
  have "Cond_MatchesError c o' reason err = Some (err \<noteq> Some ErrSkip)"
    by (cases err)
      (auto simp: Cond_MatchesError_def Cond_IsTrue_def Cond_IsFalse_def getStatus_def v us_def
        Cond_GetMessage_def Cond_GetReason_def setValue_Status_def setValue_Message_def touchTS_def
        skip_def Let_def)
  with o' run run_types[OF assms(1) k assms(2) o'(1)] show ?thesis by (auto simp: us_def)
qed

theorem SetError_then_MatchesError_witness:
  "\<exists>obj'. Cond_SetError ''t1'' ''t2'' ''Ready''
       \<lparr>co_pointer = True, co_statusConditions = Some [newCond ''Synced''], co_conditions = None\<rparr>
       '''' (Some (Err ''boom'')) = Some obj'
     \<and> Cond_MatchesError ''Ready'' obj' '''' (Some (Err ''boom'')) = Some True"
  using SetError_then_MatchesError[of "\<lparr>co_pointer = True,
      co_statusConditions = Some [newCond ''Synced''], co_conditions = None\<rparr>" "''t1''" "''t2''"
      "''Ready''" "''''" "Some (Err ''boom'')"]
  by (auto simp: settable_def condSlice_def cond_types_def)

text \<open>Recording an error that the condition already shows is a no-op: when MatchesError
  says that an object matches (for an error other than ErrSkip), SetError returns
  the very same object; in particular the last update time is not touched, so a controller that
  reports the same error again and again causes no update.\<close>

theorem SetError_matching_unchanged:
  assumes "settable obj" "err \<noteq> Some ErrSkip" "Cond_MatchesError c obj reason err = Some True"
  shows "Cond_SetError n1 n2 c obj reason err = Some obj"
proof -
  have v: "findOrNotCreateCond obj c = Some (cond_view obj c)" by (rule settable_view[OF assms(1)])
  obtain cd where cd: "cond_view obj c = Some cd"
    using assms(3)
    by (cases err; cases "cond_view obj c")
      (auto simp: Cond_MatchesError_def Cond_IsTrue_def Cond_IsFalse_def getStatus_def v Let_def
        split: Option.bind_splits)
  show ?thesis
    unfolding SetError_run[OF settable_pointer[OF assms(1)]] Let_def
    by (rule cs.run_id[OF assms(1)])
      (use assms(2,3) in \<open>auto simp: cd v Cond_MatchesError_def Cond_IsTrue_def Cond_IsFalse_def
        getStatus_def Cond_GetMessage_def Cond_GetReason_def Let_def setValue_Status_def
        setValue_Message_def split: option.splits if_splits\<close>)
qed

theorem SetError_matching_unchanged_witness:
  "Cond_SetError ''t1'' ''t2'' ''Ready''
     \<lparr>co_pointer = True, co_statusConditions = None, co_conditions = Some [(newCond ''Ready'')
        \<lparr>c_status := ''True'', c_reason := ''ok''\<rparr>]\<rparr> ''ok'' None
   = Some \<lparr>co_pointer = True, co_statusConditions = None, co_conditions = Some [(newCond ''Ready'')
        \<lparr>c_status := ''True'', c_reason := ''ok''\<rparr>]\<rparr>"
  by (rule SetError_matching_unchanged)
    (auto simp: settable_def condSlice_def Cond_MatchesError_def Cond_IsTrue_def getStatus_def
      Cond_GetMessage_def Cond_GetReason_def findOrNotCreateCond_def findCond_def newCond_def)

lemma kstatus_run:
  assumes "settable obj"
  shows "kstatus_SetError now obj m = cs.run
      [(''Reconciling'', setValue_Status (now 0) ''False''), (''Reconciling'', setValue_Message (now 1) ''''),
       (''Reconciling'', \<lambda>cd. cd\<lparr>c_reason := ''''\<rparr>), (''Stalled'', setValue_Status (now 2) ''True''),
       (''Stalled'', \<lambda>cd. cd\<lparr>c_reason := ''Stalled''\<rparr>), (''Stalled'', setValue_Message (now 3) m)] obj"
    "kstatus_SetTransitioning now obj m = cs.run
      [(''Reconciling'', setValue_Status (now 0) ''True''), (''Reconciling'', setValue_Message (now 1) m),
       (''Reconciling'', \<lambda>cd. cd\<lparr>c_reason := ''Reconciling''\<rparr>), (''Stalled'', setValue_Status (now 2) ''False''),
       (''Stalled'', \<lambda>cd. cd\<lparr>c_reason := ''''\<rparr>), (''Stalled'', setValue_Message (now 3) '''')] obj"
    "kstatus_SetActive now obj = cs.run
      [(''Reconciling'', setValue_Status (now 0) ''False''), (''Reconciling'', setValue_Message (now 1) ''''),
       (''Reconciling'', \<lambda>cd. cd\<lparr>c_reason := ''''\<rparr>), (''Stalled'', setValue_Status (now 2) ''False''),
       (''Stalled'', \<lambda>cd. cd\<lparr>c_reason := ''''\<rparr>), (''Stalled'', setValue_Message (now 3) '''')] obj"
  using settable_pointer[OF assms]
  by (auto simp: kstatus_SetError_def kstatus_SetTransitioning_def kstatus_SetActive_def
      Cond_True_def Cond_False_def setStatus_def Cond_Message_def Cond_Reason_def
      split: option.splits Option.bind_split dest!: upd_cond_pointer)

definition cond_is :: "condobj \<Rightarrow> string \<Rightarrow> string \<times> string \<times> string \<Rightarrow> bool" where
  "cond_is obj n smr = (case cond_view obj n of None \<Rightarrow> False
     | Some c \<Rightarrow> (c_status c, c_message c, c_reason c) = smr)"

text \<open>The three kstatus calls put an object in exactly one of the three states a kstatus
  client knows: an error (stalled, with the message), a transition (reconciling, with the
  message) or active (neither), whatever the two conditions said before; every
  other condition stays as it was.\<close>

theorem kstatus_states:
  assumes "settable obj"
  shows "(\<exists>o1. kstatus_SetError now obj m = Some o1
      \<and> cond_is o1 ''Reconciling'' (''False'', '''', '''') \<and> cond_is o1 ''Stalled'' (''True'', m, ''Stalled'')
      \<and> (\<forall>n. n \<noteq> ''Reconciling'' \<and> n \<noteq> ''Stalled'' \<longrightarrow> cond_view o1 n = cond_view obj n))
    \<and> (\<exists>o2. kstatus_SetTransitioning now obj m = Some o2
      \<and> cond_is o2 ''Reconciling'' (''True'', m, ''Reconciling'') \<and> cond_is o2 ''Stalled'' (''False'', '''', '''')
      \<and> (\<forall>n. n \<noteq> ''Reconciling'' \<and> n \<noteq> ''Stalled'' \<longrightarrow> cond_view o2 n = cond_view obj n))
    \<and> (\<exists>o3. kstatus_SetActive now obj = Some o3
      \<and> cond_is o3 ''Reconciling'' (''False'', '''', '''') \<and> cond_is o3 ''Stalled'' (''False'', '''', '''')
      \<and> (\<forall>n. n \<noteq> ''Reconciling'' \<and> n \<noteq> ''Stalled'' \<longrightarrow> cond_view o3 n = cond_view obj n))"
proof -
  have run: "\<exists>o'. cs.run us obj = Some o'
      \<and> cond_is o' ''Reconciling'' r \<and> cond_is o' ''Stalled'' s
      \<and> (\<forall>n. n \<noteq> ''Reconciling'' \<and> n \<noteq> ''Stalled'' \<longrightarrow> cond_view o' n = cond_view obj n)"
    if "\<forall>(n, f) \<in> set us. keeps_type f" "fst ` set us = {''Reconciling'', ''Stalled''}"
      "\<And>c. (\<lambda>c. (c_status c, c_message c, c_reason c))
         (fold (\<lambda>(m, f) c. if m = ''Reconciling'' then f c else c) us c) = r"
      "\<And>c. (\<lambda>c. (c_status c, c_message c, c_reason c))
         (fold (\<lambda>(m, f) c. if m = ''Stalled'' then f c else c) us c) = s"
    for us r s
  proof -
    from cs.run_spec[OF assms that(1)] obtain o' where o': "cs.run us obj = Some o'"
      "\<forall>n \<in> fst ` set us. cond_view o' n
         = Some (fold (\<lambda>(m, f) c. if m = n then f c else c) us (cs.cur obj n))"
      "\<forall>n. n \<notin> fst ` set us \<longrightarrow> cond_view o' n = cond_view obj n"
      by blast
    from o'(2) that(2) have
      "cond_view o' ''Reconciling'' = Some (fold (\<lambda>(m, f) c. if m = ''Reconciling'' then f c else c) us
         (cs.cur obj ''Reconciling''))"
      "cond_view o' ''Stalled'' = Some (fold (\<lambda>(m, f) c. if m = ''Stalled'' then f c else c) us
         (cs.cur obj ''Stalled''))"
      by (simp_all only: insert_iff simp_thms ball_simps)
    then have "cond_is o' ''Reconciling'' r" "cond_is o' ''Stalled'' s"
      using that(3)[of "cs.cur obj ''Reconciling''"] that(4)[of "cs.cur obj ''Stalled''"]
      by (simp_all only: cond_is_def option.case)
    with o'(1,3) that(2) show ?thesis by (intro exI[of _ o']) simp
  qed
  show ?thesis
    unfolding kstatus_run[OF assms]
    by (intro conjI run)
      (auto simp: setValue_Status_def setValue_Message_def touchTS_def)
qed

theorem kstatus_states_witness:
  "\<exists>o1. kstatus_SetError (\<lambda>_. ''t'') \<lparr>co_pointer = True, co_statusConditions = Some [], co_conditions = None\<rparr> ''bad''
       = Some o1 \<and> cond_is o1 ''Stalled'' (''True'', ''bad'', ''Stalled'')"
  using kstatus_states[of "\<lparr>co_pointer = True, co_statusConditions = Some [], co_conditions = None\<rparr>"
      "\<lambda>_. ''t''" "''bad''"]
  by (auto simp: settable_def condSlice_def)

end
