(* ===== verification/Utils.thy ===== *)
theory Utils
  imports Go_Error
begin

section \<open>The small packages: kv, name, slice, stringset, seen\<close>

text \<open>
  \<open>pkg/kv/split.go\<close>, \<open>pkg/name/name.go\<close>, \<open>pkg/slice/contains.go\<close>, \<open>pkg/stringset/stringset.go\<close>
  and \<open>pkg/seen/strings.go\<close>. The digests of \<open>crypto/md5\<close> and \<open>crypto/sha256\<close> are parameters: the code relies only on
  their lengths, 16 and 32 bytes. A slice expression that is out of range panics in Go: the
  functions that may do so return \<open>None\<close> for the panic. The contract that the users of a
  string set rely on is the locale \<open>string_set\<close>.
\<close>

subsection \<open>kv\<close>

definition safeIndex :: "string list \<Rightarrow> nat \<Rightarrow> string" where
  "safeIndex parts idx = (if length parts \<le> idx then '''' else parts ! idx)"

definition kv_RSplit :: "string \<Rightarrow> string \<Rightarrow> string \<times> string" where
  "kv_RSplit s sep =
     (let parts = SplitN2 s sep in
      if length parts = 1 then ('''', TrimSpace (parts ! 0))
      else (TrimSpace (parts ! 0), TrimSpace (safeIndex parts 1)))"

definition kv_Split :: "string \<Rightarrow> string \<Rightarrow> string \<times> string" where
  "kv_Split s sep =
     (let parts = SplitN2 s sep in (TrimSpace (parts ! 0), TrimSpace (safeIndex parts 1)))"

definition kv_SplitLast :: "string \<Rightarrow> string \<Rightarrow> string \<times> string" where
  "kv_SplitLast s sep =
     (case LastIndex s sep of
        Some idx \<Rightarrow> (TrimSpace (take idx s), TrimSpace (drop (idx + 1) s))
      | None \<Rightarrow> (s, ''''))"

definition kv_SplitMapFromSlice :: "string list \<Rightarrow> (string \<times> string) list" where
  "kv_SplitMapFromSlice parts =
     fold (\<lambda>part result. case kv_Split part ''='' of (k, v) \<Rightarrow> AList.update k v result) parts []"

definition kv_SplitMap :: "string \<Rightarrow> string \<Rightarrow> (string \<times> string) list" where
  "kv_SplitMap s sep = kv_SplitMapFromSlice (Split s sep)"

subsection \<open>name\<close>

definition ContainsAny :: "string \<Rightarrow> string \<Rightarrow> bool" where
  "ContainsAny s chars = (\<exists>c \<in> set s. c \<in> set chars)"

definition GuessPluralName :: "string \<Rightarrow> string" where
  "GuessPluralName name =
     (if name = '''' then name
      else if EqualFold name ''Endpoints'' then name
      else if suffix ''s'' name \<or> suffix ''ch'' name \<or> suffix ''x'' name \<or> suffix ''sh'' name
        then name @ ''es''
      else if suffix ''f'' name \<or> suffix ''fe'' name then name @ ''ves''
      else if suffix ''y'' name \<and> length name > 2
          \<and> \<not> ContainsAny (take 1 (drop (length name - 2) name)) ''[aeiou]''
        then take (length name - 1) name @ ''ies''
      else name @ ''s'')"

definition hexDigit :: "nat \<Rightarrow> char" where
  "hexDigit n = ''0123456789abcdef'' ! n"

definition EncodeToString :: "string \<Rightarrow> string" where
  "EncodeToString bs =
     concat (map (\<lambda>b. [hexDigit (of_char b div 16), hexDigit (of_char b mod 16)]) bs)"

text \<open>\<open>slice_to s n\<close> is \<open>s[:n]\<close>, \<open>None\<close> for the panic of an index out of range.\<close>

definition slice_to :: "string \<Rightarrow> int \<Rightarrow> string option" where
  "slice_to s n = (if 0 \<le> n \<and> n \<le> int (length s) then Some (take (nat n) s) else None)"

definition name_Hex :: "(string \<Rightarrow> string) \<Rightarrow> string \<Rightarrow> int \<Rightarrow> string option" where
  "name_Hex md5 s n = slice_to (EncodeToString (md5 s)) n"

definition name_Limit :: "(string \<Rightarrow> string) \<Rightarrow> string \<Rightarrow> int \<Rightarrow> string option" where
  "name_Limit md5 s count =
     (if int (length s) < count then Some s
      else case slice_to s (count - 6) of
        None \<Rightarrow> None
      | Some p \<Rightarrow> (case name_Hex md5 s 5 of
            None \<Rightarrow> None
          | Some h \<Rightarrow> Some (p @ ''-'' @ h)))"

definition SafeConcatName :: "(string \<Rightarrow> string) \<Rightarrow> string list \<Rightarrow> string option" where
  "SafeConcatName sha256 name =
     (let fullPath = Join name ''-'' in
      if length fullPath < 64 then Some fullPath
      else
        let digest = sha256 fullPath; c = fullPath ! 56 in
        if (CHR ''a'' \<le> c \<and> c \<le> CHR ''z'') \<or> (CHR ''0'' \<le> c \<and> c \<le> CHR ''9'')
        then map_option (\<lambda>h. take 57 fullPath @ ''-'' @ h) (slice_to (EncodeToString digest) 5)
        else map_option (\<lambda>h. take 56 fullPath @ ''-'' @ h) (slice_to (EncodeToString digest) 6))"

subsection \<open>slice\<close>

fun ContainsString :: "string list \<Rightarrow> string \<Rightarrow> bool" where
  "ContainsString [] item = False"
| "ContainsString (j # js) item = (if j = item then True else ContainsString js item)"

fun StringsEqual_from :: "string list \<Rightarrow> string list \<Rightarrow> nat \<Rightarrow> nat \<Rightarrow> bool" where
  "StringsEqual_from left right i 0 = True"
| "StringsEqual_from left right i (Suc n) =
     (if left ! i \<noteq> right ! i then False else StringsEqual_from left right (Suc i) n)"

definition StringsEqual :: "string list \<Rightarrow> string list \<Rightarrow> bool" where
  "StringsEqual left right =
     (if length left \<noteq> length right then False else StringsEqual_from left right 0 (length left))"

subsection \<open>stringset and seen\<close>

text \<open>\<open>Set{m map[string]struct{}}\<close>: the zero value has a nil map.\<close>

record stringset =
  ss_m :: "(string \<times> unit) list option"

definition ss_empty :: stringset where
  "ss_empty = \<lparr>ss_m = None\<rparr>"

definition ss_Add :: "stringset \<Rightarrow> string list \<Rightarrow> stringset" where
  "ss_Add s ss =
     (let m = (case ss_m s of None \<Rightarrow> [] | Some m \<Rightarrow> m) in
      s\<lparr>ss_m := Some (fold (\<lambda>k m. AList.update k () m) ss m)\<rparr>)"

definition ss_Delete :: "stringset \<Rightarrow> string list \<Rightarrow> stringset" where
  "ss_Delete s ss =
     (case ss_m s of None \<Rightarrow> s
      | Some m \<Rightarrow> s\<lparr>ss_m := Some (fold (\<lambda>k m. AList.delete k m) ss m)\<rparr>)"

definition ss_Has :: "stringset \<Rightarrow> string \<Rightarrow> bool" where
  "ss_Has s x = (case ss_m s of None \<Rightarrow> False | Some m \<Rightarrow> map_of m x \<noteq> None)"

definition ss_Len :: "stringset \<Rightarrow> nat" where
  "ss_Len s = (case ss_m s of None \<Rightarrow> 0 | Some m \<Rightarrow> length m)"

definition ss_Values :: "stringset \<Rightarrow> string list" where
  "ss_Values s = (case ss_m s of None \<Rightarrow> [] | Some m \<Rightarrow> map fst m)"

definition ss_wf :: "stringset \<Rightarrow> bool" where
  "ss_wf s = (case ss_m s of None \<Rightarrow> True | Some m \<Rightarrow> distinct (map fst m))"

definition seen_String :: "string set \<Rightarrow> string \<Rightarrow> bool \<times> string set" where
  "seen_String s value = (if value \<in> s then (True, s) else (False, insert value s))"

subsection \<open>Facts on kv and slice\<close>

lemma kv_Split_found:
  "c \<notin> set k \<Longrightarrow> kv_Split (k @ c # cs @ v) (c # cs) = (TrimSpace k, TrimSpace v)"
  by (simp add: kv_Split_def SplitN2_first_char safeIndex_def)

lemma kv_Split_absent: "c \<notin> set s \<Longrightarrow> kv_Split s (c # cs) = (TrimSpace s, '''')"
  by (simp add: kv_Split_def SplitN2_char_None safeIndex_def)

lemma kv_RSplit_found:
  "c \<notin> set k \<Longrightarrow> kv_RSplit (k @ c # cs @ v) (c # cs) = (TrimSpace k, TrimSpace v)"
  by (simp add: kv_RSplit_def SplitN2_first_char safeIndex_def)

lemma kv_RSplit_absent: "c \<notin> set s \<Longrightarrow> kv_RSplit s (c # cs) = ('''', TrimSpace s)"
  by (simp add: kv_RSplit_def SplitN2_char_None)

lemma ContainsString_iff [simp]: "ContainsString xs x \<longleftrightarrow> x \<in> set xs"
  by (induction xs) auto

lemma StringsEqual_from_iff:
  "i + n \<le> length l \<Longrightarrow> i + n \<le> length r \<Longrightarrow>
   StringsEqual_from l r i n \<longleftrightarrow> take n (drop i l) = take n (drop i r)"
proof (induction l r i n rule: StringsEqual_from.induct)
  case (2 left right i n)
  from 2 have "drop i left = left ! i # drop (Suc i) left" "drop i right = right ! i # drop (Suc i) right"
    by (simp_all add: Cons_nth_drop_Suc)
  with 2 show ?case by simp
qed simp

lemma StringsEqual_iff [simp]: "StringsEqual l r \<longleftrightarrow> l = r"
  by (auto simp: StringsEqual_def StringsEqual_from_iff)

subsection \<open>Facts on name\<close>

lemma length_EncodeToString [simp]: "length (EncodeToString bs) = 2 * length bs"
  by (induction bs) (auto simp: EncodeToString_def)

lemma slice_to_Some: "slice_to s n = Some p \<Longrightarrow> int (length p) = n \<and> prefix p s"
  by (auto simp: slice_to_def take_is_prefix split: if_splits)

lemma slice_to_None_iff: "slice_to s n = None \<longleftrightarrow> n < 0 \<or> int (length s) < n"
  by (auto simp: slice_to_def)

lemma name_Limit_long:
  assumes "\<And>x. length (md5 x) = 16" "6 \<le> count" "count \<le> int (length s)"
  shows "name_Limit md5 s count
    = Some (take (nat (count - 6)) s @ ''-'' @ take 5 (EncodeToString (md5 s)))"
  using assms by (simp add: name_Limit_def name_Hex_def slice_to_def)

subsection \<open>The contract of a string set\<close>

locale string_set =
  fixes empty :: 's and add :: "'s \<Rightarrow> string list \<Rightarrow> 's" and elems :: "'s \<Rightarrow> string list"
    and inv :: "'s \<Rightarrow> bool"
  assumes inv_empty: "inv empty"
    and elems_empty: "elems empty = []"
    and inv_add: "inv s \<Longrightarrow> inv (add s xs)"
    and set_add: "inv s \<Longrightarrow> set (elems (add s xs)) = set (elems s) \<union> set xs"
    and distinct_elems: "inv s \<Longrightarrow> distinct (elems s)"
begin

lemma fold_add:
  assumes "inv s"
  shows "inv (fold (\<lambda>x s. add s [f x]) xs s)
    \<and> set (elems (fold (\<lambda>x s. add s [f x]) xs s)) = set (elems s) \<union> f ` set xs"
  using assms by (induction xs arbitrary: s) (simp_all add: inv_add set_add)

lemma elems_collect:
  "distinct (elems (fold (\<lambda>x s. add s [f x]) xs empty))
   \<and> set (elems (fold (\<lambda>x s. add s [f x]) xs empty)) = f ` set xs"
  using fold_add[OF inv_empty, of f xs] by (simp add: elems_empty distinct_elems)

end

lemma fold_update_keys:
  "set (map fst (fold (\<lambda>k m. AList.update k () m) xs m)) = set (map fst m) \<union> set xs"
  by (induction xs arbitrary: m) (auto simp: dom_update)

lemma fold_update_distinct:
  "distinct (map fst m) \<Longrightarrow> distinct (map fst (fold (\<lambda>k m. AList.update k () m) xs m))"
  by (induction xs arbitrary: m) (auto simp: distinct_update)

lemma ss_wf_Add: "ss_wf s \<Longrightarrow> ss_wf (ss_Add s xs)"
  by (auto simp: ss_wf_def ss_Add_def Let_def split: option.splits intro!: fold_update_distinct)

lemma set_ss_Values_Add: "set (ss_Values (ss_Add s xs)) = set (ss_Values s) \<union> set xs"
  using fold_update_keys[of xs "case ss_m s of None \<Rightarrow> [] | Some m \<Rightarrow> m"]
  by (auto simp: ss_Values_def ss_Add_def Let_def split: option.splits)

interpretation sset: string_set ss_empty ss_Add ss_Values ss_wf
proof
  show "ss_wf s \<Longrightarrow> distinct (ss_Values s)" for s
    by (auto simp: ss_wf_def ss_Values_def split: option.splits)
  show "ss_wf ss_empty" "ss_Values ss_empty = []"
    by (simp_all add: ss_empty_def ss_wf_def ss_Values_def)
qed (simp_all add: ss_wf_Add set_ss_Values_Add)

lemma ss_Has_iff: "ss_Has s x \<longleftrightarrow> x \<in> set (ss_Values s)"
  by (auto simp: ss_Has_def ss_Values_def map_of_eq_None_iff split: option.splits)

lemma fold_delete_conv:
  "map_of (fold (\<lambda>k m. AList.delete k m) xs m) = (map_of m) |` (- set xs)"
  by (induction xs arbitrary: m) (auto simp: delete_conv' restrict_map_def fun_eq_iff)

lemma ss_Has_Delete: "ss_Has (ss_Delete s xs) x \<longleftrightarrow> ss_Has s x \<and> x \<notin> set xs"
  by (auto simp: ss_Has_def ss_Delete_def fold_delete_conv restrict_map_def split: option.splits)

lemma ss_Len_Values: "ss_Len s = length (ss_Values s)"
  by (simp add: ss_Len_def ss_Values_def split: option.splits)

subsection \<open>Bounds of generated names\<close>

text \<open>A name built by SafeConcatName always fits a 63-byte Kubernetes label or name: whatever
  the parts are, the function returns (no slice index is out of range, given that a sha256 digest
  has 32 bytes) and the result has fewer than 64 bytes; a joined name that is already short
  enough is returned unchanged.\<close>

theorem SafeConcatName_bounded:
  assumes "\<And>x. length (sha256 x) = 32"
  shows "\<exists>r. SafeConcatName sha256 parts = Some r \<and> length r < 64
    \<and> (length (Join parts ''-'') < 64 \<longrightarrow> r = Join parts ''-'')"
  using assms by (auto simp: SafeConcatName_def Let_def slice_to_def)

theorem SafeConcatName_bounded_witness:
  "\<exists>r. SafeConcatName (\<lambda>_. replicate 32 CHR 0xAB) [replicate 70 CHR ''a'', ''b''] = Some r
    \<and> length r < 64"
  using SafeConcatName_bounded[of "\<lambda>_. replicate 32 CHR 0xAB" "[replicate 70 CHR ''a'', ''b'']"]
  by auto

text \<open>Limit returns its argument when that is shorter than the limit, and otherwise, for
  every limit of at least 6, a string of exactly the limit's length that keeps the first
  count - 6 bytes; with a limit below 6 (and a string that long) it panics. The digest is
  assumed to have the 16 bytes of an MD5 sum.\<close>

theorem name_Limit_spec:
  assumes "\<And>x. length (md5 x) = 16"
  shows "(int (length s) < count \<longrightarrow> name_Limit md5 s count = Some s)
    \<and> (count \<le> int (length s) \<and> 6 \<le> count \<longrightarrow>
         (\<exists>r. name_Limit md5 s count = Some r \<and> int (length r) = count
              \<and> prefix (take (nat (count - 6)) s) r))
    \<and> (count \<le> int (length s) \<and> count < 6 \<longrightarrow> name_Limit md5 s count = None)"
proof (intro conjI impI)
  assume "int (length s) < count" then show "name_Limit md5 s count = Some s"
    by (simp add: name_Limit_def)
next
  assume *: "count \<le> int (length s) \<and> 6 \<le> count"
  then have "name_Limit md5 s count
      = Some (take (nat (count - 6)) s @ ''-'' @ take 5 (EncodeToString (md5 s)))"
    by (intro name_Limit_long assms) auto
  moreover from * have "nat (count - 6) \<le> length s" by linarith
  ultimately show "\<exists>r. name_Limit md5 s count = Some r \<and> int (length r) = count
      \<and> prefix (take (nat (count - 6)) s) r"
    using * assms by (simp add: min_def)
next
  assume "count \<le> int (length s) \<and> count < 6"
  then show "name_Limit md5 s count = None"
    by (simp add: name_Limit_def slice_to_def)
qed

theorem name_Limit_spec_witness:
  "name_Limit (\<lambda>_. replicate 16 CHR 0x1F) ''abcdefgh'' 7 = Some ''a-1f1f1''
   \<and> (\<exists>r. name_Limit (\<lambda>_. replicate 16 CHR 0x1F) ''abcdefgh'' 7 = Some r \<and> length r = 7)"
proof
  show "name_Limit (\<lambda>_. replicate 16 CHR 0x1F) ''abcdefgh'' 7 = Some ''a-1f1f1''"
    by code_simp
  show "\<exists>r. name_Limit (\<lambda>_. replicate 16 CHR 0x1F) ''abcdefgh'' 7 = Some r \<and> length r = 7"
    using name_Limit_spec[of "\<lambda>_. replicate 16 CHR 0x1F" "''abcdefgh''" 7] by auto
qed

end
