(* ===== verification/Data.thy ===== *)
theory Data
  imports Utils
begin

section \<open>Unstructured values: pkg/data and pkg/data/convert\<close>

text \<open>
  The \<open>interface{}\<close> values that decoding JSON or YAML and the code itself put into an
  unstructured object, \<open>pkg/data/values.go\<close>, \<open>merge.go\<close>, \<open>data.go\<close> and
  \<open>convert/convert.go\<close>. A \<open>map[string]interface{}\<close> is an association list (the order is one
  possible iteration order), a variable of that type that may be nil an option. Functions that
  change a map in place return the changed map; the maps of one object form a tree, with no
  sharing. \<open>VObject\<close> is a value of the defined type \<open>data.Object\<close>, a map or nil, which fails the
  type assertion to \<open>map[string]interface{}\<close>; only package \<open>schemas/mappers\<close> stores one. A \<open>float64\<close> is represented by the shortest decimal text that Go prints for it, which
  determines it. Values of type \<open>time.Time\<close> and \<open>float32\<close>, which no decoder produces, are left out.
\<close>

subsection \<open>Values\<close>

datatype val =
    VNil
  | VBool bool
  | VInt "64 word"
  | VInt64 "64 word"
  | VFloat string
  | VNumber string
  | VStr string
  | VBytes string
  | VStrs "string list"
  | VSlice "val list"
  | VMap "(string \<times> val) list"
  | VObject "(string \<times> val) list option"

type_synonym gomap = "(string \<times> val) list"

fun wf_val :: "val \<Rightarrow> bool" where
  "wf_val (VSlice vs) = (\<forall>v \<in> set vs. wf_val v)"
| "wf_val (VMap m) = (distinct (map fst m) \<and> (\<forall>kv \<in> set m. wf_val (snd kv)))"
| "wf_val (VObject (Some m)) = (distinct (map fst m) \<and> (\<forall>kv \<in> set m. wf_val (snd kv)))"
| "wf_val _ = True"

abbreviation wf_map :: "gomap \<Rightarrow> bool" where
  "wf_map m \<equiv> wf_val (VMap m)"

lemmas wf_map_iff = wf_val.simps(2)

declare wf_map_iff [simp del]

lemma wf_map_Nil [simp]: "wf_map []"
  by (simp add: wf_map_iff)

subsection \<open>strconv and fmt\<close>

fun digits_of :: "nat \<Rightarrow> string" where
  "digits_of n = (if n < 10 then [hexDigit n] else digits_of (n div 10) @ [hexDigit (n mod 10)])"

declare digits_of.simps [simp del]

definition Itoa :: "int \<Rightarrow> string" where
  "Itoa i = (if i < 0 then ''-'' @ digits_of (nat (- i)) else digits_of (nat i))"

definition isDigit :: "char \<Rightarrow> bool" where
  "isDigit c = (CHR ''0'' \<le> c \<and> c \<le> CHR ''9'')"

definition digits_val :: "string \<Rightarrow> int option" where
  "digits_val s =
     (if s = [] \<or> \<not> list_all isDigit s then None
      else Some (fold (\<lambda>c n. 10 * n + (of_char c - 48)) s 0))"

text \<open>\<open>strconv.Atoi\<close> on a 64-bit platform: an optional sign, digits, and a value in range.\<close>

definition Atoi :: "string \<Rightarrow> int option" where
  "Atoi s =
     (let neg = (s \<noteq> [] \<and> hd s = CHR ''-'');
          body = (if s \<noteq> [] \<and> (hd s = CHR ''-'' \<or> hd s = CHR ''+'') then tl s else s) in
      case digits_val body of
        None \<Rightarrow> None
      | Some n \<Rightarrow>
          (let i = (if neg then - n else n) in
           if - (2 ^ 63) \<le> i \<and> i < 2 ^ 63 then Some i else None))"

text \<open>\<open>fmt.Sprint\<close> of one value: maps are printed in the order of their keys.\<close>

fun Sprint :: "val \<Rightarrow> string" where
  "Sprint VNil = ''<nil>''"
| "Sprint (VBool b) = (if b then ''true'' else ''false'')"
| "Sprint (VInt w) = Itoa (sint w)"
| "Sprint (VInt64 w) = Itoa (sint w)"
| "Sprint (VFloat t) = t"
| "Sprint (VNumber t) = t"
| "Sprint (VStr s) = s"
| "Sprint (VBytes b) = ''['' @ Join (map (\<lambda>c. digits_of (of_char c)) b) '' '' @ '']''"
| "Sprint (VStrs ss) = ''['' @ Join ss '' '' @ '']''"
| "Sprint (VSlice vs) = ''['' @ Join (map Sprint vs) '' '' @ '']''"
| "Sprint (VMap m) = ''map['' @
     Join (map (\<lambda>(k, t). k @ '':'' @ t) (sort_key fst (map (\<lambda>(k, v). (k, Sprint v)) m))) '' ''
     @ '']''"
| "Sprint (VObject None) = ''map[]''"
| "Sprint (VObject (Some m)) = ''map['' @
     Join (map (\<lambda>(k, t). k @ '':'' @ t) (sort_key fst (map (\<lambda>(k, v). (k, Sprint v)) m))) '' ''
     @ '']''"

subsection \<open>convert\<close>

definition Singular :: "val \<Rightarrow> val" where
  "Singular v = (case v of
       VStrs ss \<Rightarrow> (if ss = [] then VNil else VStr (ss ! 0))
     | VSlice vs \<Rightarrow> (if vs = [] then VNil else vs ! 0)
     | _ \<Rightarrow> v)"

definition ToStringNoTrim :: "val \<Rightarrow> string" where
  "ToStringNoTrim v = (let single = Singular v in if single = VNil then '''' else Sprint single)"

definition ToString :: "val \<Rightarrow> string" where
  "ToString v = TrimSpace (ToStringNoTrim v)"

definition ToBool :: "val \<Rightarrow> bool" where
  "ToBool v =
     (case Singular v of
        VBool b \<Rightarrow> b
      | v' \<Rightarrow> (let str = ToLower (ToString v') in
          str = ''true'' \<or> str = ''t'' \<or> str = ''yes'' \<or> str = ''y''))"

definition Capitalize :: "string \<Rightarrow> string" where
  "Capitalize s =
     (if length s \<le> 1 then ToUpper s else ToUpper (take 1 s) @ drop 1 s)"

definition Uncapitalize :: "string \<Rightarrow> string" where
  "Uncapitalize s =
     (if length s \<le> 1 then ToLower s else ToLower (take 1 s) @ drop 1 s)"

text \<open>The loop of \<open>LowerTitle\<close> from one position on; the flag says that it is the first.\<close>

fun LowerTitle_from :: "bool \<Rightarrow> string \<Rightarrow> string" where
  "LowerTitle_from first [] = []"
| "LowerTitle_from first (r # rs) =
     (if upperC r \<and> (first \<or> rs = [] \<or> upperC (hd rs))
      then toLowerC r # LowerTitle_from False rs
      else r # rs)"

definition LowerTitle :: "string \<Rightarrow> string" where
  "LowerTitle input = LowerTitle_from True input"

definition IsEmptyValue :: "val \<Rightarrow> bool" where
  "IsEmptyValue v =
     (if v = VNil \<or> v = VStr '''' \<or> v = VInt 0 \<or> v = VBool False then True
      else case v of
        VMap m \<Rightarrow> length m = 0
      | VSlice s \<Rightarrow> length s = 0
      | _ \<Rightarrow> False)"

definition ToMapInterface :: "val \<Rightarrow> gomap option" where
  "ToMapInterface obj = (case obj of VMap m \<Rightarrow> Some m | _ \<Rightarrow> None)"

definition ToInterfaceSlice :: "val \<Rightarrow> val list" where
  "ToInterfaceSlice obj = (case obj of VSlice v \<Rightarrow> v | _ \<Rightarrow> [])"

definition ToStringSlice :: "val \<Rightarrow> string list" where
  "ToStringSlice data = (case data of
       VStrs v \<Rightarrow> v
     | VSlice v \<Rightarrow> map ToString v
     | VStr v \<Rightarrow> [v]
     | _ \<Rightarrow> [])"

fun ToYAMLKey_from :: "bool \<Rightarrow> string \<Rightarrow> string" where
  "ToYAMLKey_from cap [] = []"
| "ToYAMLKey_from cap (r # rs) =
     (if upperC r
      then (if cap then toLowerC r # ToYAMLKey_from cap rs
            else CHR ''_'' # toLowerC r # ToYAMLKey_from cap rs)
      else r # ToYAMLKey_from False rs)"

definition ToYAMLKey :: "string \<Rightarrow> string" where
  "ToYAMLKey str =
     (case str of [] \<Rightarrow> [] | r # rs \<Rightarrow> toLowerC r # ToYAMLKey_from (upperC r) rs)"

fun ToArgKey_from :: "bool \<Rightarrow> string \<Rightarrow> string" where
  "ToArgKey_from cap [] = []"
| "ToArgKey_from cap (r # rs) =
     (if upperC r then
        if cap then toLowerC r # ToArgKey_from cap rs
        else (case rs of
            a # b # rs' \<Rightarrow>
              if upperC a \<and> upperC b
              then CHR ''-'' # toLowerC r # toLowerC a # toLowerC b # ToArgKey_from cap rs'
              else CHR ''-'' # toLowerC r # ToArgKey_from cap rs
          | _ \<Rightarrow> CHR ''-'' # toLowerC r # ToArgKey_from cap rs)
      else r # ToArgKey_from False rs)"

definition ToArgKey :: "string \<Rightarrow> string" where
  "ToArgKey str =
     ''--'' @ (case str of [] \<Rightarrow> [] | r # rs \<Rightarrow> toLowerC r # ToArgKey_from (upperC r) rs)"

subsection \<open>values.go\<close>

text \<open>A type assertion to a map with the \<open>ok\<close> result dropped gives the nil map, which reads as
  an empty one.\<close>

definition sub_map :: "gomap \<Rightarrow> string \<Rightarrow> gomap" where
  "sub_map data key = (case map_of data key of Some (VMap m) \<Rightarrow> m | _ \<Rightarrow> [])"

fun GetValue :: "gomap \<Rightarrow> string list \<Rightarrow> val \<times> bool" where
  "GetValue data [] = (VNil, False)"
| "GetValue data [key] =
     (case map_of data key of Some v \<Rightarrow> (v, True) | None \<Rightarrow> (VNil, False))"
| "GetValue data (key # k2 # keys) = GetValue (sub_map data key) (k2 # keys)"

definition GetValueN :: "gomap \<Rightarrow> string list \<Rightarrow> val" where
  "GetValueN data keys = fst (GetValue data keys)"

fun RemoveValue :: "gomap \<Rightarrow> string list \<Rightarrow> gomap \<times> val \<times> bool" where
  "RemoveValue data [] = (data, VNil, False)"
| "RemoveValue data [key] =
     (AList.delete key data,
      case map_of data key of Some v \<Rightarrow> (v, True) | None \<Rightarrow> (VNil, False))"
| "RemoveValue data (key # k2 # keys) =
     (case map_of data key of
        Some (VMap m) \<Rightarrow>
          (case RemoveValue m (k2 # keys) of
             (m', r) \<Rightarrow> (AList.update key (VMap m') data, r))
      | _ \<Rightarrow> (data, VNil, False))"

fun PutValue_loop :: "gomap \<Rightarrow> val \<Rightarrow> string list \<Rightarrow> gomap" where
  "PutValue_loop data val [] = data"
| "PutValue_loop data val [key] = AList.update key val data"
| "PutValue_loop data val (key # k2 # keys) =
     (case map_of data key of
        Some newData \<Rightarrow>
          (case newData of
             VMap newMap \<Rightarrow> AList.update key (VMap (PutValue_loop newMap val (k2 # keys))) data
           | _ \<Rightarrow> data)
      | None \<Rightarrow> AList.update key (VMap (PutValue_loop [] val (k2 # keys))) data)"

definition PutValue :: "gomap option \<Rightarrow> val \<Rightarrow> string list \<Rightarrow> gomap option" where
  "PutValue data val keys = (case data of None \<Rightarrow> None | Some d \<Rightarrow> Some (PutValue_loop d val keys))"

fun GetValueFromAny_loop :: "val \<Rightarrow> string list \<Rightarrow> val \<times> bool" where
  "GetValueFromAny_loop data [] = (data, True)"
| "GetValueFromAny_loop data (key # keys) =
     (case data of
        VMap d2 \<Rightarrow>
          (case map_of d2 key of
             None \<Rightarrow> (VNil, False)
           | Some v \<Rightarrow> GetValueFromAny_loop v keys)
      | _ \<Rightarrow>
          (case Atoi key of
             None \<Rightarrow> (VNil, False)
           | Some keyInt \<Rightarrow>
               if keyInt < 0 then (VNil, False)
               else (case data of
                   VSlice node \<Rightarrow>
                     if keyInt \<ge> int (length node) then (VNil, False)
                     else GetValueFromAny_loop (node ! nat keyInt) keys
                 | VStrs node \<Rightarrow>
                     if keyInt \<ge> int (length node) then (VNil, False)
                     else GetValueFromAny_loop (VStr (node ! nat keyInt)) keys
                 | _ \<Rightarrow> (VNil, False))))"

definition GetValueFromAny :: "val \<Rightarrow> string list \<Rightarrow> val \<times> bool" where
  "GetValueFromAny data keys = (if keys = [] then (VNil, False) else GetValueFromAny_loop data keys)"

subsection \<open>data.go\<close>

type_synonym object = "gomap option"

definition obj_read :: "object \<Rightarrow> gomap" where
  "obj_read ob = (case ob of None \<Rightarrow> [] | Some m \<Rightarrow> m)"

definition Object_Map :: "object \<Rightarrow> string list \<Rightarrow> object" where
  "Object_Map ob names = ToMapInterface (GetValueN (obj_read ob) names)"

definition Object_Slice :: "object \<Rightarrow> string list \<Rightarrow> object list" where
  "Object_Slice ob names = map ToMapInterface (ToInterfaceSlice (GetValueN (obj_read ob) names))"

definition Object_Values :: "object \<Rightarrow> object list" where
  "Object_Values ob = map (\<lambda>k. Object_Map ob [k]) (map fst (obj_read ob))"

definition Object_String :: "object \<Rightarrow> string list \<Rightarrow> string" where
  "Object_String ob names = ToString (GetValueN (obj_read ob) names)"

definition Object_StringSlice :: "object \<Rightarrow> string list \<Rightarrow> string list" where
  "Object_StringSlice ob names = ToStringSlice (GetValueN (obj_read ob) names)"

definition Object_Set :: "object \<Rightarrow> string \<Rightarrow> val \<Rightarrow> object" where
  "Object_Set ob key v = (case ob of None \<Rightarrow> None | Some m \<Rightarrow> Some (AList.update key v m))"

definition Object_SetNested :: "object \<Rightarrow> val \<Rightarrow> string list \<Rightarrow> object" where
  "Object_SetNested ob v key = PutValue ob v key"

definition Object_Bool :: "object \<Rightarrow> string list \<Rightarrow> bool" where
  "Object_Bool ob key = ToBool (GetValueN (obj_read ob) key)"

subsection \<open>merge.go\<close>

definition bothMaps :: "val option \<Rightarrow> val \<Rightarrow> (gomap \<times> gomap) option" where
  "bothMaps l r = (case l of
       Some (VMap leftMap) \<Rightarrow> (case r of VMap rightMap \<Rightarrow> Some (leftMap, rightMap) | _ \<Rightarrow> None)
     | _ \<Rightarrow> None)"

definition bothSlices :: "val option \<Rightarrow> val \<Rightarrow> (val list \<times> val list) option" where
  "bothSlices l r = (case l of
       Some (VSlice leftSlice) \<Rightarrow>
         (case r of VSlice rightSlice \<Rightarrow> Some (leftSlice, rightSlice) | _ \<Rightarrow> None)
     | _ \<Rightarrow> None)"

lemma bothMaps_Some [simp]: "bothMaps l r = Some (a, b) \<longleftrightarrow> l = Some (VMap a) \<and> r = VMap b"
  by (auto simp: bothMaps_def split: option.splits val.splits)

lemma size_map_member: "(k, VMap m) \<in> set ov \<Longrightarrow>
    size_list (size_prod (\<lambda>_. 0) size) m < size_list (size_prod (\<lambda>_. 0) size) ov"
proof -
  assume "(k, VMap m) \<in> set ov"
  then have "size_prod (\<lambda>_. 0) size (k, VMap m) \<le> size_list (size_prod (\<lambda>_. 0) size) ov"
    by (rule size_list_estimation') simp
  moreover have "size_prod (\<lambda>_. 0) size (k, VMap m)
      = Suc (Suc (size_list (size_prod (\<lambda>_. 0) size) m))"
    by (subst size_prod_simp) simp
  ultimately show ?thesis by linarith
qed

text \<open>The copy of \<open>base\<close> is the list itself; the loop over \<open>overlay\<close> reads \<open>result[k]\<close>.\<close>

function MergeMaps :: "gomap \<Rightarrow> gomap \<Rightarrow> gomap" where
  "MergeMaps base overlay =
     fold (\<lambda>(k, v) result.
         AList.update k
           (case bothMaps (map_of result k) v of
              Some (baseMap, overlayMap) \<Rightarrow> VMap (MergeMaps baseMap overlayMap)
            | None \<Rightarrow> v) result)
       overlay base"
  by pat_completeness auto
termination
  by (relation "measure (\<lambda>(b, ov). size_list (size_prod (\<lambda>_. 0) size) ov)")
    (auto intro: size_map_member)

declare MergeMaps.simps [simp del]

definition MergeMapsConcatSlice :: "gomap \<Rightarrow> gomap \<Rightarrow> gomap" where
  "MergeMapsConcatSlice base overlay =
     fold (\<lambda>(k, v) result.
         AList.update k
           (case bothMaps (map_of result k) v of
              Some (baseMap, overlayMap) \<Rightarrow> VMap (MergeMaps baseMap overlayMap)
            | None \<Rightarrow> (case bothSlices (map_of result k) v of
                Some (baseSlice, overlaySlice) \<Rightarrow> VSlice (baseSlice @ overlaySlice)
              | None \<Rightarrow> v)) result)
       overlay base"

subsection \<open>Facts on paths\<close>

lemma sub_map_update_same [simp]: "sub_map (AList.update k (VMap m) d) k = m"
  by (simp add: sub_map_def update_conv)

lemma sub_map_update_other [simp]: "k' \<noteq> k \<Longrightarrow> sub_map (AList.update k v d) k' = sub_map d k'"
  by (simp add: sub_map_def update_conv)

lemma GetValue_Cons: "ks \<noteq> [] \<Longrightarrow> GetValue d (k # ks) = GetValue (sub_map d k) ks"
  by (cases ks) simp_all

lemma PutValue_loop_Cons:
  "ks \<noteq> [] \<Longrightarrow> PutValue_loop d v (k # ks) =
    (case map_of d k of
       Some (VMap m) \<Rightarrow> AList.update k (VMap (PutValue_loop m v ks)) d
     | Some _ \<Rightarrow> d
     | None \<Rightarrow> AList.update k (VMap (PutValue_loop [] v ks)) d)"
  by (cases ks) (auto split: option.splits val.splits)

lemma RemoveValue_Cons:
  "ks \<noteq> [] \<Longrightarrow> RemoveValue d (k # ks) =
    (case map_of d k of
       Some (VMap m) \<Rightarrow> (AList.update k (VMap (fst (RemoveValue m ks))) d, snd (RemoveValue m ks))
     | _ \<Rightarrow> (d, VNil, False))"
  by (cases ks) (auto split: option.splits val.splits prod.splits)

text \<open>A path is blocked when a value that is not a map sits at a proper prefix of it.\<close>

fun blocked :: "gomap \<Rightarrow> string list \<Rightarrow> bool" where
  "blocked d (k # k2 # ks) =
     (case map_of d k of None \<Rightarrow> False | Some (VMap m) \<Rightarrow> blocked m (k2 # ks) | Some _ \<Rightarrow> True)"
| "blocked d _ = False"

lemma blocked_Cons: "ks \<noteq> [] \<Longrightarrow> blocked d (k # ks) =
    (case map_of d k of None \<Rightarrow> False | Some (VMap m) \<Rightarrow> blocked m ks | Some _ \<Rightarrow> True)"
  by (cases ks) (auto split: option.splits val.splits)

lemma blocked_Nil [simp]: "\<not> blocked [] ks"
  by (induction "[] :: gomap" ks rule: blocked.induct) auto

lemma GetValue_Nil [simp]: "GetValue [] ks = (VNil, False)"
  by (induction "[] :: gomap" ks rule: GetValue.induct) (auto simp: sub_map_def)

lemma map_of_update: "map_of (AList.update k v d) k' = (if k' = k then Some v else map_of d k')"
  by (simp add: update_conv)

lemma set_update_cases: "kv \<in> set (AList.update k v d) \<Longrightarrow> kv = (k, v) \<or> kv \<in> set d"
  by (induction d) (auto split: if_splits)

lemma wf_map_update [wf_intros]: "wf_map d \<Longrightarrow> wf_val v \<Longrightarrow> wf_map (AList.update k v d)"
  by (auto simp: wf_map_iff distinct_update dest!: set_update_cases)

lemma set_delete_subset: "kv \<in> set (AList.delete k d) \<Longrightarrow> kv \<in> set d"
  by (auto simp: AList.delete_eq)

lemma wf_map_delete [wf_intros]: "wf_map d \<Longrightarrow> wf_map (AList.delete k d)"
  by (auto simp: wf_map_iff distinct_delete dest!: set_delete_subset)

lemma wf_map_of: "wf_map d \<Longrightarrow> map_of d k = Some v \<Longrightarrow> wf_val v"
  by (force simp: wf_map_iff dest!: map_of_SomeD)

lemma wf_sub_map [wf_intros]: "wf_map d \<Longrightarrow> wf_map (sub_map d k)"
  using wf_map_of[of d k] by (auto simp: sub_map_def split: option.splits val.splits)

lemma wf_PutValue_loop [wf_intros]: "wf_map d \<Longrightarrow> wf_val v \<Longrightarrow> wf_map (PutValue_loop d v ks)"
proof (induction d v ks rule: PutValue_loop.induct)
  case (3 d v k k2 ks)
  then show ?case
    by (auto split: option.splits val.splits intro!: wf_map_update dest: wf_map_of)
qed (auto intro: wf_map_update)

lemma wf_RemoveValue [wf_intros]: "wf_map d \<Longrightarrow> wf_map (fst (RemoveValue d ks))"
proof (induction d ks rule: RemoveValue.induct)
  case (3 d k k2 ks)
  show ?case
  proof (cases "map_of d k")
    case (Some x)
    with 3 wf_map_of[OF 3(2) Some] show ?thesis
      by (cases x) (auto intro!: wf_map_update split: prod.splits)
  qed (use 3 in simp)
qed (auto intro: wf_map_delete)

subsection \<open>Reading back what was written along a path\<close>

text \<open>Two paths are independent when neither is a prefix of the other.\<close>

definition indep :: "string list \<Rightarrow> string list \<Rightarrow> bool" where
  "indep ks ks' = (\<not> prefix ks ks' \<and> \<not> prefix ks' ks)"

lemma indep_Cons: "indep (k # ks) (k' # ks') \<longleftrightarrow> k \<noteq> k' \<or> indep ks ks'"
  by (auto simp: indep_def)

lemma indep_Nil [simp]: "\<not> indep [] ks" "\<not> indep ks []"
  by (auto simp: indep_def)

lemma update_same: "map_of d k = Some v \<Longrightarrow> AList.update k v d = d"
  by (induction d) auto

lemma Get_Put_same:
  "ks \<noteq> [] \<Longrightarrow> \<not> blocked d ks \<Longrightarrow> GetValue (PutValue_loop d v ks) ks = (v, True)"
proof (induction d v ks rule: PutValue_loop.induct)
  case (3 d v k k2 ks)
  then show ?case by (auto split: option.splits val.splits)
qed (auto simp: map_of_update)

lemma Put_blocked: "blocked d ks \<Longrightarrow> PutValue_loop d v ks = d"
proof (induction d v ks rule: PutValue_loop.induct)
  case (3 d v k k2 ks)
  then show ?case by (auto simp: update_same split: option.splits val.splits)
qed auto

lemma Get_Put_indep: "indep ks ks' \<Longrightarrow> GetValue (PutValue_loop d v ks) ks' = GetValue d ks'"
proof (induction d v ks arbitrary: ks' rule: PutValue_loop.induct)
  case (2 d v k)
  then obtain k' r where "ks' = k' # r" "k \<noteq> k'" by (cases ks') (auto simp: indep_Cons)
  then show ?case by (cases r) (auto simp: map_of_update split: option.splits)
next
  case (3 d v k k2 ks)
  then obtain k' r where ks': "ks' = k' # r" by (cases ks') auto
  show ?case
  proof (cases "k = k'")
    case True
    with 3(3) ks' have i: "indep (k2 # ks) r" by (simp add: indep_Cons)
    then have "r \<noteq> []" by auto
    with i 3 ks' True show ?thesis
      by (auto simp: GetValue_Cons sub_map_def map_of_update split: option.splits val.splits)
  next
    case False
    with ks' show ?thesis
      by (cases r) (auto simp: map_of_update split: option.splits val.splits)
  qed
qed auto

lemma Get_Remove_same: "GetValue (fst (RemoveValue d ks)) ks = (VNil, False)"
proof (induction d ks rule: RemoveValue.induct)
  case (3 d k k2 ks)
  then show ?case
    by (auto simp: sub_map_def map_of_update split: option.splits val.splits prod.splits)
qed (auto simp: delete_conv')

lemma Remove_returns_Get: "snd (RemoveValue d ks) = GetValue d ks"
proof (induction d ks rule: RemoveValue.induct)
  case (3 d k k2 ks)
  then show ?case
    by (auto simp: sub_map_def split: option.splits val.splits prod.splits)
qed (auto simp: delete_conv')

lemma Get_Remove_indep: "indep ks ks' \<Longrightarrow> GetValue (fst (RemoveValue d ks)) ks' = GetValue d ks'"
proof (induction d ks arbitrary: ks' rule: RemoveValue.induct)
  case (2 d k)
  then obtain k' r where "ks' = k' # r" "k \<noteq> k'" by (cases ks') (auto simp: indep_Cons)
  then show ?case
    by (cases r) (auto simp: delete_conv' sub_map_def split: option.splits)
next
  case (3 d k k2 ks)
  then obtain k' r where ks': "ks' = k' # r" by (cases ks') auto
  show ?case
  proof (cases "k = k'")
    case True
    with 3(2) ks' have i: "indep (k2 # ks) r" by (simp add: indep_Cons)
    then have "r \<noteq> []" by auto
    with i 3 ks' True show ?thesis
      by (auto simp: GetValue_Cons RemoveValue_Cons sub_map_def map_of_update
          simp del: RemoveValue.simps split: option.splits val.splits)
  next
    case False
    with ks' show ?thesis
      by (cases r) (auto simp: map_of_update split: option.splits val.splits prod.splits)
  qed
qed auto

text \<open>What the packages above rely on when they keep settings at independent paths of an object.\<close>

locale path_store =
  fixes get :: "'d \<Rightarrow> 'p \<Rightarrow> 'v \<times> bool" and put :: "'d \<Rightarrow> 'v \<Rightarrow> 'p \<Rightarrow> 'd"
    and del :: "'d \<Rightarrow> 'p \<Rightarrow> 'd" and none :: 'v
    and stuck :: "'d \<Rightarrow> 'p \<Rightarrow> bool" and apart :: "'p \<Rightarrow> 'p \<Rightarrow> bool"
  assumes get_put: "\<not> stuck d p \<Longrightarrow> get (put d v p) p = (v, True)"
    and put_stuck: "stuck d p \<Longrightarrow> put d v p = d"
    and get_put_apart: "apart p q \<Longrightarrow> get (put d v p) q = get d q"
    and get_del: "get (del d p) p = (none, False)"
    and get_del_apart: "apart p q \<Longrightarrow> get (del d p) q = get d q"
    and apart_sym: "apart p q \<Longrightarrow> apart q p"
begin

text \<open>Writing and deleting at a path are seen at that path only.\<close>

lemma put_seen: "get (put d v p) p = (if stuck d p then get d p else (v, True))"
  by (simp add: get_put put_stuck)

lemma get_puts_apart:
  "\<forall>(p, v) \<in> set ps. apart p q \<Longrightarrow> get (fold (\<lambda>(p, v) d. put d v p) ps d) q = get d q"
proof (induction ps arbitrary: d)
  case (Cons a ps)
  then show ?case by (cases a) (simp add: get_put_apart)
qed simp

lemma put_then_others:
  assumes "\<not> stuck d p" "\<forall>(q, w) \<in> set ps. apart q p"
  shows "get (fold (\<lambda>(q, w) d. put d w q) ps (put d v p)) p = (v, True)"
  using assms by (simp add: get_puts_apart get_put)

lemma put_del: "apart p q \<Longrightarrow> get (del (put d v p) q) p = get (put d v p) p"
  using get_del_apart[of q p] apart_sym by blast

end

interpretation paths: path_store "GetValue" "\<lambda>d v p. PutValue_loop d v p"
  "\<lambda>d p. fst (RemoveValue d p)" VNil "\<lambda>d p. p = [] \<or> blocked d p" indep
proof
  show "indep p q \<Longrightarrow> indep q p" for p q by (simp add: indep_def)
qed (auto simp: Get_Put_same Put_blocked Get_Put_indep Get_Remove_same Get_Remove_indep)

subsection \<open>Facts on merging\<close>

lemma map_of_MergeMaps:
  assumes "distinct (map fst ov)"
  shows "map_of (MergeMaps b ov) k =
    (case map_of ov k of
       None \<Rightarrow> map_of b k
     | Some v \<Rightarrow> Some (case bothMaps (map_of b k) v of
           Some (bm, om) \<Rightarrow> VMap (MergeMaps bm om) | None \<Rightarrow> v))"
  unfolding MergeMaps.simps[of b ov]
  using fold_update_lookup[OF assms, of "\<lambda>k old v. case bothMaps old v of
      Some (bm, om) \<Rightarrow> VMap (MergeMaps bm om) | None \<Rightarrow> v" b k]
  by simp

lemma map_of_MergeMapsConcatSlice:
  assumes "distinct (map fst ov)"
  shows "map_of (MergeMapsConcatSlice b ov) k =
    (case map_of ov k of
       None \<Rightarrow> map_of b k
     | Some v \<Rightarrow> Some (case bothMaps (map_of b k) v of
           Some (bm, om) \<Rightarrow> VMap (MergeMaps bm om)
         | None \<Rightarrow> (case bothSlices (map_of b k) v of
             Some (bs, os) \<Rightarrow> VSlice (bs @ os) | None \<Rightarrow> v)))"
  unfolding MergeMapsConcatSlice_def
  using fold_update_lookup[OF assms, of "\<lambda>k old v. case bothMaps old v of
      Some (bm, om) \<Rightarrow> VMap (MergeMaps bm om)
    | None \<Rightarrow> (case bothSlices old v of Some (bs, os) \<Rightarrow> VSlice (bs @ os) | None \<Rightarrow> v)" b k]
  by simp

lemma wf_map_distinct: "wf_map m \<Longrightarrow> distinct (map fst m)"
  by (simp add: wf_map_iff)

lemma wf_MergeMaps_keys: "distinct (map fst b) \<Longrightarrow> distinct (map fst (MergeMaps b ov))"
  unfolding MergeMaps.simps[of b ov]
  using fold_update_distinct_keys[of b "\<lambda>k old v. case bothMaps old v of
      Some (bm, om) \<Rightarrow> VMap (MergeMaps bm om) | None \<Rightarrow> v" ov]
  by simp

lemma wf_MergeMaps [wf_intros]: "wf_map b \<Longrightarrow> wf_map ov \<Longrightarrow> wf_map (MergeMaps b ov)"
proof (induction b ov rule: MergeMaps.induct)
  case (1 b ov)
  have IH: "wf_map a \<Longrightarrow> wf_map m \<Longrightarrow> (k, VMap m) \<in> set ov \<Longrightarrow> wf_map (MergeMaps a m)"
    for k a m
    using 1(1)[of "(k, VMap m)" k "VMap m" "[(k, VMap a)]" "(a, m)" a m] by simp
  have "wf_val v" if "(k, v) \<in> set (MergeMaps b ov)" for k v
  proof -
    have "map_of (MergeMaps b ov) k = Some v"
      using that wf_MergeMaps_keys[OF wf_map_distinct[OF 1(2)]] by simp
    then show ?thesis
      using wf_map_of[OF 1(2), of k] wf_map_of[OF 1(3), of k] map_of_SomeD[of ov k]
      by (auto intro: IH simp: map_of_MergeMaps[OF wf_map_distinct[OF 1(3)]] bothMaps_def
          split: option.splits val.splits)
  qed
  then show ?case
    using wf_MergeMaps_keys[OF wf_map_distinct[OF 1(2)]] by (auto simp: wf_map_iff)
qed

lemma sub_map_Some: "map_of d k = Some (VMap m) \<Longrightarrow> sub_map d k = m"
  by (simp add: sub_map_def)

lemma sub_map_None: "map_of d k = None \<Longrightarrow> sub_map d k = []"
  by (simp add: sub_map_def)

lemma GetValue_not_found: "\<not> snd (GetValue d ks) \<Longrightarrow> GetValue d ks = (VNil, False)"
  by (induction d ks rule: GetValue.induct) (auto split: option.splits)

lemma GetValue_blocked: "blocked d ks \<Longrightarrow> GetValue d ks = (VNil, False)"
proof (induction d ks rule: GetValue.induct)
  case (3 d k k2 ks)
  then show ?case by (auto simp: sub_map_def split: option.splits val.splits)
qed auto

lemma sub_map_MergeMaps:
  assumes "distinct (map fst ov)"
  shows "sub_map (MergeMaps b ov) k =
    (case map_of ov k of
       None \<Rightarrow> sub_map b k
     | Some (VMap om) \<Rightarrow> (case map_of b k of Some (VMap bm) \<Rightarrow> MergeMaps bm om | _ \<Rightarrow> om)
     | Some _ \<Rightarrow> [])"
  using map_of_MergeMaps[OF assms, of b k]
  by (auto simp: sub_map_def bothMaps_def split: option.splits val.splits)

lemma Get_Merge_overlay:
  "wf_map ov \<Longrightarrow> GetValue ov ks = (v, True) \<Longrightarrow> (\<And>m. v \<noteq> VMap m) \<Longrightarrow>
   GetValue (MergeMaps b ov) ks = (v, True)"
proof (induction ov ks arbitrary: b rule: GetValue.induct)
  case (2 ov k)
  then show ?case
    by (auto simp: map_of_MergeMaps[OF wf_map_distinct] bothMaps_def split: option.splits val.splits)
next
  case (3 ov k k2 ks)
  from 3(3) obtain om where om: "map_of ov k = Some (VMap om)"
    by (auto simp: sub_map_def split: option.splits val.splits)
  with 3 wf_map_of[OF 3(2) om] show ?case
    by (auto simp: sub_map_MergeMaps[OF wf_map_distinct] sub_map_Some split: option.splits val.splits)
qed simp

lemma Get_Merge_base:
  "wf_map ov \<Longrightarrow> \<not> snd (GetValue ov ks) \<Longrightarrow> \<not> blocked ov ks \<Longrightarrow> \<not> blocked b ks \<Longrightarrow>
   GetValue (MergeMaps b ov) ks = GetValue b ks"
proof (induction ov ks arbitrary: b rule: GetValue.induct)
  case (2 ov k)
  then show ?case
    by (auto simp: map_of_MergeMaps[OF wf_map_distinct] split: option.splits)
next
  case (3 ov k k2 ks)
  show ?case
  proof (cases "map_of ov k")
    case None
    with 3 show ?thesis by (simp add: sub_map_MergeMaps[OF wf_map_distinct])
  next
    case (Some x)
    with 3(4) obtain om where om: "map_of ov k = Some (VMap om)"
      by (auto split: val.splits)
    with 3 wf_map_of[OF 3(2) om] show ?thesis
      by (auto simp: sub_map_MergeMaps[OF wf_map_distinct] sub_map_Some sub_map_None
          split: option.splits val.splits dest: GetValue_not_found)
  qed
qed simp

lemma Get_Merge_blocked:
  "wf_map ov \<Longrightarrow> blocked ov ks \<Longrightarrow> GetValue (MergeMaps b ov) ks = (VNil, False)"
proof (induction ov ks arbitrary: b rule: GetValue.induct)
  case (3 ov k k2 ks)
  from 3(3) obtain x where x: "map_of ov k = Some x" by (auto split: option.splits)
  show ?case
  proof (cases "\<exists>om. x = VMap om")
    case True
    with 3 x wf_map_of[OF 3(2) x] show ?thesis
      by (auto simp: sub_map_MergeMaps[OF wf_map_distinct] sub_map_Some GetValue_blocked
          split: option.splits val.splits)
  next
    case False
    with 3 x show ?thesis
      by (cases x) (auto simp: sub_map_MergeMaps[OF wf_map_distinct])
  qed
qed auto

subsection \<open>GetValueFromAny\<close>

lemma GetValueFromAny_loop_map:
  "ks \<noteq> [] \<Longrightarrow> snd (GetValue d ks) \<Longrightarrow> GetValueFromAny_loop (VMap d) ks = GetValue d ks"
proof (induction d ks rule: GetValue.induct)
  case (3 d k k2 ks)
  from 3(3) obtain m where "map_of d k = Some (VMap m)"
    by (auto simp: sub_map_def split: option.splits val.splits)
  with 3 show ?case by (simp add: sub_map_Some)
qed (auto split: option.splits)

subsection \<open>Properties\<close>

text \<open>PutValue and GetValue obey the laws of a store addressed by paths: unless a value that
  is not a map sits on the way, a value that was put is read back; when one does, the object
  is left as it was; and reads at every independent path are not affected. A nil map
  is never written.\<close>

theorem PutValue_spec:
  "PutValue None v ks = None
   \<and> (ks \<noteq> [] \<and> \<not> blocked d ks \<longrightarrow>
        (\<exists>d'. PutValue (Some d) v ks = Some d' \<and> GetValue d' ks = (v, True)))
   \<and> (blocked d ks \<longrightarrow> PutValue (Some d) v ks = Some d)
   \<and> (\<forall>ks'. indep ks ks' \<longrightarrow> GetValue (the (PutValue (Some d) v ks)) ks' = GetValue d ks')"
  using paths.get_put[of ks d v] paths.put_stuck[of ks d v] paths.get_put_apart[of ks _ d v]
  by (auto simp: PutValue_def)

theorem PutValue_spec_witness:
  "GetValue (the (PutValue (Some [(''metadata'', VMap [(''name'', VStr ''a'')])]) (VStr ''b'')
       [''metadata'', ''labels'', ''x''])) [''metadata'', ''labels'', ''x''] = (VStr ''b'', True)
   \<and> PutValue (Some [(''metadata'', VStr ''a'')]) VNil [''metadata'', ''labels'']
     = Some [(''metadata'', VStr ''a'')]"
proof
  let ?d = "[(''metadata'', VMap [(''name'', VStr ''a'')])]"
  let ?ks = "[''metadata'', ''labels'', ''x'']"
  have "?ks \<noteq> [] \<and> \<not> blocked ?d ?ks" by simp
  then show "GetValue (the (PutValue (Some ?d) (VStr ''b'') ?ks)) ?ks = (VStr ''b'', True)"
    using PutValue_spec[of "VStr ''b''" ?ks ?d] by auto
  have "blocked [(''metadata'', VStr ''a'')] [''metadata'', ''labels'']" by simp
  then show "PutValue (Some [(''metadata'', VStr ''a'')]) VNil [''metadata'', ''labels'']
     = Some [(''metadata'', VStr ''a'')]"
    using PutValue_spec[of VNil "[''metadata'', ''labels'']" "[(''metadata'', VStr ''a'')]"] by blast
qed

text \<open>RemoveValue returns exactly what GetValue would have returned for the path, leaves
  nothing to be read there afterwards, changes no read at an independent path, and keeps
  the object well formed.\<close>

theorem RemoveValue_spec:
  "snd (RemoveValue d ks) = GetValue d ks
   \<and> GetValue (fst (RemoveValue d ks)) ks = (VNil, False)
   \<and> (\<forall>ks'. indep ks ks' \<longrightarrow> GetValue (fst (RemoveValue d ks)) ks' = GetValue d ks')
   \<and> (wf_map d \<longrightarrow> wf_map (fst (RemoveValue d ks)))"
  using paths.get_del[of d ks] paths.get_del_apart[of ks _ d] wf_RemoveValue[of d ks]
  by (simp add: Remove_returns_Get)

theorem RemoveValue_spec_witness:
  "wf_map (fst (RemoveValue [(''spec'', VMap [(''a'', VNil)]), (''kind'', VStr ''Pod'')] [''spec'', ''a'']))
   \<and> GetValue (fst (RemoveValue [(''spec'', VMap [(''a'', VNil)]), (''kind'', VStr ''Pod'')]
        [''spec'', ''a''])) [''kind''] = (VStr ''Pod'', True)"
proof -
  have "wf_map [(''spec'', VMap [(''a'', VNil)]), (''kind'', VStr ''Pod'')]"
    by (simp add: wf_map_iff)
  moreover have "indep [''spec'', ''a''] [''kind'']" by (simp add: indep_def)
  ultimately show ?thesis
    using RemoveValue_spec[of "[(''spec'', VMap [(''a'', VNil)]), (''kind'', VStr ''Pod'')]"
        "[''spec'', ''a'']"] by auto
qed

text \<open>MergeMaps is the recursive overlay of the second map on the first: at every path, a
  value of the overlay that is not a map wins, a path through a non-map value of the overlay is
  gone, and where the overlay says nothing (and the base does not hide the path behind a
  non-map value) the base is read; the result is a well-formed map. The order in which the maps
  are ranged over makes no difference to any of this.\<close>

theorem MergeMaps_spec:
  assumes "wf_map b" "wf_map ov"
  shows "wf_map (MergeMaps b ov)
    \<and> (\<forall>v. GetValue ov ks = (v, True) \<and> (\<forall>m. v \<noteq> VMap m) \<longrightarrow> GetValue (MergeMaps b ov) ks = (v, True))
    \<and> (blocked ov ks \<longrightarrow> GetValue (MergeMaps b ov) ks = (VNil, False))
    \<and> (\<not> snd (GetValue ov ks) \<and> \<not> blocked ov ks \<and> \<not> blocked b ks
         \<longrightarrow> GetValue (MergeMaps b ov) ks = GetValue b ks)"
  using wf_MergeMaps[OF assms] Get_Merge_overlay[OF assms(2)] Get_Merge_blocked[OF assms(2)]
    Get_Merge_base[OF assms(2)] by simp

theorem MergeMaps_spec_witness:
  "GetValue (MergeMaps [(''a'', VMap [(''x'', VInt 1), (''y'', VInt 2)])] [(''a'', VMap [(''x'', VInt 7)])])
     [''a'', ''y''] = (VInt 2, True)
   \<and> GetValue (MergeMaps [(''a'', VMap [(''x'', VInt 1), (''y'', VInt 2)])] [(''a'', VMap [(''x'', VInt 7)])])
     [''a'', ''x''] = (VInt 7, True)"
proof -
  let ?b = "[(''a'', VMap [(''x'', VInt 1), (''y'', VInt 2)])]" and ?o = "[(''a'', VMap [(''x'', VInt 7)])]"
  have wf: "wf_map ?b" "wf_map ?o" by (simp_all add: wf_map_iff)
  show ?thesis
    using MergeMaps_spec[OF wf, of "[''a'', ''y'']"] MergeMaps_spec[OF wf, of "[''a'', ''x'']"]
    by (simp add: sub_map_def)
qed

text \<open>GetValueFromAny extends GetValue: wherever GetValue finds a value along a path of
  maps, GetValueFromAny finds the same one.\<close>

theorem GetValueFromAny_extends:
  assumes "snd (GetValue d ks)"
  shows "GetValueFromAny (VMap d) ks = GetValue d ks"
proof -
  from assms have "ks \<noteq> []" by auto
  with assms show ?thesis by (simp add: GetValueFromAny_def GetValueFromAny_loop_map)
qed

theorem GetValueFromAny_extends_witness:
  "GetValueFromAny (VMap [(''a'', VMap [(''b'', VInt 3)])]) [''a'', ''b'']
   = GetValue [(''a'', VMap [(''b'', VInt 3)])] [''a'', ''b'']"
  by (rule GetValueFromAny_extends) (simp add: sub_map_def)

end
