(* ===== verification/Objects.thy ===== *)
theory Objects
  imports Data
begin

section \<open>Kubernetes objects as the code sees them\<close>

text \<open>
  A \<open>runtime.Object\<close> is a record: its group, version and kind (\<open>GetObjectKind\<close>), the part that
  \<open>meta.Accessor\<close> gives access to (\<open>None\<close> for an object without metadata, where the call fails)
  and the rest of its content as an unstructured map. \<open>pkg/gvk/get.go\<close>, \<open>detect.go\<close> and the key
  type of \<open>pkg/objectset/objectset.go\<close> are here. The scheme that knows the Go types
  (\<open>schemes.All.ObjectKinds\<close>) is a parameter \<open>kinds\<close>. The text of a group-version-kind and of a
  group-version is the documented format of the \<open>schema\<close> package.
\<close>

subsection \<open>Group, version, kind\<close>

record gvk =
  g_group :: string
  g_version :: string
  g_kind :: string

record gk =
  gk_group :: string
  gk_kind :: string

definition mk_gvk :: "string \<Rightarrow> string \<Rightarrow> string \<Rightarrow> gvk" where
  "mk_gvk g v k = \<lparr>g_group = g, g_version = v, g_kind = k\<rparr>"

definition GroupKind :: "gvk \<Rightarrow> gk" where
  "GroupKind g = \<lparr>gk_group = g_group g, gk_kind = g_kind g\<rparr>"

definition gvk_String :: "gvk \<Rightarrow> string" where
  "gvk_String g = g_group g @ ''/'' @ g_version g @ '', Kind='' @ g_kind g"

definition gv_String :: "gvk \<Rightarrow> string" where
  "gv_String g = (if g_group g \<noteq> '''' then g_group g @ ''/'' @ g_version g else g_version g)"

definition gvk_zero :: gvk where
  "gvk_zero = mk_gvk '''' '''' ''''"

subsection \<open>Objects\<close>

record ownerref =
  or_apiVersion :: string
  or_kind :: string
  or_name :: string
  or_uid :: string
  or_controller :: "bool option"
  or_block :: "bool option"

record objmeta =
  m_namespace :: string
  m_name :: string
  m_uid :: string
  m_resourceVersion :: string
  m_generation :: "64 word"
  m_labels :: "(string \<times> string) list option"
  m_annotations :: "(string \<times> string) list option"
  m_ownerReferences :: "ownerref list"
  m_finalizers :: "string list"
  m_deletionTimestamp :: "string option"

record robj =
  o_gvk :: gvk
  o_meta :: "objmeta option"
  o_body :: gomap

text \<open>Reading a nil map of strings.\<close>

definition smap_get :: "(string \<times> string) list option \<Rightarrow> string \<Rightarrow> string" where
  "smap_get m k = (case m of None \<Rightarrow> '''' | Some m \<Rightarrow> (case map_of m k of None \<Rightarrow> '''' | Some v \<Rightarrow> v))"

definition Accessor :: "robj \<Rightarrow> objmeta result" where
  "Accessor obj = (case o_meta obj of
       None \<Rightarrow> Inl (Err ''object does not implement the Object interfaces'')
     | Some m \<Rightarrow> Inr m)"

definition set_meta :: "objmeta \<Rightarrow> robj \<Rightarrow> robj" where
  "set_meta m obj = obj\<lparr>o_meta := Some m\<rparr>"

subsection \<open>pkg/gvk\<close>

definition gvk_Get :: "(robj \<Rightarrow> gvk list result) \<Rightarrow> robj \<Rightarrow> gvk result" where
  "gvk_Get kinds obj =
     (if g_kind (o_gvk obj) \<noteq> '''' then Inr (o_gvk obj)
      else case kinds obj of
        Inl e \<Rightarrow> Inl (Wrap ''failed to find gvk, you may need to import the wrangler generated controller package'' e)
      | Inr gvks \<Rightarrow>
          if length gvks = 0 then Inl (Err ''failed to find gvk'')
          else Inr (gvks ! 0))"

definition setObject :: "(robj \<Rightarrow> gvk list result) \<Rightarrow> robj \<Rightarrow> robj result" where
  "setObject kinds obj =
     (if g_kind (o_gvk obj) \<noteq> '''' then Inr obj
      else case kinds obj of
        Inl e \<Rightarrow> Inl e
      | Inr gvks \<Rightarrow> if length gvks = 0 then Inr obj else Inr (obj\<lparr>o_gvk := gvks ! 0\<rparr>))"

text \<open>\<open>Set\<close> stops at the first error, with the objects before it already changed.\<close>

fun gvk_Set :: "(robj \<Rightarrow> gvk list result) \<Rightarrow> robj list \<Rightarrow> robj list \<times> goerr option" where
  "gvk_Set kinds [] = ([], None)"
| "gvk_Set kinds (obj # objs) =
     (case setObject kinds obj of
        Inl e \<Rightarrow> (obj # objs, Some e)
      | Inr obj' \<Rightarrow> (case gvk_Set kinds objs of (objs', e) \<Rightarrow> (obj' # objs', e)))"

subsection \<open>Object keys\<close>

datatype objkey = ObjectKey (k_name: string) (k_namespace: string)

definition key_of :: "objmeta \<Rightarrow> objkey" where
  "key_of m = ObjectKey (m_name m) (m_namespace m)"

definition objkey_String :: "objkey \<Rightarrow> string" where
  "objkey_String k =
     (if k_namespace k = '''' then k_name k else k_namespace k @ ''/'' @ k_name k)"

text \<open>Keys are compared field by field, the namespace first.\<close>

instantiation objkey :: linorder
begin

definition less_eq_objkey :: "objkey \<Rightarrow> objkey \<Rightarrow> bool" where
  "less_eq_objkey a b = (k_namespace a < k_namespace b
     \<or> (k_namespace a = k_namespace b \<and> k_name a \<le> k_name b))"

definition less_objkey :: "objkey \<Rightarrow> objkey \<Rightarrow> bool" where
  "less_objkey a b = (k_namespace a < k_namespace b
     \<or> (k_namespace a = k_namespace b \<and> k_name a < k_name b))"

instance
  by standard
    (auto simp: less_eq_objkey_def less_objkey_def intro: objkey.expand)

end

subsection \<open>Facts\<close>

lemma gvk_Get_kind: "g_kind (o_gvk obj) \<noteq> '''' \<Longrightarrow> gvk_Get kinds obj = Inr (o_gvk obj)"
  by (simp add: gvk_Get_def)

text \<open>The name in a Kubernetes object key has no slash; for such keys the text identifies the key.\<close>

lemma objkey_String_inj:
  assumes "CHR ''/'' \<notin> set (k_name a)" "CHR ''/'' \<notin> set (k_name b)"
    and "CHR ''/'' \<notin> set (k_namespace a)" "CHR ''/'' \<notin> set (k_namespace b)"
    and "objkey_String a = objkey_String b"
  shows "a = b"
proof -
  show ?thesis
  proof (cases "k_namespace a = '''' \<or> k_namespace b = ''''")
    case True
    with assms show ?thesis
      by (cases a; cases b) (auto simp: objkey_String_def split: if_splits)
  next
    case False
    with assms show ?thesis
      by (cases a; cases b) (simp add: objkey_String_def first_sep_unique)
  qed
qed

lemma smap_get_update: "smap_get (Some (AList.update k v m)) k' = (if k' = k then v else smap_get (Some m) k')"
  by (simp add: smap_get_def update_conv)

end
