(* ===== verification/Object_Set.thy ===== *)
theory Object_Set
  imports Objects
begin

section \<open>Object sets: pkg/objectset\<close>

text \<open>
  \<open>pkg/objectset/objectset.go\<close>: the objects a caller wants, indexed by
  group-version-kind and by group-kind, in the order in which they were added. Both indexes are
  two-level maps; what their users need to know is the locale \<open>object_index\<close>, interpreted
  on each of them. A nil object (or nil pointer) is \<open>None\<close>.
\<close>

type_synonym objbykey = "(objkey \<times> robj) list"
type_synonym objbygvk = "(gvk \<times> objbykey) list"
type_synonym objbygk = "(gk \<times> objbykey) list"
type_synonym kinds = "robj \<Rightarrow> gvk list result"

definition ByGVK_Add :: "kinds \<Rightarrow> objbygvk \<Rightarrow> robj \<Rightarrow> (gvk \<times> objbygvk) result" where
  "ByGVK_Add kinds m obj =
     (case Accessor obj of
        Inl e \<Rightarrow> Inl e
      | Inr metadata \<Rightarrow>
          (case gvk_Get kinds obj of
             Inl e \<Rightarrow> Inl e
           | Inr gvk \<Rightarrow>
               let objs = (case map_of m gvk of None \<Rightarrow> [] | Some objs \<Rightarrow> objs) in
               Inr (gvk, AList.update gvk (AList.update (key_of metadata) obj objs) m)))"

definition ByGK_Add :: "kinds \<Rightarrow> objbygk \<Rightarrow> robj \<Rightarrow> (gk \<times> objbygk) result" where
  "ByGK_Add kinds m obj =
     (case Accessor obj of
        Inl e \<Rightarrow> Inl e
      | Inr metadata \<Rightarrow>
          (case gvk_Get kinds obj of
             Inl e \<Rightarrow> Inl e
           | Inr gvk \<Rightarrow>
               let gk = GroupKind gvk;
                   objs = (case map_of m gk of None \<Rightarrow> [] | Some objs \<Rightarrow> objs) in
               Inr (gk, AList.update gk (AList.update (key_of metadata) obj objs) m)))"

record objectset =
  os_errs :: "goerr option list"
  os_objects :: objbygvk
  os_objectsByGK :: objbygk
  os_order :: "robj list"
  os_gvkOrder :: "gvk list"
  os_gvkSeen :: "(gvk \<times> bool) list"

definition os_new :: objectset where
  "os_new = \<lparr>os_errs = [], os_objects = [], os_objectsByGK = [], os_order = [], os_gvkOrder = [],
     os_gvkSeen = []\<rparr>"

definition os_AddErr :: "objectset \<Rightarrow> goerr option \<Rightarrow> objectset" where
  "os_AddErr os e = os\<lparr>os_errs := os_errs os @ [e]\<rparr>"

definition os_Err :: "objectset \<Rightarrow> goerr option" where
  "os_Err os = NewErrors (os_errs os)"

definition seen :: "(gvk \<times> bool) list \<Rightarrow> gvk \<Rightarrow> bool" where
  "seen m g = (case map_of m g of None \<Rightarrow> False | Some b \<Rightarrow> b)"

definition os_add :: "kinds \<Rightarrow> robj option \<Rightarrow> objectset \<Rightarrow> objectset" where
  "os_add kinds obj os =
     (case obj of
        None \<Rightarrow> os
      | Some obj \<Rightarrow>
          (case ByGVK_Add kinds (os_objects os) obj of
             Inl e \<Rightarrow> os_AddErr os (Some (Wrap ''failed to add'' e))
           | Inr (gvk, objects) \<Rightarrow>
               let os = os\<lparr>os_objects := objects\<rparr> in
               (case ByGK_Add kinds (os_objectsByGK os) obj of
                  Inl e \<Rightarrow> os_AddErr os (Some (Wrap ''failed to add'' e))
                | Inr (_, byGK) \<Rightarrow>
                    let os = os\<lparr>os_objectsByGK := byGK, os_order := os_order os @ [obj]\<rparr> in
                    if \<not> seen (os_gvkSeen os) gvk
                    then os\<lparr>os_gvkSeen := AList.update gvk True (os_gvkSeen os),
                            os_gvkOrder := os_gvkOrder os @ [gvk]\<rparr>
                    else os)))"

definition os_Add :: "kinds \<Rightarrow> robj option list \<Rightarrow> objectset \<Rightarrow> objectset" where
  "os_Add kinds objs os = fold (os_add kinds) objs os"

definition NewObjectSet :: "kinds \<Rightarrow> robj option list \<Rightarrow> objectset" where
  "NewObjectSet kinds objs = os_Add kinds objs os_new"

definition ObjectsByGVK :: "objectset option \<Rightarrow> objbygvk" where
  "ObjectsByGVK os = (case os of None \<Rightarrow> [] | Some os \<Rightarrow> os_objects os)"

definition os_Contains :: "objectset \<Rightarrow> gk \<Rightarrow> objkey \<Rightarrow> bool" where
  "os_Contains os gk key =
     (case map_of (os_objectsByGK os) gk of None \<Rightarrow> False | Some m \<Rightarrow> map_of m key \<noteq> None)"

definition os_All :: "objectset \<Rightarrow> robj list" where
  "os_All os = os_order os"

definition os_Len :: "objectset \<Rightarrow> nat" where
  "os_Len os = length (os_objects os)"

definition GVKOrder :: "objectset \<Rightarrow> gvk list \<Rightarrow> gvk list" where
  "GVKOrder os known =
     (let rest = filter (\<lambda>g. \<not> seen (os_gvkSeen os) g) known in
      os_gvkOrder os @ sort_key gvk_String rest)"

definition os_GVKs :: "objectset \<Rightarrow> gvk list" where
  "os_GVKs os = GVKOrder os []"

definition ByKey_Namespaces :: "objbykey \<Rightarrow> string list" where
  "ByKey_Namespaces m =
     ss_Values (fold (\<lambda>k s. ss_Add s [k_namespace k]) (map fst m) ss_empty)"

definition os_Namespaces :: "objectset \<Rightarrow> string list" where
  "os_Namespaces os =
     ss_Values (fold (\<lambda>k s. ss_Add s [k_namespace k])
       (concat (map (\<lambda>(g, m). map fst m) (os_objects os))) ss_empty)"

subsection \<open>The contract of an index of objects\<close>

locale object_index =
  fixes ins :: "'m \<Rightarrow> robj \<Rightarrow> ('g \<times> 'm) result" and look :: "'m \<Rightarrow> 'g \<Rightarrow> objkey \<Rightarrow> robj option"
    and key :: "robj \<Rightarrow> ('g \<times> objkey) option"
  assumes ins_ok: "key obj = Some (g, k) \<Longrightarrow> \<exists>m'. ins m obj = Inr (g, m')
      \<and> (\<forall>g' k'. look m' g' k' = (if g' = g \<and> k' = k then Some obj else look m g' k'))"
    and ins_err: "key obj = None \<Longrightarrow> \<exists>e. ins m obj = Inl e"
begin

text \<open>Adding a list of objects, the ones that cannot be added left out.\<close>

definition put :: "robj \<Rightarrow> 'm \<Rightarrow> 'm" where
  "put obj m = (case ins m obj of Inl _ \<Rightarrow> m | Inr (g, m') \<Rightarrow> m')"

lemma look_put: "look (put obj m) g k = (if key obj = Some (g, k) then Some obj else look m g k)"
proof (cases "key obj")
  case None
  with ins_err[of obj m] show ?thesis by (auto simp: put_def)
next
  case (Some gk)
  obtain g' k' where gk: "gk = (g', k')" by (cases gk)
  with Some ins_ok[of obj g' k' m] show ?thesis by (auto simp: put_def)
qed

text \<open>The last object added under a key is the one found.\<close>

lemma look_puts:
  "look (fold put objs m) g k =
     (case List.find (\<lambda>obj. key obj = Some (g, k)) (rev objs) of
        Some obj \<Rightarrow> Some obj | None \<Rightarrow> look m g k)"
proof (induction objs arbitrary: m)
  case (Cons obj objs)
  have f: "List.find P (xs @ [x]) = (case List.find P xs of Some y \<Rightarrow> Some y
      | None \<Rightarrow> if P x then Some x else None)" for P :: "robj \<Rightarrow> bool" and xs x
    by (induction xs) auto
  show ?case by (simp add: Cons.IH look_put f split: option.splits)
qed simp

end

definition gvk_key :: "kinds \<Rightarrow> robj \<Rightarrow> (gvk \<times> objkey) option" where
  "gvk_key kinds obj =
     (case (o_meta obj, gvk_Get kinds obj) of
        (Some m, Inr g) \<Rightarrow> Some (g, key_of m) | _ \<Rightarrow> None)"

definition gk_key :: "kinds \<Rightarrow> robj \<Rightarrow> (gk \<times> objkey) option" where
  "gk_key kinds obj = map_option (\<lambda>(g, k). (GroupKind g, k)) (gvk_key kinds obj)"

definition look2 :: "('g \<times> objbykey) list \<Rightarrow> 'g \<Rightarrow> objkey \<Rightarrow> robj option" where
  "look2 m g k = (case map_of m g of None \<Rightarrow> None | Some m' \<Rightarrow> map_of m' k)"

lemma look2_Nil [simp]: "look2 [] g k = None"
  by (simp add: look2_def)

lemma look2_update:
  "look2 (AList.update g (AList.update k obj (case map_of m g of None \<Rightarrow> [] | Some x \<Rightarrow> x)) m) g' k'
   = (if g' = g \<and> k' = k then Some obj else look2 m g' k')"
  by (simp add: look2_def update_conv' split: option.splits)

interpretation byGVK: object_index "ByGVK_Add kinds" look2 "gvk_key kinds" for kinds
  by unfold_locales
    (auto simp: ByGVK_Add_def gvk_key_def Accessor_def look2_update Let_def
      split: option.splits sum.splits)

interpretation byGK: object_index "ByGK_Add kinds" look2 "gk_key kinds" for kinds
  by unfold_locales
    (auto simp: ByGK_Add_def gk_key_def gvk_key_def Accessor_def look2_update Let_def
      split: option.splits sum.splits)

subsection \<open>What a set holds after adding\<close>

definition addable :: "kinds \<Rightarrow> robj option list \<Rightarrow> robj list" where
  "addable kinds objs = filter (\<lambda>obj. gvk_key kinds obj \<noteq> None) (List.map_filter id objs)"

lemma addable_simps [simp]:
  "addable kinds [] = []"
  "addable kinds (None # objs) = addable kinds objs"
  "addable kinds (Some obj # objs) =
     (if gvk_key kinds obj = None then addable kinds objs else obj # addable kinds objs)"
  by (simp_all add: addable_def List.map_filter_simps)

lemma gk_key_gvk_key:
  "gk_key kinds obj = Some (gk, k) \<longleftrightarrow> (\<exists>g. gvk_key kinds obj = Some (g, k) \<and> gk = GroupKind g)"
  by (auto simp: gk_key_def)

lemma os_add_invalid:
  "gvk_key kinds obj = None \<Longrightarrow> \<exists>e. os_add kinds (Some obj) os = os_AddErr os (Some e)"
  using byGVK.ins_err[of kinds obj "os_objects os"] by (auto simp: os_add_def)

lemma os_add_valid:
  assumes "gvk_key kinds obj = Some (g, k)"
  shows "os_add kinds (Some obj) os =
    (let os' = os\<lparr>os_objects := byGVK.put kinds obj (os_objects os),
           os_objectsByGK := byGK.put kinds obj (os_objectsByGK os), os_order := os_order os @ [obj]\<rparr> in
     if seen (os_gvkSeen os) g then os'
     else os'\<lparr>os_gvkSeen := AList.update g True (os_gvkSeen os), os_gvkOrder := os_gvkOrder os @ [g]\<rparr>)"
proof -
  from byGVK.ins_ok[OF assms, of "os_objects os"] obtain m where
    "ByGVK_Add kinds (os_objects os) obj = Inr (g, m)" by blast
  moreover from assms have "gk_key kinds obj = Some (GroupKind g, k)"
    by (simp add: gk_key_def)
  from byGK.ins_ok[OF this, of "os_objectsByGK os"] obtain m' where
    "ByGK_Add kinds (os_objectsByGK os) obj = Inr (GroupKind g, m')" by blast
  ultimately show ?thesis
    by (simp add: os_add_def byGVK.put_def byGK.put_def Let_def)
qed

definition os_inv :: "objectset \<Rightarrow> bool" where
  "os_inv os = (distinct (os_gvkOrder os)
     \<and> (\<forall>g. seen (os_gvkSeen os) g = (g \<in> set (os_gvkOrder os))))"

lemma os_inv_new: "os_inv os_new"
  by (simp add: os_inv_def os_new_def seen_def)

lemma os_Add_fields:
  "os_order (os_Add kinds objs os) = os_order os @ addable kinds objs
   \<and> os_objects (os_Add kinds objs os) = fold (byGVK.put kinds) (addable kinds objs) (os_objects os)
   \<and> os_objectsByGK (os_Add kinds objs os)
       = fold (byGK.put kinds) (addable kinds objs) (os_objectsByGK os)"
proof (induction objs arbitrary: os)
  case (Cons x objs)
  show ?case
  proof (cases "x = None \<or> gvk_key kinds (the x) = None")
    case True
    then show ?thesis
      using Cons.IH os_add_invalid[of kinds "the x" os]
      by (cases x) (auto simp: os_Add_def os_add_def os_AddErr_def)
  next
    case False
    then obtain obj g k where "x = Some obj" "gvk_key kinds obj = Some (g, k)" by auto
    with Cons.IH show ?thesis by (simp add: os_Add_def os_add_valid Let_def)
  qed
qed (simp add: os_Add_def)

lemma os_Add_order:
  assumes "os_inv os"
  shows "os_inv (os_Add kinds objs os)
    \<and> set (os_gvkOrder (os_Add kinds objs os))
      = set (os_gvkOrder os) \<union> {g. \<exists>obj \<in> set (addable kinds objs). \<exists>k. gvk_key kinds obj = Some (g, k)}
    \<and> prefix (os_gvkOrder os) (os_gvkOrder (os_Add kinds objs os))"
  using assms
proof (induction objs arbitrary: os)
  case (Cons x objs)
  show ?case
  proof (cases "x = None \<or> gvk_key kinds (the x) = None")
    case True
    then have "os_inv (os_add kinds x os) \<and> os_gvkOrder (os_add kinds x os) = os_gvkOrder os
      \<and> addable kinds (x # objs) = addable kinds objs"
      using Cons.prems os_add_invalid[of kinds "the x" os]
      by (cases x) (auto simp: os_add_def os_AddErr_def os_inv_def)
    with Cons.IH[of "os_add kinds x os"] show ?thesis by (simp add: os_Add_def)
  next
    case False
    then obtain obj g k where x: "x = Some obj" "gvk_key kinds obj = Some (g, k)" by auto
    let ?os = "os_add kinds x os"
    have s: "os_inv ?os \<and> set (os_gvkOrder ?os) = insert g (set (os_gvkOrder os))
        \<and> prefix (os_gvkOrder os) (os_gvkOrder ?os)"
      using Cons.prems x by (auto simp: os_add_valid Let_def os_inv_def seen_def map_of_update)
    moreover have "set (os_gvkOrder (os_Add kinds objs ?os)) = set (os_gvkOrder ?os)
        \<union> {g. \<exists>obj \<in> set (addable kinds objs). \<exists>k. gvk_key kinds obj = Some (g, k)}"
      "os_inv (os_Add kinds objs ?os)" "prefix (os_gvkOrder ?os) (os_gvkOrder (os_Add kinds objs ?os))"
      using Cons.IH[of ?os] s by blast+
    ultimately show ?thesis
      using x prefix_order.trans[of "os_gvkOrder os" "os_gvkOrder ?os"]
      by (auto simp: os_Add_def)
  qed
qed (simp add: os_Add_def)

lemma os_Add_errs:
  "\<exists>es. os_errs (os_Add kinds objs os) = os_errs os @ map Some es
    \<and> length es = length (filter (\<lambda>obj. obj \<noteq> None \<and> gvk_key kinds (the obj) = None) objs)"
proof (induction objs arbitrary: os)
  case (Cons x objs)
  obtain es where es: "os_errs (os_Add kinds objs (os_add kinds x os))
      = os_errs (os_add kinds x os) @ map Some es"
    "length es = length (filter (\<lambda>obj. obj \<noteq> None \<and> gvk_key kinds (the obj) = None) objs)"
    using Cons.IH[of "os_add kinds x os"] by blast
  consider "x = None" | obj e where "x = Some obj" "gvk_key kinds obj = None"
      "os_add kinds x os = os_AddErr os (Some e)"
    | obj g k where "x = Some obj" "gvk_key kinds obj = Some (g, k)"
    using os_add_invalid[of kinds "the x" os] by (cases x) fastforce+
  then show ?case
  proof cases
    case 1 with es show ?thesis by (auto simp: os_Add_def os_add_def)
  next
    case 2 with es show ?thesis by (auto simp: os_Add_def os_AddErr_def intro!: exI[of _ "e # es"])
  next
    case 3 with es show ?thesis by (auto simp: os_Add_def os_add_valid Let_def)
  qed
qed (simp add: os_Add_def)

lemma gvks_of_collected:
  "look2 (os_objects (NewObjectSet kinds objs)) g k
   = List.find (\<lambda>obj. gvk_key kinds obj = Some (g, k)) (rev (addable kinds objs))"
  by (simp add: NewObjectSet_def os_Add_fields byGVK.look_puts os_new_def split: option.splits)

lemma Contains_collected:
  "os_Contains (NewObjectSet kinds objs) gk k
   \<longleftrightarrow> (\<exists>obj \<in> set (addable kinds objs). gk_key kinds obj = Some (gk, k))"
proof -
  have "os_Contains os gk k = (look2 (os_objectsByGK os) gk k \<noteq> None)" for os
    by (simp add: os_Contains_def look2_def split: option.splits)
  then show ?thesis
    by (auto simp: NewObjectSet_def os_Add_fields byGK.look_puts os_new_def find_None_iff
        split: option.splits dest!: find_Some_iff[THEN iffD1] nth_mem)
qed

lemma set_addable: "set (addable kinds objs) = {obj. Some obj \<in> set objs \<and> gvk_key kinds obj \<noteq> None}"
  by (force simp: addable_def List.map_filter_def)

text \<open>An object set built from a list of objects holds exactly the objects of the list that
  have metadata and a kind, in their order; nil objects are skipped, and for each other one an
  error is recorded, so Err is nil exactly when every non-nil object could be added. A
  lookup by group-version-kind and key finds the last object added under it, Contains answers for
  the group-kind whatever the version, and the order of kinds lists each kind present
  once.\<close>

theorem NewObjectSet_spec:
  "os_All (NewObjectSet kinds objs) = addable kinds objs
   \<and> (os_Err (NewObjectSet kinds objs) = None) = (\<forall>obj. Some obj \<in> set objs \<longrightarrow> gvk_key kinds obj \<noteq> None)
   \<and> look2 (os_objects (NewObjectSet kinds objs)) g k
       = List.find (\<lambda>obj. gvk_key kinds obj = Some (g, k)) (rev (addable kinds objs))
   \<and> os_Contains (NewObjectSet kinds objs) gk k
       = (\<exists>obj. Some obj \<in> set objs \<and> gk_key kinds obj = Some (gk, k))
   \<and> distinct (os_GVKs (NewObjectSet kinds objs))
   \<and> set (os_GVKs (NewObjectSet kinds objs)) = {g. \<exists>obj k. Some obj \<in> set objs \<and> gvk_key kinds obj = Some (g, k)}"
proof -
  let ?os = "NewObjectSet kinds objs"
  obtain es where es: "os_errs ?os = map Some es"
    "length es = length (filter (\<lambda>obj. obj \<noteq> None \<and> gvk_key kinds (the obj) = None) objs)"
    using os_Add_errs[of kinds objs os_new] by (auto simp: NewObjectSet_def os_new_def)
  have "(os_Err ?os = None) = (es = [])" by (simp add: os_Err_def es(1))
  also have "\<dots> = (filter (\<lambda>obj. obj \<noteq> None \<and> gvk_key kinds (the obj) = None) objs = [])"
    by (simp only: length_0_conv[symmetric] es(2))
  also have "\<dots> = (\<forall>obj. Some obj \<in> set objs \<longrightarrow> gvk_key kinds obj \<noteq> None)"
    unfolding filter_empty_conv by (metis option.collapse option.sel option.discI)
  finally have "(os_Err ?os = None) = (\<forall>obj. Some obj \<in> set objs \<longrightarrow> gvk_key kinds obj \<noteq> None)" .
  moreover have "os_inv ?os" "set (os_gvkOrder ?os)
      = {g. \<exists>obj \<in> set (addable kinds objs). \<exists>k. gvk_key kinds obj = Some (g, k)}"
    using os_Add_order[OF os_inv_new, of kinds objs] by (auto simp: NewObjectSet_def os_new_def)
  moreover have "os_All ?os = addable kinds objs"
    using os_Add_fields[of kinds objs os_new] by (simp add: NewObjectSet_def os_All_def os_new_def)
  ultimately show ?thesis
    using gvks_of_collected[of kinds objs g k] Contains_collected[of kinds objs gk k]
    by (auto simp: os_GVKs_def GVKOrder_def os_inv_def set_addable gk_key_gvk_key)
qed

theorem NewObjectSet_spec_witness:
  "os_All (NewObjectSet (\<lambda>_. Inl (Err ''unknown'')) [None, Some \<lparr>o_gvk = mk_gvk '''' ''v1'' ''Pod'', o_meta = None, o_body = []\<rparr>])
     = []
   \<and> os_Err (NewObjectSet (\<lambda>_. Inl (Err ''unknown'')) [None, Some \<lparr>o_gvk = mk_gvk '''' ''v1'' ''Pod'', o_meta = None, o_body = []\<rparr>])
     \<noteq> None"
  using NewObjectSet_spec[of "\<lambda>_. Inl (Err ''unknown'')"
      "[None, Some \<lparr>o_gvk = mk_gvk '''' ''v1'' ''Pod'', o_meta = None, o_body = []\<rparr>]"]
  by (auto simp: gvk_key_def)

lemma seen_order: "os_inv os \<Longrightarrow> seen (os_gvkSeen os) g = (g \<in> set (os_gvkOrder os))"
  by (simp add: os_inv_def)

text \<open>The order in which apply works through the kinds starts with the kinds of the set, in
  the order in which they were first added, followed by the other known kinds sorted by their
  text: each kind occurs once and none is missing.\<close>

theorem GVKOrder_spec:
  assumes "distinct known"
  shows "distinct (GVKOrder (NewObjectSet kinds objs) known)
    \<and> set (GVKOrder (NewObjectSet kinds objs) known) = set (os_GVKs (NewObjectSet kinds objs)) \<union> set known
    \<and> (\<exists>rest. GVKOrder (NewObjectSet kinds objs) known = os_GVKs (NewObjectSet kinds objs) @ rest
         \<and> sorted (map gvk_String rest))"
proof -
  have "os_inv (NewObjectSet kinds objs)"
    using os_Add_order[OF os_inv_new] by (simp add: NewObjectSet_def)
  with assms show ?thesis
    by (auto simp: GVKOrder_def os_GVKs_def os_inv_def)
qed

theorem GVKOrder_spec_witness:
  "set (GVKOrder (NewObjectSet (\<lambda>_. Inr []) []) [mk_gvk '''' ''v1'' ''Pod'', mk_gvk '''' ''v1'' ''ConfigMap''])
   = {mk_gvk '''' ''v1'' ''Pod'', mk_gvk '''' ''v1'' ''ConfigMap''}"
  using GVKOrder_spec[of "[mk_gvk '''' ''v1'' ''Pod'', mk_gvk '''' ''v1'' ''ConfigMap'']"]
    NewObjectSet_spec[of "\<lambda>_. Inr []" "[]"]
  by (auto simp: mk_gvk_def)

lemma ByKey_Namespaces_spec:
  "distinct (ByKey_Namespaces m) \<and> set (ByKey_Namespaces m) = k_namespace ` fst ` set m"
  using sset.elems_collect[of k_namespace "map fst m"] by (simp add: ByKey_Namespaces_def)

end
