(* ===== verification/Apply_Env.thy ===== *)
theory Apply_Env
  imports Object_Set
begin

section \<open>apply: the surroundings and the options\<close>

text \<open>
  What \<open>pkg/apply\<close> talks to, and the state it carries. The API server, discovery, the informers
  and their caches, the injectors, the user's patchers and reconcilers, the JSON codec, gzip and
  the patch calculators of apimachinery are not part of the repository: they are the fields of
  \<open>env\<close>. An answer of the outside may depend on everything that was asked before: it is a
  function of the trace of calls (\<open>s_calls\<close>), the current call last. So an \<open>env\<close> is an
  arbitrary outside world, other clients included. \<open>pkg/apply/apply.go\<close> (clients and their cache) and
  \<open>desiredset.go\<close> (the options) are defined here.
\<close>

record gvr =
  r_group :: string
  r_version :: string
  r_resource :: string

record apiresource =
  ar_name :: string
  ar_kind :: string
  ar_namespaced :: bool

datatype patchtype = JSONPatchType | MergePatchType | StrategicMergePatchType

text \<open>Which object a request is about: the resource, the namespace if the client was narrowed to
  one, and the name.\<close>

datatype call =
    CDiscover string
  | CInformer gvk
  | CCreate gvr "string option" robj
  | CGet gvr "string option" string
  | CDelete gvr "string option" string
  | CPatch gvr "string option" string patchtype string
  | CUserPatch nat string string patchtype string
  | CReconcile nat robj robj
  | CList gvr "string option" string
  | CCacheList nat string string
  | CCacheGet nat string
  | CIndex nat string

record env =
  e_kinds :: kinds
  a_discover :: "call list \<Rightarrow> apiresource list result"
  a_factory :: "gvr \<Rightarrow> goerr option"
  a_informer :: "call list \<Rightarrow> nat option result"
  a_create :: "call list \<Rightarrow> goerr option"
  a_get :: "call list \<Rightarrow> robj result"
  a_delete :: "call list \<Rightarrow> goerr option"
  a_patch :: "call list \<Rightarrow> goerr option"
  a_reconcile :: "call list \<Rightarrow> bool result"
  a_list :: "call list \<Rightarrow> robj list result"
  a_cachelist :: "call list \<Rightarrow> robj list \<times> goerr option"
  a_cacheget :: "call list \<Rightarrow> robj option option result"
  a_index :: "call list \<Rightarrow> robj list result"
  a_addIndexers :: "nat \<Rightarrow> goerr option"
  e_range :: "objkey list \<Rightarrow> objkey list"
  e_inject :: "nat \<Rightarrow> robj list \<Rightarrow> robj list result"
  e_injectorByName :: "string \<Rightarrow> nat option"
  e_sha1hex :: "string \<Rightarrow> string"
  e_isUnstructured :: "robj \<Rightarrow> bool"
  e_encodeToMap :: "robj \<Rightarrow> gomap result"
  e_fromMap :: "gomap \<Rightarrow> robj"
  e_marshalObj :: "robj \<Rightarrow> string result"
  e_marshal :: "gomap \<Rightarrow> string result"
  e_unmarshal :: "string \<Rightarrow> gomap result"
  e_gzip :: "string \<Rightarrow> string option"
  e_gunzip :: "string \<Rightarrow> string option"
  e_b64enc :: "string \<Rightarrow> string"
  e_b64dec :: "string \<Rightarrow> string option"
  e_decodePatch :: "string \<Rightarrow> (string \<Rightarrow> string result) result"
  e_strategic :: "string \<Rightarrow> string \<Rightarrow> string \<Rightarrow> nat option \<Rightarrow> string result"
  e_jsonmerge :: "string \<Rightarrow> string \<Rightarrow> string \<Rightarrow> string result"
  e_mergeStyle :: "gvk \<Rightarrow> (patchtype \<times> nat option) result"

subsection \<open>The state of a run\<close>

record clients =
  cl_namespaced :: "(gvk \<times> bool) list"
  cl_gvkToGVR :: "(gvk \<times> gvr) list"
  cl_clients :: "(gvk \<times> gvr) list"

record plan =
  p_Create :: "(gvk \<times> objkey list) list"
  p_Delete :: "(gvk \<times> objkey list) list"
  p_Update :: "(gvk \<times> (objkey \<times> string) list) list"
  p_Objects :: "robj list"

record st =
  s_calls :: "call list"
  s_clients :: clients
  s_errs :: "goerr option list"
  s_plan :: plan
  s_rls :: "string list"

definition api :: "call \<Rightarrow> st \<Rightarrow> st" where
  "api c s = s\<lparr>s_calls := s_calls s @ [c]\<rparr>"

definition add_err :: "goerr \<Rightarrow> st \<Rightarrow> st" where
  "add_err e s = s\<lparr>s_errs := s_errs s @ [Some e]\<rparr>"

definition PatchByGVK_Add ::
    "(gvk \<times> (objkey \<times> string) list) list \<Rightarrow> gvk \<Rightarrow> string \<Rightarrow> string \<Rightarrow> string
     \<Rightarrow> (gvk \<times> (objkey \<times> string) list) list" where
  "PatchByGVK_Add p gvk namespace name patch =
     (let d = (case map_of p gvk of None \<Rightarrow> [] | Some d \<Rightarrow> d) in
      AList.update gvk (AList.update (ObjectKey name namespace) patch d) p)"

subsection \<open>Clients\<close>

definition WithResource :: "gvk \<Rightarrow> string \<Rightarrow> gvr" where
  "WithResource gvk r = \<lparr>r_group = g_group gvk, r_version = g_version gvk, r_resource = r\<rparr>"

definition clients_client :: "env \<Rightarrow> gvk \<Rightarrow> st \<Rightarrow> gvr result \<times> st" where
  "clients_client env gvk s =
     (case map_of (cl_clients (s_clients s)) gvk of
        Some client \<Rightarrow> (Inr client, s)
      | None \<Rightarrow>
          let s = api (CDiscover (gv_String gvk)) s in
          (case a_discover env (s_calls s) of
             Inl e \<Rightarrow> (Inl e, s)
           | Inr resources \<Rightarrow>
               (case List.find (\<lambda>r. ar_kind r = g_kind gvk) resources of
                  None \<Rightarrow> (Inl (Err (''failed to discover client for '' @ gvk_String gvk)), s)
                | Some r \<Rightarrow>
                    let gvr = WithResource gvk (ar_name r) in
                    (case a_factory env gvr of
                       Some e \<Rightarrow> (Inl e, s)
                     | None \<Rightarrow>
                         (Inr gvr,
                          s\<lparr>s_clients :=
                             \<lparr>cl_namespaced = AList.update gvk (ar_namespaced r) (cl_namespaced (s_clients s)),
                              cl_gvkToGVR = AList.update gvk gvr (cl_gvkToGVR (s_clients s)),
                              cl_clients = AList.update gvk gvr (cl_clients (s_clients s))\<rparr>\<rparr>)))))"

definition IsNamespaced :: "env \<Rightarrow> gvk \<Rightarrow> st \<Rightarrow> bool result \<times> st" where
  "IsNamespaced env gvk s =
     (case map_of (cl_namespaced (s_clients s)) gvk of
        Some b \<Rightarrow> (Inr b, s)
      | None \<Rightarrow>
          (case clients_client env gvk s of
             (Inl e, s) \<Rightarrow> (Inl e, s)
           | (Inr _, s) \<Rightarrow>
               (Inr (case map_of (cl_namespaced (s_clients s)) gvk of None \<Rightarrow> False | Some b \<Rightarrow> b), s)))"

definition clients_gvr :: "gvk \<Rightarrow> st \<Rightarrow> gvr" where
  "clients_gvr gvk s =
     (case map_of (cl_gvkToGVR (s_clients s)) gvk of
        None \<Rightarrow> \<lparr>r_group = '''', r_version = '''', r_resource = ''''\<rparr> | Some r \<Rightarrow> r)"

subsection \<open>The options of a desired set\<close>

datatype patchkey = PatchKey gvk objkey

record desiredset =
  ds_informers :: "(gvk \<times> nat option) list"
  ds_defaultNamespace :: string
  ds_listerNamespace :: string
  ds_ignorePreviousApplied :: bool
  ds_setOwnerReference :: bool
  ds_ownerReferenceController :: bool
  ds_ownerReferenceBlock :: bool
  ds_strictCaching :: bool
  ds_restrictClusterScoped :: bool
  ds_pruneTypes :: "(gvk \<times> nat option) list"
  ds_patchers :: "(gvk \<times> nat) list"
  ds_reconcilers :: "(gvk \<times> nat) list"
  ds_diffPatches :: "(patchkey \<times> string list) list"
  ds_informerFactory :: bool
  ds_remove :: bool
  ds_noDelete :: bool
  ds_noDeleteGVK :: "gvk list"
  ds_setID :: string
  ds_objs :: "objectset option"
  ds_owner :: "robj option"
  ds_injectors :: "nat option list"
  ds_injectorNames :: "string list"
  ds_createPlan :: bool
  ds_indexed :: "nat list"

text \<open>\<open>newDesiredSet\<close>, with the reconcilers that are registered by default.\<close>

definition newDesiredSet :: "(gvk \<times> nat option) list \<Rightarrow> (gvk \<times> nat) list \<Rightarrow> nat list \<Rightarrow> desiredset" where
  "newDesiredSet informers defaultReconcilers indexed =
     \<lparr>ds_informers = informers, ds_defaultNamespace = ''default'', ds_listerNamespace = '''',
      ds_ignorePreviousApplied = False, ds_setOwnerReference = False,
      ds_ownerReferenceController = False, ds_ownerReferenceBlock = False, ds_strictCaching = True,
      ds_restrictClusterScoped = False, ds_pruneTypes = [], ds_patchers = [],
      ds_reconcilers = defaultReconcilers, ds_diffPatches = [], ds_informerFactory = False,
      ds_remove = False, ds_noDelete = False, ds_noDeleteGVK = [], ds_setID = '''', ds_objs = None,
      ds_owner = None, ds_injectors = [], ds_injectorNames = [], ds_createPlan = False,
      ds_indexed = indexed\<rparr>"

definition WithDiffPatch :: "gvk \<Rightarrow> string \<Rightarrow> string \<Rightarrow> string \<Rightarrow> desiredset \<Rightarrow> desiredset" where
  "WithDiffPatch gvk namespace name patch ds =
     (let key = PatchKey gvk (ObjectKey name namespace);
          old = (case map_of (ds_diffPatches ds) key of None \<Rightarrow> [] | Some ps \<Rightarrow> ps) in
      ds\<lparr>ds_diffPatches := AList.update key (old @ [patch]) (ds_diffPatches ds)\<rparr>)"

definition WithGVK :: "gvk list \<Rightarrow> desiredset \<Rightarrow> desiredset" where
  "WithGVK gvks ds =
     ds\<lparr>ds_pruneTypes := fold (\<lambda>gvk m. AList.update gvk None m) gvks (ds_pruneTypes ds)\<rparr>"

definition WithOwnerKey :: "string \<Rightarrow> gvk \<Rightarrow> desiredset \<Rightarrow> desiredset" where
  "WithOwnerKey key gvk ds =
     (case kv_RSplit key ''/'' of (ns, name) \<Rightarrow>
        ds\<lparr>ds_owner := Some \<lparr>o_gvk = gvk,
          o_meta = Some \<lparr>m_namespace = ns, m_name = name, m_uid = '''', m_resourceVersion = '''',
            m_generation = 0, m_labels = None, m_annotations = None, m_ownerReferences = [],
            m_finalizers = [], m_deletionTimestamp = None\<rparr>, o_body = []\<rparr>\<rparr>)"

definition WithSetOwnerReference :: "bool \<Rightarrow> bool \<Rightarrow> desiredset \<Rightarrow> desiredset" where
  "WithSetOwnerReference controller block ds =
     ds\<lparr>ds_setOwnerReference := True, ds_ownerReferenceController := controller,
        ds_ownerReferenceBlock := block\<rparr>"

definition WithInjector :: "nat option list \<Rightarrow> desiredset \<Rightarrow> desiredset" where
  "WithInjector injs ds = ds\<lparr>ds_injectors := ds_injectors ds @ injs\<rparr>"

definition WithInjectorName :: "string list \<Rightarrow> desiredset \<Rightarrow> desiredset" where
  "WithInjectorName injs ds = ds\<lparr>ds_injectorNames := ds_injectorNames ds @ injs\<rparr>"

text \<open>\<open>addIndexerByHash\<close> adds the hash index to an informer once; the desired set carries the
  informers known to be indexed.\<close>

definition addIndexerByHash :: "env \<Rightarrow> nat \<Rightarrow> nat list \<Rightarrow> nat list \<times> goerr option" where
  "addIndexerByHash env i indexed =
     (if i \<in> set indexed
      then (indexed, Some (Wrap ''adding indexer'' (Err ''an indexer with the same already exists'')))
      else case a_addIndexers env i of
        Some e \<Rightarrow> (indexed, Some e)
      | None \<Rightarrow> (i # indexed, None))"

text \<open>The index function that \<open>addIndexerByHash\<close> registers.\<close>

definition LabelHash :: string where
  "LabelHash = ''objectset.rio.cattle.io/hash''"

definition hash_index :: "robj \<Rightarrow> string list result" where
  "hash_index obj =
     (case Accessor obj of
        Inl e \<Rightarrow> Inl e
      | Inr metadata \<Rightarrow>
          if m_labels metadata = None \<or> smap_get (m_labels metadata) LabelHash = '''' then Inr []
          else Inr [smap_get (m_labels metadata) LabelHash])"

definition WithCacheTypes :: "env \<Rightarrow> (gvk \<times> nat) list \<Rightarrow> desiredset \<Rightarrow> desiredset" where
  "WithCacheTypes env igs ds =
     (case fold (\<lambda>(gvk, i) (m, ix). (AList.update gvk (Some i) m, fst (addIndexerByHash env i ix)))
        igs (ds_pruneTypes ds, ds_indexed ds) of
        (m, ix) \<Rightarrow> ds\<lparr>ds_pruneTypes := m, ds_indexed := ix\<rparr>)"

definition WithPatcher :: "gvk \<Rightarrow> nat \<Rightarrow> desiredset \<Rightarrow> desiredset" where
  "WithPatcher gvk p ds = ds\<lparr>ds_patchers := AList.update gvk p (ds_patchers ds)\<rparr>"

definition WithReconciler :: "gvk \<Rightarrow> nat \<Rightarrow> desiredset \<Rightarrow> desiredset" where
  "WithReconciler gvk r ds = ds\<lparr>ds_reconcilers := AList.update gvk r (ds_reconcilers ds)\<rparr>"

definition WithDefaultNamespace :: "string \<Rightarrow> desiredset \<Rightarrow> desiredset" where
  "WithDefaultNamespace ns ds = ds\<lparr>ds_defaultNamespace := (if ns = '''' then ''default'' else ns)\<rparr>"

definition WithNoDeleteGVK :: "gvk list \<Rightarrow> desiredset \<Rightarrow> desiredset" where
  "WithNoDeleteGVK gvks ds =
     ds\<lparr>ds_noDeleteGVK := fold (\<lambda>g xs. List.insert g xs) gvks (ds_noDeleteGVK ds)\<rparr>"

definition WithSetID :: "string \<Rightarrow> desiredset \<Rightarrow> desiredset" where
  "WithSetID setID ds = ds\<lparr>ds_setID := setID\<rparr>"

definition WithOwner :: "robj \<Rightarrow> desiredset \<Rightarrow> desiredset" where
  "WithOwner obj ds = ds\<lparr>ds_owner := Some obj\<rparr>"

definition WithCacheTypeFactory :: "bool \<Rightarrow> desiredset \<Rightarrow> desiredset" where
  "WithCacheTypeFactory factory ds = ds\<lparr>ds_informerFactory := factory\<rparr>"

definition WithIgnorePreviousApplied :: "desiredset \<Rightarrow> desiredset" where
  "WithIgnorePreviousApplied ds = ds\<lparr>ds_ignorePreviousApplied := True\<rparr>"

definition WithStrictCaching :: "desiredset \<Rightarrow> desiredset" where
  "WithStrictCaching ds = ds\<lparr>ds_strictCaching := True\<rparr>"

definition WithDynamicLookup :: "desiredset \<Rightarrow> desiredset" where
  "WithDynamicLookup ds = ds\<lparr>ds_strictCaching := False\<rparr>"

definition WithRestrictClusterScoped :: "desiredset \<Rightarrow> desiredset" where
  "WithRestrictClusterScoped ds = ds\<lparr>ds_restrictClusterScoped := True\<rparr>"

definition WithListerNamespace :: "string \<Rightarrow> desiredset \<Rightarrow> desiredset" where
  "WithListerNamespace ns ds = ds\<lparr>ds_listerNamespace := ns\<rparr>"

definition WithNoDelete :: "desiredset \<Rightarrow> desiredset" where
  "WithNoDelete ds = ds\<lparr>ds_noDelete := True\<rparr>"

subsection \<open>A sample world\<close>

text \<open>A closed environment for concrete inputs: every kind is served by one namespaced resource,
  every request succeeds and finds nothing, the range order is the order of the list, and the
  codecs know the empty object.\<close>

definition meta0 :: "string \<Rightarrow> string \<Rightarrow> objmeta" where
  "meta0 ns name = \<lparr>m_namespace = ns, m_name = name, m_uid = '''', m_resourceVersion = '''',
     m_generation = 0, m_labels = None, m_annotations = None, m_ownerReferences = [],
     m_finalizers = [], m_deletionTimestamp = None\<rparr>"

definition env0 :: env where
  "env0 = \<lparr>e_kinds = (\<lambda>_. Inr []),
     a_discover = (\<lambda>_. Inr [\<lparr>ar_name = ''configmaps'', ar_kind = ''ConfigMap'', ar_namespaced = True\<rparr>,
        \<lparr>ar_name = ''namespaces'', ar_kind = ''Namespace'', ar_namespaced = False\<rparr>]),
     a_factory = (\<lambda>_. None), a_informer = (\<lambda>_. Inr None), a_create = (\<lambda>_. None),
     a_get = (\<lambda>_. Inl (NotFound ''not found'')), a_delete = (\<lambda>_. None), a_patch = (\<lambda>_. None),
     a_reconcile = (\<lambda>_. Inr False), a_list = (\<lambda>_. Inr []), a_cachelist = (\<lambda>_. ([], None)),
     a_cacheget = (\<lambda>_. Inr None), a_index = (\<lambda>_. Inr []), a_addIndexers = (\<lambda>_. None),
     e_range = (\<lambda>ks. ks), e_inject = (\<lambda>_ objs. Inr objs), e_injectorByName = (\<lambda>_. None),
     e_sha1hex = (\<lambda>s. s), e_isUnstructured = (\<lambda>_. True), e_encodeToMap = (\<lambda>obj. Inr (o_body obj)),
     e_fromMap = (\<lambda>m. \<lparr>o_gvk = gvk_zero, o_meta = Some (meta0 '''' ''''), o_body = m\<rparr>),
     e_marshalObj = (\<lambda>_. Inr ''{}''), e_marshal = (\<lambda>m. if m = [] then Inr ''{}'' else Inl (Err ''json'')),
     e_unmarshal = (\<lambda>s. if s = ''{}'' then Inr [] else Inl (Err ''json'')),
     e_gzip = Some, e_gunzip = Some, e_b64enc = (\<lambda>s. CHR ''A'' # s), e_b64dec = (\<lambda>s. Some (tl s)),
     e_decodePatch = (\<lambda>_. Inr Inr), e_strategic = (\<lambda>_ _ _ _. Inr ''{}''),
     e_jsonmerge = (\<lambda>_ _ _. Inr ''{}''), e_mergeStyle = (\<lambda>_. Inr (MergePatchType, None))\<rparr>"

definition st0 :: st where
  "st0 = \<lparr>s_calls = [], s_clients = \<lparr>cl_namespaced = [], cl_gvkToGVR = [], cl_clients = []\<rparr>,
     s_errs = [], s_plan = \<lparr>p_Create = [], p_Delete = [], p_Update = [], p_Objects = []\<rparr>, s_rls = []\<rparr>"

end
