(* ===== verification/Apply_Compare.thy ===== *)
theory Apply_Compare
  imports Apply_Env
begin

section \<open>apply: the applied annotation and the patch\<close>

text \<open>
  \<open>pkg/apply/desiredset_compare.go\<close>: the copy of the desired object that apply keeps in an
  annotation (long strings cut, compressed), and the patch that turns an existing object into the
  desired one. Maps that the code changes in place are returned changed. The codecs and the
  three-way merges are fields of the environment.
\<close>

definition LabelApplied :: string where
  "LabelApplied = ''objectset.rio.cattle.io/applied''"

definition LabelPrefix :: string where
  "LabelPrefix = ''objectset.rio.cattle.io/''"

definition knownListKeys :: "string list" where
  "knownListKeys = [''apiVersion'', ''containerPort'', ''devicePath'', ''ip'', ''kind'', ''mountPath'',
     ''name'', ''port'', ''topologyKey'', ''type'']"

subsection \<open>Cutting long values\<close>

fun pruneList :: "val list \<Rightarrow> val list" and pruneValues :: "gomap \<Rightarrow> bool \<Rightarrow> gomap" where
  "pruneList [] = []"
| "pruneList (v # data) =
     (case v of
        VMap typed \<Rightarrow> VMap (pruneValues typed True)
      | VSlice typed \<Rightarrow> VSlice (pruneList typed)
      | _ \<Rightarrow> v) # pruneList data"
| "pruneValues [] isList = []"
| "pruneValues ((k, v) # data) isList =
     (k, case v of
           VMap typed \<Rightarrow> VMap (pruneValues typed False)
         | VSlice typed \<Rightarrow> VSlice (pruneList typed)
         | _ \<Rightarrow>
             if isList \<and> k \<in> set knownListKeys then v
             else (case v of
                 VStr x \<Rightarrow> if length x > 64 then VStr (take 64 x) else v
               | VBytes _ \<Rightarrow> VNil
               | _ \<Rightarrow> v)) # pruneValues data isList"

subsection \<open>The applied annotation\<close>

definition serializeApplied :: "env \<Rightarrow> robj \<Rightarrow> string result" where
  "serializeApplied env obj =
     (case e_encodeToMap env obj of
        Inl e \<Rightarrow> Inl e
      | Inr data \<Rightarrow> e_marshal env (pruneValues data False))"

definition compressAndEncode :: "env \<Rightarrow> string \<Rightarrow> string" where
  "compressAndEncode env b =
     (case e_gzip env b of None \<Rightarrow> b | Some z \<Rightarrow> e_b64enc env z)"

definition appliedToAnnotation :: "env \<Rightarrow> string \<Rightarrow> string" where
  "appliedToAnnotation env b = compressAndEncode env b"

definition appliedFromAnnotation :: "env \<Rightarrow> string \<Rightarrow> string" where
  "appliedFromAnnotation env str =
     (if length str = 0 \<or> str ! 0 = CHR ''{'' then str
      else case e_b64dec env str of
        None \<Rightarrow> ''''
      | Some b \<Rightarrow> (case e_gunzip env b of None \<Rightarrow> '''' | Some x \<Rightarrow> x))"

definition prepareObjectForCreate :: "env \<Rightarrow> gvk \<Rightarrow> robj \<Rightarrow> robj result" where
  "prepareObjectForCreate env gvk obj =
     (case serializeApplied env obj of
        Inl e \<Rightarrow> Inl e
      | Inr serialized \<Rightarrow>
          (case Accessor obj of
             Inl e \<Rightarrow> Inl e
           | Inr m \<Rightarrow>
               let annotations = (case m_annotations m of None \<Rightarrow> [] | Some a \<Rightarrow> a);
                   annotations = AList.update LabelApplied (appliedToAnnotation env serialized) annotations in
               Inr (obj\<lparr>o_meta := Some (m\<lparr>m_annotations := Some annotations\<rparr>), o_gvk := gvk\<rparr>)))"

subsection \<open>Cleaning a patch\<close>

fun emptyMaps_loop :: "gomap \<Rightarrow> string list \<Rightarrow> bool" where
  "emptyMaps_loop data [] = True"
| "emptyMaps_loop data (key # keys) =
     (if length data = 0 then True
      else if length data > 1 then False
      else case map_of data key of
        None \<Rightarrow> False
      | Some value \<Rightarrow> emptyMaps_loop (obj_read (ToMapInterface value)) keys)"

definition emptyMaps :: "gomap \<Rightarrow> string list \<Rightarrow> bool" where
  "emptyMaps data keys = emptyMaps_loop data (keys @ [''__invalid_key__''])"

definition removeCreationTimestamp :: "gomap \<Rightarrow> gomap \<times> bool" where
  "removeCreationTimestamp data =
     (case map_of data ''metadata'' of
        None \<Rightarrow> (data, False)
      | Some metadata \<Rightarrow>
          (case ToMapInterface metadata of
             None \<Rightarrow> (data, False)
           | Some m \<Rightarrow>
               if map_of m ''creationTimestamp'' \<noteq> None
               then (AList.update ''metadata'' (VMap (AList.delete ''creationTimestamp'' m)) data, True)
               else (data, False)))"

definition del_top :: "string \<Rightarrow> gomap \<times> bool \<Rightarrow> gomap \<times> bool" where
  "del_top key dm =
     (case dm of (data, modified) \<Rightarrow>
        if map_of data key \<noteq> None then (AList.delete key data, True) else (data, modified))"

text \<open>The block under \<open>removeObjectSetAnnotation\<close>: the annotation map is reached through
  \<open>GetValueN\<close> and changed in place; \<open>annotations\<close> counts as empty when it is not a map, and then
  the key itself is removed.\<close>

definition strip_annotations :: "gomap \<times> bool \<Rightarrow> gomap \<times> bool" where
  "strip_annotations dm =
     (case dm of (data, modified) \<Rightarrow>
        let annotations = obj_read (ToMapInterface (GetValueN data [''metadata'', ''annotations'']));
            kept = filter (\<lambda>(k, v). \<not> HasPrefix k LabelPrefix) annotations;
            modified = (modified \<or> kept \<noteq> annotations);
            data = (if kept = annotations then data
                    else PutValue_loop data (VMap kept) [''metadata'', ''annotations'']) in
        if modified \<and> length kept = 0 then
          let data = fst (RemoveValue data [''metadata'', ''annotations'']);
              metadata = obj_read (ToMapInterface (GetValueN data [''metadata''])) in
          ((if length metadata = 0 then AList.delete ''metadata'' data else data), modified)
        else (data, modified))"

definition sanitize_data :: "gomap \<Rightarrow> bool \<Rightarrow> gomap \<times> bool" where
  "sanitize_data data removeObjectSetAnnotation =
     (let (data, modified) = del_top ''status'' (del_top ''apiVersion'' (del_top ''kind'' (data, False)));
          (data, deleted) = removeCreationTimestamp data;
          dm = (data, modified \<or> deleted) in
      if removeObjectSetAnnotation then strip_annotations dm else dm)"

definition sanitizePatch :: "env \<Rightarrow> string \<Rightarrow> bool \<Rightarrow> string result" where
  "sanitizePatch env patch removeObjectSetAnnotation =
     (case e_unmarshal env patch of
        Inl e \<Rightarrow> Inl e
      | Inr data \<Rightarrow>
          (case sanitize_data data removeObjectSetAnnotation of (data, modified) \<Rightarrow>
             if emptyMaps data [''metadata'', ''annotations''] then Inr ''{}''
             else if \<not> modified then Inr patch
             else e_marshal env data))"

subsection \<open>The patch between two objects\<close>

definition getOriginalObject :: "env \<Rightarrow> gvk \<Rightarrow> objmeta \<Rightarrow> robj option result" where
  "getOriginalObject env gvk m =
     (let original = appliedFromAnnotation env (smap_get (m_annotations m) LabelApplied) in
      if length original = 0 then Inr None
      else case e_unmarshal env original of
        Inl e \<Rightarrow> Inl e
      | Inr mapObj \<Rightarrow>
          (case prepareObjectForCreate env gvk (e_fromMap env (fst (removeCreationTimestamp mapObj))) of
             Inl e \<Rightarrow> Inl e
           | Inr obj \<Rightarrow> Inr (Some obj)))"

definition getOriginalBytes :: "env \<Rightarrow> gvk \<Rightarrow> objmeta \<Rightarrow> string result" where
  "getOriginalBytes env gvk m =
     (case getOriginalObject env gvk m of
        Inl e \<Rightarrow> Inl e
      | Inr None \<Rightarrow> Inr ''{}''
      | Inr (Some objCopy) \<Rightarrow> e_marshalObj env objCopy)"

definition originalAndModified :: "env \<Rightarrow> gvk \<Rightarrow> objmeta \<Rightarrow> robj \<Rightarrow> (string \<times> string) result" where
  "originalAndModified env gvk oldMetadata newObject =
     (case getOriginalBytes env gvk oldMetadata of
        Inl e \<Rightarrow> Inl e
      | Inr original \<Rightarrow>
          (case prepareObjectForCreate env gvk newObject of
             Inl e \<Rightarrow> Inl e
           | Inr newObject \<Rightarrow>
               (case e_marshalObj env newObject of
                  Inl e \<Rightarrow> Inl e
                | Inr modified \<Rightarrow> Inr (original, modified))))"

text \<open>Ignored fields: every patch is applied to the three documents; where it does not apply the
  document stays as it is.\<close>

definition apply_or_keep :: "(string \<Rightarrow> string result) \<Rightarrow> string \<Rightarrow> string" where
  "apply_or_keep p doc = (case p doc of Inl _ \<Rightarrow> doc | Inr b \<Rightarrow> b)"

fun stripIgnores :: "env \<Rightarrow> string \<Rightarrow> string \<Rightarrow> string \<Rightarrow> string list
    \<Rightarrow> (string \<times> string \<times> string) result" where
  "stripIgnores env original modified current [] = Inr (original, modified, current)"
| "stripIgnores env original modified current (patch # patches) =
     (case e_decodePatch env patch of
        Inl e \<Rightarrow> Inl e
      | Inr p \<Rightarrow>
          stripIgnores env
            (if length original > 0 then apply_or_keep p original else original)
            (apply_or_keep p modified) (apply_or_keep p current) patches)"

definition doPatch :: "env \<Rightarrow> gvk \<Rightarrow> string \<Rightarrow> string \<Rightarrow> string \<Rightarrow> string list
    \<Rightarrow> (patchtype \<times> string) result" where
  "doPatch env gvk original modified current diffPatch =
     (case stripIgnores env original modified current diffPatch of
        Inl e \<Rightarrow> Inl e
      | Inr (original, modified, current) \<Rightarrow>
          (case e_mergeStyle env gvk of
             Inl e \<Rightarrow> Inl e
           | Inr (patchType, lookupPatchMeta) \<Rightarrow>
               (case (if patchType = StrategicMergePatchType
                      then e_strategic env original modified current lookupPatchMeta
                      else e_jsonmerge env original modified current) of
                  Inl e \<Rightarrow> Inl e
                | Inr patch \<Rightarrow> Inr (patchType, patch))))"

text \<open>What applies a patch: the client, the recorder of a plan, or a user's patcher.\<close>

datatype patcher = PClient gvr | PPlan gvk | PUser nat

definition run_patcher :: "env \<Rightarrow> patcher \<Rightarrow> string \<Rightarrow> string \<Rightarrow> patchtype \<Rightarrow> string \<Rightarrow> st
    \<Rightarrow> goerr option \<times> st" where
  "run_patcher env p namespace name pt data s =
     (case p of
        PClient client \<Rightarrow>
          let s = api (CPatch client (if namespace \<noteq> '''' then Some namespace else None) name pt data) s in
          (a_patch env (s_calls s), s)
      | PPlan gvk \<Rightarrow>
          (case sanitizePatch env data True of
             Inl e \<Rightarrow> (Some e, s)
           | Inr data \<Rightarrow>
               if data \<noteq> ''{}''
               then (None, s\<lparr>s_plan := (s_plan s)\<lparr>p_Update :=
                       PatchByGVK_Add (p_Update (s_plan s)) gvk namespace name data\<rparr>\<rparr>)
               else (None, s))
      | PUser n \<Rightarrow>
          let s = api (CUserPatch n namespace name pt data) s in (a_patch env (s_calls s), s))"

definition run_reconciler :: "env \<Rightarrow> nat \<Rightarrow> robj \<Rightarrow> robj \<Rightarrow> st \<Rightarrow> bool result \<times> st" where
  "run_reconciler env n oldObj newObj s =
     (let s = api (CReconcile n oldObj newObj) s in (a_reconcile env (s_calls s), s))"

text \<open>\<open>applyPatch\<close> up to the point where there is a patch to send, \<open>None\<close> when there is nothing
  to do.\<close>

definition compute_patch :: "env \<Rightarrow> gvk \<Rightarrow> bool \<Rightarrow> robj \<Rightarrow> robj \<Rightarrow> string list
    \<Rightarrow> (objmeta \<times> (patchtype \<times> string) option) result" where
  "compute_patch env gvk ignoreOriginal oldObject newObject diffPatches =
     (case Accessor oldObject of
        Inl e \<Rightarrow> Inl e
      | Inr oldMetadata \<Rightarrow>
     (case originalAndModified env gvk oldMetadata newObject of
        Inl e \<Rightarrow> Inl e
      | Inr (original, modified) \<Rightarrow>
     (let original = (if ignoreOriginal then '''' else original) in
      case e_marshalObj env oldObject of
        Inl e \<Rightarrow> Inl e
      | Inr current \<Rightarrow>
     (case doPatch env gvk original modified current diffPatches of
        Inl e \<Rightarrow> Inl (Wrap ''patch generation'' e)
      | Inr (patchType, patch) \<Rightarrow>
     (if patch = ''{}'' then Inr (oldMetadata, None)
      else case sanitizePatch env patch False of
        Inl e \<Rightarrow> Inl e
      | Inr patch \<Rightarrow>
          if patch = ''{}'' then Inr (oldMetadata, None)
          else Inr (oldMetadata, Some (patchType, patch)))))))"

definition send_patch :: "env \<Rightarrow> patcher \<Rightarrow> objmeta \<Rightarrow> patchtype \<Rightarrow> string \<Rightarrow> st \<Rightarrow> bool result \<times> st" where
  "send_patch env patcher oldMetadata patchType patch s =
     (case run_patcher env patcher (m_namespace oldMetadata) (m_name oldMetadata) patchType patch s of
        (None, s) \<Rightarrow> (Inr True, s) | (Some e, s) \<Rightarrow> (Inl e, s))"

text \<open>What the reconciler is called with.\<close>

definition reconciler_args :: "env \<Rightarrow> gvk \<Rightarrow> objmeta \<Rightarrow> robj \<Rightarrow> robj \<Rightarrow> (robj \<times> robj) result" where
  "reconciler_args env gvk oldMetadata oldObject newObject =
     (case prepareObjectForCreate env gvk newObject of
        Inl e \<Rightarrow> Inl e
      | Inr newObject \<Rightarrow>
          (case getOriginalObject env gvk oldMetadata of
             Inl e \<Rightarrow> Inl e
           | Inr originalObject \<Rightarrow>
               Inr (case originalObject of None \<Rightarrow> oldObject | Some x \<Rightarrow> x, newObject)))"

definition applyPatch :: "env \<Rightarrow> gvk \<Rightarrow> nat option \<Rightarrow> patcher \<Rightarrow> bool \<Rightarrow> robj \<Rightarrow> robj
    \<Rightarrow> string list \<Rightarrow> st \<Rightarrow> bool result \<times> st" where
  "applyPatch env gvk reconciler patcher ignoreOriginal oldObject newObject diffPatches s =
     (case compute_patch env gvk ignoreOriginal oldObject newObject diffPatches of
        Inl e \<Rightarrow> (Inl e, s)
      | Inr (oldMetadata, None) \<Rightarrow> (Inr False, s)
      | Inr (oldMetadata, Some (patchType, patch)) \<Rightarrow>
          (case reconciler of
             None \<Rightarrow> send_patch env patcher oldMetadata patchType patch s
           | Some r \<Rightarrow>
               (case reconciler_args env gvk oldMetadata oldObject newObject of
                  Inl e \<Rightarrow> (Inl e, s)
                | Inr (originalObject, newObject) \<Rightarrow>
                    (case run_reconciler env r originalObject newObject s of
                       (Inl e, s) \<Rightarrow> (Inl e, s)
                     | (Inr handled, s) \<Rightarrow>
                         if handled then (Inr True, s)
                         else send_patch env patcher oldMetadata patchType patch s))))"

definition compareObjects :: "env \<Rightarrow> desiredset \<Rightarrow> gvk \<Rightarrow> nat option \<Rightarrow> patcher \<Rightarrow> robj \<Rightarrow> robj
    \<Rightarrow> st \<Rightarrow> goerr option \<times> st" where
  "compareObjects env ds gvk reconciler patcher oldObject newObject s =
     (case Accessor oldObject of
        Inl e \<Rightarrow> (Some e, s)
      | Inr oldMetadata \<Rightarrow>
          let s = (if ds_createPlan ds
                   then s\<lparr>s_plan := (s_plan s)\<lparr>p_Objects := p_Objects (s_plan s) @ [oldObject]\<rparr>\<rparr>
                   else s);
              patches = (\<lambda>key. case map_of (ds_diffPatches ds) (PatchKey gvk key) of
                  None \<Rightarrow> [] | Some ps \<Rightarrow> ps);
              diffPatches = patches (key_of oldMetadata) @ patches (ObjectKey '''' '''') in
          (case applyPatch env gvk reconciler patcher (ds_ignorePreviousApplied ds) oldObject newObject
               diffPatches s of
             (Inl e, s) \<Rightarrow> (Some e, s)
           | (Inr _, s) \<Rightarrow> (None, s)))"

subsection \<open>Facts on cutting\<close>

lemma pruneValues_keys [simp]: "map fst (pruneValues d b) = map fst d"
proof (induction d)
  case (Cons kv d) then show ?case by (cases kv) simp
qed simp

lemma prune_idem:
  "pruneList (pruneList vs) = pruneList vs"
  "pruneValues (pruneValues d b) b = pruneValues d b"
  by (induction vs and d b rule: pruneList_pruneValues.induct) (auto split: val.split)

text \<open>Every string below a value that is kept is at most 64 bytes long, except the values of the
  known list keys directly in an element of a list; no byte slice is kept outside of those.\<close>

fun cut_list :: "val list \<Rightarrow> bool" and cut_map :: "gomap \<Rightarrow> bool \<Rightarrow> bool" where
  "cut_list [] = True"
| "cut_list (v # vs) =
     ((case v of VMap m \<Rightarrow> cut_map m True | VSlice l \<Rightarrow> cut_list l | _ \<Rightarrow> True) \<and> cut_list vs)"
| "cut_map [] b = True"
| "cut_map ((k, v) # d) b =
     ((case v of VMap m \<Rightarrow> cut_map m False | VSlice l \<Rightarrow> cut_list l
       | VStr s \<Rightarrow> (b \<and> k \<in> set knownListKeys) \<or> length s \<le> 64
       | VBytes _ \<Rightarrow> b \<and> k \<in> set knownListKeys | _ \<Rightarrow> True) \<and> cut_map d b)"

lemma prune_cut: "cut_list (pruneList vs)" "cut_map (pruneValues d b) b"
  by (induction vs and d b rule: pruneList_pruneValues.induct) (auto split: val.split)

lemma prune_cut_id: "cut_list vs \<Longrightarrow> pruneList vs = vs" "cut_map d b \<Longrightarrow> pruneValues d b = d"
  by (induction vs and d b rule: pruneList_pruneValues.induct)
    (auto split: val.splits)

lemma pruneValues_keyset [simp]: "fst ` set (pruneValues d b) = fst ` set d"
  using pruneValues_keys[of d b] by (metis list.set_map)

lemma wf_val_lists:
  "wf_val (VSlice vs) = list_all wf_val vs"
  "wf_map [] = True"
  "wf_map ((k, v) # d) = (k \<notin> fst ` set d \<and> wf_val v \<and> wf_map d)"
  by (auto simp: wf_map_iff list_all_iff)

lemma wf_pruneList: "list_all wf_val vs \<longrightarrow> list_all wf_val (pruneList vs)"
  and wf_pruneValues: "wf_map d \<longrightarrow> wf_map (pruneValues d b)"
proof (induction vs and d b rule: pruneList_pruneValues.induct)
  case (2 v data)
  then show ?case by (cases v) (simp_all add: wf_val_lists del: wf_val.simps(1))
next
  case (4 k v data isList)
  then show ?case by (cases v) (simp_all add: wf_val_lists del: wf_val.simps(1))
qed simp_all

subsection \<open>Facts on cleaning\<close>

lemma del_top_spec:
  "map_of (fst (del_top key (d, m))) k = (if k = key then None else map_of d k)"
  "snd (del_top key (d, m)) = (m \<or> map_of d key \<noteq> None)"
  by (auto simp: del_top_def delete_conv')

lemma del_top_pair: "del_top key (d, m) = (AList.delete key d, m \<or> map_of d key \<noteq> None)"
  by (auto simp: del_top_def map_of_eq_None_iff intro!: delete_idem[symmetric])

definition dropped :: "string list" where
  "dropped = [''kind'', ''apiVersion'', ''status'']"

lemma removeCreationTimestamp_spec:
  "snd (removeCreationTimestamp d) = snd (GetValue d [''metadata'', ''creationTimestamp''])"
  "\<not> snd (removeCreationTimestamp d) \<Longrightarrow> fst (removeCreationTimestamp d) = d"
  "indep [''metadata'', ''creationTimestamp''] ks \<Longrightarrow>
     GetValue (fst (removeCreationTimestamp d)) ks = GetValue d ks"
  "GetValue (fst (removeCreationTimestamp d)) [''metadata'', ''creationTimestamp''] = (VNil, False)"
proof -
  have r: "fst (removeCreationTimestamp d) = fst (RemoveValue d [''metadata'', ''creationTimestamp''])
      \<and> snd (removeCreationTimestamp d) = snd (GetValue d [''metadata'', ''creationTimestamp''])"
  proof (cases "map_of d ''metadata''")
    case None
    then show ?thesis by (simp add: removeCreationTimestamp_def sub_map_def)
  next
    case (Some x)
    show ?thesis
    proof (cases "\<exists>m. x = VMap m")
      case True
      then obtain m where "x = VMap m" by blast
      with Some show ?thesis
        by (auto simp: removeCreationTimestamp_def ToMapInterface_def sub_map_def update_same
            delete_idem map_of_eq_None_iff[symmetric] split: option.splits)
    next
      case False
      with Some show ?thesis
        by (cases x) (auto simp: removeCreationTimestamp_def ToMapInterface_def sub_map_def)
    qed
  qed
  then show "snd (removeCreationTimestamp d) = snd (GetValue d [''metadata'', ''creationTimestamp''])"
    by simp
  show "GetValue (fst (removeCreationTimestamp d)) ks = GetValue d ks"
    if "indep [''metadata'', ''creationTimestamp''] ks"
    unfolding r[THEN conjunct1] using that by (rule Get_Remove_indep)
  show "GetValue (fst (removeCreationTimestamp d)) [''metadata'', ''creationTimestamp''] = (VNil, False)"
    unfolding r[THEN conjunct1] by (rule Get_Remove_same)
  show "\<not> snd (removeCreationTimestamp d) \<Longrightarrow> fst (removeCreationTimestamp d) = d"
    by (auto simp: removeCreationTimestamp_def split: option.splits)
qed

lemma read_sub_map1: "obj_read (ToMapInterface (GetValueN d [k])) = sub_map d k"
  by (auto simp: obj_read_def ToMapInterface_def GetValueN_def sub_map_def split: option.splits val.splits)

lemma read_sub_map2: "obj_read (ToMapInterface (GetValueN d [k1, k2])) = sub_map (sub_map d k1) k2"
  by (auto simp: obj_read_def ToMapInterface_def GetValueN_def sub_map_def[of "sub_map d k1"]
      split: option.splits val.splits)

lemma map_of_filter_key: "map_of (filter (\<lambda>(k, v). P k) m) k = (if P k then map_of m k else None)"
  by (induction m) auto

lemma filter_key_id: "filter (\<lambda>(k, v). P k) m = m \<longleftrightarrow> (\<forall>k \<in> fst ` set m. P k)"
  by (auto simp: filter_id_conv)

lemma Get_delete_empty:
  assumes "sub_map d k = []" "indep [k, x] ks"
  shows "GetValue (AList.delete k d) ks = GetValue d ks"
proof (cases ks)
  case (Cons k' r)
  show ?thesis
  proof (cases "k' = k")
    case True
    with assms Cons have "r \<noteq> []" by (auto simp: indep_def)
    with True Cons assms show ?thesis by (simp add: GetValue_Cons) (simp add: sub_map_def delete_conv')
  next
    case False
    with Cons show ?thesis by (cases r) (simp_all add: sub_map_def delete_conv')
  qed
qed (use assms in simp)

abbreviation ann_path :: "string list" where
  "ann_path \<equiv> [''metadata'', ''annotations'']"

definition ann_of :: "gomap \<Rightarrow> gomap" where
  "ann_of d = sub_map (sub_map d ''metadata'') ''annotations''"

definition labelled :: "gomap \<Rightarrow> bool" where
  "labelled d = (\<exists>k. map_of (ann_of d) k \<noteq> None \<and> HasPrefix k LabelPrefix)"

lemma ann_of_Get: "GetValue d [''metadata'', ''annotations'', k]
    = (case map_of (ann_of d) k of Some v \<Rightarrow> (v, True) | None \<Rightarrow> (VNil, False))"
  by (simp add: ann_of_def)

lemma ann_not_blocked: "ann_of d \<noteq> [] \<Longrightarrow> \<not> blocked d ann_path"
  by (auto simp: ann_of_def sub_map_def split: option.splits val.splits)

lemma ann_of_Put: "ann_of d \<noteq> [] \<Longrightarrow> ann_of (PutValue_loop d (VMap m) ann_path) = m"
  using Get_Put_same[OF _ ann_not_blocked, of d "VMap m"]
  by (auto simp: ann_of_def sub_map_def[of _ "''annotations''"] split: option.splits)

lemma ann_of_Remove: "ann_of (fst (RemoveValue d ann_path)) = []"
  using Get_Remove_same[of d ann_path]
  by (auto simp: ann_of_def sub_map_def[of _ "''annotations''"] split: option.splits)

lemma ann_of_delete: "ann_of (AList.delete ''metadata'' d) = []"
  by (simp add: ann_of_def sub_map_def delete_conv')

lemma strip_annotations_eq:
  "strip_annotations (d, m) =
     (let kept = filter (\<lambda>(k, v). \<not> HasPrefix k LabelPrefix) (ann_of d);
          d1 = (if labelled d then PutValue_loop d (VMap kept) ann_path else d) in
      if (m \<or> labelled d) \<and> kept = [] then
        let d2 = fst (RemoveValue d1 ann_path) in
        (if sub_map d2 ''metadata'' = [] then AList.delete ''metadata'' d2 else d2, m \<or> labelled d)
      else (d1, m \<or> labelled d))"
proof -
  have l: "filter (\<lambda>(k, v). \<not> HasPrefix k LabelPrefix) (ann_of d) = ann_of d \<longleftrightarrow> \<not> labelled d"
    by (subst filter_key_id) (force simp: labelled_def map_of_eq_None_iff)
  show ?thesis
    unfolding strip_annotations_def read_sub_map1 read_sub_map2 ann_of_def[symmetric] Let_def
      prod.case l
    by (simp add: l)
qed

lemma labelled_ann: "labelled d \<Longrightarrow> ann_of d \<noteq> []"
  by (auto simp: labelled_def)

lemma strip_annotations_spec:
  "snd (strip_annotations (d, m)) = (m \<or> labelled d)"
  "\<not> snd (strip_annotations (d, m)) \<Longrightarrow> fst (strip_annotations (d, m)) = d"
  "\<not> labelled (fst (strip_annotations (d, m)))"
  "indep ann_path ks \<Longrightarrow> GetValue (fst (strip_annotations (d, m))) ks = GetValue d ks"
proof -
  show "snd (strip_annotations (d, m)) = (m \<or> labelled d)"
    by (simp add: strip_annotations_eq Let_def)
  show "\<not> snd (strip_annotations (d, m)) \<Longrightarrow> fst (strip_annotations (d, m)) = d"
    by (auto simp: strip_annotations_eq Let_def)
  have none: "\<not> labelled x" if "ann_of x = []" for x using that by (simp add: labelled_def)
  show "\<not> labelled (fst (strip_annotations (d, m)))"
    using labelled_ann[of d]
    by (auto simp: strip_annotations_eq Let_def ann_of_Remove ann_of_delete none ann_of_Put
        simp del: RemoveValue.simps PutValue_loop.simps)
      (auto simp: labelled_def ann_of_Put map_of_filter_key simp del: PutValue_loop.simps split: if_splits)
  show "GetValue (fst (strip_annotations (d, m))) ks = GetValue d ks" if i: "indep ann_path ks"
  proof -
    have p: "GetValue (if labelled d then PutValue_loop d v ann_path else d) ks = GetValue d ks" for v
      using Get_Put_indep[OF i] by simp
    have r: "GetValue (fst (RemoveValue d' ann_path)) ks = GetValue d' ks" for d'
      by (rule Get_Remove_indep[OF i])
    show ?thesis
      unfolding strip_annotations_eq Let_def
      by (simp add: p r Get_delete_empty[OF _ i] del: RemoveValue.simps PutValue_loop.simps)
  qed
qed

lemma sanitize_data_eq:
  "sanitize_data d flag =
     (let d1 = AList.delete ''status'' (AList.delete ''apiVersion'' (AList.delete ''kind'' d));
          d2 = fst (removeCreationTimestamp d1);
          m = ((\<exists>k \<in> set dropped. map_of d k \<noteq> None) \<or> snd (removeCreationTimestamp d1)) in
      if flag then strip_annotations (d2, m) else (d2, m))"
  by (auto simp: sanitize_data_def del_top_pair dropped_def delete_conv' Let_def split: prod.splits)

text \<open>What is gone after cleaning.\<close>

definition clean :: "gomap \<Rightarrow> bool \<Rightarrow> bool" where
  "clean d flag = ((\<forall>k \<in> set dropped. map_of d k = None)
     \<and> \<not> snd (GetValue d [''metadata'', ''creationTimestamp'']) \<and> (flag \<longrightarrow> \<not> labelled d))"

lemma snd_Get1: "snd (GetValue d [k]) = (map_of d k \<noteq> None)"
  by (auto split: option.splits)

lemma sanitize_frame:
  assumes "\<forall>k \<in> set dropped. indep [k] ks" "indep [''metadata'', ''creationTimestamp''] ks"
    and "flag \<longrightarrow> indep ann_path ks"
  shows "GetValue (fst (sanitize_data d flag)) ks = GetValue d ks"
proof -
  have del: "GetValue (AList.delete k d) ks = GetValue d ks" if "indep [k] ks" for k d
    using Get_Remove_indep[OF that, of d] by simp
  from assms show ?thesis
    by (simp add: sanitize_data_eq Let_def dropped_def strip_annotations_spec(4)
        removeCreationTimestamp_spec(3) del)
qed

lemma sanitize_clean: "clean (fst (sanitize_data d flag)) flag"
proof -
  define d1 where "d1 = AList.delete ''status'' (AList.delete ''apiVersion'' (AList.delete ''kind'' d))"
  define d2 where "d2 = fst (removeCreationTimestamp d1)"
  have r: "fst (sanitize_data d flag) = (if flag then fst (strip_annotations (d2,
      (\<exists>k \<in> set dropped. map_of d k \<noteq> None) \<or> snd (removeCreationTimestamp d1))) else d2)"
    by (simp add: sanitize_data_eq d1_def d2_def Let_def)
  have d1: "map_of d1 k = None" if "k \<in> set dropped" for k
    using that by (auto simp: d1_def dropped_def delete_conv')
  have d2: "map_of d2 k = None" if "k \<in> set dropped" for k
  proof -
    have "indep [''metadata'', ''creationTimestamp''] [k]" using that by (auto simp: dropped_def indep_def)
    from removeCreationTimestamp_spec(3)[OF this, of d1] d1[OF that] show ?thesis
      unfolding d2_def by (metis snd_Get1)
  qed
  have c2: "\<not> snd (GetValue d2 [''metadata'', ''creationTimestamp''])"
    unfolding d2_def removeCreationTimestamp_spec(4) by simp
  have "\<forall>k \<in> set dropped. map_of (fst (strip_annotations (d2, m))) k = None" for m
  proof
    fix k assume k: "k \<in> set dropped"
    then have "indep ann_path [k]" by (auto simp: dropped_def indep_def)
    from strip_annotations_spec(4)[OF this, of d2 m] d2[OF k] show
      "map_of (fst (strip_annotations (d2, m))) k = None" by (metis snd_Get1)
  qed
  moreover have "\<not> snd (GetValue (fst (strip_annotations (d2, m))) [''metadata'', ''creationTimestamp''])" for m
    using strip_annotations_spec(4)[of "[''metadata'', ''creationTimestamp'']" d2 m] c2
    by (simp add: indep_def)
  ultimately show ?thesis
    using d2 c2 strip_annotations_spec(3)[of d2] by (auto simp: clean_def r)
qed

lemma sanitize_unmodified: "\<not> snd (sanitize_data d flag) \<Longrightarrow> fst (sanitize_data d flag) = d"
proof -
  assume n: "\<not> snd (sanitize_data d flag)"
  let ?d1 = "AList.delete ''status'' (AList.delete ''apiVersion'' (AList.delete ''kind'' d))"
  from n have g: "\<forall>k \<in> set dropped. map_of d k = None" "\<not> snd (removeCreationTimestamp ?d1)"
    by (auto simp: sanitize_data_eq Let_def strip_annotations_spec(1) split: if_splits)
  then have d1: "?d1 = d" by (simp add: dropped_def delete_idem map_of_eq_None_iff)
  with g(2) have "fst (removeCreationTimestamp ?d1) = d"
    using removeCreationTimestamp_spec(2) by metis
  with n show ?thesis
    using strip_annotations_spec(2)
    by (auto simp: sanitize_data_eq Let_def split: if_splits)
qed

lemma clean_sanitize: "clean d flag \<Longrightarrow> sanitize_data d flag = (d, False)"
proof -
  assume c: "clean d flag"
  then have "AList.delete ''status'' (AList.delete ''apiVersion'' (AList.delete ''kind'' d)) = d"
    by (simp add: clean_def dropped_def delete_idem map_of_eq_None_iff)
  moreover have "\<not> snd (removeCreationTimestamp d)"
    using c by (simp only: clean_def removeCreationTimestamp_spec(1) simp_thms)
  moreover from this have "fst (removeCreationTimestamp d) = d" by (rule removeCreationTimestamp_spec(2))
  ultimately show ?thesis
    using c strip_annotations_spec(1,2)[of d False]
    by (auto simp: sanitize_data_eq Let_def clean_def prod_eq_iff)
qed

subsection \<open>The original that is kept\<close>

text \<open>The laws of the codecs: decoding undoes encoding, and the text of an encoded block is not
  empty and does not look like JSON.\<close>

definition codec_ok :: "env \<Rightarrow> bool" where
  "codec_ok env =
     ((\<forall>b z. e_gzip env b = Some z \<longrightarrow> e_gunzip env z = Some b)
      \<and> (\<forall>z. e_b64dec env (e_b64enc env z) = Some z)
      \<and> (\<forall>b z. e_gzip env b = Some z \<longrightarrow> e_b64enc env z \<noteq> [] \<and> hd (e_b64enc env z) \<noteq> CHR ''{''))"

lemma applied_roundtrip:
  assumes "codec_ok env" "b \<noteq> [] \<Longrightarrow> hd b = CHR ''{''"
  shows "appliedFromAnnotation env (appliedToAnnotation env b) = b"
proof (cases "e_gzip env b")
  case None
  with assms(2) show ?thesis
    by (cases b) (auto simp: appliedToAnnotation_def compressAndEncode_def appliedFromAnnotation_def)
next
  case (Some z)
  with assms(1) have "e_b64enc env z \<noteq> []" "hd (e_b64enc env z) \<noteq> CHR ''{''"
    "e_b64dec env (e_b64enc env z) = Some z" "e_gunzip env z = Some b"
    by (auto simp: codec_ok_def)
  with Some show ?thesis
    by (simp add: appliedToAnnotation_def compressAndEncode_def appliedFromAnnotation_def hd_conv_nth)
qed

subsection \<open>Properties\<close>

text \<open>Cutting an object for the applied annotation keeps every key, is idempotent, and
  bounds what is kept: every string is at most 64 bytes long and no byte slice is kept, except
  for the identifying keys (name, port, ip and so on) of elements of lists, which the three-way
  merge needs whole; an object that already obeys the bound is not changed.\<close>

theorem pruneValues_spec:
  "map fst (pruneValues d b) = map fst d
   \<and> pruneValues (pruneValues d b) b = pruneValues d b
   \<and> cut_map (pruneValues d b) b
   \<and> (cut_map d b) = (pruneValues d b = d)"
  using prune_cut(2)[of d b] prune_cut_id(2)[of d b] prune_idem(2)[of d b] by auto

text \<open>Cleaning a patch removes the kind, the version, the status and the creation timestamp
  (and, for a plan, every annotation of apply itself), changes nothing at any path apart
  from these, reports a modification whenever it changed anything, and is idempotent: a cleaned
  patch is not modified again.\<close>

theorem sanitize_data_spec:
  "clean (fst (sanitize_data d flag)) flag
   \<and> sanitize_data (fst (sanitize_data d flag)) flag = (fst (sanitize_data d flag), False)
   \<and> (snd (sanitize_data d flag) = (\<not> clean d flag))
   \<and> (\<not> snd (sanitize_data d flag) \<longrightarrow> fst (sanitize_data d flag) = d)
   \<and> (\<forall>ks. (\<forall>k \<in> set dropped. indep [k] ks) \<and> indep [''metadata'', ''creationTimestamp''] ks
        \<and> (flag \<longrightarrow> indep ann_path ks) \<longrightarrow> GetValue (fst (sanitize_data d flag)) ks = GetValue d ks)"
proof -
  have m: "snd (sanitize_data d flag) = (\<not> clean d flag)"
  proof
    show "snd (sanitize_data d flag) \<Longrightarrow> \<not> clean d flag" using clean_sanitize[of d flag] by auto
    assume n: "\<not> clean d flag"
    show "snd (sanitize_data d flag)"
    proof (rule ccontr)
      assume "\<not> snd (sanitize_data d flag)"
      then have "fst (sanitize_data d flag) = d" by (rule sanitize_unmodified)
      with sanitize_clean[of d flag] n show False by simp
    qed
  qed
  then show ?thesis
    using sanitize_clean clean_sanitize sanitize_frame sanitize_unmodified by blast
qed

theorem sanitize_data_spec_witness:
  "GetValue (fst (sanitize_data [(''kind'', VStr ''Pod''), (''spec'', VMap [(''a'', VInt 1)])] True))
     [''spec'', ''a''] = (VInt 1, True)"
proof -
  have "(\<forall>k \<in> set dropped. indep [k] [''spec'', ''a'']) \<and> indep [''metadata'', ''creationTimestamp''] [''spec'', ''a'']
      \<and> (True \<longrightarrow> indep ann_path [''spec'', ''a''])"
    by (simp add: dropped_def indep_def)
  then have "GetValue (fst (sanitize_data [(''kind'', VStr ''Pod''), (''spec'', VMap [(''a'', VInt 1)])] True))
      [''spec'', ''a''] = GetValue [(''kind'', VStr ''Pod''), (''spec'', VMap [(''a'', VInt 1)])] [''spec'', ''a'']"
    using sanitize_data_spec[of "[(''kind'', VStr ''Pod''), (''spec'', VMap [(''a'', VInt 1)])]" True] by blast
  then show ?thesis by (simp add: sub_map_def)
qed

text \<open>What apply wrote is what the next apply takes as the original: reading back
  the annotation that prepareObjectForCreate put on an object gives the cut copy of that
  object without its creation timestamp, prepared again. This rests on the
  codecs: gzip, base64 and JSON decoding undo encoding, and a JSON object starts with a brace.\<close>

theorem getOriginalObject_prepare:
  assumes "codec_ok env"
    and json: "\<And>m b. e_marshal env m = Inr b \<Longrightarrow> b \<noteq> [] \<and> hd b = CHR ''{'' \<and> e_unmarshal env b = Inr m"
    and "e_encodeToMap env obj = Inr data" "prepareObjectForCreate env gvk obj = Inr obj'"
  shows "\<exists>m. o_meta obj' = Some m \<and> getOriginalObject env gvk' m =
    (case prepareObjectForCreate env gvk' (e_fromMap env (fst (removeCreationTimestamp (pruneValues data False)))) of
       Inl e \<Rightarrow> Inl e | Inr x \<Rightarrow> Inr (Some x))"
proof -
  from assms(3,4) obtain b m where b: "e_marshal env (pruneValues data False) = Inr b"
    and m: "o_meta obj' = Some m" "smap_get (m_annotations m) LabelApplied = appliedToAnnotation env b"
    by (auto simp: prepareObjectForCreate_def serializeApplied_def Accessor_def Let_def smap_get_def
        update_conv'
        split: sum.splits option.splits)
  from json[OF b] have "appliedFromAnnotation env (appliedToAnnotation env b) = b"
    by (intro applied_roundtrip assms(1)) simp
  with json[OF b] m show ?thesis by (auto simp: getOriginalObject_def)
qed

lemma codec_ok_env0: "codec_ok env0"
  by (simp add: codec_ok_def env0_def)

lemma env0_simps [simp]:
  "e_marshal env0 m = (if m = [] then Inr ''{}'' else Inl (Err ''json''))"
  "e_unmarshal env0 s = (if s = ''{}'' then Inr [] else Inl (Err ''json''))"
  "e_encodeToMap env0 obj = Inr (o_body obj)" "e_fromMap env0 m = \<lparr>o_gvk = gvk_zero, o_meta = Some (meta0 '''' ''''), o_body = m\<rparr>"
  by (simp_all add: env0_def)

theorem getOriginalObject_prepare_witness:
  "\<exists>obj' m x. prepareObjectForCreate env0 gvk_zero
       \<lparr>o_gvk = gvk_zero, o_meta = Some (meta0 ''ns'' ''a''), o_body = []\<rparr> = Inr obj'
     \<and> o_meta obj' = Some m \<and> getOriginalObject env0 gvk_zero m = Inr (Some x)"
proof -
  let ?obj = "\<lparr>o_gvk = gvk_zero, o_meta = Some (meta0 ''ns'' ''a''), o_body = []\<rparr>"
  obtain obj' where o': "prepareObjectForCreate env0 gvk_zero ?obj = Inr obj'"
    by (simp add: prepareObjectForCreate_def serializeApplied_def Accessor_def)
  have "\<exists>m. o_meta obj' = Some m \<and> getOriginalObject env0 gvk_zero m =
    (case prepareObjectForCreate env0 gvk_zero (e_fromMap env0 (fst (removeCreationTimestamp (pruneValues [] False)))) of
       Inl e \<Rightarrow> Inl e | Inr x \<Rightarrow> Inr (Some x))"
    by (rule getOriginalObject_prepare[OF codec_ok_env0 _ _ o']) (auto split: if_splits)
  moreover have "\<exists>x. prepareObjectForCreate env0 gvk_zero (e_fromMap env0 []) = Inr x"
    by (simp add: prepareObjectForCreate_def serializeApplied_def Accessor_def Let_def)
  moreover have "removeCreationTimestamp [] = ([], False)" by (simp add: removeCreationTimestamp_def)
  ultimately show ?thesis using o' by auto
qed

end
