(* ===== verification/Apply_Process.thy ===== *)
theory Apply_Process
  imports Apply_Compare
begin

section \<open>apply: bringing the cluster to the desired set\<close>

text \<open>
  \<open>pkg/apply/desiredset_process.go\<close>, \<open>desiredset_crud.go\<close> and \<open>desiredset_apply.go\<close>: what one
  apply does for one kind (\<open>process\<close>) and for the whole set (\<open>ds_apply\<close>). Every request to the
  outside is appended to \<open>s_calls\<close>; errors are collected in \<open>s_errs\<close> and the work goes on, as in the code.

  Three functions change the map they range over. Go leaves open in which order the keys come and
  whether keys added on the way are visited: the sequence of keys visited is the list
  \<open>e_range\<close> gives for the keys of the map, of which only \<open>range_ok\<close> is ever assumed (every
  initial key is visited); a visit of a key that is no longer there does not happen.
\<close>

definition range_ok :: "env \<Rightarrow> bool" where
  "range_ok env = (\<forall>ks. set ks \<subseteq> set (e_range env ks))"

subsection \<open>Labels\<close>

definition LabelID :: string where "LabelID = ''objectset.rio.cattle.io/id''"
definition LabelGVK :: string where "LabelGVK = ''objectset.rio.cattle.io/owner-gvk''"
definition LabelName :: string where "LabelName = ''objectset.rio.cattle.io/owner-name''"
definition LabelNamespace :: string where "LabelNamespace = ''objectset.rio.cattle.io/owner-namespace''"
definition LabelPrune :: string where "LabelPrune = ''objectset.rio.cattle.io/prune''"

definition hashOrder :: "string list" where
  "hashOrder = [LabelID, LabelGVK, LabelName, LabelNamespace]"

definition objectSetHash :: "env \<Rightarrow> (string \<times> string) list \<Rightarrow> string" where
  "objectSetHash env labels = e_sha1hex env (concat (map (smap_get (Some labels)) hashOrder))"

definition GetLabelsAndAnnotations ::
    "env \<Rightarrow> string \<Rightarrow> robj option \<Rightarrow> ((string \<times> string) list \<times> (string \<times> string) list) result" where
  "GetLabelsAndAnnotations env setID owner =
     (let finish = (\<lambda>annotations. Inr ([(LabelHash, objectSetHash env annotations)], annotations)) in
      case owner of
        None \<Rightarrow> if setID = '''' then Inl (Err ''set ID or owner must be set'') else finish [(LabelID, setID)]
      | Some ob \<Rightarrow>
          (case gvk_Get (e_kinds env) ob of
             Inl e \<Rightarrow> Inl e
           | Inr gvk \<Rightarrow>
               (case Accessor ob of
                  Inl e \<Rightarrow> Inl (Err ''failed to get metadata'')
                | Inr metadata \<Rightarrow>
                    finish [(LabelID, setID), (LabelGVK, gvk_String gvk), (LabelName, m_name metadata),
                      (LabelNamespace, m_namespace metadata)])))"

text \<open>The selector for one exact value of the hash label. Its constructor refuses a value that
  is no label value, which a hexadecimal digest always is.\<close>

definition GetSelector :: "(string \<times> string) list \<Rightarrow> string" where
  "GetSelector labelSet = smap_get (Some labelSet) LabelHash"

definition GetSelectorFromOwner :: "env \<Rightarrow> string \<Rightarrow> robj option \<Rightarrow> string result" where
  "GetSelectorFromOwner env setID owner =
     (case GetLabelsAndAnnotations env setID owner of
        Inl e \<Rightarrow> Inl e
      | Inr (ownerLabel, _) \<Rightarrow> Inr (GetSelector ownerLabel))"

definition setAnnotations :: "(string \<times> string) list \<Rightarrow> objmeta \<Rightarrow> objmeta" where
  "setAnnotations annotations m =
     (let objAnn = AList.delete LabelApplied (case m_annotations m of None \<Rightarrow> [] | Some a \<Rightarrow> a) in
      m\<lparr>m_annotations := Some (fold (\<lambda>(k, v) r. AList.update k v r) annotations objAnn)\<rparr>)"

definition setLabels :: "(string \<times> string) list \<Rightarrow> objmeta \<Rightarrow> objmeta" where
  "setLabels labels m =
     (let objLabels = (case m_labels m of None \<Rightarrow> [] | Some a \<Rightarrow> a) in
      m\<lparr>m_labels := Some (fold (\<lambda>(k, v) r. AList.update k v r) labels objLabels)\<rparr>)"

fun inject_list :: "(string \<times> string) list \<Rightarrow> (string \<times> string) list \<Rightarrow> robj list \<Rightarrow> robj list result" where
  "inject_list labels annotations [] = Inr []"
| "inject_list labels annotations (obj # objs) =
     (case Accessor obj of
        Inl e \<Rightarrow> Inl (Wrap ''failed to get metadata'' e)
      | Inr m \<Rightarrow>
          (case inject_list labels annotations objs of
             Inl e \<Rightarrow> Inl e
           | Inr result \<Rightarrow>
               Inr (set_meta (setAnnotations annotations (setLabels labels m)) obj # result)))"

definition injectLabelsAndAnnotations ::
    "desiredset \<Rightarrow> (string \<times> string) list \<Rightarrow> (string \<times> string) list \<Rightarrow> robj list result" where
  "injectLabelsAndAnnotations ds labels annotations =
     inject_list labels annotations
       (concat (map (\<lambda>(gvk, objMap). map snd objMap) (ObjectsByGVK (ds_objs ds))))"

fun run_injs :: "env \<Rightarrow> nat option list \<Rightarrow> robj list \<Rightarrow> robj list result" where
  "run_injs env [] objList = Inr objList"
| "run_injs env (i0 # injs) objList =
     (case i0 of
        None \<Rightarrow> run_injs env injs objList
      | Some i \<Rightarrow>
          (case e_inject env i objList of
             Inl e \<Rightarrow> Inl e
           | Inr objList \<Rightarrow> run_injs env injs objList))"

definition runInjectors :: "env \<Rightarrow> desiredset \<Rightarrow> robj list \<Rightarrow> robj list result" where
  "runInjectors env ds objList =
     (case run_injs env (ds_injectors ds) objList of
        Inl e \<Rightarrow> Inl e
      | Inr objList \<Rightarrow> run_injs env (map (e_injectorByName env) (ds_injectorNames ds)) objList)"

definition collect :: "env \<Rightarrow> robj list \<Rightarrow> objbygvk" where
  "collect env objList =
     fold (\<lambda>obj r. case ByGVK_Add (e_kinds env) r obj of Inl _ \<Rightarrow> r | Inr (_, r') \<Rightarrow> r') objList []"

subsection \<open>Requests\<close>

definition scope :: "bool \<Rightarrow> string \<Rightarrow> string option" where
  "scope nsed namespace = (if nsed then Some namespace else None)"

text \<open>An object that is not unstructured yet is encoded as JSON and read back; \<open>Encode\<close> writes what \<open>Marshal\<close>
  gives, and a line end.\<close>

definition toUnstructured :: "env \<Rightarrow> robj \<Rightarrow> robj result" where
  "toUnstructured env obj =
     (if e_isUnstructured env obj then Inr obj
      else case e_marshalObj env obj of
        Inl e \<Rightarrow> Inl e
      | Inr buf \<Rightarrow>
          (case e_unmarshal env buf of
             Inl e \<Rightarrow> Inl e
           | Inr m \<Rightarrow> Inr (e_fromMap env m)))"

definition ds_create :: "env \<Rightarrow> bool \<Rightarrow> string \<Rightarrow> gvr \<Rightarrow> robj \<Rightarrow> st \<Rightarrow> goerr option \<times> st" where
  "ds_create env nsed namespace client obj s =
     (case toUnstructured env obj of
        Inl e \<Rightarrow> (Some e, s)
      | Inr unstr \<Rightarrow>
          let s = api (CCreate client (scope nsed namespace) unstr) s in (a_create env (s_calls s), s))"

definition ds_get :: "env \<Rightarrow> bool \<Rightarrow> string \<Rightarrow> string \<Rightarrow> gvr \<Rightarrow> st \<Rightarrow> robj result \<times> st" where
  "ds_get env nsed namespace name client s =
     (let s = api (CGet client (scope nsed namespace) name) s in (a_get env (s_calls s), s))"

definition ds_delete :: "env \<Rightarrow> desiredset \<Rightarrow> bool \<Rightarrow> string \<Rightarrow> string \<Rightarrow> gvr \<Rightarrow> bool \<Rightarrow> gvk \<Rightarrow> st
    \<Rightarrow> goerr option \<times> st" where
  "ds_delete env ds nsed namespace name client force gvk s =
     (if \<not> force \<and> ds_noDelete ds then (None, s)
      else if \<not> force \<and> gvk \<in> set (ds_noDeleteGVK ds) then (None, s)
      else
        let s = api (CDelete client (scope nsed namespace) name) s in (a_delete env (s_calls s), s))"

definition getControllerAndClient :: "env \<Rightarrow> desiredset \<Rightarrow> gvk \<Rightarrow> st \<Rightarrow> (nat option \<times> gvr) result \<times> st" where
  "getControllerAndClient env ds gvk s =
     (case clients_client env gvk s of
        (Inl e, s) \<Rightarrow> (Inl e, s)
      | (Inr client, s) \<Rightarrow>
          let informer = (case map_of (ds_pruneTypes ds) gvk of
                Some i \<Rightarrow> i
              | None \<Rightarrow> (case map_of (ds_informers ds) gvk of Some i \<Rightarrow> i | None \<Rightarrow> None)) in
          (case (if informer = None \<and> ds_informerFactory ds
                 then let s = api (CInformer gvk) s in (a_informer env (s_calls s), s)
                 else (Inr informer, s)) of
             (Inl e, s) \<Rightarrow> (Inl (Wrap ''failed to construct informer'' e), s)
           | (Inr informer, s) \<Rightarrow>
               if informer = None \<and> ds_strictCaching ds
               then (Inl (Wrap ''failed to find informer'' ErrNoInformerFound), s)
               else (Inr (informer, client), s)))"

subsection \<open>Namespaces and owners\<close>

definition ownerRef :: "desiredset \<Rightarrow> gvk \<Rightarrow> objmeta \<Rightarrow> ownerref" where
  "ownerRef ds ownerGVK ownerMeta =
     \<lparr>or_apiVersion = gv_String ownerGVK, or_kind = g_kind ownerGVK, or_name = m_name ownerMeta,
      or_uid = m_uid ownerMeta, or_controller = Some (ds_ownerReferenceController ds),
      or_block = Some (ds_ownerReferenceBlock ds)\<rparr>"

text \<open>One visit of the loop of \<open>assignOwnerReference\<close>; \<open>nsed\<close> is the scope of the objects' kind.\<close>

definition assign_visit :: "desiredset \<Rightarrow> gvk \<Rightarrow> objmeta \<Rightarrow> bool \<Rightarrow> bool \<Rightarrow> objkey \<Rightarrow> objbykey \<Rightarrow> objbykey result" where
  "assign_visit ds ownerGVK ownerMeta ownerNSed nsed k objs =
     (case map_of objs k of
        None \<Rightarrow> Inr objs
      | Some v \<Rightarrow>
          if ownerNSed \<and> \<not> nsed then Inr objs
          else
            let assignNS = (nsed \<and> k_namespace k = '''');
                assignOwner = (\<not> (nsed \<and> k_namespace k \<noteq> ''''
                    \<and> k_namespace k \<noteq> m_namespace ownerMeta \<and> ownerNSed)) in
            if \<not> assignOwner then Inr objs
            else case Accessor v of
              Inl e \<Rightarrow> Inl e
            | Inr m \<Rightarrow>
                let m = (if assignNS then m\<lparr>m_namespace := m_namespace ownerMeta\<rparr> else m);
                    shouldSet = (\<forall>rf \<in> set (m_ownerReferences m). m_uid ownerMeta \<noteq> or_uid rf);
                    m = (if shouldSet
                         then m\<lparr>m_ownerReferences := m_ownerReferences m @ [ownerRef ds ownerGVK ownerMeta]\<rparr>
                         else m);
                    v = set_meta m v;
                    objs = AList.update k v objs in
                Inr (if assignNS
                     then AList.update (ObjectKey (k_name k) (m_namespace ownerMeta)) v (AList.delete k objs)
                     else objs))"

fun visit_all :: "(objkey \<Rightarrow> objbykey \<Rightarrow> objbykey result) \<Rightarrow> objkey list \<Rightarrow> objbykey \<Rightarrow> objbykey result" where
  "visit_all f [] objs = Inr objs"
| "visit_all f (k # ks) objs =
     (case f k objs of Inl e \<Rightarrow> Inl e | Inr objs \<Rightarrow> visit_all f ks objs)"

definition assignOwnerReference :: "env \<Rightarrow> desiredset \<Rightarrow> gvk \<Rightarrow> objbykey \<Rightarrow> st \<Rightarrow> objbykey result \<times> st" where
  "assignOwnerReference env ds gvk objs s =
     (case ds_owner ds of
        None \<Rightarrow> (Inl (Err ''no owner set to assign owner reference''), s)
      | Some ob \<Rightarrow>
          (case Accessor ob of
             Inl e \<Rightarrow> (Inl e, s)
           | Inr ownerMeta \<Rightarrow>
               (case gvk_Get (e_kinds env) ob of
                  Inl e \<Rightarrow> (Inl e, s)
                | Inr ownerGVK \<Rightarrow>
                    (case IsNamespaced env ownerGVK s of
                       (Inl e, s) \<Rightarrow> (Inl e, s)
                     | (Inr ownerNSed, s) \<Rightarrow>
                         if objs = [] then (Inr objs, s)
                         else (case IsNamespaced env gvk s of
                            (Inl e, s) \<Rightarrow> (Inl e, s)
                          | (Inr nsed, s) \<Rightarrow>
                              (visit_all (assign_visit ds ownerGVK ownerMeta ownerNSed nsed)
                                 (e_range env (map fst objs)) objs, s))))))"

definition move_visit :: "(string \<Rightarrow> bool) \<Rightarrow> string \<Rightarrow> objkey \<Rightarrow> objbykey \<Rightarrow> objbykey result" where
  "move_visit skip ns k objs =
     (case map_of objs k of
        None \<Rightarrow> Inr objs
      | Some v \<Rightarrow>
          if skip (k_namespace k) then Inr objs
          else case Accessor v of
            Inl e \<Rightarrow> Inl e
          | Inr m \<Rightarrow>
              Inr (AList.update (ObjectKey (k_name k) ns) (set_meta (m\<lparr>m_namespace := ns\<rparr>) v)
                     (AList.delete k objs)))"

definition adjustNamespace :: "env \<Rightarrow> desiredset \<Rightarrow> objbykey \<Rightarrow> objbykey result" where
  "adjustNamespace env ds objs =
     visit_all (move_visit (\<lambda>ns. ns \<noteq> '''') (ds_defaultNamespace ds)) (e_range env (map fst objs)) objs"

definition clearNamespace :: "env \<Rightarrow> objbykey \<Rightarrow> objbykey result" where
  "clearNamespace env objs =
     visit_all (move_visit (\<lambda>ns. ns = '''') '''') (e_range env (map fst objs)) objs"

subsection \<open>Listing what exists\<close>

definition addObjectToMap :: "robj \<Rightarrow> objbykey \<Rightarrow> objbykey result" where
  "addObjectToMap obj objs =
     (case Accessor obj of
        Inl e \<Rightarrow> Inl e
      | Inr metadata \<Rightarrow> Inr (AList.update (key_of metadata) obj objs))"

text \<open>Adding a list, collecting the errors.\<close>

fun add_objs :: "robj list \<Rightarrow> objbykey \<Rightarrow> goerr option list \<Rightarrow> objbykey \<times> goerr option list" where
  "add_objs [] objs errs = (objs, errs)"
| "add_objs (obj # rest) objs errs =
     (case addObjectToMap obj objs of
        Inl e \<Rightarrow> add_objs rest objs (errs @ [Some e])
      | Inr objs \<Rightarrow> add_objs rest objs errs)"

definition allNamespaceList :: "env \<Rightarrow> gvr \<Rightarrow> string \<Rightarrow> st \<Rightarrow> robj list \<times> goerr option \<times> st" where
  "allNamespaceList env client selector s =
     (let s = api (CList client None selector) s in
      case a_list env (s_calls s) of Inl e \<Rightarrow> ([], Some e, s) | Inr items \<Rightarrow> (items, None, s))"

text \<open>The requests run concurrently; the list is in the order in which they complete, the first
  error is the one returned, and a request that was cancelled answers with an error.\<close>

fun multiNamespaceList :: "env \<Rightarrow> string list \<Rightarrow> gvr \<Rightarrow> string \<Rightarrow> st \<Rightarrow> robj list \<times> goerr option \<times> st" where
  "multiNamespaceList env [] client selector s = ([], None, s)"
| "multiNamespaceList env (ns # nss) client selector s =
     (let s = api (CList client (Some ns) selector) s in
      case a_list env (s_calls s) of
        Inl e \<Rightarrow> (case multiNamespaceList env nss client selector s of (items, _, s) \<Rightarrow> (items, Some e, s))
      | Inr items \<Rightarrow>
          (case multiNamespaceList env nss client selector s of
             (items', e, s) \<Rightarrow> (items @ items', e, s)))"

definition inNamespace :: "string \<Rightarrow> robj \<Rightarrow> bool" where
  "inNamespace namespace obj =
     (case Accessor obj of Inl _ \<Rightarrow> False | Inr m \<Rightarrow> m_namespace m = namespace)"

definition listByHash :: "env \<Rightarrow> nat \<Rightarrow> string \<Rightarrow> string \<Rightarrow> st \<Rightarrow> objbykey result \<times> st" where
  "listByHash env informer hash namespace s =
     (let s = api (CIndex informer hash) s in
      case a_index env (s_calls s) of
        Inl e \<Rightarrow> (Inl e, s)
      | Inr res \<Rightarrow>
          (case add_objs (filter (\<lambda>obj. \<not> (namespace \<noteq> '''' \<and> \<not> inNamespace namespace obj)) res) [] [] of
             (objs, errs) \<Rightarrow>
               (case NewErrors errs of None \<Rightarrow> (Inr objs, s) | Some e \<Rightarrow> (Inl e, s))))"

text \<open>A selector here is one exact value of the hash label, so \<open>getIndexableHash\<close> only asks
  whether the informer has the index.\<close>

definition getIndexableHash :: "desiredset \<Rightarrow> nat \<Rightarrow> string \<Rightarrow> string option" where
  "getIndexableHash ds informer selector =
     (if informer \<in> set (ds_indexed ds) then Some selector else None)"

definition ds_list :: "env \<Rightarrow> desiredset \<Rightarrow> bool \<Rightarrow> nat option \<Rightarrow> gvr \<Rightarrow> string \<Rightarrow> objbykey \<Rightarrow> st
    \<Rightarrow> objbykey result \<times> st" where
  "ds_list env ds namespaced informer client selector desiredObjects s =
     (case informer of
        None \<Rightarrow>
          let namespaces = (if ds_listerNamespace ds \<noteq> '''' then [ds_listerNamespace ds]
                            else ByKey_Namespaces desiredObjects);
              (items, err, s) =
                (if ds_owner ds \<noteq> None \<and> ds_listerNamespace ds = ''''
                 then allNamespaceList env client selector s
                 else multiNamespaceList env namespaces client selector s);
              (objs, errs) = add_objs items [] [] in
          (case NewErrors (errs @ (case err of None \<Rightarrow> [] | Some e \<Rightarrow> [Some e])) of
             None \<Rightarrow> (Inr objs, s) | Some e \<Rightarrow> (Inl e, s))
      | Some i \<Rightarrow>
          let namespace = (if namespaced then ds_listerNamespace ds else '''') in
          (case getIndexableHash ds i selector of
             Some hash \<Rightarrow> listByHash env i hash namespace s
           | None \<Rightarrow>
               let s = api (CCacheList i namespace selector) s;
                   (items, err) = a_cachelist env (s_calls s);
                   (objs, errs) = add_objs items [] [] in
               (case NewErrors (errs @ (case err of None \<Rightarrow> [] | Some e \<Rightarrow> [Some e])) of
                  None \<Rightarrow> (Inr objs, s) | Some e \<Rightarrow> (Inl e, s))))"

subsection \<open>Comparing\<close>

definition shouldPrune :: "robj \<Rightarrow> bool" where
  "shouldPrune obj =
     (case Accessor obj of Inl _ \<Rightarrow> True | Inr m \<Rightarrow> smap_get (m_labels m) LabelPrune \<noteq> ''false'')"

definition sortObjectKeys :: "objkey list \<Rightarrow> objkey list" where
  "sortObjectKeys keys = sort_key objkey_String keys"

definition compareSets :: "objbykey \<Rightarrow> objbykey \<Rightarrow> objkey list \<times> objkey list \<times> objkey list" where
  "compareSets existingSet newSet =
     (let toUpdate = filter (\<lambda>k. map_of existingSet k \<noteq> None) (map fst newSet);
          toCreate = filter (\<lambda>k. map_of existingSet k = None) (map fst newSet);
          toDelete = map fst (filter (\<lambda>(k, obj). map_of newSet k = None \<and> shouldPrune obj) existingSet) in
      (sortObjectKeys toCreate, sortObjectKeys toDelete, sortObjectKeys toUpdate))"

definition filterCrossVersion :: "desiredset \<Rightarrow> gvk \<Rightarrow> objkey list \<Rightarrow> objkey list" where
  "filterCrossVersion ds gvk keys =
     (let gk = GroupKind gvk;
          has = (\<lambda>key. case ds_objs ds of None \<Rightarrow> False | Some os \<Rightarrow> os_Contains os gk key) in
      filter (\<lambda>key. \<not> has key
        \<and> \<not> (k_namespace key = ds_defaultNamespace ds \<and> has (ObjectKey (k_name key) ''''))) keys)"

subsection \<open>Creating, updating, deleting\<close>

record work =
  w_toUpdate :: "objkey list"
  w_existing :: objbykey

definition createF :: "env \<Rightarrow> desiredset \<Rightarrow> bool \<Rightarrow> gvr \<Rightarrow> gvk \<Rightarrow> objbykey \<Rightarrow> objkey
    \<Rightarrow> work \<times> st \<Rightarrow> work \<times> st" where
  "createF env ds nsed client gvk objs k ws =
     (case ws of (w, s) \<Rightarrow>
     (case prepareObjectForCreate env gvk (the (map_of objs k)) of
        Inl e \<Rightarrow> (w, add_err (Wrap ''failed to prepare create'' e) s)
      | Inr obj \<Rightarrow>
          (case ds_create env nsed (k_namespace k) client obj s of
             (err, s) \<Rightarrow>
               (case (if IsAlreadyExists err
                      then (case ds_get env nsed (k_namespace k) (k_name k) client s of
                              (Inr existingObj, s) \<Rightarrow> (Some existingObj, s) | (Inl _, s) \<Rightarrow> (None, s))
                      else (None, s)) of
                  (Some existingObj, s) \<Rightarrow>
                    (w\<lparr>w_toUpdate := w_toUpdate w @ [k],
                       w_existing := AList.update k existingObj (w_existing w)\<rparr>, s)
                | (None, s) \<Rightarrow>
                    (w, case err of None \<Rightarrow> s | Some e \<Rightarrow> add_err (Wrap ''failed to create'' e) s)))))"

definition deleteF :: "env \<Rightarrow> desiredset \<Rightarrow> bool \<Rightarrow> gvr \<Rightarrow> gvk \<Rightarrow> bool \<Rightarrow> objkey \<Rightarrow> st \<Rightarrow> st" where
  "deleteF env ds nsed client gvk force k s =
     (case ds_delete env ds nsed (k_namespace k) (k_name k) client force gvk s of
        (None, s) \<Rightarrow> s
      | (Some e, s) \<Rightarrow> add_err (Wrap ''failed to delete'' e) s)"

definition updateF :: "env \<Rightarrow> desiredset \<Rightarrow> bool \<Rightarrow> gvr \<Rightarrow> gvk \<Rightarrow> nat option \<Rightarrow> patcher \<Rightarrow> objbykey
    \<Rightarrow> objbykey \<Rightarrow> objkey \<Rightarrow> st \<Rightarrow> st" where
  "updateF env ds nsed client gvk reconciler patcher existing objs k s =
     (case compareObjects env ds gvk reconciler patcher (the (map_of existing k)) (the (map_of objs k)) s of
        (None, s) \<Rightarrow> s
      | (Some e, s) \<Rightarrow>
          if e = ErrReplace
          then add_err (Err ''DesiredSet - Replace Wait'') (deleteF env ds nsed client gvk True k s)
          else add_err (Wrap ''failed to update'' e) s)"

subsection \<open>One kind\<close>

text \<open>The namespaces and owners of the desired objects, before anything is compared.\<close>

definition prepare_objs :: "env \<Rightarrow> desiredset \<Rightarrow> gvk \<Rightarrow> bool \<Rightarrow> objbykey \<Rightarrow> st \<Rightarrow> objbykey result \<times> st" where
  "prepare_objs env ds gvk nsed objs s =
     (case (if ds_setOwnerReference ds \<and> ds_owner ds \<noteq> None
            then assignOwnerReference env ds gvk objs s else (Inr objs, s)) of
        (Inl e, s) \<Rightarrow> (Inl e, s)
      | (Inr objs, s) \<Rightarrow>
          ((if nsed then adjustNamespace env ds objs else clearNamespace env objs), s))"

text \<open>The three loops over the keys to create, to update and to delete.\<close>

definition run_work :: "env \<Rightarrow> desiredset \<Rightarrow> bool \<Rightarrow> gvr \<Rightarrow> gvk \<Rightarrow> nat option \<Rightarrow> patcher \<Rightarrow> objbykey
    \<Rightarrow> objbykey \<Rightarrow> objkey list \<Rightarrow> objkey list \<Rightarrow> objkey list \<Rightarrow> st \<Rightarrow> st" where
  "run_work env ds nsed client gvk reconciler patcher existing objs toCreate toDelete toUpdate s =
     (let (w, s) = fold (createF env ds nsed client gvk objs) toCreate
            (\<lparr>w_toUpdate = toUpdate, w_existing = existing\<rparr>, s);
          s = fold (updateF env ds nsed client gvk reconciler patcher (w_existing w) objs) (w_toUpdate w) s in
      fold (deleteF env ds nsed client gvk False) toDelete s)"

text \<open>Everything \<open>process\<close> does before it compares: the client, the scope of the kind, the desired
  objects with their namespaces and owners, and the existing objects.\<close>

definition observe :: "env \<Rightarrow> desiredset \<Rightarrow> string \<Rightarrow> gvk \<Rightarrow> objbykey \<Rightarrow> st
    \<Rightarrow> (bool \<times> gvr \<times> objbykey \<times> objbykey) result \<times> st" where
  "observe env ds sel gvk objs s =
     (case getControllerAndClient env ds gvk s of
        (Inl e, s) \<Rightarrow> (Inl e, s)
      | (Inr (controller, client), s) \<Rightarrow>
     (case IsNamespaced env gvk s of
        (Inl e, s) \<Rightarrow> (Inl e, s)
      | (Inr nsed, s) \<Rightarrow>
     (if \<not> nsed \<and> ds_restrictClusterScoped ds
      then (Inl (Err (''invalid cluster scoped gvk: '' @ gvk_String gvk)), s)
      else case prepare_objs env ds gvk nsed objs s of
        (Inl e, s) \<Rightarrow> (Inl e, s)
      | (Inr objs, s) \<Rightarrow>
     (case ds_list env ds nsed controller client sel objs s of
        (Inl e, s) \<Rightarrow> (Inl (Wrap ''failed to list'' e), s)
      | (Inr existing, s) \<Rightarrow> (Inr (nsed, client, objs, existing), s)))))"

definition process :: "env \<Rightarrow> desiredset \<Rightarrow> string \<Rightarrow> gvk \<Rightarrow> objbykey \<Rightarrow> st \<Rightarrow> st" where
  "process env ds sel gvk objs s =
     (case observe env ds sel gvk objs s of
        (Inl e, s) \<Rightarrow> add_err e s
      | (Inr (nsed, client, objs, existing), s) \<Rightarrow>
     (let patcher = (case map_of (ds_patchers ds) gvk of Some n \<Rightarrow> PUser n | None \<Rightarrow> PClient client);
          reconciler = map_of (ds_reconcilers ds) gvk;
          (toCreate, toDelete, toUpdate) = compareSets existing objs;
          toDelete = filterCrossVersion ds gvk toDelete in
      if ds_createPlan ds then
        let s = s\<lparr>s_plan := (s_plan s)\<lparr>p_Create := AList.update gvk toCreate (p_Create (s_plan s)),
               p_Delete := AList.update gvk toDelete (p_Delete (s_plan s))\<rparr>\<rparr> in
        run_work env ds nsed client gvk None (PPlan gvk) existing objs [] [] toUpdate s
      else
        run_work env ds nsed client gvk reconciler patcher existing objs toCreate toDelete toUpdate s))"

subsection \<open>The whole set\<close>

definition os_option_Err :: "objectset option \<Rightarrow> goerr option" where
  "os_option_Err os = (case os of None \<Rightarrow> None | Some os \<Rightarrow> os_Err os)"

definition ds_Err :: "desiredset \<Rightarrow> st \<Rightarrow> goerr option" where
  "ds_Err ds s = NewErrors (s_errs s @ [os_option_Err (ds_objs ds)])"

definition ds_err :: "desiredset \<Rightarrow> goerr \<Rightarrow> st \<Rightarrow> goerr option \<times> st" where
  "ds_err ds e s = (let s = add_err e s in (ds_Err ds s, s))"

text \<open>The rate limiter of a set exists from its first apply until the set is removed; waiting for it
  has no other effect.\<close>

definition getRateLimit :: "desiredset \<Rightarrow> string \<Rightarrow> st \<Rightarrow> st" where
  "getRateLimit ds labelHash s =
     (if ds_remove ds then s\<lparr>s_rls := removeAll labelHash (s_rls s)\<rparr>
      else s\<lparr>s_rls := List.insert labelHash (s_rls s)\<rparr>)"

definition knownGVK :: "desiredset \<Rightarrow> gvk list" where
  "knownGVK ds = map fst (ds_pruneTypes ds)"

definition ds_apply :: "env \<Rightarrow> desiredset \<Rightarrow> st \<Rightarrow> goerr option \<times> st" where
  "ds_apply env ds s =
     (let ds = (case ds_objs ds of
            None \<Rightarrow> ds\<lparr>ds_remove := True\<rparr>
          | Some os \<Rightarrow> if os_Len os = 0 then ds\<lparr>ds_remove := True\<rparr> else ds) in
      case ds_Err ds s of
        Some e \<Rightarrow> (Some e, s)
      | None \<Rightarrow>
     (case GetLabelsAndAnnotations env (ds_setID ds) (ds_owner ds) of
        Inl e \<Rightarrow> ds_err ds e s
      | Inr (labelSet, annotationSet) \<Rightarrow>
          let s = getRateLimit ds (smap_get (Some labelSet) LabelHash) s in
     (case injectLabelsAndAnnotations ds labelSet annotationSet of
        Inl e \<Rightarrow> ds_err ds e s
      | Inr objList \<Rightarrow>
     (case runInjectors env ds objList of
        Inl e \<Rightarrow> ds_err ds e s
      | Inr objList \<Rightarrow>
          let objs = collect env objList;
              sel = GetSelector labelSet;
              order = (case ds_objs ds of None \<Rightarrow> [] | Some os \<Rightarrow> GVKOrder os (knownGVK ds));
              s = fold (\<lambda>gvk s. process env ds sel gvk
                     (case map_of objs gvk of None \<Rightarrow> [] | Some m \<Rightarrow> m) s) order s in
          (ds_Err ds s, s)))))"

definition dryRun :: "env \<Rightarrow> desiredset \<Rightarrow> st \<Rightarrow> plan \<times> goerr option \<times> st" where
  "dryRun env ds s =
     (let s = s\<lparr>s_plan := (s_plan s)\<lparr>p_Create := [], p_Update := [], p_Delete := []\<rparr>\<rparr>;
          (err, s) = ds_apply env (ds\<lparr>ds_createPlan := True\<rparr>) s in
      (s_plan s, err, s))"

definition ds_DryRun :: "env \<Rightarrow> desiredset \<Rightarrow> robj option list \<Rightarrow> st \<Rightarrow> plan \<times> goerr option \<times> st" where
  "ds_DryRun env ds objs s =
     dryRun env (ds\<lparr>ds_objs := Some (os_Add (e_kinds env) objs os_new)\<rparr>) s"

definition ds_Apply :: "env \<Rightarrow> desiredset \<Rightarrow> objectset option \<Rightarrow> st \<Rightarrow> goerr option \<times> st" where
  "ds_Apply env ds os s =
     ds_apply env (ds\<lparr>ds_objs := Some (case os of None \<Rightarrow> os_new | Some x \<Rightarrow> x)\<rparr>) s"

definition ds_ApplyObjects :: "env \<Rightarrow> desiredset \<Rightarrow> robj option list \<Rightarrow> st \<Rightarrow> goerr option \<times> st" where
  "ds_ApplyObjects env ds objs s = ds_Apply env ds (Some (os_Add (e_kinds env) objs os_new)) s"

end
