(* ===== verification/Apply_Spec.thy ===== *)
theory Apply_Spec
  imports Apply_Process
begin

section \<open>apply: what it does to the cluster\<close>

text \<open>
  Theorems on \<open>Apply_Process\<close>. The requests a step makes are compared by the relation
  \<open>emits P\<close>: the trace only grows, by requests that satisfy \<open>P\<close>.
\<close>

subsection \<open>Requests made by a step\<close>

definition emits :: "(call \<Rightarrow> bool) \<Rightarrow> st \<Rightarrow> st \<Rightarrow> bool" where
  "emits P s s' = (\<exists>cs. s_calls s' = s_calls s @ cs \<and> list_all P cs)"

definition new_calls :: "st \<Rightarrow> st \<Rightarrow> call list" where
  "new_calls s s' = drop (length (s_calls s)) (s_calls s')"

named_theorems emits \<open>which requests a step makes\<close>

lemma emits_refl [simp]: "emits P s s"
  by (simp add: emits_def)

lemma emits_trans: "emits P s s' \<Longrightarrow> emits P s' s'' \<Longrightarrow> emits P s s''"
  by (auto simp: emits_def)

lemma emits_mono: "emits P s s' \<Longrightarrow> (\<And>c. P c \<Longrightarrow> Q c) \<Longrightarrow> emits Q s s'"
  by (auto simp: emits_def list_all_iff)

lemma emits_same_calls: "s_calls s' = s_calls s \<Longrightarrow> emits P s s'"
  by (simp add: emits_def)

lemma emits_api: "P c \<Longrightarrow> emits P s (api c s)"
  by (simp add: emits_def api_def)

lemma emits_new_calls: "emits P s s' \<Longrightarrow> c \<in> set (new_calls s s') \<Longrightarrow> P c"
  by (auto simp: emits_def new_calls_def list_all_iff)

lemma emits_fold:
  assumes "\<And>x s. x \<in> set xs \<Longrightarrow> emits P s (f x s)"
  shows "emits P s (fold f xs s)"
  using assms
proof (induction xs arbitrary: s)
  case (Cons x xs)
  then have "emits P s (f x s)" "emits P (f x s) (fold f xs (f x s))" by auto
  then show ?case by (auto intro: emits_trans)
qed simp

lemma s_calls_simps [simp]:
  "s_calls (add_err e s) = s_calls s" "s_calls (api c s) = s_calls s @ [c]"
  by (simp_all add: add_err_def api_def)

fun is_discover :: "call \<Rightarrow> bool" where
  "is_discover (CDiscover _) = True" | "is_discover _ = False"

fun is_read :: "call \<Rightarrow> bool" where
  "is_read (CCreate _ _ _) = False" | "is_read (CDelete _ _ _) = False"
| "is_read (CPatch _ _ _ _ _) = False" | "is_read (CUserPatch _ _ _ _ _) = False"
| "is_read (CReconcile _ _ _) = False" | "is_read _ = True"

lemma is_discover_read: "is_discover c \<Longrightarrow> is_read c"
  by (cases c) auto

lemma clients_client_emits [emits]: "emits is_discover s (snd (clients_client env gvk s))"
  by (auto simp: clients_client_def emits_def Let_def split: option.splits sum.splits)

lemma IsNamespaced_emits [emits]: "emits is_discover s (snd (IsNamespaced env gvk s))"
  using clients_client_emits[of s env gvk]
  by (auto simp: IsNamespaced_def split: option.splits sum.splits prod.splits)

text \<open>Steps that return an error or go on.\<close>

lemma emits_case:
  assumes r: "emits P s (snd r)" and g: "\<And>e. emits P (snd r) (snd (g e (snd r)))"
    and f: "\<And>x. emits P (snd r) (snd (f x (snd r)))"
  shows "emits P s (snd (case r of (Inl e, s1) \<Rightarrow> g e s1 | (Inr x, s1) \<Rightarrow> f x s1))"
proof (cases r)
  case (Pair a s1)
  then show ?thesis
    using emits_trans[OF r g] emits_trans[OF r f] by (cases a) simp_all
qed

lemma getControllerAndClient_emits [emits]: "emits is_read s (snd (getControllerAndClient env ds gvk s))"
proof -
  have c: "emits is_read s (snd (clients_client env gvk s))"
    by (rule emits_mono[OF clients_client_emits is_discover_read])
  have i: "emits is_read s (api (CInformer g) s)" for g s by (rule emits_api) simp
  show ?thesis
    unfolding getControllerAndClient_def Let_def
    by (rule emits_case[OF c], simp, rule emits_case) (simp_all add: i)
qed

lemma assignOwnerReference_emits [emits]:
  "emits is_discover s (snd (assignOwnerReference env ds gvk objs s))"
  unfolding assignOwnerReference_def
  by (auto split: option.split sum.split intro!: emits_case[OF IsNamespaced_emits])

lemma prepare_objs_emits [emits]: "emits is_discover s (snd (prepare_objs env ds gvk nsed objs s))"
  using assignOwnerReference_emits[of s env ds gvk objs]
  by (auto simp: prepare_objs_def split: sum.splits prod.splits)

lemma multiNamespaceList_emits: "emits is_read s (snd (snd (multiNamespaceList env nss client sel s)))"
proof (induction nss arbitrary: s)
  case (Cons ns nss)
  let ?s = "api (CList client (Some ns) sel) s"
  have "emits is_read s ?s" by (rule emits_api) simp
  from emits_trans[OF this Cons.IH[of ?s]] show ?case
    by (auto simp: Let_def split: sum.splits prod.splits)
qed simp

lemma ds_list_emits [emits]: "emits is_read s (snd (ds_list env ds nsed informer client sel objs s))"
proof -
  have a: "emits is_read s (snd (snd (allNamespaceList env client sel s)))"
    by (auto simp: allNamespaceList_def Let_def emits_api split: sum.splits)
  have b: "emits is_read s (snd (listByHash env i h ns s))" for i h ns
    by (auto simp: listByHash_def Let_def emits_api split: sum.splits prod.splits option.splits)
  have k: "snd (case r of (items, err, s1) \<Rightarrow> case add_objs items [] [] of (objs, errs) \<Rightarrow>
      (case NewErrors (errs @ f err) of None \<Rightarrow> (Inr objs, s1) | Some e \<Rightarrow> (Inl e, s1))) = snd (snd r)"
    for r :: "robj list \<times> goerr option \<times> st" and f
    by (cases r) (simp split: prod.split option.split)
  have c: "snd (case r of (items, err) \<Rightarrow> case add_objs items [] [] of (objs, errs) \<Rightarrow>
      (case NewErrors (errs @ f err) of None \<Rightarrow> (Inr objs, s1) | Some e \<Rightarrow> (Inl e, s1))) = s1"
    for r :: "robj list \<times> goerr option" and f and s1 :: st
    by (cases r) (simp split: prod.split option.split)
  show ?thesis
  proof (cases informer)
    case None
    show ?thesis
      unfolding ds_list_def Let_def None option.case k by (simp add: a multiNamespaceList_emits)
  next
    case (Some i)
    show ?thesis
    proof (cases "getIndexableHash ds i sel")
      case None
      show ?thesis
        unfolding ds_list_def Let_def Some None option.case c by (simp add: emits_api)
    next
      case h: (Some h)
      show ?thesis
        unfolding ds_list_def Let_def Some h option.case by (rule b)
    qed
  qed
qed

lemma observe_emits [emits]: "emits is_read s (snd (observe env ds sel gvk objs s))"
proof -
  have n: "emits is_read s (snd (IsNamespaced env gvk s))" for s
    by (rule emits_mono[OF IsNamespaced_emits is_discover_read])
  have p: "emits is_read s (snd (prepare_objs env ds gvk nsed objs s))" for nsed s
    by (rule emits_mono[OF prepare_objs_emits is_discover_read])
  have l: "emits is_read s (snd (case ds_list env ds nsed c cl sel objs s of
      (Inl e, s) \<Rightarrow> (Inl (Wrap ''failed to list'' e), s)
    | (Inr existing, s) \<Rightarrow> (Inr (nsed, cl, objs, existing), s)))" for nsed c cl objs s
    by (rule emits_case[OF ds_list_emits]) simp_all
  show ?thesis
    unfolding observe_def
  proof (rule emits_case[OF getControllerAndClient_emits], goal_cases)
    case (2 x)
    obtain c cl where x: "x = (c, cl)" by (cases x)
    show ?case
      unfolding x prod.case
      by (rule emits_case[OF n]) (auto intro!: emits_case[OF p] l)
  qed simp
qed

subsection \<open>Requests of an update\<close>

text \<open>The error by which a reconciler asks for a replacement is apply's own: the codecs, which know
  nothing of it, do not return it.\<close>

definition codecs_ok :: "env \<Rightarrow> bool" where
  "codecs_ok env =
     ((\<forall>x. e_encodeToMap env x \<noteq> Inl ErrReplace) \<and> (\<forall>x. e_marshal env x \<noteq> Inl ErrReplace)
      \<and> (\<forall>x. e_marshalObj env x \<noteq> Inl ErrReplace) \<and> (\<forall>x. e_unmarshal env x \<noteq> Inl ErrReplace))"

fun is_update :: "gvr \<Rightarrow> call \<Rightarrow> bool" where
  "is_update client (CPatch cl _ _ _ _) = (cl = client)"
| "is_update client (CUserPatch _ _ _ _ _) = True"
| "is_update client (CReconcile _ _ _) = True"
| "is_update client _ = False"

definition patcher_for :: "gvr \<Rightarrow> patcher \<Rightarrow> bool" where
  "patcher_for client p = (case p of PClient cl \<Rightarrow> cl = client | _ \<Rightarrow> True)"

lemma run_patcher_emits:
  "patcher_for client p \<Longrightarrow> emits (is_update client) s (snd (run_patcher env p ns name pt data s))"
  by (cases p)
    (auto simp: run_patcher_def patcher_for_def Let_def emits_api emits_same_calls split: sum.split)

lemma run_reconciler_emits: "emits (is_update client) s (snd (run_reconciler env n a b s))"
  by (simp add: run_reconciler_def Let_def emits_api)

lemma emits_send:
  assumes "patcher_for client p"
  shows "emits (is_update client) s (snd (send_patch env p m pt data s))"
  using run_patcher_emits[OF assms, of s env "m_namespace m" "m_name m" pt data]
  by (auto simp: send_patch_def split: prod.splits option.splits)

lemma applyPatch_emits:
  assumes "patcher_for client p"
  shows "emits (is_update client) s (snd (applyPatch env gvk r p ign old new diffs s))"
proof (cases "compute_patch env gvk ign old new diffs")
  case (Inr mp)
  obtain m q where mp: "mp = (m, q)" by (cases mp)
  have r: "emits (is_update client) s (snd (case run_reconciler env n a b s of
      (Inl e, s) \<Rightarrow> (Inl e, s)
    | (Inr handled, s) \<Rightarrow> if handled then (Inr True, s) else send_patch env p m pt data s))"
    for n a b pt data
    by (rule emits_case[OF run_reconciler_emits]) (simp_all add: emits_send[OF assms])
  show ?thesis
    using Inr mp emits_send[OF assms] r
    by (auto simp: applyPatch_def split: option.split sum.split)
qed (simp add: applyPatch_def)

lemma compareObjects_emits:
  assumes "patcher_for client p"
  shows "emits (is_update client) s (snd (compareObjects env ds gvk r p old new s))"
proof -
  have e: "emits (is_update client) s (s\<lparr>s_plan := x\<rparr>)" for x s by (rule emits_same_calls) simp
  have s: "snd (case q of (Inl e, s) \<Rightarrow> (Some e, s) | (Inr x, s) \<Rightarrow> (None, s)) = snd q"
    for q :: "bool result \<times> st" by (cases q; cases "fst q") auto
  show ?thesis
    unfolding compareObjects_def Let_def
    by (auto split: sum.split simp: s intro: applyPatch_emits[OF assms] emits_trans[OF e applyPatch_emits[OF assms]])
qed

text \<open>In a plan nothing is sent, and the error is never the request for a replacement.\<close>

lemma prepare_not_replace: "codecs_ok env \<Longrightarrow> prepareObjectForCreate env gvk obj \<noteq> Inl ErrReplace"
  by (auto simp: prepareObjectForCreate_def serializeApplied_def codecs_ok_def Accessor_def Let_def
      split: sum.splits option.splits)

lemma sanitize_not_replace: "codecs_ok env \<Longrightarrow> sanitizePatch env p b \<noteq> Inl ErrReplace"
  by (auto simp: sanitizePatch_def codecs_ok_def split: sum.splits prod.splits)

lemma original_not_replace: "codecs_ok env \<Longrightarrow> getOriginalObject env gvk m \<noteq> Inl ErrReplace"
  using prepare_not_replace[of env]
  by (auto simp: getOriginalObject_def Let_def codecs_ok_def split: sum.splits)

lemma both_not_replace: "codecs_ok env \<Longrightarrow> originalAndModified env gvk m new \<noteq> Inl ErrReplace"
  using prepare_not_replace[of env] original_not_replace[of env]
  by (auto simp: originalAndModified_def getOriginalBytes_def codecs_ok_def
      split: sum.splits option.splits)

lemma run_plan:
  assumes "codecs_ok env"
  shows "s_calls (snd (run_patcher env (PPlan gvk) ns name pt data s)) = s_calls s
    \<and> fst (run_patcher env (PPlan gvk) ns name pt data s) \<noteq> Some ErrReplace"
  using sanitize_not_replace[OF assms, of data True]
  by (auto simp: run_patcher_def split: sum.splits)

lemma compute_not_replace:
  assumes "codecs_ok env"
  shows "compute_patch env gvk ign old new diffs \<noteq> Inl ErrReplace"
proof -
  have m: "e_marshalObj env x \<noteq> Inl ErrReplace" for x using assms by (simp add: codecs_ok_def)
  have a: "Accessor x \<noteq> Inl ErrReplace" for x by (simp add: Accessor_def split: option.split)
  show ?thesis
    unfolding compute_patch_def Let_def
    using both_not_replace[OF assms] m a sanitize_not_replace[OF assms]
    by (auto split: sum.split prod.split)
qed

lemma applyPatch_plan:
  assumes "codecs_ok env"
  shows "s_calls (snd (applyPatch env gvk None (PPlan gvk) ign old new diffs s)) = s_calls s
    \<and> fst (applyPatch env gvk None (PPlan gvk) ign old new diffs s) \<noteq> Inl ErrReplace"
proof -
  have send: "s_calls (snd (send_patch env (PPlan gvk) m pt data s)) = s_calls s
    \<and> fst (send_patch env (PPlan gvk) m pt data s) \<noteq> Inl ErrReplace" for m pt data s
    using run_plan[OF assms, of gvk "m_namespace m" "m_name m" pt data s]
    by (auto simp: send_patch_def split: prod.splits option.splits)
  show ?thesis
    using compute_not_replace[OF assms, of gvk ign old new diffs] send
    by (auto simp: applyPatch_def split: sum.splits option.split prod.split)
qed

lemma compareObjects_plan:
  assumes "codecs_ok env"
  shows "s_calls (snd (compareObjects env ds gvk None (PPlan gvk) old new s)) = s_calls s
    \<and> fst (compareObjects env ds gvk None (PPlan gvk) old new s) \<noteq> Some ErrReplace"
proof -
  have s: "s_calls (snd (case q of (Inl e, s) \<Rightarrow> (Some e, s) | (Inr x, s) \<Rightarrow> (None, s))) = s_calls (snd q)
    \<and> (fst (case q of (Inl e, s) \<Rightarrow> (Some e, s) | (Inr x, s) \<Rightarrow> (None, s)) = Some ErrReplace
        \<longleftrightarrow> fst q = Inl ErrReplace)"
    for q :: "bool result \<times> st" by (cases q; cases "fst q") auto
  show ?thesis
    unfolding compareObjects_def Let_def
    by (auto split: sum.split option.split simp: s applyPatch_plan[OF assms] Accessor_def)
qed

lemma updateF_plan:
  assumes "codecs_ok env"
  shows "s_calls (updateF env ds nsed client gvk None (PPlan gvk) existing objs k s) = s_calls s"
  using compareObjects_plan[OF assms, of ds gvk "the (map_of existing k)" "the (map_of objs k)" s]
  by (auto simp: updateF_def split: prod.splits option.splits)

lemma fold_updateF_plan:
  assumes "codecs_ok env"
  shows "s_calls (fold (updateF env ds nsed client gvk None (PPlan gvk) existing objs) ks s) = s_calls s"
  by (induction ks arbitrary: s) (simp_all add: updateF_plan[OF assms])

subsection \<open>Deleting, creating, updating\<close>

definition delete_allowed :: "desiredset \<Rightarrow> gvk \<Rightarrow> bool" where
  "delete_allowed ds gvk = (\<not> ds_noDelete ds \<and> gvk \<notin> set (ds_noDeleteGVK ds))"

definition delete_call :: "gvr \<Rightarrow> bool \<Rightarrow> objkey \<Rightarrow> call" where
  "delete_call client nsed k = CDelete client (scope nsed (k_namespace k)) (k_name k)"

lemma deleteF_calls:
  "s_calls (deleteF env ds nsed client gvk force k s) =
     s_calls s @ (if force \<or> delete_allowed ds gvk then [delete_call client nsed k] else [])"
  by (auto simp: deleteF_def ds_delete_def delete_allowed_def delete_call_def Let_def split: option.split)

lemma fold_deleteF_calls:
  "s_calls (fold (deleteF env ds nsed client gvk False) ks s) =
     s_calls s @ (if delete_allowed ds gvk then map (delete_call client nsed) ks else [])"
  by (induction ks arbitrary: s) (simp_all add: deleteF_calls)

text \<open>The create request for a key, when the object can be prepared and encoded.\<close>

definition create_call :: "env \<Rightarrow> bool \<Rightarrow> gvr \<Rightarrow> gvk \<Rightarrow> objbykey \<Rightarrow> objkey \<Rightarrow> call option" where
  "create_call env nsed client gvk objs k =
     (case prepareObjectForCreate env gvk (the (map_of objs k)) of
        Inl e \<Rightarrow> None
      | Inr obj \<Rightarrow> (case toUnstructured env obj of
            Inl e \<Rightarrow> None
          | Inr u \<Rightarrow> Some (CCreate client (scope nsed (k_namespace k)) u)))"

fun is_get :: "call \<Rightarrow> bool" where
  "is_get (CGet _ _ _) = True" | "is_get _ = False"

definition create_step :: "env \<Rightarrow> bool \<Rightarrow> gvr \<Rightarrow> gvk \<Rightarrow> objbykey \<Rightarrow> objkey \<Rightarrow> call \<Rightarrow> bool" where
  "create_step env nsed client gvk objs k c =
     (create_call env nsed client gvk objs k = Some c
      \<or> c = CGet client (scope nsed (k_namespace k)) (k_name k))"

lemma create_step_not_delete: "\<not> create_step env nsed client gvk objs k (CDelete cl sc n)"
  by (auto simp: create_step_def create_call_def split: sum.splits)

lemma createF_calls:
  assumes "createF env ds nsed client gvk objs k (w, s) = (w', s')"
  shows "\<exists>gets. s_calls s' = s_calls s
        @ (case create_call env nsed client gvk objs k of None \<Rightarrow> [] | Some c \<Rightarrow> [c]) @ gets
      \<and> set gets \<subseteq> {CGet client (scope nsed (k_namespace k)) (k_name k)}
      \<and> (w_toUpdate w' = w_toUpdate w \<or> w_toUpdate w' = w_toUpdate w @ [k])"
proof (cases "prepareObjectForCreate env gvk (the (map_of objs k))")
  case (Inl e)
  with assms show ?thesis by (auto simp: createF_def create_call_def)
next
  case (Inr obj)
  show ?thesis
  proof (cases "toUnstructured env obj")
    case (Inl e)
    with Inr assms show ?thesis
      by (auto simp: createF_def create_call_def ds_create_def ds_get_def Let_def
          split: if_splits prod.splits sum.splits option.splits)
  next
    case u: (Inr u)
    with Inr assms show ?thesis
      by (auto simp: createF_def create_call_def ds_create_def ds_get_def Let_def
          split: if_splits prod.splits sum.splits option.splits)
  qed
qed

lemma fold_createF_calls:
  "fold (createF env ds nsed client gvk objs) ks (w, s) = (w', s') \<Longrightarrow>
   emits (\<lambda>c. \<exists>k \<in> set ks. create_step env nsed client gvk objs k c) s s'
   \<and> filter (\<lambda>c. \<not> is_get c) (new_calls s s') = List.map_filter (create_call env nsed client gvk objs) ks
   \<and> set (w_toUpdate w') \<subseteq> set (w_toUpdate w) \<union> set ks"
proof (induction ks arbitrary: w s)
  case Nil
  then show ?case by (simp add: new_calls_def List.map_filter_simps)
next
  case (Cons k ks)
  obtain w1 s1 where 1: "createF env ds nsed client gvk objs k (w, s) = (w1, s1)" by fastforce
  from createF_calls[OF 1] obtain gets where g:
    "s_calls s1 = s_calls s @ (case create_call env nsed client gvk objs k of None \<Rightarrow> [] | Some c \<Rightarrow> [c]) @ gets"
    "set gets \<subseteq> {CGet client (scope nsed (k_namespace k)) (k_name k)}"
    "w_toUpdate w1 = w_toUpdate w \<or> w_toUpdate w1 = w_toUpdate w @ [k]" by blast
  from Cons.prems 1 have "fold (createF env ds nsed client gvk objs) ks (w1, s1) = (w', s')" by simp
  from Cons.IH[OF this] obtain cs where cs: "s_calls s' = s_calls s1 @ cs"
      "\<forall>c \<in> set cs. \<exists>k \<in> set ks. create_step env nsed client gvk objs k c"
      "filter (\<lambda>c. \<not> is_get c) cs = List.map_filter (create_call env nsed client gvk objs) ks"
      "set (w_toUpdate w') \<subseteq> set (w_toUpdate w1) \<union> set ks"
    by (auto simp: emits_def new_calls_def list_all_iff)
  have gets: "filter (\<lambda>c. \<not> is_get c) gets = []" using g(2) by (auto simp: filter_empty_conv)
  have head: "\<not> is_get c" if "create_call env nsed client gvk objs k = Some c" for c
    using that by (auto simp: create_call_def split: sum.splits)
  have "emits (\<lambda>c. \<exists>k \<in> set (k # ks). create_step env nsed client gvk objs k c) s s'"
    using g(1,2) cs(1,2)
    by (auto simp: emits_def list_all_iff create_step_def split: option.splits)
  moreover have "filter (\<lambda>c. \<not> is_get c) (new_calls s s')
      = List.map_filter (create_call env nsed client gvk objs) (k # ks)"
    using g(1) cs(1,3) gets head
    by (auto simp: new_calls_def List.map_filter_simps split: option.splits)
  ultimately show ?case using cs(4) g(3) by auto
qed

definition update_step :: "gvr \<Rightarrow> bool \<Rightarrow> objkey \<Rightarrow> call \<Rightarrow> bool" where
  "update_step client nsed k c = (is_update client c \<or> c = delete_call client nsed k)"

lemma updateF_emits:
  assumes "patcher_for client p"
  shows "emits (update_step client nsed k) s (updateF env ds nsed client gvk r p existing objs k s)"
proof -
  obtain err s1 where c: "compareObjects env ds gvk r p (the (map_of existing k)) (the (map_of objs k)) s
      = (err, s1)" by fastforce
  have 1: "emits (update_step client nsed k) s s1"
    using compareObjects_emits[OF assms, of s env ds gvk r "the (map_of existing k)" "the (map_of objs k)"] c
    by (auto simp: update_step_def intro: emits_mono)
  have 2: "emits (update_step client nsed k) s1 (deleteF env ds nsed client gvk True k s1)"
    by (simp add: emits_def deleteF_calls update_step_def)
  have 3: "emits (update_step client nsed k) s1 (add_err e s1)" for e
    by (rule emits_same_calls) simp
  have 4: "emits (update_step client nsed k) s1 (add_err e (deleteF env ds nsed client gvk True k s1))" for e
    using 2 by (simp add: emits_def)
  show ?thesis
    using 1 emits_trans[OF 1 3] emits_trans[OF 1 4] by (auto simp: updateF_def c split: option.split)
qed

lemma patcher_for_client [simp]: "patcher_for client (PClient client)" "patcher_for client (PUser n)"
  by (simp_all add: patcher_for_def)

subsection \<open>Comparing\<close>

lemma compareSets_props:
  assumes "distinct (map fst existing)" "distinct (map fst objs)"
    and "compareSets existing objs = (toCreate, toDelete, toUpdate)"
  shows "set toCreate = dom (map_of objs) - dom (map_of existing)"
    and "set toUpdate = dom (map_of objs) \<inter> dom (map_of existing)"
    and "set toDelete = {k. \<exists>obj. map_of existing k = Some obj \<and> shouldPrune obj} - dom (map_of objs)"
    and "distinct toCreate" "distinct toDelete" "distinct toUpdate"
    and "sorted (map objkey_String toCreate)" "sorted (map objkey_String toDelete)"
      "sorted (map objkey_String toUpdate)"
proof -
  have eq: "toCreate = sort_key objkey_String (filter (\<lambda>k. map_of existing k = None) (map fst objs))"
    "toUpdate = sort_key objkey_String (filter (\<lambda>k. map_of existing k \<noteq> None) (map fst objs))"
    "toDelete = sort_key objkey_String (map fst (filter (\<lambda>(k, obj). map_of objs k = None \<and> shouldPrune obj) existing))"
    using assms(3) by (auto simp: compareSets_def sortObjectKeys_def Let_def)
  show "set toCreate = dom (map_of objs) - dom (map_of existing)"
    "set toUpdate = dom (map_of objs) \<inter> dom (map_of existing)"
    by (auto simp: eq dom_map_of_conv_image_fst map_of_eq_None_iff)
  show "set toDelete = {k. \<exists>obj. map_of existing k = Some obj \<and> shouldPrune obj} - dom (map_of objs)"
    using assms(1)
    by (force simp: eq domIff map_of_eq_None_iff intro: map_of_is_SomeI dest: map_of_SomeD)
  show "distinct toCreate" "distinct toUpdate" using assms(2) by (simp_all add: eq)
  show "distinct toDelete"
    using assms(1) by (simp add: eq distinct_map_filter)
  show "sorted (map objkey_String toCreate)" "sorted (map objkey_String toDelete)"
      "sorted (map objkey_String toUpdate)" by (simp_all add: eq)
qed

lemma filterCrossVersion_subset: "set (filterCrossVersion ds gvk ks) \<subseteq> set ks"
  by (auto simp: filterCrossVersion_def Let_def)

lemma filterCrossVersion_not_contained:
  "ds_objs ds = Some os \<Longrightarrow> k \<in> set (filterCrossVersion ds gvk ks) \<Longrightarrow> \<not> os_Contains os (GroupKind gvk) k"
  by (auto simp: filterCrossVersion_def Let_def)

lemma process_calls:
  assumes "\<not> ds_createPlan ds"
    and obs: "observe env ds sel gvk objs s = (Inr (nsed, client, objs', existing), s1)"
    and cmp: "compareSets existing objs' = (toCreate, toDelete, toUpdate)"
  shows "\<exists>creates updates. s_calls (process env ds sel gvk objs s) = s_calls s1 @ creates @ updates
      @ (if delete_allowed ds gvk then map (delete_call client nsed) (filterCrossVersion ds gvk toDelete) else [])
    \<and> filter (\<lambda>c. \<not> is_get c) creates = List.map_filter (create_call env nsed client gvk objs') toCreate
    \<and> (\<forall>c \<in> set creates. \<exists>k \<in> set toCreate. create_step env nsed client gvk objs' k c)
    \<and> (\<forall>c \<in> set updates. \<exists>k \<in> set toUpdate \<union> set toCreate. update_step client nsed k c)"
proof -
  define p where "p = (case map_of (ds_patchers ds) gvk of Some n \<Rightarrow> PUser n | None \<Rightarrow> PClient client)"
  have p: "patcher_for client p" by (simp add: p_def split: option.split)
  obtain w s2 where f: "fold (createF env ds nsed client gvk objs') toCreate
      (\<lparr>w_toUpdate = toUpdate, w_existing = existing\<rparr>, s1) = (w, s2)" by fastforce
  let ?upd = "updateF env ds nsed client gvk (map_of (ds_reconcilers ds) gvk) p (w_existing w) objs'"
  from fold_createF_calls[OF f] obtain creates where c: "s_calls s2 = s_calls s1 @ creates"
    "\<forall>c \<in> set creates. \<exists>k \<in> set toCreate. create_step env nsed client gvk objs' k c"
    "filter (\<lambda>c. \<not> is_get c) creates = List.map_filter (create_call env nsed client gvk objs') toCreate"
    "set (w_toUpdate w) \<subseteq> set toUpdate \<union> set toCreate"
    by (auto simp: emits_def new_calls_def list_all_iff)
  have "emits (\<lambda>c. \<exists>k \<in> set (w_toUpdate w). update_step client nsed k c) s2 (fold ?upd (w_toUpdate w) s2)"
    by (rule emits_fold, rule emits_mono[OF updateF_emits[OF p]]) auto
  then obtain updates where u: "s_calls (fold ?upd (w_toUpdate w) s2) = s_calls s2 @ updates"
    "\<forall>c \<in> set updates. \<exists>k \<in> set (w_toUpdate w). update_step client nsed k c"
    by (auto simp: emits_def list_all_iff)
  have "process env ds sel gvk objs s = fold (deleteF env ds nsed client gvk False)
      (filterCrossVersion ds gvk toDelete) (fold ?upd (w_toUpdate w) s2)"
    by (simp add: process_def obs cmp assms(1) run_work_def f p_def)
  then have "s_calls (process env ds sel gvk objs s) = s_calls s1 @ creates @ updates
      @ (if delete_allowed ds gvk then map (delete_call client nsed) (filterCrossVersion ds gvk toDelete) else [])"
    by (simp add: fold_deleteF_calls c(1) u(1))
  moreover have "\<forall>c \<in> set updates. \<exists>k \<in> set toUpdate \<union> set toCreate. update_step client nsed k c"
    using u(2) c(4) by blast
  ultimately show ?thesis using c(2,3) by blast
qed

subsection \<open>Dry runs\<close>

lemma process_plan_emits:
  assumes "codecs_ok env" "ds_createPlan ds"
  shows "emits is_read s (process env ds sel gvk objs s)"
proof -
  obtain r s1 where o: "observe env ds sel gvk objs s = (r, s1)" by fastforce
  have e: "emits is_read s s1" using observe_emits[of s env ds sel gvk objs] o by simp
  show ?thesis
  proof (cases r)
    case (Inl x)
    with o e show ?thesis by (simp add: process_def emits_def)
  next
    case (Inr q)
    obtain nsed client objs' existing where q: "q = (nsed, client, objs', existing)" by (cases q)
    obtain tc td tu where cmp: "compareSets existing objs' = (tc, td, tu)" by (cases "compareSets existing objs'")
    have "s_calls (process env ds sel gvk objs s) = s_calls s1"
      by (simp add: process_def o Inr q cmp assms(2) run_work_def Let_def fold_updateF_plan[OF assms(1)])
    with e show ?thesis by (simp add: emits_def)
  qed
qed

lemma getRateLimit_calls [simp]: "s_calls (getRateLimit ds h s) = s_calls s"
  by (simp add: getRateLimit_def)

lemma ds_apply_emits:
  assumes "\<And>sel gvk objs s ds'. ds_createPlan ds' = ds_createPlan ds \<Longrightarrow> emits P s (process env ds' sel gvk objs s)"
  shows "emits P s (snd (ds_apply env ds s))"
proof -
  have e: "emits P s (snd (ds_err ds' x s))" for ds' x s
    by (simp add: ds_err_def Let_def emits_same_calls)
  have f: "emits P s (fold (\<lambda>gvk s. process env ds' sel gvk (g gvk) s) ks (getRateLimit ds'' h s))"
    if "ds_createPlan ds' = ds_createPlan ds" for ds' ds'' sel g ks h s
  proof -
    have "emits P s (getRateLimit ds'' h s)" by (rule emits_same_calls) simp
    moreover have "emits P (getRateLimit ds'' h s)
        (fold (\<lambda>gvk s. process env ds' sel gvk (g gvk) s) ks (getRateLimit ds'' h s))"
      by (rule emits_fold) (rule assms[OF that])
    ultimately show ?thesis by (rule emits_trans)
  qed
  have r: "emits P s (snd (ds_err ds' x (getRateLimit ds'' h s)))" for ds' x ds'' h
    using e[of "getRateLimit ds'' h s"] by (simp add: emits_def)
  define ds1 where "ds1 = (case ds_objs ds of None \<Rightarrow> ds\<lparr>ds_remove := True\<rparr>
          | Some os \<Rightarrow> if os_Len os = 0 then ds\<lparr>ds_remove := True\<rparr> else ds)"
  have 1: "ds_createPlan ds1 = ds_createPlan ds" by (simp add: ds1_def split: option.split)
  show ?thesis
    unfolding ds_apply_def ds1_def[symmetric] Let_def
    by (auto split: option.split sum.split intro: e r f[OF 1] emits_same_calls)
qed

subsection \<open>Keys stay distinct\<close>

lemma add_objs_distinct: "distinct (map fst m) \<Longrightarrow> distinct (map fst (fst (add_objs xs m errs)))"
  by (induction xs m errs rule: add_objs.induct)
    (auto simp: addObjectToMap_def distinct_update split: sum.splits)

lemma ds_list_distinct:
  assumes "ds_list env ds nsed inf' client sel objs s = (Inr existing, s')"
  shows "distinct (map fst existing)"
proof -
  have d: "add_objs xs [] errs = (m, e) \<Longrightarrow> distinct (map fst m)" for xs errs m e
    using add_objs_distinct[of "[]" xs errs] by simp
  show ?thesis
  proof (cases inf')
    case None
    with assms d show ?thesis
      by (auto simp: ds_list_def Let_def split: prod.splits option.splits if_splits)
  next
    case (Some i)
    with assms d show ?thesis
      by (auto simp: ds_list_def listByHash_def Let_def
          split: prod.splits option.splits if_splits sum.splits)
  qed
qed

lemma visit_all_distinct:
  assumes "\<And>k m m'. f k m = Inr m' \<Longrightarrow> distinct (map fst m) \<Longrightarrow> distinct (map fst m')"
    and "visit_all f ks m = Inr m'" "distinct (map fst m)"
  shows "distinct (map fst m')"
  using assms(2,3) by (induction ks arbitrary: m) (auto split: sum.splits dest: assms(1))

lemma assign_visit_distinct:
  "assign_visit ds og om on nsed k m = Inr m' \<Longrightarrow> distinct (map fst m) \<Longrightarrow> distinct (map fst m')"
  by (auto simp: assign_visit_def Let_def distinct_update distinct_delete
      split: option.splits sum.splits if_splits)

lemma move_visit_distinct:
  "move_visit skip ns k m = Inr m' \<Longrightarrow> distinct (map fst m) \<Longrightarrow> distinct (map fst m')"
  by (auto simp: move_visit_def distinct_update distinct_delete
      split: option.splits sum.splits if_splits)

lemma move_all_distinct:
  "visit_all (move_visit skip ns) ks m = Inr m' \<Longrightarrow> distinct (map fst m) \<Longrightarrow> distinct (map fst m')"
  using visit_all_distinct[of "move_visit skip ns" ks m m', OF move_visit_distinct] .

lemma assign_all_distinct:
  "visit_all (assign_visit ds og om on nsed) ks m = Inr m' \<Longrightarrow> distinct (map fst m) \<Longrightarrow> distinct (map fst m')"
  using visit_all_distinct[of "assign_visit ds og om on nsed" ks m m', OF assign_visit_distinct] .

lemma assignOwnerReference_distinct:
  "assignOwnerReference env ds gvk x s = (Inr x', s1) \<Longrightarrow> distinct (map fst x) \<Longrightarrow> distinct (map fst x')"
  by (auto simp: assignOwnerReference_def split: option.splits sum.splits prod.splits if_splits
      dest: assign_all_distinct)

lemma prepare_objs_distinct:
  assumes "prepare_objs env ds gvk nsed objs s = (Inr objs', s')" "distinct (map fst objs)"
  shows "distinct (map fst objs')"
  using assms
  by (auto simp: prepare_objs_def adjustNamespace_def clearNamespace_def
      split: sum.splits prod.splits if_splits
      dest!: assignOwnerReference_distinct dest: move_all_distinct)

lemma observe_distinct:
  assumes "observe env ds sel gvk objs s = (Inr (nsed, client, objs', existing), s1)" "distinct (map fst objs)"
  shows "distinct (map fst objs') \<and> distinct (map fst existing)"
  using assms prepare_objs_distinct[OF _ assms(2)] ds_list_distinct
  by (auto simp: observe_def split: sum.splits prod.splits if_splits)

subsection \<open>Properties\<close>

text \<open>C7: Comparing the existing with the desired objects splits the keys correctly: an object is
  created when it is desired and missing, updated when it is both, and deleted when it exists, is
  not desired, and is not marked as not to be pruned. The three lists have no key twice and
  no key in common, and are sorted by the text of the key.\<close>

theorem compareSets_spec:
  assumes "distinct (map fst existing)" "distinct (map fst objs)"
    and "compareSets existing objs = (toCreate, toDelete, toUpdate)"
  shows "set toCreate = dom (map_of objs) - dom (map_of existing)
    \<and> set toUpdate = dom (map_of objs) \<inter> dom (map_of existing)
    \<and> set toDelete = {k. \<exists>obj. map_of existing k = Some obj \<and> shouldPrune obj} - dom (map_of objs)
    \<and> distinct (toCreate @ toUpdate @ toDelete)
    \<and> sorted (map objkey_String toCreate) \<and> sorted (map objkey_String toDelete)
    \<and> sorted (map objkey_String toUpdate)"
  using compareSets_props[OF assms] by auto

theorem compareSets_spec_witness:
  "\<exists>toCreate toDelete toUpdate.
     compareSets [(ObjectKey ''old'' ''ns'', \<lparr>o_gvk = gvk_zero, o_meta = Some (meta0 ''ns'' ''old''), o_body = []\<rparr>)]
       [(ObjectKey ''new'' ''ns'', \<lparr>o_gvk = gvk_zero, o_meta = Some (meta0 ''ns'' ''new''), o_body = []\<rparr>)]
       = (toCreate, toDelete, toUpdate)
     \<and> set toCreate = {ObjectKey ''new'' ''ns''} \<and> distinct (toCreate @ toUpdate @ toDelete)"
proof -
  let ?e = "[(ObjectKey ''old'' ''ns'', \<lparr>o_gvk = gvk_zero, o_meta = Some (meta0 ''ns'' ''old''), o_body = []\<rparr>)]"
  let ?n = "[(ObjectKey ''new'' ''ns'', \<lparr>o_gvk = gvk_zero, o_meta = Some (meta0 ''ns'' ''new''), o_body = []\<rparr>)]"
  obtain c d u where "compareSets ?e ?n = (c, d, u)" by (cases "compareSets ?e ?n")
  with compareSets_spec[of ?e ?n c d u] show ?thesis by simp
qed


text \<open>A concrete run: one config map wanted, none there.\<close>

definition cm_gvk :: gvk where
  "cm_gvk = mk_gvk '''' ''v1'' ''ConfigMap''"

definition cm_obj :: robj where
  "cm_obj = \<lparr>o_gvk = cm_gvk, o_meta = Some (meta0 ''ns'' ''a''), o_body = []\<rparr>"

definition cm_key :: objkey where
  "cm_key = ObjectKey ''a'' ''ns''"

definition cm_gvr :: gvr where
  "cm_gvr = \<lparr>r_group = '''', r_version = ''v1'', r_resource = ''configmaps''\<rparr>"

definition sample_ds :: desiredset where
  "sample_ds = WithSetID ''set'' (WithDynamicLookup (newDesiredSet [] [] []))"

lemma sample_observe:
  "fst (observe env0 sample_ds ''h'' cm_gvk [(cm_key, cm_obj)] st0)
     = Inr (True, cm_gvr, [(cm_key, cm_obj)], [])"
  by code_simp

lemma sample_compare: "compareSets [] [(cm_key, cm_obj)] = ([cm_key], [], [])"
  by code_simp



definition env1 :: env where
  "env1 = env0\<lparr>a_list := (\<lambda>_. Inr [cm_obj])\<rparr>"

definition sample_ds1 :: desiredset where
  "sample_ds1 = sample_ds\<lparr>ds_objs := Some os_new, ds_listerNamespace := ''ns''\<rparr>"

lemma sample_observe1:
  "fst (observe env1 sample_ds1 ''h'' cm_gvk [] st0) = Inr (True, cm_gvr, [], [(cm_key, cm_obj)])"
  by code_simp

lemma sample_delete1:
  "CDelete cm_gvr (Some ''ns'') ''a''
    \<in> set (new_calls (snd (observe env1 sample_ds1 ''h'' cm_gvk [] st0))
          (process env1 sample_ds1 ''h'' cm_gvk [] st0))"
  by code_simp


text \<open>C8: A dry run changes nothing: whatever the environment answers, DryRun makes no create,
  delete or patch request and calls no reconciler and no user's patcher. This rests on the codecs not
  returning apply's own sentinel error, by which a reconciler asks for a replacement.\<close>

theorem DryRun_reads_only:
  assumes "codecs_ok env" "c \<in> set (new_calls s (snd (snd (ds_DryRun env ds objs s))))"
  shows "is_read c"
proof -
  define ds1 where "ds1 = ds\<lparr>ds_objs := Some (os_Add (e_kinds env) objs os_new), ds_createPlan := True\<rparr>"
  define s1 where "s1 = s\<lparr>s_plan := (s_plan s)\<lparr>p_Create := [], p_Update := [], p_Delete := []\<rparr>\<rparr>"
  have "emits is_read s1 (snd (ds_apply env ds1 s1))"
    by (rule ds_apply_emits) (simp add: process_plan_emits[OF assms(1)] ds1_def)
  moreover have "snd (snd (ds_DryRun env ds objs s)) = snd (ds_apply env ds1 s1)"
    by (simp add: ds_DryRun_def dryRun_def ds1_def s1_def Let_def split: prod.split)
  ultimately have "emits is_read s (snd (snd (ds_DryRun env ds objs s)))"
    by (simp add: emits_def s1_def)
  from emits_new_calls[OF this assms(2)] show ?thesis .
qed

theorem DryRun_reads_only_witness:
  "list_all is_read (new_calls st0 (snd (snd (ds_DryRun env0 sample_ds [Some cm_obj] st0))))
   \<and> new_calls st0 (snd (snd (ds_DryRun env0 sample_ds [Some cm_obj] st0))) \<noteq> []"
proof
  have "codecs_ok env0" by (simp add: codecs_ok_def env0_def)
  then show "list_all is_read (new_calls st0 (snd (snd (ds_DryRun env0 sample_ds [Some cm_obj] st0))))"
    using DryRun_reads_only[of env0 _ st0 sample_ds "[Some cm_obj]"] by (simp add: list_all_iff)
  show "new_calls st0 (snd (snd (ds_DryRun env0 sample_ds [Some cm_obj] st0))) \<noteq> []" by code_simp
qed

end
