(* ===== verification/Apply_Objects.thy ===== *)
theory Apply_Objects
  imports Apply_Spec
begin

section \<open>apply: the desired objects before they are compared\<close>

text \<open>
  Theorems on the labels, the namespaces and the owner references that apply puts on the
  desired objects, for every order in which the maps may be ranged over, and on the cache of
  clients. The loops that change the map they range over are treated by an invariant over the
  keys visited so far (\<open>visit_inv\<close>).
\<close>

subsection \<open>Loops over a changing map\<close>

text \<open>An invariant that mentions the set of keys already visited.\<close>

lemma visit_inv:
  assumes step: "\<And>V k m m'. I V m \<Longrightarrow> f k m = Inr m' \<Longrightarrow> I (insert k V) m'"
    and "I V m" "visit_all f ks m = Inr m'"
  shows "I (V \<union> set ks) m'"
  using assms(2,3)
proof (induction ks arbitrary: V m)
  case (Cons k ks)
  from Cons.prems(2) obtain m1 where m1: "f k m = Inr m1" "visit_all f ks m1 = Inr m'"
    by (auto split: sum.splits)
  from Cons.IH[OF step[OF Cons.prems(1) m1(1)] m1(2)] show ?case by simp
qed simp

definition keyed :: "objbykey \<Rightarrow> bool" where
  "keyed m = (\<forall>k v. map_of m k = Some v \<longrightarrow> (\<exists>mt. o_meta v = Some mt \<and> key_of mt = k))"

lemma keyed_update:
  "keyed m \<Longrightarrow> o_meta v = Some mt \<Longrightarrow> key_of mt = k \<Longrightarrow> keyed (AList.update k v m)"
  by (auto simp: keyed_def update_conv')

lemma keyed_delete: "keyed m \<Longrightarrow> keyed (AList.delete k m)"
  by (auto simp: keyed_def delete_conv' split: if_splits)

lemma keyedD: "keyed m \<Longrightarrow> map_of m k = Some v \<Longrightarrow> \<exists>mt. o_meta v = Some mt \<and> key_of mt = k"
  by (simp add: keyed_def)

lemma move_visit_keyed:
  assumes "keyed m" "move_visit skip ns k m = Inr m'"
  shows "keyed m'"
proof -
  have "keyed (AList.update (ObjectKey (k_name k) ns) (set_meta (mt\<lparr>m_namespace := ns\<rparr>) v) (AList.delete k m))"
    if "map_of m k = Some v" "o_meta v = Some mt" for v mt
    using keyedD[OF assms(1) that(1)] that(2)
    by (intro keyed_update[OF keyed_delete[OF assms(1)], of _ "mt\<lparr>m_namespace := ns\<rparr>"])
      (auto simp: set_meta_def key_of_def)
  with assms show ?thesis
    by (auto simp: move_visit_def Accessor_def split: option.splits if_splits)
qed

text \<open>Which objects an owner may own: nothing cluster-scoped when it is namespaced, and nothing in
  another namespace.\<close>

definition can_own :: "objmeta \<Rightarrow> bool \<Rightarrow> bool \<Rightarrow> objkey \<Rightarrow> bool" where
  "can_own om ownerNSed nsed k =
     (\<not> (ownerNSed \<and> \<not> nsed)
      \<and> \<not> (nsed \<and> k_namespace k \<noteq> '''' \<and> k_namespace k \<noteq> m_namespace om \<and> ownerNSed))"

definition owned_by :: "objmeta \<Rightarrow> objmeta \<Rightarrow> bool" where
  "owned_by om mt = (\<exists>rf \<in> set (m_ownerReferences mt). or_uid rf = m_uid om)"

definition own_meta :: "desiredset \<Rightarrow> gvk \<Rightarrow> objmeta \<Rightarrow> bool \<Rightarrow> objmeta \<Rightarrow> objmeta" where
  "own_meta ds og om assignNS mt =
     (let m = (if assignNS then mt\<lparr>m_namespace := m_namespace om\<rparr> else mt) in
      if owned_by om mt then m
      else m\<lparr>m_ownerReferences := m_ownerReferences mt @ [ownerRef ds og om]\<rparr>)"

lemma own_meta_simps [simp]:
  "m_name (own_meta ds og om a mt) = m_name mt"
  "m_namespace (own_meta ds og om a mt) = (if a then m_namespace om else m_namespace mt)"
  "owned_by om (own_meta ds og om a mt)"
  by (auto simp: own_meta_def owned_by_def ownerRef_def Let_def)

lemma assign_visit_eq:
  "assign_visit ds og om on nsed k m =
     (case map_of m k of
        None \<Rightarrow> Inr m
      | Some v \<Rightarrow>
          if \<not> can_own om on nsed k then Inr m
          else case o_meta v of
            None \<Rightarrow> Inl (Err ''object does not implement the Object interfaces'')
          | Some mt \<Rightarrow>
              let a = (nsed \<and> k_namespace k = ''''); v' = set_meta (own_meta ds og om a mt) v in
              Inr (if a then AList.update (ObjectKey (k_name k) (m_namespace om)) v' (AList.delete k m)
                   else AList.update k v' m))"
proof -
  have u: "(\<forall>rf \<in> set (m_ownerReferences (if a then mt\<lparr>m_namespace := n\<rparr> else mt)). m_uid om \<noteq> or_uid rf)
      = (\<not> owned_by om mt)" for a n mt
    by (auto simp: owned_by_def)
  have f: "(if \<not> owned_by om mt
       then (if a then mt\<lparr>m_namespace := m_namespace om\<rparr> else mt)\<lparr>m_ownerReferences :=
         m_ownerReferences (if a then mt\<lparr>m_namespace := m_namespace om\<rparr> else mt) @ [ownerRef ds og om]\<rparr>
       else (if a then mt\<lparr>m_namespace := m_namespace om\<rparr> else mt)) = own_meta ds og om a mt" for a mt
    by (simp add: own_meta_def)
  show ?thesis
    unfolding assign_visit_def Let_def Accessor_def u f delete_update_same
    by (cases "map_of m k"; cases "on"; cases nsed)
      (simp_all add: can_own_def split: option.split)
qed

lemma assign_visit_cases:
  assumes "assign_visit ds og om on nsed k m = Inr m'"
  obtains "m' = m" "map_of m k = None \<or> \<not> can_own om on nsed k"
  | v mt where "map_of m k = Some v" "can_own om on nsed k" "o_meta v = Some mt"
      "nsed" "k_namespace k = ''''"
      "m' = AList.update (ObjectKey (k_name k) (m_namespace om)) (set_meta (own_meta ds og om True mt) v)
              (AList.delete k m)"
  | v mt where "map_of m k = Some v" "can_own om on nsed k" "o_meta v = Some mt"
      "\<not> nsed \<or> k_namespace k \<noteq> ''''"
      "m' = AList.update k (set_meta (own_meta ds og om False mt) v) m"
  using assms by (auto simp: assign_visit_eq Let_def split: option.splits if_splits)

lemma assign_visit_keyed:
  assumes "keyed m" "assign_visit ds og om on nsed k m = Inr m'"
  shows "keyed m'"
  using assms(2)
proof (cases rule: assign_visit_cases)
  case 1 with assms(1) show ?thesis by simp
next
  case (2 v mt)
  with keyedD[OF assms(1) 2(1)] have "k_name k = m_name mt" by (auto simp: key_of_def)
  then show ?thesis
    unfolding 2(6)
    by (intro keyed_update[OF keyed_delete[OF assms(1)], of _ "own_meta ds og om True mt"])
      (simp_all add: set_meta_def key_of_def)
next
  case (3 v mt)
  with keyedD[OF assms(1) 3(1)] show ?thesis
    unfolding 3(5)
    by (intro keyed_update[OF assms(1), of _ "own_meta ds og om False mt"])
      (auto simp: set_meta_def key_of_def)
qed

subsection \<open>Namespaces\<close>

lemma move_visit_cases:
  assumes "move_visit skip ns k m = Inr m'"
  obtains "m' = m" "map_of m k = None \<or> skip (k_namespace k)"
  | v mt where "map_of m k = Some v" "\<not> skip (k_namespace k)" "o_meta v = Some mt"
      "m' = AList.update (ObjectKey (k_name k) ns) (set_meta (mt\<lparr>m_namespace := ns\<rparr>) v) (AList.delete k m)"
  using assms by (auto simp: move_visit_def Accessor_def split: option.splits if_splits)

lemma move_visit_skip:
  assumes "skip ns" "\<forall>k \<in> dom (map_of m). skip (k_namespace k) \<or> (k \<notin> V \<and> k \<in> D)"
    and "move_visit skip ns k m = Inr m'"
  shows "\<forall>k' \<in> dom (map_of m'). skip (k_namespace k') \<or> (k' \<notin> insert k V \<and> k' \<in> D)"
  using assms(3)
proof (cases rule: move_visit_cases)
  case 1
  with assms(2) show ?thesis by (auto simp: domIff)
next
  case (2 v mt)
  show ?thesis
  proof
    fix k' assume "k' \<in> dom (map_of m')"
    then consider "k' = ObjectKey (k_name k) ns" | "k' \<noteq> k" "k' \<in> dom (map_of m)"
      unfolding 2(4) by (auto simp: update_conv' delete_conv' split: if_splits)
    then show "skip (k_namespace k') \<or> (k' \<notin> insert k V \<and> k' \<in> D)"
      using assms(1,2) by cases auto
  qed
qed

lemma move_all_skip:
  assumes "skip ns" "visit_all (move_visit skip ns) ks m = Inr m'" "set (map fst m) \<subseteq> set ks"
  shows "\<forall>k \<in> dom (map_of m'). skip (k_namespace k)"
proof -
  let ?I = "\<lambda>V m'. \<forall>k \<in> dom (map_of m'). skip (k_namespace k) \<or> (k \<notin> V \<and> k \<in> set (map fst m))"
  have "?I ({} \<union> set ks) m'"
  proof (rule visit_inv[OF _ _ assms(2)])
    show "?I (insert k V) m2" if "?I V m1" "move_visit skip ns k m1 = Inr m2" for V k m1 m2
      by (rule move_visit_skip[OF assms(1) that])
  qed (simp add: dom_map_of_conv_image_fst)
  with assms(3) show ?thesis by blast
qed

lemma keyed_visits:
  assumes "\<And>k m m'. keyed m \<Longrightarrow> f k m = Inr m' \<Longrightarrow> keyed m'" "keyed m" "visit_all f ks m = Inr m'"
  shows "keyed m'"
  using visit_inv[of "\<lambda>_. keyed" f "{}" m ks m'] assms by blast

lemma move_all_keyed: "visit_all (move_visit skip ns) ks m = Inr m' \<Longrightarrow> keyed m \<Longrightarrow> keyed m'"
  by (rule keyed_visits[OF move_visit_keyed])

lemma assign_all_keyed:
  "visit_all (assign_visit ds og om on nsed) ks m = Inr m' \<Longrightarrow> keyed m \<Longrightarrow> keyed m'"
  by (rule keyed_visits[OF assign_visit_keyed])

lemma assignOwnerReference_keyed:
  "assignOwnerReference env ds gvk x s = (Inr x', s1) \<Longrightarrow> keyed x \<Longrightarrow> keyed x'"
  by (auto simp: assignOwnerReference_def split: option.splits sum.splits prod.splits if_splits
      dest: assign_all_keyed)

lemma prepare_objs_cases:
  assumes "prepare_objs env ds gvk nsed objs s = (Inr objs', s')"
  obtains objs1 s1 where
    "(ds_setOwnerReference ds \<and> ds_owner ds \<noteq> None \<and> assignOwnerReference env ds gvk objs s = (Inr objs1, s1))
     \<or> (\<not> (ds_setOwnerReference ds \<and> ds_owner ds \<noteq> None) \<and> objs1 = objs)"
    "(if nsed then adjustNamespace env ds objs1 else clearNamespace env objs1) = Inr objs'"
  using assms by (auto simp: prepare_objs_def split: sum.splits prod.splits if_splits)



subsection \<open>Owner references\<close>

definition uids_distinct :: "robj \<Rightarrow> bool" where
  "uids_distinct v = (\<forall>mt. o_meta v = Some mt \<longrightarrow> distinct (map or_uid (m_ownerReferences mt)))"

definition owned :: "objmeta \<Rightarrow> robj \<Rightarrow> bool" where
  "owned om v = (\<exists>mt. o_meta v = Some mt \<and> owned_by om mt)"

lemma owned_own_meta: "owned om (set_meta (own_meta ds og om a mt) v)"
  by (simp add: owned_def set_meta_def)

lemma uids_own_meta:
  "distinct (map or_uid (m_ownerReferences mt)) \<Longrightarrow> uids_distinct (set_meta (own_meta ds og om a mt) v)"
  by (auto simp: uids_distinct_def set_meta_def own_meta_def owned_by_def ownerRef_def Let_def)

definition assign_inv :: "objmeta \<Rightarrow> bool \<Rightarrow> bool \<Rightarrow> objbykey \<Rightarrow> objkey set \<Rightarrow> objbykey \<Rightarrow> bool" where
  "assign_inv om on nsed objs V m =
     (\<forall>k v. map_of m k = Some v \<longrightarrow>
        (if can_own om on nsed k then owned om v \<or> (k \<notin> V \<and> map_of objs k = Some v)
         else map_of objs k = Some v)
        \<and> ((\<forall>k v. map_of objs k = Some v \<longrightarrow> uids_distinct v) \<longrightarrow> uids_distinct v))"

lemma assign_inv_put:
  assumes "assign_inv om on nsed objs V m" "can_own om on nsed t" "owned om v"
    and "(\<forall>k v. map_of objs k = Some v \<longrightarrow> uids_distinct v) \<Longrightarrow> uids_distinct v"
  shows "assign_inv om on nsed objs V (AList.update t v m)"
  using assms by (simp add: assign_inv_def update_conv')

lemma assign_inv_delete:
  "assign_inv om on nsed objs V m \<Longrightarrow> assign_inv om on nsed objs (insert k V) (AList.delete k m)"
  by (simp add: assign_inv_def delete_conv')

lemma assign_inv_put_visited:
  assumes "assign_inv om on nsed objs V m" "can_own om on nsed k" "owned om v"
    and "(\<forall>k v. map_of objs k = Some v \<longrightarrow> uids_distinct v) \<Longrightarrow> uids_distinct v"
  shows "assign_inv om on nsed objs (insert k V) (AList.update k v m)"
  using assms by (simp add: assign_inv_def update_conv')

lemma assign_inv_uids:
  assumes "assign_inv om on nsed objs V m" "map_of m k = Some v" "o_meta v = Some mt"
    and "\<forall>k v. map_of objs k = Some v \<longrightarrow> uids_distinct v"
  shows "uids_distinct (set_meta (own_meta ds og om a mt) v)"
  using assms by (intro uids_own_meta) (auto simp: assign_inv_def uids_distinct_def)

lemma assign_inv_step:
  assumes I: "assign_inv om on nsed objs V m" and s: "assign_visit ds og om on nsed k m = Inr m'"
  shows "assign_inv om on nsed objs (insert k V) m'"
  using s
proof (cases rule: assign_visit_cases)
  case 1
  with I show ?thesis
    unfolding assign_inv_def by (metis insert_iff option.distinct(1))
next
  case (2 v mt)
  have "can_own om on nsed (ObjectKey (k_name k) (m_namespace om))"
    using 2(2) by (auto simp: can_own_def)
  then show ?thesis
    unfolding 2(6)
    by (intro assign_inv_put[OF assign_inv_delete[OF I]] owned_own_meta assign_inv_uids[OF I 2(1,3)]) auto
next
  case (3 v mt)
  show ?thesis
    unfolding 3(5)
    by (intro assign_inv_put_visited[OF I 3(2)] owned_own_meta assign_inv_uids[OF I 3(1,3)]) auto
qed


definition owner_gvk :: gvk where
  "owner_gvk = mk_gvk '''' ''v1'' ''Namespace''"

definition owner_obj :: robj where
  "owner_obj = \<lparr>o_gvk = owner_gvk, o_meta = Some ((meta0 '''' ''ns'')\<lparr>m_uid := ''u1''\<rparr>), o_body = []\<rparr>"

definition owner_ds :: desiredset where
  "owner_ds = WithSetOwnerReference True True (WithOwner owner_obj sample_ds)"


subsection \<open>The cache of clients\<close>

definition clients_inv :: "clients \<Rightarrow> bool" where
  "clients_inv c = (dom (map_of (cl_clients c)) = dom (map_of (cl_namespaced c))
     \<and> dom (map_of (cl_gvkToGVR c)) = dom (map_of (cl_namespaced c))
     \<and> (\<forall>g. map_of (cl_clients c) g = map_of (cl_gvkToGVR c) g))"

lemma clients_client_inv:
  "clients_inv (s_clients s) \<Longrightarrow> clients_inv (s_clients (snd (clients_client env gvk s)))"
  by (auto simp: clients_client_def clients_inv_def api_def update_conv' Let_def
      split: option.splits sum.splits)

lemma clients_client_cached:
  "clients_client env gvk s = (Inr client, s') \<Longrightarrow>
   map_of (cl_clients (s_clients s')) gvk = Some client \<and> clients_client env' gvk s' = (Inr client, s')"
  by (auto simp: clients_client_def api_def update_conv' Let_def split: option.splits sum.splits)

lemma clients_client_frame:
  "clients_client env gvk s = (r, s') \<Longrightarrow> g \<noteq> gvk \<Longrightarrow>
   map_of (cl_namespaced (s_clients s')) g = map_of (cl_namespaced (s_clients s)) g"
  by (auto simp: clients_client_def api_def update_conv' Let_def split: option.splits sum.splits)



subsection \<open>Labels\<close>

lemma smap_fold_put:
  "smap_get (Some (fold (\<lambda>(k, v) r. AList.update k v r) xs m)) k
   = (case map_of (rev xs) k of Some v \<Rightarrow> v | None \<Rightarrow> smap_get (Some m) k)"
  by (simp add: smap_get_def fold_put_lookup split: option.splits)

lemma smap_get_delete: "smap_get (Some (AList.delete k m)) k' = (if k' = k then [] else smap_get (Some m) k')"
  by (simp add: smap_get_def delete_conv')

lemma smap_get_default: "smap_get (Some (case m of None \<Rightarrow> [] | Some a \<Rightarrow> a)) k = smap_get m k"
  by (simp add: smap_get_def split: option.split)

lemma setLabels_get:
  "smap_get (m_labels (setLabels [(k, v)] m)) k' = (if k' = k then v else smap_get (m_labels m) k')"
  by (auto simp: setLabels_def Let_def smap_get_update smap_get_def[of None] smap_get_def[of "Some []"]
      split: option.split)

lemma inject_list_result:
  "inject_list ls as objs = Inr result \<Longrightarrow>
   list_all2 (\<lambda>obj r. \<exists>m. o_meta obj = Some m \<and> r = set_meta (setAnnotations as (setLabels ls m)) obj) objs result"
  by (induction ls as objs arbitrary: result rule: inject_list.induct)
    (auto simp: Accessor_def split: sum.splits option.splits)

lemma list_all2_source: "list_all2 P xs ys \<Longrightarrow> y \<in> set ys \<Longrightarrow> \<exists>x \<in> set xs. P x y"
  by (induction rule: list_all2_induct) auto

definition kept_annotation :: "string \<Rightarrow> bool" where
  "kept_annotation k = (k \<notin> set (LabelApplied # hashOrder))"


definition inj_ds :: desiredset where
  "inj_ds = sample_ds\<lparr>ds_objs := Some (NewObjectSet (e_kinds env0) [Some cm_obj])\<rparr>"


text \<open>The label by which a set finds its objects does not tell all owners apart: the digest
  is taken of the concatenation of name and namespace, so two owners of the same kind whose name
  and namespace concatenate to the same text (such as a in bc and ab in c) get the same hash label for
  the same set, whatever the digest, and each would prune the objects of the other.\<close>

theorem owners_share_hash:
  assumes "o_meta a = Some ma" "o_meta b = Some mb" "gvk_Get (e_kinds env) a = gvk_Get (e_kinds env) b"
    and "m_name ma @ m_namespace ma = m_name mb @ m_namespace mb"
    and "GetLabelsAndAnnotations env setID (Some a) = Inr (la, aa)"
    and "GetLabelsAndAnnotations env setID (Some b) = Inr (lb, ab)"
  shows "GetSelector la = GetSelector lb"
  using assms
  by (auto simp: GetLabelsAndAnnotations_def Let_def Accessor_def objectSetHash_def hashOrder_def
      GetSelector_def smap_get_def LabelID_def LabelGVK_def LabelName_def LabelNamespace_def
      split: sum.splits)

definition owner_at :: "string \<Rightarrow> string \<Rightarrow> robj" where
  "owner_at ns name = \<lparr>o_gvk = cm_gvk, o_meta = Some (meta0 ns name), o_body = []\<rparr>"

theorem owners_share_hash_witness:
  "\<exists>l1 a1 l2 a2. GetLabelsAndAnnotations env0 ''s'' (Some (owner_at ''bc'' ''a'')) = Inr (l1, a1)
     \<and> GetLabelsAndAnnotations env0 ''s'' (Some (owner_at ''c'' ''ab'')) = Inr (l2, a2)
     \<and> a1 \<noteq> a2 \<and> GetSelector l1 = GetSelector l2"
proof -
  have "case (GetLabelsAndAnnotations env0 ''s'' (Some (owner_at ''bc'' ''a'')),
         GetLabelsAndAnnotations env0 ''s'' (Some (owner_at ''c'' ''ab''))) of
      (Inr x, Inr y) \<Rightarrow> snd x \<noteq> snd y | _ \<Rightarrow> False" by code_simp
  then obtain l1 a1 l2 a2 where g: "GetLabelsAndAnnotations env0 ''s'' (Some (owner_at ''bc'' ''a'')) = Inr (l1, a1)"
    "GetLabelsAndAnnotations env0 ''s'' (Some (owner_at ''c'' ''ab'')) = Inr (l2, a2)" "a1 \<noteq> a2"
    by (auto split: sum.splits)
  have k: "gvk_Get (e_kinds env0) (owner_at ''bc'' ''a'') = gvk_Get (e_kinds env0) (owner_at ''c'' ''ab'')"
    by (simp add: gvk_Get_def owner_at_def cm_gvk_def mk_gvk_def)
  have "GetSelector l1 = GetSelector l2"
    by (rule owners_share_hash[OF _ _ k _ g(1,2), of "meta0 ''bc'' ''a''" "meta0 ''c'' ''ab''"])
      (simp_all add: owner_at_def meta0_def)
  with g show ?thesis by blast
qed

end
