(* ===== verification/Apply_Owner.thy ===== *)
theory Apply_Owner
  imports Apply_Spec
begin

section \<open>apply: finding the owner again\<close>

text \<open>
  \<open>pkg/apply/desiredset_owner.go\<close>: the owner of an applied object is found from the annotations
  apply put on it; \<open>PurgeOrphan\<close> deletes an object whose owner is gone.
\<close>

definition notFound :: "string \<Rightarrow> gvk \<Rightarrow> goerr" where
  "notFound name gvk =
     (let resource = GuessPluralName (ToLower (g_kind gvk)) in
      NotFound ((if g_group gvk = '''' then resource else resource @ ''.'' @ g_group gvk)
        @ '' \"'' @ name @ ''\" not found''))"

definition getGVK :: "string \<Rightarrow> gvk result" where
  "getGVK gvkLabel =
     (let parts = Split gvkLabel '', Kind='' in
      if length parts \<noteq> 2 then Inl (Err (''invalid GVK format: '' @ gvkLabel))
      else case kv_Split (parts ! 0) ''/'' of (g, v) \<Rightarrow> Inr (mk_gvk g v (parts ! 1)))"

definition fromClient :: "env \<Rightarrow> gvr \<Rightarrow> string \<Rightarrow> string \<Rightarrow> st \<Rightarrow> robj result \<times> st" where
  "fromClient env client namespace name s =
     (let s = api (CGet client (if namespace = '''' then None else Some namespace) name) s in
      (a_get env (s_calls s), s))"

definition fromCache :: "env \<Rightarrow> nat \<Rightarrow> string \<Rightarrow> string \<Rightarrow> gvk \<Rightarrow> st \<Rightarrow> robj result \<times> st" where
  "fromCache env cache namespace name gvk s =
     (let key = (if namespace = '''' then name else namespace @ ''/'' @ name);
          s = api (CCacheGet cache key) s in
      (case a_cacheget env (s_calls s) of
         Inl e \<Rightarrow> Inl e
       | Inr None \<Rightarrow> Inl (notFound name gvk)
       | Inr (Some None) \<Rightarrow> Inl (notFound name gvk)
       | Inr (Some (Some ro)) \<Rightarrow> Inr ro, s))"

definition FindOwner :: "env \<Rightarrow> desiredset \<Rightarrow> robj option \<Rightarrow> st \<Rightarrow> robj result \<times> st" where
  "FindOwner env ds obj s =
     (case obj of
        None \<Rightarrow> (Inl ErrOwnerNotFound, s)
      | Some ob \<Rightarrow>
          (case Accessor ob of
             Inl e \<Rightarrow> (Inl e, s)
           | Inr m \<Rightarrow>
               let gvkLabel = smap_get (m_annotations m) LabelGVK;
                   namespace = smap_get (m_annotations m) LabelNamespace;
                   name = smap_get (m_annotations m) LabelName in
               if gvkLabel = '''' then (Inl ErrOwnerNotFound, s)
               else case getGVK gvkLabel of
                 Inl e \<Rightarrow> (Inl e, s)
               | Inr gvk \<Rightarrow>
                   (case getControllerAndClient env ds gvk s of
                      (Inl e, s) \<Rightarrow> (Inl e, s)
                    | (Inr (cache, client), s) \<Rightarrow>
                        (case cache of
                           Some c \<Rightarrow> fromCache env c namespace name gvk s
                         | None \<Rightarrow> fromClient env client namespace name s))))"

definition PurgeOrphan :: "env \<Rightarrow> desiredset \<Rightarrow> robj option \<Rightarrow> st \<Rightarrow> goerr option \<times> st" where
  "PurgeOrphan env ds obj s =
     (case obj of
        None \<Rightarrow> (None, s)
      | Some ob \<Rightarrow>
          (case Accessor ob of
             Inl e \<Rightarrow> (Some e, s)
           | Inr m \<Rightarrow>
               (case FindOwner env ds obj s of
                  (Inr _, s) \<Rightarrow> (None, s)
                | (Inl err, s) \<Rightarrow>
                    if IsNotFound (Some err) then
                      (case gvk_Get (e_kinds env) ob of
                         Inl e \<Rightarrow> (Some e, s)
                       | Inr gvk \<Rightarrow>
                           (case getControllerAndClient env (ds\<lparr>ds_strictCaching := False\<rparr>) gvk s of
                              (Inl e, s) \<Rightarrow> (Some e, s)
                            | (Inr (_, client), s) \<Rightarrow>
                                let s = api (CDelete client
                                      (if m_namespace m = '''' then None else Some (m_namespace m)) (m_name m)) s in
                                (a_delete env (s_calls s), s)))
                    else if err = ErrOwnerNotFound then (None, s)
                    else (Some err, s))))"

subsection \<open>Facts\<close>

text \<open>The parts of a kind as Kubernetes allows them: no comma, no slash, no white space.\<close>

definition plain :: "string \<Rightarrow> bool" where
  "plain s = (\<forall>c \<in> set s. c \<noteq> CHR '','' \<and> c \<noteq> CHR ''/'' \<and> \<not> isSpace c)"

lemma plain_trim: "plain s \<Longrightarrow> TrimSpace s = s"
  by (simp add: plain_def TrimSpace_no_space)

text \<open>The kind of an owner survives the annotation: parsing the text that apply wrote for a
  group-version-kind gives the same group, version and kind back, for the core group as well.\<close>

theorem getGVK_roundtrip:
  assumes "plain (g_group g)" "plain (g_version g)" "plain (g_kind g)"
  shows "getGVK (gvk_String g) = Inr g"
proof -
  have nc: "CHR '','' \<notin> set (g_group g @ ''/'' @ g_version g)" "CHR '','' \<notin> set (g_kind g)"
    "CHR ''/'' \<notin> set (g_group g)"
    using assms by (auto simp: plain_def)
  have s: "gvk_String g = (g_group g @ ''/'' @ g_version g) @ CHR '','' # '' Kind='' @ g_kind g"
    by (simp add: gvk_String_def)
  have "Split (gvk_String g) '', Kind='' = [g_group g @ ''/'' @ g_version g, g_kind g]"
    unfolding s using Split_first_char[OF nc(1), of "'' Kind=''" "g_kind g"] Split_char_None[OF nc(2), of "'' Kind=''"]
    by simp
  moreover have "kv_Split (g_group g @ ''/'' @ g_version g) ''/'' = (g_group g, g_version g)"
    using kv_Split_found[OF nc(3), of "''''" "g_version g"] plain_trim assms by simp
  ultimately show ?thesis by (simp add: getGVK_def mk_gvk_def)
qed

theorem getGVK_roundtrip_witness:
  "getGVK (gvk_String (mk_gvk ''apps'' ''v1'' ''Deployment'')) = Inr (mk_gvk ''apps'' ''v1'' ''Deployment'')"
  by (rule getGVK_roundtrip) (simp_all add: plain_def mk_gvk_def isSpace_def)

lemma FindOwner_emits: "emits is_read s (snd (FindOwner env ds obj s))"
proof -
  have c: "emits is_read s (snd (fromCache env i ns n g s))" for i ns n g s
    by (auto simp: fromCache_def Let_def emits_api)
  have d: "emits is_read s (snd (fromClient env cl ns n s))" for cl ns n s
    by (auto simp: fromClient_def Let_def emits_api)
  show ?thesis
    unfolding FindOwner_def Let_def
    by (auto split: option.split sum.split if_split intro!: emits_case[OF getControllerAndClient_emits]
        simp: c d)
qed

lemma emits_Some:
  "emits P s (snd r) \<Longrightarrow> snd (case r of (Inl e, s) \<Rightarrow> (Some e, s) | (Inr x, s) \<Rightarrow> (None, s)) = snd r"
  by (cases r; cases "fst r") auto


definition orphan :: robj where
  "orphan = \<lparr>o_gvk = mk_gvk '''' ''v1'' ''ConfigMap'',
     o_meta = Some ((meta0 ''ns'' ''a'')\<lparr>m_annotations := Some [(LabelGVK, ''/v1, Kind=ConfigMap''),
       (LabelName, ''own''), (LabelNamespace, ''ns'')]\<rparr>), o_body = []\<rparr>"


end
