(* ===== verification/Summary_Core.thy ===== *)
theory Summary_Core
  imports Objects Go_Error "HOL-Library.Signed_Division"
begin

section \<open>Summaries of objects: the types and the conditions of pkg/summary\<close>

text \<open>
  \<open>pkg/summary/summary.go\<close>, \<open>condition.go\<close> and \<open>gvk.go\<close>: the summary of an object, its
  conditions read from the status and from the \<open>cattle.io/status\<close> annotation, and the table
  that says which status of which condition is an error for which kind. What the package calls
  outside the repository and the standard library is a field of the environment \<open>senv\<close>: the
  accessors of the apimachinery package, \<open>kstatus.Compute\<close>, the JSON decoder, the RFC 3339
  parser, the number conversions that involve floating point, and the clock. The environment
  also holds the package variable \<open>GVKConditionErrorMapping\<close> after \<open>init\<close>.
\<close>

subsection \<open>Types\<close>

record selreq =
  sr_key :: string
  sr_operator :: string
  sr_values :: "string list"

record labelselector =
  ls_matchLabels :: "(string \<times> string) list"
  ls_matchExpressions :: "selreq list"

record relationship =
  r_Name :: string
  r_Namespace :: string
  r_ControlledBy :: bool
  r_Kind :: string
  r_APIVersion :: string
  r_Inbound :: bool
  r_Type :: string
  r_Selector :: "labelselector option"

definition rel0 :: relationship where
  "rel0 = \<lparr>r_Name = '''', r_Namespace = '''', r_ControlledBy = False, r_Kind = '''',
     r_APIVersion = '''', r_Inbound = False, r_Type = '''', r_Selector = None\<rparr>"

record summary =
  s_State :: string
  s_Error :: bool
  s_Transitioning :: bool
  s_Message :: "string list"
  s_Attributes :: object
  s_Relationships :: "relationship list"
  s_HasObservedGeneration :: bool

definition summary0 :: summary where
  "summary0 = \<lparr>s_State = '''', s_Error = False, s_Transitioning = False, s_Message = [],
     s_Attributes = None, s_Relationships = [], s_HasObservedGeneration = False\<rparr>"

record summarized =
  so_apiVersion :: string
  so_kind :: string
  so_meta :: "objmeta option"
  so_summary :: summary

text \<open>A \<open>runtime.Object\<close>, told apart by the type assertions of the code. The unstructured
  pointer may be nil.\<close>

datatype runtimeobj =
    ROSummarized summarized
  | ROUnstructured "object option"
  | ROTyped robj

type_synonym conditionMappings = "(string \<times> string list) list"
type_synonym errorMapping = "(gvk \<times> conditionMappings) list"

record conditionStatusErrorJSON =
  cse_Type :: string
  cse_Status :: "string list"

record conditionTypeStatusJSON =
  cts_GVK :: string
  cts_ConditionMappings :: "conditionStatusErrorJSON list"

record senv =
  se_errorMapping :: errorMapping
  se_unmarshal :: "string \<Rightarrow> object result"
  se_unmarshalMapping :: "string \<Rightarrow> conditionTypeStatusJSON list result"
  se_encodeToMap :: "runtimeobj \<Rightarrow> gomap result"
  se_apiVersionAndKind :: "runtimeobj \<Rightarrow> string \<times> string"
  se_accessor :: "runtimeobj \<Rightarrow> objmeta result"
  se_gvkOf :: "object \<Rightarrow> gvk"
  se_ownerReferences :: "object \<Rightarrow> ownerref list"
  se_NestedFieldNoCopy :: "object \<Rightarrow> string list \<Rightarrow> (val \<times> bool) result"
  se_NestedInt64 :: "object \<Rightarrow> string list \<Rightarrow> (64 word \<times> bool) result"
  se_kstatus :: "object \<Rightarrow> (string \<times> string) result"
  se_toSelector :: "gomap \<Rightarrow> labelselector result"
  se_parseTime :: "string \<Rightarrow> 64 word result"
  se_floatToInt64 :: "string \<Rightarrow> 64 word"
  se_parseFloat :: "string \<Rightarrow> string result"
  se_now :: int

subsection \<open>convert.go: time stamps and numbers\<close>

definition go_div :: "int \<Rightarrow> int \<Rightarrow> int" where
  "go_div a b = a sdiv b"

definition ToTimestamp :: "senv \<Rightarrow> val \<Rightarrow> int result" where
  "ToTimestamp E v =
     (let str = ToString v in
      if str = '''' then Inl (Err ''invalid date'')
      else case se_parseTime E str of
        Inl err \<Rightarrow> Inl err
      | Inr nanos \<Rightarrow> Inr (go_div (sint nanos) 1000000))"

text \<open>\<open>strconv.ParseInt(s, 10, 64)\<close> accepts what \<open>Atoi\<close> accepts.\<close>

definition ParseInt :: "string \<Rightarrow> 64 word result" where
  "ParseInt s = (case Atoi s of None \<Rightarrow> Inl (Err (''invalid syntax: '' @ s)) | Some i \<Rightarrow> Inr (word_of_int i))"

definition ToNumber :: "senv \<Rightarrow> val \<Rightarrow> 64 word result" where
  "ToNumber E value =
     (case Singular value of
        VInt64 i \<Rightarrow> Inr i
      | VFloat f \<Rightarrow> Inr (se_floatToInt64 E f)
      | VNumber n \<Rightarrow>
          (case ParseInt n of
             Inr i \<Rightarrow> Inr i
           | Inl _ \<Rightarrow> (case se_parseFloat E n of
               Inr f \<Rightarrow> Inr (se_floatToInt64 E f)
             | Inl err \<Rightarrow> Inl err))
      | v \<Rightarrow> ParseInt (ToString v))"

definition ToUnstructured :: "senv \<Rightarrow> runtimeobj \<Rightarrow> object option result" where
  "ToUnstructured E ro =
     (case ro of
        ROUnstructured u \<Rightarrow> Inr u
      | _ \<Rightarrow> (case se_encodeToMap E ro of
          Inl err \<Rightarrow> Inl err
        | Inr data \<Rightarrow> Inr (Some (Some data))))"

subsection \<open>condition.go\<close>

type_synonym condition = object

definition NewCondition :: "string \<Rightarrow> string \<Rightarrow> string \<Rightarrow> string \<Rightarrow> condition" where
  "NewCondition conditionType status reason message =
     Some [(''type'', VStr conditionType), (''status'', VStr status),
           (''reason'', VStr reason), (''message'', VStr message)]"

definition Type :: "condition \<Rightarrow> string" where
  "Type c = Object_String c [''type'']"

definition Status :: "condition \<Rightarrow> string" where
  "Status c = Object_String c [''status'']"

definition Reason :: "condition \<Rightarrow> string" where
  "Reason c = Object_String c [''reason'']"

definition Message :: "condition \<Rightarrow> string" where
  "Message c = Object_String c [''message'']"

definition Equals :: "condition \<Rightarrow> condition \<Rightarrow> bool" where
  "Equals c other =
     (Type c = Type other \<and> Status c = Status other \<and>
      Reason c = Reason other \<and> Message c = Message other)"

definition getAnnotationConditions :: "senv \<Rightarrow> object \<Rightarrow> object list" where
  "getAnnotationConditions E ob =
     (let statusAnn = Object_String ob [''metadata'', ''annotations'', ''cattle.io/status''] in
      if statusAnn = '''' then []
      else case se_unmarshal E statusAnn of
        Inl _ \<Rightarrow> []
      | Inr status \<Rightarrow> Object_Slice status [''conditions''])"

definition getRawConditions :: "senv \<Rightarrow> object \<Rightarrow> object list" where
  "getRawConditions E ob =
     Object_Slice ob [''status'', ''conditions''] @ getAnnotationConditions E ob"

definition getConditions :: "senv \<Rightarrow> object \<Rightarrow> condition list" where
  "getConditions E ob = getRawConditions E ob"

subsection \<open>summary.go\<close>

definition Summary_String :: "summary \<Rightarrow> string" where
  "Summary_String s =
     (if \<not> s_Transitioning s \<and> \<not> s_Error s then s_State s
      else
        (let msg = (if s_Transitioning s then ''[progressing'' else '''');
             msg = (if s_Error s
                    then (if length msg > 0 then msg @ '',error]'' else ''error]'')
                    else msg @ '']'') in
         if length (s_Message s) > 0 then msg @ '' '' @ Join (s_Message s) '', '' else msg))"

definition IsReady :: "summary \<Rightarrow> bool" where
  "IsReady s = (\<not> s_Error s \<and> \<not> s_Transitioning s)"

fun dedup_loop :: "string list \<Rightarrow> string list \<Rightarrow> string list \<Rightarrow> string list" where
  "dedup_loop seen result [] = result"
| "dedup_loop seen result (message # messages) =
     (let message = TrimSpace message in
      if message = '''' then dedup_loop seen result messages
      else if message \<in> set seen then dedup_loop seen result messages
      else dedup_loop (message # seen) (result @ [message]) messages)"

definition dedupMessage :: "string list \<Rightarrow> string list" where
  "dedupMessage messages = dedup_loop [] [] messages"

type_synonym summarizer = "senv \<Rightarrow> object \<Rightarrow> condition list \<Rightarrow> summary \<Rightarrow> summary"

text \<open>The loop over a list of summarizers.\<close>

definition run_summarizers ::
    "senv \<Rightarrow> summarizer list \<Rightarrow> object \<Rightarrow> condition list \<Rightarrow> summary \<Rightarrow> summary" where
  "run_summarizers E fs ob conditions summary = fold (\<lambda>f s. f E ob conditions s) fs summary"

subsection \<open>gvk.go: the JSON form of the error mapping\<close>

text \<open>
  The regular expression \<open>^(.*?)/(.*),\s*Kind=(.+)$\<close>. The first group is lazy, so the first
  slash that lets the rest match ends it; the second is greedy, so the last comma does; \<open>.\<close>
  does not match a newline, and \<open>\s\<close> is one of tab, newline, form feed, carriage return, space.
\<close>

definition regSpace :: "char \<Rightarrow> bool" where
  "regSpace c = (c \<in> {CHR 0x09, CHR 0x0A, CHR 0x0C, CHR 0x0D, CHR '' ''})"

definition no_newline :: "string \<Rightarrow> bool" where
  "no_newline s = (CHR 0x0A \<notin> set s)"

definition kind_part :: "string \<Rightarrow> string option" where
  "kind_part s =
     (let r = dropWhile regSpace s; k = drop 5 r in
      if prefix ''Kind='' r \<and> k \<noteq> [] \<and> no_newline k then Some k else None)"

text \<open>Candidates for the comma, last one first: the text before it, and the kind after it.\<close>

fun version_kind :: "string \<Rightarrow> (string \<times> string) option" where
  "version_kind [] = None"
| "version_kind (c # s) =
     (case (if c = CHR 0x0A then None else version_kind s) of
        Some (v, k) \<Rightarrow> Some (c # v, k)
      | None \<Rightarrow>
          if c = CHR '','' then map_option (\<lambda>k. ([], k)) (kind_part s) else None)"

fun gvkRegExp :: "string \<Rightarrow> (string \<times> string \<times> string) option" where
  "gvkRegExp [] = None"
| "gvkRegExp (c # s) =
     (case (if c = CHR ''/'' then version_kind s else None) of
        Some (v, k) \<Rightarrow> Some ([], v, k)
      | None \<Rightarrow>
          if c = CHR 0x0A then None
          else map_option (\<lambda>(g, v, k). (c # g, v, k)) (gvkRegExp s))"

text \<open>\<open>sets.New\<close> of a list: its elements once each.\<close>

definition sets_New :: "string list \<Rightarrow> string list" where
  "sets_New xs = remdups xs"

definition Mapping_MarshalJSON :: "errorMapping \<Rightarrow> conditionTypeStatusJSON list" where
  "Mapping_MarshalJSON m =
     map (\<lambda>(g, mapping).
       \<lparr>cts_GVK = gvk_String g,
        cts_ConditionMappings =
          map (\<lambda>(condition, statuses). \<lparr>cse_Type = condition, cse_Status = statuses\<rparr>) mapping\<rparr>) m"

text \<open>The map is filled in place, so what was stored before an error stays.\<close>

fun Mapping_UnmarshalJSON ::
    "errorMapping \<Rightarrow> conditionTypeStatusJSON list \<Rightarrow> errorMapping \<times> goerr option" where
  "Mapping_UnmarshalJSON m [] = (m, None)"
| "Mapping_UnmarshalJSON m (mapping # ms) =
     (case gvkRegExp (cts_GVK mapping) of
        None \<Rightarrow> (m, Some (Err (''gvk parsing failed: wrong GVK format: <'' @ cts_GVK mapping @ ''>'')))
      | Some (g, v, k) \<Rightarrow>
          (let conditionMappings = fold (\<lambda>c cm. AList.update (cse_Type c) (sets_New (cse_Status c)) cm)
                 (cts_ConditionMappings mapping) [] in
           Mapping_UnmarshalJSON (AList.update (mk_gvk g v k) conditionMappings m) ms))"

subsection \<open>The tables of summarizers.go\<close>

definition GVKConditionErrorMapping :: errorMapping where
  "GVKConditionErrorMapping =
    [(mk_gvk ''helm.cattle.io'' ''v1'' ''HelmChart'',
       [(''JobCreated'', []), (''Failed'', [''True''])]),
     (mk_gvk '''' ''v1'' ''Node'',
       [(''OutOfDisk'', [''True'']), (''MemoryPressure'', [''True'']),
        (''DiskPressure'', [''True'']), (''NetworkUnavailable'', [''True''])]),
     (mk_gvk ''apps'' ''v1'' ''Deployment'',
       [(''ReplicaFailure'', [''True'']), (''Progressing'', [''False''])]),
     (mk_gvk ''apps'' ''v1'' ''ReplicaSet'', [(''ReplicaFailure'', [''True''])]),
     (gvk_zero, [(''Stalled'', [''True'']), (''Failed'', [''True''])])]"

text \<open>\<open>initializeCheckErrors\<close>: the value of the environment variable is the second argument.
  An undecodable value is only logged.\<close>

definition merge_mapping :: "gvk \<times> conditionMappings \<Rightarrow> errorMapping \<Rightarrow> errorMapping" where
  "merge_mapping gm m =
     (case gm of (g, newConditionsMap) \<Rightarrow>
       let m1 = (if map_of m g = None then AList.update g [] m else m);
           existingConditionsMap = (case map_of m1 g of None \<Rightarrow> [] | Some e \<Rightarrow> e);
           merged = fold (\<lambda>(condition, errorMapping) e. AList.update condition errorMapping e)
                      newConditionsMap existingConditionsMap in
       AList.update g merged m1)"

definition initializeCheckErrors :: "senv \<Rightarrow> string \<Rightarrow> errorMapping \<Rightarrow> errorMapping" where
  "initializeCheckErrors E gvkConfig m =
     (if gvkConfig \<noteq> '''' then
        case se_unmarshalMapping E gvkConfig of
          Inl _ \<Rightarrow> m
        | Inr decoded \<Rightarrow>
            (case Mapping_UnmarshalJSON [] decoded of
               (gvkErrorMapping, Some _) \<Rightarrow> m
             | (gvkErrorMapping, None) \<Rightarrow> fold merge_mapping gvkErrorMapping m)
      else m)"

definition TransitioningUnknown :: "(string \<times> string) list" where
  "TransitioningUnknown =
    [(''Active'', ''activating''), (''AddonDeploy'', ''provisioning''),
     (''AgentDeployed'', ''provisioning''), (''BackingNamespaceCreated'', ''configuring''),
     (''Built'', ''building''), (''CertsGenerated'', ''provisioning''),
     (''ConfigOK'', ''configuring''), (''Created'', ''creating''),
     (''CreatorMadeOwner'', ''configuring''), (''DefaultNamespaceAssigned'', ''configuring''),
     (''DefaultNetworkPolicyCreated'', ''configuring''), (''DefaultProjectCreated'', ''configuring''),
     (''DockerProvisioned'', ''provisioning''), (''Deployed'', ''deploying''),
     (''Drained'', ''draining''), (''Downloaded'', ''downloading''), (''etcd'', ''provisioning''),
     (''Inactive'', ''deactivating''), (''Initialized'', ''initializing''),
     (''Installed'', ''installing''), (''NodesCreated'', ''provisioning''),
     (''Pending'', ''pending''), (''PodScheduled'', ''scheduling''),
     (''Provisioned'', ''provisioning''), (''Reconciled'', ''reconciling''),
     (''Refreshed'', ''refreshed''), (''Registered'', ''registering''),
     (''Removed'', ''removing''), (''Saved'', ''saving''), (''Updated'', ''updating''),
     (''Updating'', ''updating''), (''Upgraded'', ''upgrading''), (''Waiting'', ''waiting''),
     (''InitialRolesPopulated'', ''activating''), (''ScalingActive'', ''pending''),
     (''AbleToScale'', ''pending''), (''RunCompleted'', ''running''),
     (''Processed'', ''processed''), (''NodeHealthy'', ''%REASON%''), (''NodeReady'', ''%REASON%'')]"

definition TransitioningFalse :: "(string \<times> string) list" where
  "TransitioningFalse =
    [(''Completed'', ''activating''), (''Ready'', ''unavailable''), (''Available'', ''updating''),
     (''BootstrapConfigReady'', ''%REASON%''), (''InfrastructureReady'', ''%REASON%''),
     (''MachinesReady'', ''updating'')]"

definition TransitioningTrue :: "(string \<times> string) list" where
  "TransitioningTrue =
    [(''Reconciling'', ''reconciling''), (''ScalingUp'', ''%REASON%''),
     (''ScalingDown'', ''%REASON%''), (''Deleting'', ''%REASON%''), (''Paused'', ''%REASON%'')]"

text \<open>The state a table gives to a condition.\<close>

definition new_state :: "(string \<times> string) list \<Rightarrow> condition \<Rightarrow> string option" where
  "new_state table c =
     map_option (\<lambda>s. if s = ''%REASON%'' then Reason c else s) (map_of table (Type c))"

end
