(* ===== verification/Summary_Rules.thy ===== *)
theory Summary_Rules
  imports Summary_Core
begin

section \<open>The summarizers of pkg/summary that work on every kind\<close>

text \<open>
  \<open>pkg/summary/summarizers.go\<close> without the Cluster API kinds, and \<open>cattletypes.go\<close> and
  \<open>coretypes.go\<close>. A summarizer takes the object, its conditions and the summary so far, and
  returns the new summary. A set of names that a function keeps while it appends relationships
  is threaded through the loops. Wall-clock times are nanoseconds since 1970.
\<close>

subsection \<open>Reading the status\<close>

definition checkGeneration :: summarizer where
  "checkGeneration E ob _ summary =
     (if s_State summary \<noteq> '''' then summary
      else if s_HasObservedGeneration summary then
        (case se_NestedInt64 E ob [''metadata'', ''generation''] of
           Inl _ \<Rightarrow> summary
         | Inr (metadataGeneration, metadataFound) \<Rightarrow>
             if \<not> metadataFound then summary
             else (case se_NestedInt64 E ob [''status'', ''observedGeneration''] of
                 Inl _ \<Rightarrow> summary
               | Inr (observedGeneration, _) \<Rightarrow>
                   if observedGeneration \<noteq> metadataGeneration
                   then summary\<lparr>s_State := ''in-progress'', s_Transitioning := True\<rparr>
                   else summary))
      else summary)"

definition add_relationship :: "relationship \<Rightarrow> summary \<Rightarrow> summary" where
  "add_relationship rel s = s\<lparr>s_Relationships := s_Relationships s @ [rel]\<rparr>"

definition add_message :: "string \<Rightarrow> summary \<Rightarrow> summary" where
  "add_message msg s = s\<lparr>s_Message := s_Message s @ [msg]\<rparr>"

definition checkOwner :: summarizer where
  "checkOwner E ob _ summary =
     fold (\<lambda>ownerref s.
         add_relationship
           (rel0\<lparr>r_Name := or_name ownerref, r_Kind := or_kind ownerref,
                 r_APIVersion := or_apiVersion ownerref, r_Type := ''owner'', r_Inbound := True,
                 r_ControlledBy := (or_controller ownerref = Some True)\<rparr>) s)
       (se_ownerReferences E ob) summary"

definition has_key :: "object \<Rightarrow> string \<Rightarrow> bool" where
  "has_key ob k = (map_of (obj_read ob) k \<noteq> None)"

definition checkStatusSummary :: summarizer where
  "checkStatusSummary E ob _ summary =
     (let display = Object_Map ob [''status'', ''display''];
          summaryObj = (if length (obj_read display) = 0
                        then Object_Map ob [''status'', ''summary''] else display) in
      if length (obj_read summaryObj) = 0 then summary
      else
        (let s = summary;
             s = (if has_key summaryObj ''state''
                  then s\<lparr>s_State := Object_String summaryObj [''state'']\<rparr> else s);
             s = (if has_key summaryObj ''transitioning''
                  then s\<lparr>s_Transitioning := Object_Bool summaryObj [''transitioning'']\<rparr> else s);
             s = (if has_key summaryObj ''error''
                  then s\<lparr>s_Error := Object_Bool summaryObj [''error'']\<rparr> else s);
             s = (if has_key summaryObj ''message''
                  then add_message (Object_String summaryObj [''message'']) s else s) in s))"

definition checkStandard :: summarizer where
  "checkStandard E ob _ summary =
     (if s_State summary \<noteq> '''' then summary
      else if HasPrefix (Object_String ob [''type'']) ''/'' then summary
      else case se_kstatus E ob of
        Inl _ \<Rightarrow> summary
      | Inr (status, message) \<Rightarrow>
          if status = ''InProgress'' then
            (add_message message (summary\<lparr>s_State := ''in-progress''\<rparr>))\<lparr>s_Transitioning := True\<rparr>
          else if status = ''Failed'' then
            (add_message message (summary\<lparr>s_State := ''failed''\<rparr>))\<lparr>s_Error := True\<rparr>
          else if status = ''Current'' then
            add_message message (summary\<lparr>s_State := ''active''\<rparr>)
          else if status = ''Terminating'' then
            (add_message message (summary\<lparr>s_State := ''removing''\<rparr>))\<lparr>s_Transitioning := True\<rparr>
          else summary)"

subsection \<open>Errors\<close>

definition errors_step :: "conditionMappings \<Rightarrow> condition \<Rightarrow> summary \<Rightarrow> summary" where
  "errors_step conditionMapping c s =
     (let status = map_of conditionMapping (Type c);
          reasonIsError = (Reason c = ''Error'') in
      if status = None \<and> \<not> reasonIsError then s
      else if reasonIsError \<or> (case status of None \<Rightarrow> False | Some st \<Rightarrow> Status c \<in> set st) then
        (let s = add_message (Message c) (s\<lparr>s_Error := True\<rparr>) in
         if s_State s = ''active'' \<or> s_State s = '''' then s\<lparr>s_State := ''error''\<rparr> else s)
      else s)"

definition mappingFor :: "errorMapping \<Rightarrow> gvk \<Rightarrow> conditionMappings" where
  "mappingFor m g = (case map_of m g of
       Some cm \<Rightarrow> cm
     | None \<Rightarrow> (case map_of m gvk_zero of Some cm \<Rightarrow> cm | None \<Rightarrow> []))"

definition checkErrors :: summarizer where
  "checkErrors E ob conditions summary =
     (if length conditions = 0 then summary
      else fold (errors_step (mappingFor (se_errorMapping E) (se_gvkOf E ob))) conditions summary)"

subsection \<open>Transitions of kinds that are not known\<close>

definition isDigits :: "string \<Rightarrow> bool" where
  "isDigits s = (s \<noteq> [] \<and> list_all isDigit s)"

text \<open>\<open>^\d+ of \d+ completed$\<close>\<close>

definition stepCounterMessagePattern :: "string \<Rightarrow> bool" where
  "stepCounterMessagePattern s =
     (let d1 = takeWhile isDigit s; r1 = dropWhile isDigit s;
          r2 = drop 4 r1; d2 = takeWhile isDigit r2 in
      d1 \<noteq> [] \<and> prefix '' of '' r1 \<and> d2 \<noteq> [] \<and> dropWhile isDigit r2 = '' completed'')"

definition unknown_step :: "condition \<Rightarrow> summary \<Rightarrow> summary" where
  "unknown_step c s =
     (case new_state TransitioningUnknown c of
        None \<Rightarrow> s
      | Some newState \<Rightarrow>
          if Status c = ''False'' then
            add_message (Message c) (s\<lparr>s_Error := True, s_State := newState\<rparr>)
          else if Status c = ''Unknown'' \<and> s_State s = '''' then
            add_message (Message c) (s\<lparr>s_Transitioning := True, s_State := newState\<rparr>)
          else s)"

fun true_loop :: "condition list \<Rightarrow> summary \<Rightarrow> summary" where
  "true_loop [] s = s"
| "true_loop (c # cs) s =
     (if s_State s \<noteq> '''' then s
      else case new_state TransitioningTrue c of
        None \<Rightarrow> true_loop cs s
      | Some newState \<Rightarrow>
          if Status c = ''True'' then
            true_loop cs (add_message (Message c) (s\<lparr>s_Transitioning := True, s_State := newState\<rparr>))
          else true_loop cs s)"

text \<open>The third loop also keeps the message of a \<open>Ready=False\<close> condition: \<open>ready\<close> is \<open>None\<close>
  while \<open>ready\<close> is true.\<close>

fun false_loop :: "condition list \<Rightarrow> string option \<Rightarrow> summary \<Rightarrow> summary \<times> string option" where
  "false_loop [] ready s = (s, ready)"
| "false_loop (c # cs) ready s =
     (if s_State s \<noteq> '''' then (s, ready)
      else if Type c = ''Ready'' \<and> Status c = ''False'' then
        false_loop cs
          (Some (if stepCounterMessagePattern (Message c) then '''' else Message c)) s
      else case new_state TransitioningFalse c of
        None \<Rightarrow> false_loop cs ready s
      | Some newState \<Rightarrow>
          if Status c = ''False'' then
            false_loop cs ready
              (add_message (Message c) (s\<lparr>s_Transitioning := True, s_State := newState\<rparr>))
          else if Status c = ''Unknown'' then
            false_loop cs ready
              (add_message (Message c) (s\<lparr>s_Error := True, s_State := newState\<rparr>))
          else false_loop cs ready s)"

definition checkGenericTransitioning :: summarizer where
  "checkGenericTransitioning E _ conditions summary =
     (let s = true_loop conditions (fold unknown_step conditions summary) in
      case false_loop conditions None s of
        (s, ready) \<Rightarrow>
          if s_State s = '''' \<and> ready \<noteq> None then
            add_message (the ready) (s\<lparr>s_Transitioning := True, s_State := ''unavailable''\<rparr>)
          else s)"

subsection \<open>Phases and removal\<close>

definition checkActive :: summarizer where
  "checkActive E ob _ summary =
     (if s_State summary \<noteq> '''' then summary
      else
        (let active = Object_String ob [''spec'', ''active''] in
         if active = ''true'' then summary\<lparr>s_State := ''active''\<rparr>
         else if active = ''false'' then summary\<lparr>s_State := ''inactive''\<rparr>
         else summary))"

definition checkPhase :: summarizer where
  "checkPhase E ob _ summary =
     (let phase = Object_String ob [''status'', ''phase''] in
      if phase = ''Succeeded'' then summary\<lparr>s_State := ''succeeded'', s_Transitioning := False\<rparr>
      else if phase = ''Bound'' then summary\<lparr>s_State := ''bound'', s_Transitioning := False\<rparr>
      else if phase \<noteq> '''' \<and> s_State summary = '''' then summary\<lparr>s_State := phase\<rparr>
      else summary)"

definition second :: int where "second = 1000000000"

definition unix_nanos :: "int \<Rightarrow> int" where
  "unix_nanos i = go_div i 1000 * second"

definition checkInitializing :: summarizer where
  "checkInitializing E ob conditions summary =
     (let apiVersion = Object_String ob [''apiVersion''];
          hasConditions = has_key (Object_Map ob [''status'']) ''conditions'' in
      if s_State summary = '''' \<and> hasConditions \<and> length conditions = 0 \<and>
         Contains apiVersion ''cattle.io'' then
        (let val = Object_String ob [''metadata'', ''created''] in
         case ToTimestamp E (VStr val) of
           Inl _ \<Rightarrow> summary
         | Inr i \<Rightarrow>
             if unix_nanos i + 5 * second > se_now E
             then summary\<lparr>s_State := ''initializing'', s_Transitioning := True\<rparr>
             else summary)
      else summary)"

definition removed_step :: "condition \<Rightarrow> summary \<Rightarrow> summary" where
  "removed_step cond s =
     (if Type cond = ''Removed'' \<and> (Status cond = ''Unknown'' \<or> Status cond = ''False'') \<and>
         Message cond \<noteq> ''''
      then add_message (Message cond) s else s)"

definition checkRemoving :: summarizer where
  "checkRemoving E ob conditions summary =
     (let removed = Object_String ob [''metadata'', ''removed''] in
      if removed = '''' then summary
      else
        (let s = summary\<lparr>s_State := ''removing'', s_Transitioning := True\<rparr>;
             finalizers = Object_StringSlice ob [''metadata'', ''finalizers''];
             finalizers = (if length finalizers = 0
                           then Object_StringSlice ob [''spec'', ''finalizers''] else finalizers);
             s = fold removed_step conditions s in
         if length finalizers = 0 then s
         else
           (let f = snd (kv_RSplit (finalizers ! 0) ''controller.cattle.io/'');
                f = (if f = ''foregroundDeletion'' then ''object cleanup'' else f);
                s = add_message (''waiting on '' @ f) s in
            case ToTimestamp E (VStr removed) of
              Inl _ \<Rightarrow> s
            | Inr i \<Rightarrow> if unix_nanos i + 300 * second < se_now E then s\<lparr>s_Error := True\<rparr> else s)))"

definition checkLoadBalancer :: summarizer where
  "checkLoadBalancer E ob _ summary =
     (if (s_State summary = ''active'' \<or> s_State summary = '''') \<and>
         Object_String ob [''kind''] = ''Service'' \<and>
         (Object_String ob [''spec'', ''serviceKind''] = ''LoadBalancer'' \<or>
          Object_String ob [''spec'', ''type''] = ''LoadBalancer'') \<and>
         length (Object_Slice ob [''status'', ''loadBalancer'', ''ingress'']) = 0
      then add_message ''Load balancer is being provisioned''
             (summary\<lparr>s_State := ''pending'', s_Transitioning := True\<rparr>)
      else summary)"

definition checkCattleReady :: summarizer where
  "checkCattleReady E ob condition summary =
     (if Contains (Object_String ob [''apiVersion'']) ''cattle.io/'' then
        case List.find (\<lambda>c. Type c = ''Ready'' \<and> Status c = ''False'' \<and> Message c \<noteq> '''') condition of
          Some c \<Rightarrow> (add_message (Message c) summary)\<lparr>s_Error := True\<rparr>
        | None \<Rightarrow> summary
      else summary)"

subsection \<open>Relationships\<close>

text \<open>\<open>isKind\<close> as written: an API group that does not end in a slash is compared with \<open>!=\<close>.\<close>

definition group_matches :: "object \<Rightarrow> string \<Rightarrow> bool" where
  "group_matches ob grp =
     (if grp = '''' then Object_String ob [''apiVersion''] = ''v1''
      else if last grp = CHR ''/'' then HasPrefix (Object_String ob [''apiVersion'']) grp
      else Object_String ob [''apiVersion''] \<noteq> grp)"

definition isKind :: "object \<Rightarrow> string \<Rightarrow> string list \<Rightarrow> bool" where
  "isKind ob kind apiGroups =
     (if Object_String ob [''kind''] \<noteq> kind then False
      else if length apiGroups = 0 then Object_String ob [''apiVersion''] = ''v1''
      else list_ex (group_matches ob) apiGroups)"

definition kindSep :: string where "kindSep = '', Kind=''"

definition annotation :: "object \<Rightarrow> string \<Rightarrow> val" where
  "annotation annotations k = (case map_of (obj_read annotations) k of None \<Rightarrow> VNil | Some v \<Rightarrow> v)"

definition checkApplyOwned :: summarizer where
  "checkApplyOwned E ob _ summary =
     (if length (Object_Slice ob [''metadata'', ''ownerReferences'']) > 0 then summary
      else
        (let annotations = Object_Map ob [''metadata'', ''annotations''];
             gvkString = ToString (annotation annotations ''objectset.rio.cattle.io/owner-gvk'') in
         case Index gvkString kindSep of
           None \<Rightarrow> summary
         | Some i \<Rightarrow>
             if i = 0 then summary
             else add_relationship
               (rel0\<lparr>r_Name := ToString (annotation annotations ''objectset.rio.cattle.io/owner-name''),
                     r_Namespace := ToString (annotation annotations ''objectset.rio.cattle.io/owner-namespace''),
                     r_Kind := drop (i + length kindSep) gvkString,
                     r_APIVersion := take i gvkString,
                     r_Type := ''applies'', r_Inbound := True\<rparr>) summary))"

definition checkRelease :: summarizer where
  "checkRelease E ob _ summary =
     (if \<not> isKind ob ''App'' [''catalog.cattle.io''] then summary
      else if Object_String ob [''status'', ''summary'', ''state''] \<noteq> ''deployed'' then summary
      else fold (\<lambda>resources s.
          add_relationship
            (rel0\<lparr>r_Name := Object_String resources [''name''],
                  r_Namespace := Object_String resources [''namespace''],
                  r_Kind := Object_String resources [''kind''],
                  r_APIVersion := Object_String resources [''apiVersion''],
                  r_Type := ''helmresource''\<rparr>) s)
        (Object_Slice ob [''spec'', ''resources'']) summary)"

definition checkCattleTypes :: summarizer where
  "checkCattleTypes E ob condition summary = checkRelease E ob condition summary"

subsection \<open>Pods: coretypes.go\<close>

definition uses :: "string \<Rightarrow> string \<Rightarrow> relationship" where
  "uses name kind = rel0\<lparr>r_Name := name, r_Kind := kind, r_APIVersion := ''v1'', r_Type := ''uses''\<rparr>"

text \<open>\<open>if name == "" || names[name] { continue }\<close>, then the name is recorded and appended.\<close>

definition use_name :: "string \<Rightarrow> string \<Rightarrow> string list \<times> summary \<Rightarrow> string list \<times> summary" where
  "use_name kind name ns =
     (case ns of (names, summary) \<Rightarrow>
        if name = '''' \<or> name \<in> set names then (names, summary)
        else (name # names, add_relationship (uses name kind) summary))"

definition addEnvRef ::
    "summary \<Rightarrow> string list \<Rightarrow> object \<Rightarrow> string \<Rightarrow> string \<Rightarrow> string list \<times> summary" where
  "addEnvRef summary names ob fieldPrefix kind =
     fold (\<lambda>container ns.
         fold (\<lambda>env. use_name kind (Object_String env [''valueFrom'', fieldPrefix @ ''KeyRef'', ''name'']))
           (Object_Slice container [''env''])
           (fold (\<lambda>env. use_name kind (Object_String env [fieldPrefix @ ''Ref'', ''name'']))
             (Object_Slice container [''envFrom'']) ns))
       (Object_Slice ob [''spec'', ''containers'']) (names, summary)"

definition checkPodConfigMaps :: summarizer where
  "checkPodConfigMaps E ob _ summary =
     (case fold (\<lambda>vol. use_name ''ConfigMap'' (Object_String vol [''configMap'', ''name'']))
             (Object_Slice ob [''spec'', ''volumes'']) ([], summary) of
        (names, summary) \<Rightarrow> snd (addEnvRef summary names ob ''configMap'' ''ConfigMap''))"

definition checkPodSecrets :: summarizer where
  "checkPodSecrets E ob _ summary =
     (case fold (\<lambda>vol. use_name ''Secret'' (Object_String vol [''secret'', ''secretName'']))
             (Object_Slice ob [''spec'', ''volumes'']) ([], summary) of
        (names, summary) \<Rightarrow> snd (addEnvRef summary names ob ''secret'' ''Secret''))"

definition checkPodServiceAccount :: summarizer where
  "checkPodServiceAccount E ob _ summary =
     add_relationship (uses (Object_String ob [''spec'', ''serviceAccountName'']) ''ServiceAccount'') summary"

definition use_nonempty :: "string \<Rightarrow> string \<Rightarrow> summary \<Rightarrow> summary" where
  "use_nonempty kind name s = (if name \<noteq> '''' then add_relationship (uses name kind) s else s)"

definition checkPodProjectedVolume :: summarizer where
  "checkPodProjectedVolume E ob _ summary =
     fold (\<lambda>vol s.
         fold (\<lambda>source s.
             use_nonempty ''ConfigMap'' (Object_String source [''configMap'', ''name''])
               (use_nonempty ''Secret'' (Object_String source [''secret'', ''name'']) s))
           (Object_Slice vol [''projected'', ''sources'']) s)
       (Object_Slice ob [''spec'', ''volumes'']) summary"

definition checkPodPullSecret :: summarizer where
  "checkPodPullSecret E ob _ summary =
     fold (\<lambda>pullSecret. use_nonempty ''Secret'' (Object_String pullSecret [''name'']))
       (Object_Slice ob [''imagePullSecrets'']) summary"

definition checkPodTemplate :: summarizer where
  "checkPodTemplate E ob condition summary =
     (let s = checkPodConfigMaps E ob condition summary;
          s = checkPodSecrets E ob condition s;
          s = checkPodServiceAccount E ob condition s;
          s = checkPodProjectedVolume E ob condition s in
      checkPodPullSecret E ob condition s)"

definition checkPod :: summarizer where
  "checkPod E ob condition summary =
     (if \<not> isKind ob ''Pod'' [] then summary
      else if Object_String ob [''kind''] \<noteq> ''Pod'' \<or> Object_String ob [''apiVersion''] \<noteq> ''v1''
      then summary
      else checkPodTemplate E ob condition summary)"

text \<open>The list of kinds that both functions below test.\<close>

definition is_pod_owner :: "object \<Rightarrow> bool" where
  "is_pod_owner ob =
     (\<not> (\<not> isKind ob ''ReplicaSet'' [''apps/'', ''extension/''] \<and>
         \<not> isKind ob ''DaemonSet'' [''apps/'', ''extension/''] \<and>
         \<not> isKind ob ''StatefulSet'' [''apps/'', ''extension/''] \<and>
         \<not> isKind ob ''Deployment'' [''apps/'', ''extension/''] \<and>
         \<not> isKind ob ''Job'' [''batch/''] \<and>
         \<not> isKind ob ''Service'' []))"

definition checkHasPodTemplate :: summarizer where
  "checkHasPodTemplate E ob condition summary =
     (let template = Object_Map ob [''spec'', ''template''] in
      if template = None then summary
      else if \<not> is_pod_owner ob then summary
      else checkPodTemplate E template condition summary)"

definition checkHasPodSelector :: summarizer where
  "checkHasPodSelector E ob _ summary =
     (case Object_Map ob [''spec'', ''selector''] of
        None \<Rightarrow> summary
      | Some selector \<Rightarrow>
          if \<not> is_pod_owner ob then summary
          else
            (let hasMatch = (map_of selector ''matchLabels'' \<noteq> None \<or>
                             map_of selector ''matchExpressions'' \<noteq> None);
                 sel = (if hasMatch then se_toSelector E selector
                        else Inr \<lparr>ls_matchLabels = map (\<lambda>(k, v). (k, ToString v)) selector,
                                  ls_matchExpressions = []\<rparr>);
                 t = (if map_of (obj_read ob) ''kind'' = Some (VStr ''Service'')
                      then ''selects'' else ''creates'') in
             case sel of
               Inl _ \<Rightarrow> summary
             | Inr sel \<Rightarrow>
                 add_relationship
                   (rel0\<lparr>r_Kind := ''Pod'', r_APIVersion := ''v1'', r_Type := t,
                         r_Selector := Some sel\<rparr>) summary))"

end
