(* ===== verification/Summary_CAPI.thy ===== *)
theory Summary_CAPI
  imports Summary_Rules
begin

section \<open>Cluster API kinds, operations and the whole of Summarize\<close>

text \<open>
  The summarizers of Cluster API machines, machine sets, machine deployments and clusters
  (\<open>pkg/summary/summarizers.go\<close>), of Rancher operations (\<open>operations.go\<close>), the lists of
  summarizers that \<open>init\<close> builds, \<open>Summarize\<close>, \<open>Summarized\<close> and \<open>NormalizeConditions\<close>.
  Replica counts are 64-bit words: subtraction wraps and comparisons are signed.
\<close>

subsection \<open>Which kind\<close>

definition isCAPIKind :: "string \<Rightarrow> object \<Rightarrow> bool" where
  "isCAPIKind kind ob =
     (HasPrefix (Object_String ob [''apiVersion'']) ''cluster.x-k8s.io/'' \<and>
      Object_String ob [''kind''] = kind)"

definition isCAPIMachine :: "object \<Rightarrow> bool" where
  "isCAPIMachine ob = isCAPIKind ''Machine'' ob"

definition isCAPIMachineSet :: "object \<Rightarrow> bool" where
  "isCAPIMachineSet ob = isCAPIKind ''MachineSet'' ob"

definition isCAPIMachineDeployment :: "object \<Rightarrow> bool" where
  "isCAPIMachineDeployment ob = isCAPIKind ''MachineDeployment'' ob"

definition isCAPICluster :: "object \<Rightarrow> bool" where
  "isCAPICluster ob = isCAPIKind ''Cluster'' ob"

definition operationKinds :: "string list" where
  "operationKinds =
     [''EncryptionKeyRotation'', ''ETCDSnapshotRestore'', ''ETCDSnapshotSave'', ''CertificateRotation'']"

definition isOperation :: "object \<Rightarrow> bool" where
  "isOperation ob =
     (HasPrefix (Object_String ob [''apiVersion'']) ''operation.cattle.io/'' \<and>
      Object_String ob [''kind''] \<in> set operationKinds)"

subsection \<open>Aggregated messages and replica counts\<close>

definition first_sub_bullet :: "string list \<Rightarrow> string" where
  "first_sub_bullet lines =
     (case List.find (\<lambda>line. HasPrefix (TrimSpace line) ''* '') lines of
        None \<Rightarrow> ''''
      | Some line \<Rightarrow>
          (let subContent = TrimPrefix (TrimSpace line) ''* '' in
           case Index subContent '': '' of
             Some i \<Rightarrow> drop (i + 2) subContent
           | None \<Rightarrow> subContent))"

definition parseMessage :: "string \<Rightarrow> string \<times> string" where
  "parseMessage message =
     (if message = '''' then ('''', '''')
      else
        (let lines = Split message [CHR 0x0A];
             firstLine = TrimPrefix (lines ! 0) ''* '' in
         case Index firstLine '': '' of
           None \<Rightarrow>
             if HasSuffix firstLine '':'' then (first_sub_bullet (drop 1 lines), TrimSuffix firstLine '':'')
             else (firstLine, '''')
         | Some colonIdx \<Rightarrow>
             (let pfx = take colonIdx firstLine; detail = drop (colonIdx + 2) firstLine in
              if detail \<noteq> '''' then (detail, pfx)
              else (first_sub_bullet (drop 1 lines), pfx))))"

text \<open>The callers of \<open>nestedInt64\<close> drop the error: the count, and whether it was found.\<close>

definition nestedInt64 :: "senv \<Rightarrow> object \<Rightarrow> string list \<Rightarrow> 64 word \<times> bool \<times> goerr option" where
  "nestedInt64 E ob path =
     (case se_NestedFieldNoCopy E ob path of
        Inl err \<Rightarrow> (0, False, Some err)
      | Inr (v, found) \<Rightarrow>
          if \<not> found then (0, False, None)
          else (case ToNumber E v of
              Inl err \<Rightarrow> (0, False, Some err)
            | Inr n \<Rightarrow> (n, True, None)))"

definition replicas :: "senv \<Rightarrow> object \<Rightarrow> string list \<Rightarrow> 64 word option" where
  "replicas E ob path =
     (case nestedInt64 E ob path of (n, found, _) \<Rightarrow> if found then Some n else None)"

definition both :: "64 word option \<Rightarrow> 64 word option \<Rightarrow> (64 word \<times> 64 word) option" where
  "both a b = (case a of None \<Rightarrow> None
     | Some x \<Rightarrow> (case b of None \<Rightarrow> None | Some y \<Rightarrow> Some (x, y)))"

definition greater :: "64 word option \<Rightarrow> 64 word option \<Rightarrow> bool" where
  "greater a b = (case both a b of None \<Rightarrow> False | Some (x, y) \<Rightarrow> y <s x)"

definition show_int :: "64 word \<Rightarrow> string" where
  "show_int w = Itoa (sint w)"

subsection \<open>The scan for Deleting and Paused\<close>

text \<open>
  The loop the three summarizers start with: the first condition that is \<open>Deleting=True\<close> or
  \<open>Paused=True\<close> ends the function (\<open>Inl\<close>); otherwise the last condition of each type is kept.
  The first argument rewrites the message of a deletion.
\<close>

definition add_nonempty :: "string \<Rightarrow> summary \<Rightarrow> summary" where
  "add_nonempty msg s = (if msg \<noteq> '''' then add_message msg s else s)"

fun capi_scan :: "(string \<Rightarrow> string) \<Rightarrow> (string \<times> condition) list \<Rightarrow> condition list \<Rightarrow> summary
    \<Rightarrow> summary + (string \<times> condition) list" where
  "capi_scan rewrite found [] s = Inr found"
| "capi_scan rewrite found (c # cs) s =
     (if Type c = ''Deleting'' \<and> Status c = ''True'' then
        (let s = s\<lparr>s_State := ''deleting'', s_Transitioning := True\<rparr> in
         Inl (if Message c \<noteq> '''' then add_message (rewrite (Message c)) s else s))
      else if Type c = ''Paused'' \<and> Status c = ''True'' then
        Inl (s\<lparr>s_State := ''paused'', s_Transitioning := True\<rparr>)
      else capi_scan rewrite (AList.update (Type c) c found) cs s)"

definition status_is :: "(string \<times> condition) list \<Rightarrow> string \<Rightarrow> string \<Rightarrow> bool" where
  "status_is found t st = (case map_of found t of None \<Rightarrow> False | Some c \<Rightarrow> Status c = st)"

subsection \<open>Machines\<close>

definition drain_message :: "string \<Rightarrow> string" where
  "drain_message msg = (if HasPrefix msg ''Drain not completed yet'' then ''Draining node'' else msg)"

definition machine_ready :: "condition \<Rightarrow> summary \<Rightarrow> summary" where
  "machine_ready ready s =
     (if Status ready = ''False'' then
        (case parseMessage (Message ready) of (detail, pfx) \<Rightarrow>
           if pfx = ''BootstrapConfigReady'' then
             (let s = s\<lparr>s_Transitioning := True, s_State := ''waitingforinfrastructure''\<rparr>;
                  detail = (if HasSuffix detail ''status.initialization.dataSecretCreated is false''
                            then '''' else detail) in
              add_nonempty detail s)
           else if pfx = ''InfrastructureReady'' then
             (let s = s\<lparr>s_Transitioning := True, s_State := ''waitingfornoderef''\<rparr>;
                  detail = (if HasSuffix detail ''status.initialization.provisioned is false''
                            then '''' else detail);
                  detail = (if stepCounterMessagePattern detail then '''' else detail) in
              add_nonempty detail s)
           else s)
      else if Status ready = ''Unknown'' then
        (let s = s\<lparr>s_Transitioning := True, s_State := ''reconciling''\<rparr> in
         case parseMessage (Message ready) of (detail, pfx) \<Rightarrow>
           add_nonempty
             (if pfx = ''NodeHealthy'' \<and> HasSuffix detail ''to report spec.providerID''
              then '''' else detail) s)
      else s)"

definition machine_reconciled :: "condition \<Rightarrow> summary \<Rightarrow> summary" where
  "machine_reconciled reconciled s =
     add_nonempty (Message reconciled)
       (if Status reconciled = ''Unknown'' then s\<lparr>s_Transitioning := True, s_State := ''reconciling''\<rparr>
        else if Status reconciled = ''False'' then s\<lparr>s_Error := True, s_State := ''reconciling''\<rparr>
        else s)"

definition checkCAPIMachineTransitioning :: "condition list \<Rightarrow> summary \<Rightarrow> summary" where
  "checkCAPIMachineTransitioning conditions summary =
     (case capi_scan drain_message [] conditions summary of
        Inl s \<Rightarrow> s
      | Inr found \<Rightarrow>
          (case map_of found ''Reconciled'' of
             Some reconciled \<Rightarrow>
               if Status reconciled \<noteq> ''True'' then machine_reconciled reconciled summary
               else (case map_of found ''Ready'' of
                   Some ready \<Rightarrow> machine_ready ready summary | None \<Rightarrow> summary)
           | None \<Rightarrow> (case map_of found ''Ready'' of
               Some ready \<Rightarrow> machine_ready ready summary | None \<Rightarrow> summary)))"

subsection \<open>Machine sets and machine deployments\<close>

definition add_counted ::
    "(64 word \<times> 64 word \<Rightarrow> string) \<Rightarrow> (64 word \<times> 64 word) option \<Rightarrow> summary \<Rightarrow> summary" where
  "add_counted text counts s = (case counts of None \<Rightarrow> s | Some c \<Rightarrow> add_message (text c) s)"

definition rolling_text :: "64 word \<times> 64 word \<Rightarrow> string" where
  "rolling_text c = ''rolling out '' @ show_int (fst c - snd c) @ '' not up-to-date replicas''"

definition checkCAPIMachineSetAndDeploymentTransitioning ::
    "senv \<Rightarrow> object \<Rightarrow> condition list \<Rightarrow> summary \<Rightarrow> summary" where
  "checkCAPIMachineSetAndDeploymentTransitioning E ob conditions summary =
     (let specReplicas = replicas E ob [''spec'', ''replicas''];
          statusReplicas = replicas E ob [''status'', ''replicas''];
          readyReplicas = replicas E ob [''status'', ''readyReplicas''];
          upToDateReplicas = replicas E ob [''status'', ''upToDateReplicas''] in
      case capi_scan (\<lambda>msg. msg) [] conditions summary of
        Inl s \<Rightarrow> s
      | Inr found \<Rightarrow>
          if status_is found ''RollingOut'' ''True'' then
            add_counted rolling_text (both statusReplicas upToDateReplicas)
              (summary\<lparr>s_State := ''rollingout'', s_Transitioning := True\<rparr>)
          else if status_is found ''ScalingDown'' ''True'' \<or> greater statusReplicas specReplicas then
            add_counted (\<lambda>(st, sp). ''Scaling down from '' @ show_int st @ '' to '' @ show_int sp @
                '' replicas, waiting for machines to be deleted'') (both statusReplicas specReplicas)
              (summary\<lparr>s_State := ''scalingdown'', s_Transitioning := True\<rparr>)
          else if greater specReplicas readyReplicas \<or> status_is found ''ScalingUp'' ''True'' then
            add_counted (\<lambda>(rd, sp). ''Scaling up from '' @ show_int rd @ '' to '' @ show_int sp @
                '' replicas, waiting for machines to be ready'') (both readyReplicas specReplicas)
              (summary\<lparr>s_State := ''scalingup'', s_Transitioning := True\<rparr>)
          else summary)"

subsection \<open>Clusters\<close>

definition workers_message :: "string \<Rightarrow> string" where
  "workers_message msg =
     (if HasPrefix msg ''* MachineDeployments'' then ''waiting for workers deletion'' else msg)"

definition cluster_available :: "condition \<Rightarrow> summary \<Rightarrow> summary" where
  "cluster_available available s =
     (if Status available = ''False'' then
        (let s = s\<lparr>s_Transitioning := True, s_State := ''updating''\<rparr> in
         case parseMessage (Message available) of (detail, pfx) \<Rightarrow>
           if pfx = ''RemoteConnectionProbe''
           then add_message ''establishing connection to control plane'' s
           else if pfx = ''ControlPlaneAvailable''
           then add_message ''Waiting for control plane to be available'' s
           else if pfx = ''MachineDeployment''
           then add_message ''Waiting for workers to be available'' s
           else add_nonempty detail s)
      else if Status available = ''Unknown'' then
        add_message (Message available) (s\<lparr>s_Error := True, s_State := ''unavailable''\<rparr>)
      else s)"

definition checkCAPIClusterTransitioning ::
    "senv \<Rightarrow> object \<Rightarrow> condition list \<Rightarrow> summary \<Rightarrow> summary" where
  "checkCAPIClusterTransitioning E ob conditions summary =
     (let desiredReplicas = replicas E ob [''status'', ''workers'', ''desiredReplicas''];
          workersReplicas = replicas E ob [''status'', ''workers'', ''replicas''];
          readyReplicas = replicas E ob [''status'', ''workers'', ''readyReplicas''];
          upToDateReplicas = replicas E ob [''status'', ''workers'', ''upToDateReplicas''] in
      case capi_scan workers_message [] conditions summary of
        Inl s \<Rightarrow> s
      | Inr found \<Rightarrow>
          if status_is found ''RollingOut'' ''True'' then
            add_counted rolling_text (both workersReplicas upToDateReplicas)
              (summary\<lparr>s_State := ''rollingout'', s_Transitioning := True\<rparr>)
          else if status_is found ''ScalingDown'' ''True'' \<or> greater workersReplicas desiredReplicas then
            add_counted (\<lambda>(w, d). ''Scaling down from '' @ show_int w @ '' to '' @ show_int d @
                '' machines'') (both workersReplicas desiredReplicas)
              (summary\<lparr>s_State := ''updating'', s_Transitioning := True\<rparr>)
          else if status_is found ''ScalingUp'' ''True'' \<or> greater desiredReplicas readyReplicas then
            add_counted (\<lambda>(rd, d). ''Scaling up from '' @ show_int rd @ '' to '' @ show_int d @
                '' machines'') (both readyReplicas desiredReplicas)
              (summary\<lparr>s_State := ''updating'', s_Transitioning := True\<rparr>)
          else (case map_of found ''Available'' of
              Some available \<Rightarrow> cluster_available available summary
            | None \<Rightarrow> summary))"

subsection \<open>Operations\<close>

record operationState =
  op_condition :: string
  op_state :: string
  op_err :: bool
  op_transitioning :: bool

definition operationStates :: "operationState list" where
  "operationStates =
    [\<lparr>op_condition = ''Failed'', op_state = ''failed'', op_err = True, op_transitioning = False\<rparr>,
     \<lparr>op_condition = ''Canceled'', op_state = ''canceled'', op_err = True, op_transitioning = False\<rparr>,
     \<lparr>op_condition = ''Succeeded'', op_state = ''succeeded'', op_err = False, op_transitioning = False\<rparr>,
     \<lparr>op_condition = ''Paused'', op_state = ''paused'', op_err = False, op_transitioning = True\<rparr>,
     \<lparr>op_condition = ''InProgress'', op_state = ''in-progress'', op_err = False, op_transitioning = True\<rparr>,
     \<lparr>op_condition = ''Pending'', op_state = ''pending'', op_err = False, op_transitioning = True\<rparr>]"

definition op_holds :: "operationState \<Rightarrow> condition \<Rightarrow> bool" where
  "op_holds state c = (Type c = op_condition state \<and> Status c = ''True'')"

definition op_apply :: "operationState \<Rightarrow> condition \<Rightarrow> summary \<Rightarrow> summary" where
  "op_apply state c s =
     (let s = s\<lparr>s_State := op_state state\<rparr>;
          s = (if op_err state then s\<lparr>s_Error := True\<rparr> else s);
          s = (if op_transitioning state then s\<lparr>s_Transitioning := True\<rparr> else s) in
      add_nonempty (Message c) s)"

fun operation_loop :: "operationState list \<Rightarrow> condition list \<Rightarrow> summary \<Rightarrow> summary option" where
  "operation_loop [] conditions summary = None"
| "operation_loop (state # states) conditions summary =
     (case List.find (op_holds state) conditions of
        Some c \<Rightarrow> Some (op_apply state c summary)
      | None \<Rightarrow> operation_loop states conditions summary)"

definition checkOperationTransitioning :: "condition list \<Rightarrow> summary \<Rightarrow> summary" where
  "checkOperationTransitioning conditions summary =
     (case operation_loop operationStates conditions summary of
        Some s \<Rightarrow> s
      | None \<Rightarrow>
          if length conditions = 0
          then summary\<lparr>s_State := ''pending'', s_Transitioning := True\<rparr>
          else summary)"

subsection \<open>The whole of Summarize\<close>

definition checkTransitioning :: summarizer where
  "checkTransitioning E ob conditions summary =
     (if isCAPIMachine ob then checkCAPIMachineTransitioning conditions summary
      else if isCAPIMachineSet ob \<or> isCAPIMachineDeployment ob
      then checkCAPIMachineSetAndDeploymentTransitioning E ob conditions summary
      else if isCAPICluster ob then checkCAPIClusterTransitioning E ob conditions summary
      else if isOperation ob then checkOperationTransitioning conditions summary
      else checkGenericTransitioning E ob conditions summary)"

definition ConditionSummarizers :: "summarizer list" where
  "ConditionSummarizers =
     [checkErrors, checkGenericTransitioning, checkRemoving, checkCattleReady]"

definition Summarizers :: "summarizer list" where
  "Summarizers =
     [checkStatusSummary, checkErrors, checkTransitioning, checkActive, checkPhase,
      checkInitializing, checkRemoving, checkStandard, checkLoadBalancer, checkPod,
      checkHasPodSelector, checkHasPodTemplate, checkOwner, checkApplyOwned, checkCattleTypes,
      checkGeneration]"

definition SummarizeWithOptions :: "senv \<Rightarrow> runtimeobj \<Rightarrow> bool option \<Rightarrow> summary" where
  "SummarizeWithOptions E runtimeObj opts =
     (case runtimeObj of
        ROSummarized s \<Rightarrow> so_summary s
      | _ \<Rightarrow>
          (case ToUnstructured E runtimeObj of
             Inl _ \<Rightarrow> summary0
           | Inr unstr \<Rightarrow>
               (let ob = (case unstr of None \<Rightarrow> None | Some obj \<Rightarrow> obj);
                    conditions = getConditions E ob;
                    summary = (case opts of None \<Rightarrow> summary0
                      | Some hasObs \<Rightarrow> summary0\<lparr>s_HasObservedGeneration := hasObs\<rparr>);
                    summary = run_summarizers E Summarizers ob conditions summary;
                    summary = (if s_State summary = '''' then summary\<lparr>s_State := ''active''\<rparr>
                               else summary) in
                summary\<lparr>s_State := ToLower (s_State summary),
                        s_Message := dedupMessage (s_Message summary)\<rparr>)))"

definition Summarize :: "senv \<Rightarrow> runtimeobj \<Rightarrow> summary" where
  "Summarize E runtimeObj = SummarizeWithOptions E runtimeObj None"

text \<open>The metadata of a \<open>SummarizedObject\<close> are the ten fields the code copies; the owner
  references and finalizers stay empty.\<close>

definition SummarizedWithOptions :: "senv \<Rightarrow> runtimeobj \<Rightarrow> bool option \<Rightarrow> summarized" where
  "SummarizedWithOptions E u opts =
     (case u of
        ROSummarized s \<Rightarrow> s
      | _ \<Rightarrow>
          \<lparr>so_apiVersion = fst (se_apiVersionAndKind E u), so_kind = snd (se_apiVersionAndKind E u),
           so_meta = (case se_accessor E u of
               Inl _ \<Rightarrow> None
             | Inr m \<Rightarrow> Some (m\<lparr>m_ownerReferences := [], m_finalizers := []\<rparr>)),
           so_summary = SummarizeWithOptions E u opts\<rparr>)"

definition Summarized :: "senv \<Rightarrow> runtimeobj \<Rightarrow> summarized" where
  "Summarized E u = SummarizedWithOptions E u None"

subsection \<open>NormalizeConditions\<close>

text \<open>The condition maps are elements of the slice that \<open>SetNested\<close> writes back; no summarizer
  of the list reads the conditions through the object.\<close>

definition normalize_condition :: "senv \<Rightarrow> object \<Rightarrow> condition \<Rightarrow> condition" where
  "normalize_condition E ob condition =
     (let summary = run_summarizers E ConditionSummarizers ob [condition] summary0;
          c = Object_Set condition ''error'' (VBool (s_Error summary));
          c = Object_Set c ''transitioning'' (VBool (s_Transitioning summary)) in
      if Object_String c [''lastUpdateTime''] = ''''
      then Object_Set c ''lastUpdateTime'' (VStr (Object_String c [''lastTransitionTime'']))
      else c)"

definition normalizeAndSetConditions ::
    "senv \<Rightarrow> object \<Rightarrow> object list \<Rightarrow> string list \<Rightarrow> object" where
  "normalizeAndSetConditions E ob conditions path =
     (let newConditions = map (normalize_condition E ob) conditions in
      if length newConditions > 0
      then Object_SetNested ob (VSlice (map (\<lambda>c. VMap (obj_read c)) newConditions)) path
      else ob)"

text \<open>A nil \<open>*Unstructured\<close> is dereferenced, a panic: \<open>None\<close>.\<close>

definition NormalizeConditions :: "senv \<Rightarrow> runtimeobj option \<Rightarrow> runtimeobj option option" where
  "NormalizeConditions E runtimeObj =
     (case runtimeObj of
        None \<Rightarrow> Some None
      | Some ro \<Rightarrow>
          (case ro of
             ROUnstructured None \<Rightarrow> None
           | ROUnstructured (Some ob) \<Rightarrow>
               (let conditions = Object_Slice ob [''status'', ''conditions''] in
                if length conditions > 0
                then Some (Some (ROUnstructured (Some
                       (normalizeAndSetConditions E ob conditions [''status'', ''conditions'']))))
                else Some runtimeObj)
           | _ \<Rightarrow> Some runtimeObj))"

end
