(* ===== verification/Summary_Spec.thy ===== *)
theory Summary_Spec
  imports Summary_CAPI
begin

section \<open>What summaries promise\<close>

text \<open>
  Lemmas and properties of \<open>pkg/summary\<close>. The locale \<open>growing\<close> is the contract of a list of
  summarizers that only adds: an error stays, messages and relationships are appended. The
  locale \<open>settled\<close> is the contract of a list that respects a state that is already decided. Both
  are proved once for a list run in sequence and interpreted on the lists of the code.
\<close>

subsection \<open>Well-formed results\<close>

lemma set_dedup_loop:
  "set (dedup_loop seen result ms) =
   set result \<union> {m \<in> TrimSpace ` set ms. m \<noteq> '''' \<and> m \<notin> set seen}"
  by (induction seen result ms rule: dedup_loop.induct) (auto simp: Let_def)

lemma distinct_dedup_loop:
  "distinct result \<Longrightarrow> set result \<subseteq> set seen \<Longrightarrow> distinct (dedup_loop seen result ms)"
  by (induction seen result ms rule: dedup_loop.induct) (auto simp: Let_def)

lemma set_dedupMessage: "set (dedupMessage ms) = {m \<in> TrimSpace ` set ms. m \<noteq> ''''}"
  by (simp add: dedupMessage_def set_dedup_loop)

lemma distinct_dedupMessage: "distinct (dedupMessage ms)"
  by (simp add: dedupMessage_def distinct_dedup_loop)

lemma dedup_loop_id:
  "distinct ms \<Longrightarrow> \<forall>m \<in> set ms. m \<noteq> '''' \<and> TrimSpace m = m \<and> m \<notin> set seen \<Longrightarrow>
   dedup_loop seen result ms = result @ ms"
proof (induction ms arbitrary: seen result)
  case (Cons m ms)
  then have "\<forall>x \<in> set ms. x \<noteq> '''' \<and> TrimSpace x = x \<and> x \<notin> set (m # seen)" by auto
  with Cons.IH[of "m # seen" "result @ [m]"] Cons.prems show ?case by (simp add: Let_def)
qed simp

lemma dedupMessage_idem: "dedupMessage (dedupMessage ms) = dedupMessage ms"
proof -
  have "\<forall>m \<in> set (dedupMessage ms). m \<noteq> '''' \<and> TrimSpace m = m"
    by (auto simp: set_dedupMessage)
  then have "dedup_loop [] [] (dedupMessage ms) = dedupMessage ms"
    using dedup_loop_id[of "dedupMessage ms" "[]" "[]"] by (simp add: distinct_dedupMessage)
  then show ?thesis by (simp add: dedupMessage_def[of "dedupMessage ms"])
qed

lemma TrimSpace_Message [simp]: "TrimSpace (Message c) = Message c"
  by (simp add: Message_def Object_String_def ToString_def)

subsection \<open>Summarizers that only add\<close>

definition grows :: "summary \<Rightarrow> summary \<Rightarrow> bool" where
  "grows s t = ((s_Error s \<longrightarrow> s_Error t) \<and> prefix (s_Message s) (s_Message t) \<and>
     prefix (s_Relationships s) (s_Relationships t) \<and>
     s_HasObservedGeneration t = s_HasObservedGeneration s \<and> s_Attributes t = s_Attributes s)"

named_theorems grows_intros \<open>each summarizer only adds\<close>

lemma grows_refl [simp]: "grows s s"
  by (simp add: grows_def)

lemma grows_trans: "grows s t \<Longrightarrow> grows t u \<Longrightarrow> grows s u"
  by (auto simp: grows_def intro: prefix_order.trans)

lemma grows_add [simp]:
  "grows s t \<Longrightarrow> grows s (add_message m t)"
  "grows s t \<Longrightarrow> grows s (add_relationship r t)"
  "grows s (t\<lparr>s_State := x\<rparr>) \<longleftrightarrow> grows s t"
  "grows s (t\<lparr>s_Transitioning := b\<rparr>) \<longleftrightarrow> grows s t"
  "grows s t \<Longrightarrow> grows s (t\<lparr>s_Error := True\<rparr>)"
  by (auto simp: grows_def add_message_def add_relationship_def)

lemma grows_fold: "(\<And>x t. x \<in> set xs \<Longrightarrow> grows t (f x t)) \<Longrightarrow> grows s (fold f xs s)"
proof (induction xs arbitrary: s)
  case (Cons x xs)
  then have "grows s (f x s)" "grows (f x s) (fold f xs (f x s))" by simp_all
  then show ?case by (simp add: grows_trans)
qed simp

locale growing =
  fixes fs :: "summarizer list"
  assumes grow: "f \<in> set fs \<Longrightarrow> grows s (f E ob cs s)"
begin

lemma run_grows: "grows s (run_summarizers E fs ob cs s)"
  unfolding run_summarizers_def by (rule grows_fold) (rule grow)

lemma error_stays: "s_Error s \<Longrightarrow> s_Error (run_summarizers E fs ob cs s)"
  using run_grows[of s E ob cs] by (simp add: grows_def)

lemma message_stays: "m \<in> set (s_Message s) \<Longrightarrow> m \<in> set (s_Message (run_summarizers E fs ob cs s))"
  using run_grows[of s E ob cs] by (auto simp: grows_def prefix_def)

end

lemma grows_generation [grows_intros]: "grows s (checkGeneration E ob cs s)"
  by (simp add: checkGeneration_def split: sum.split prod.split)

lemma grows_owner [grows_intros]: "grows s (checkOwner E ob cs s)"
  unfolding checkOwner_def by (rule grows_fold) simp

lemma grows_standard [grows_intros]: "grows s (checkStandard E ob cs s)"
  by (simp add: checkStandard_def split: sum.split prod.split)

lemma grows_errors [grows_intros]: "grows s (checkErrors E ob cs s)"
  unfolding checkErrors_def
  by (auto intro!: grows_fold simp: errors_step_def Let_def split: option.split)

lemma grows_true_loop: "grows s (true_loop cs s)"
proof (induction cs arbitrary: s)
  case (Cons c cs)
  have "grows s (true_loop cs t)" if "grows s t" for t
    using that Cons grows_trans by blast
  then show ?case by (simp split: option.split)
qed simp

lemma grows_false_loop: "grows s (fst (false_loop cs r s))"
proof (induction cs arbitrary: s r)
  case (Cons c cs)
  have "grows s (fst (false_loop cs r t))" if "grows s t" for t r
    using that Cons grows_trans by blast
  then show ?case by (simp split: option.split)
qed simp

lemma grows_generic_rest:
  "grows (fold unknown_step cs s) (checkGenericTransitioning E ob cs s)"
proof -
  let ?u = "fold unknown_step cs s"
  have "grows ?u (fst (false_loop cs None (true_loop cs ?u)))"
    using grows_true_loop grows_false_loop grows_trans by blast
  then show ?thesis
    by (simp add: checkGenericTransitioning_def Let_def split: prod.split) auto
qed

lemma grows_generic [grows_intros]: "grows s (checkGenericTransitioning E ob cs s)"
proof -
  have "grows s (fold unknown_step cs s)"
    by (rule grows_fold) (simp add: unknown_step_def split: option.split)
  with grows_generic_rest show ?thesis using grows_trans by blast
qed

lemma grows_active [grows_intros]: "grows s (checkActive E ob cs s)"
  by (simp add: checkActive_def Let_def)

lemma grows_phase [grows_intros]: "grows s (checkPhase E ob cs s)"
  by (simp add: checkPhase_def Let_def)

lemma grows_initializing [grows_intros]: "grows s (checkInitializing E ob cs s)"
  by (simp add: checkInitializing_def Let_def split: sum.split)

lemma grows_removing [grows_intros]: "grows s (checkRemoving E ob cs s)"
proof -
  have "grows s (fold removed_step cs (s\<lparr>s_State := x, s_Transitioning := b\<rparr>))" for x b
    by (rule grows_trans[OF _ grows_fold]) (simp_all add: removed_step_def)
  then show ?thesis by (simp add: checkRemoving_def Let_def split: sum.split)
qed

lemma grows_lb [grows_intros]: "grows s (checkLoadBalancer E ob cs s)"
  by (simp add: checkLoadBalancer_def)

lemma grows_cattleReady [grows_intros]: "grows s (checkCattleReady E ob cs s)"
  by (simp add: checkCattleReady_def split: option.split)

lemma grows_applyOwned [grows_intros]: "grows s (checkApplyOwned E ob cs s)"
  by (simp add: checkApplyOwned_def Let_def split: option.split)

lemma grows_cattleTypes [grows_intros]: "grows s (checkCattleTypes E ob cs s)"
  by (auto simp: checkCattleTypes_def checkRelease_def intro!: grows_fold)

subsection \<open>Names that pods use\<close>

text \<open>What the loops over names with a set of names seen do: the new names, in order and once
  each, are appended as relationships.\<close>

definition fresh_names :: "string list \<Rightarrow> string list \<Rightarrow> string list" where
  "fresh_names seen names = remdups (filter (\<lambda>n. n \<noteq> '''' \<and> n \<notin> set seen) (rev names))"

definition add_uses :: "string \<Rightarrow> string list \<Rightarrow> summary \<Rightarrow> summary" where
  "add_uses kind names s = s\<lparr>s_Relationships := s_Relationships s @ map (\<lambda>n. uses n kind) names\<rparr>"

lemma add_uses_Nil [simp]: "add_uses kind [] s = s"
  by (simp add: add_uses_def)

lemma fold_use_name:
  "fold (\<lambda>x. use_name kind (f x)) xs (seen, s) =
   (fresh_names seen (map f xs) @ seen, add_uses kind (rev (fresh_names seen (map f xs))) s)"
proof (induction xs rule: rev_induct)
  case Nil
  then show ?case by (simp add: fresh_names_def)
next
  case (snoc x xs)
  then show ?case
    by (auto simp: use_name_def fresh_names_def add_uses_def add_relationship_def)
qed

text \<open>The names an environment refers to, in the order in which the code meets them.\<close>

definition env_names :: "object \<Rightarrow> string \<Rightarrow> string list" where
  "env_names ob fieldPrefix =
     concat (map (\<lambda>container.
         map (\<lambda>env. Object_String env [fieldPrefix @ ''Ref'', ''name'']) (Object_Slice container [''envFrom'']) @
         map (\<lambda>env. Object_String env [''valueFrom'', fieldPrefix @ ''KeyRef'', ''name''])
           (Object_Slice container [''env'']))
       (Object_Slice ob [''spec'', ''containers'']))"

lemma fold_concat_map: "fold (\<lambda>x. fold g (h x)) xs s = fold g (concat (map h xs)) s"
  by (induction xs arbitrary: s) simp_all

lemma addEnvRef_fold:
  "addEnvRef summary names ob p kind = fold (use_name kind) (env_names ob p) (names, summary)"
proof -
  have "fold (\<lambda>x. use_name kind (f x)) xs s = fold (use_name kind) (map f xs) s" for f :: "object \<Rightarrow> string" and xs s
    by (simp add: fold_map comp_def)
  then have "addEnvRef summary names ob p kind =
      fold (\<lambda>container. fold (use_name kind)
          (map (\<lambda>env. Object_String env [p @ ''Ref'', ''name'']) (Object_Slice container [''envFrom'']) @
           map (\<lambda>env. Object_String env [''valueFrom'', p @ ''KeyRef'', ''name''])
             (Object_Slice container [''env''])))
        (Object_Slice ob [''spec'', ''containers'']) (names, summary)"
    by (simp add: addEnvRef_def comp_def)
  then show ?thesis by (simp only: fold_concat_map env_names_def)
qed

definition configmap_names :: "object \<Rightarrow> string list" where
  "configmap_names ob =
     map (\<lambda>vol. Object_String vol [''configMap'', ''name'']) (Object_Slice ob [''spec'', ''volumes'']) @
     env_names ob ''configMap''"

definition secret_names :: "object \<Rightarrow> string list" where
  "secret_names ob =
     map (\<lambda>vol. Object_String vol [''secret'', ''secretName'']) (Object_Slice ob [''spec'', ''volumes'']) @
     env_names ob ''secret''"

lemma fold_use_name_append:
  "snd (fold (use_name kind) bs (fold (\<lambda>x. use_name kind (f x)) as ([], s))) =
   add_uses kind (rev (fresh_names [] (map f as @ bs))) s"
proof -
  have "fold (use_name kind) bs (fold (\<lambda>x. use_name kind (f x)) as ([], s)) =
      fold (\<lambda>x. use_name kind (id x)) (map f as @ bs) ([], s)"
    by (simp add: fold_map comp_def)
  then show ?thesis by (simp only: fold_use_name) simp
qed

lemma checkPodConfigMaps_uses:
  "checkPodConfigMaps E ob cs s =
   add_uses ''ConfigMap'' (rev (fresh_names [] (configmap_names ob))) s"
  using fold_use_name_append[of "''ConfigMap''" "env_names ob ''configMap''"
      "\<lambda>vol. Object_String vol [''configMap'', ''name'']" "Object_Slice ob [''spec'', ''volumes'']" s]
  by (simp add: checkPodConfigMaps_def addEnvRef_fold configmap_names_def split: prod.split)

lemma checkPodSecrets_uses:
  "checkPodSecrets E ob cs s = add_uses ''Secret'' (rev (fresh_names [] (secret_names ob))) s"
  using fold_use_name_append[of "''Secret''" "env_names ob ''secret''"
      "\<lambda>vol. Object_String vol [''secret'', ''secretName'']" "Object_Slice ob [''spec'', ''volumes'']" s]
  by (simp add: checkPodSecrets_def addEnvRef_fold secret_names_def split: prod.split)

lemma set_fresh_names: "set (fresh_names [] ns) = set ns - {''''}"
  by (auto simp: fresh_names_def)

lemma distinct_fresh_names: "distinct (fresh_names seen ns)"
  by (simp add: fresh_names_def)

subsection \<open>Summarizers that only add relationships\<close>

definition only_rels :: "summary \<Rightarrow> summary \<Rightarrow> bool" where
  "only_rels s t = (\<exists>rs. t = s\<lparr>s_Relationships := s_Relationships s @ rs\<rparr>)"

named_theorems rel_intros \<open>summarizers that only append relationships\<close>

lemma only_rels_refl [rel_intros]: "only_rels s s"
  unfolding only_rels_def by (rule exI[of _ "[]"]) simp

lemma only_rels_trans: "only_rels s t \<Longrightarrow> only_rels t u \<Longrightarrow> only_rels s u"
  by (auto simp: only_rels_def)

lemma only_rels_add [rel_intros]: "only_rels s (add_relationship r s)"
  by (auto simp: only_rels_def add_relationship_def)

lemma only_rels_uses [rel_intros]: "only_rels s (add_uses k ns s)"
  by (auto simp: only_rels_def add_uses_def)

lemma only_rels_fold [rel_intros]: "(\<And>x t. only_rels t (f x t)) \<Longrightarrow> only_rels s (fold f xs s)"
proof (induction xs arbitrary: s)
  case Nil
  then show ?case by (simp add: only_rels_refl)
next
  case (Cons x xs)
  then have "only_rels s (f x s)" "only_rels (f x s) (fold f xs (f x s))" by blast+
  then show ?case by (simp add: only_rels_trans)
qed

lemma only_rels_nonempty [rel_intros]: "only_rels s (use_nonempty k n s)"
  by (simp add: use_nonempty_def rel_intros)

lemma only_rels_volume [rel_intros]: "only_rels s (checkPodProjectedVolume E ob cs s)"
  unfolding checkPodProjectedVolume_def
  by (intro only_rels_fold only_rels_trans[OF only_rels_nonempty only_rels_nonempty])

lemma only_rels_pull [rel_intros]: "only_rels s (checkPodPullSecret E ob cs s)"
  unfolding checkPodPullSecret_def by (intro rel_intros)

lemma only_rels_template [rel_intros]: "only_rels s (checkPodTemplate E ob cs s)"
  unfolding checkPodTemplate_def Let_def checkPodConfigMaps_uses checkPodSecrets_uses
    checkPodServiceAccount_def
  by (rule only_rels_trans[OF only_rels_uses], rule only_rels_trans[OF only_rels_uses],
      rule only_rels_trans[OF only_rels_add], rule only_rels_trans[OF only_rels_volume],
      rule only_rels_pull)

lemma only_rels_pods [rel_intros]:
  "only_rels s (checkPod E ob cs s)"
  "only_rels s (checkHasPodTemplate E ob cs s)"
  "only_rels s (checkHasPodSelector E ob cs s)"
  by (simp_all add: checkPod_def checkHasPodTemplate_def checkHasPodSelector_def Let_def rel_intros
      split: option.split sum.split)

lemma only_rels_rest [rel_intros]:
  "only_rels s (checkOwner E ob cs s)"
  "only_rels s (checkApplyOwned E ob cs s)"
  "only_rels s (checkCattleTypes E ob cs s)"
  by (auto simp: checkOwner_def checkApplyOwned_def checkCattleTypes_def checkRelease_def Let_def
      split: option.split intro!: rel_intros)

lemma only_rels_grows: "only_rels s t \<Longrightarrow> grows s t"
  by (auto simp: only_rels_def grows_def)

lemma grows_pods [grows_intros]:
  "grows s (checkPod E ob cs s)"
  "grows s (checkHasPodTemplate E ob cs s)"
  "grows s (checkHasPodSelector E ob cs s)"
  by (rule only_rels_grows, rule rel_intros)+

lemma grows_add_nonempty [simp]: "grows s t \<Longrightarrow> grows s (add_nonempty m t)"
  by (simp add: add_nonempty_def)

lemma grows_add_counted [simp]: "grows s t \<Longrightarrow> grows s (add_counted f c t)"
  by (simp add: add_counted_def split: option.split)

lemma grows_capi_scan: "capi_scan rw found cs s = Inl t \<Longrightarrow> grows s t"
  by (induction rw found cs s rule: capi_scan.induct) (auto simp: Let_def split: if_splits)

lemma grows_machine: "grows s (checkCAPIMachineTransitioning cs s)"
  by (auto simp: checkCAPIMachineTransitioning_def machine_ready_def machine_reconciled_def Let_def
      dest: grows_capi_scan split: sum.split option.split prod.split)

lemma grows_sets: "grows s (checkCAPIMachineSetAndDeploymentTransitioning E ob cs s)"
  by (auto simp: checkCAPIMachineSetAndDeploymentTransitioning_def Let_def
      dest: grows_capi_scan split: sum.split)

lemma grows_cluster: "grows s (checkCAPIClusterTransitioning E ob cs s)"
  by (auto simp: checkCAPIClusterTransitioning_def cluster_available_def Let_def
      dest: grows_capi_scan split: sum.split option.split prod.split)

lemma grows_op_apply: "grows s (op_apply st c s)"
  by (simp add: op_apply_def Let_def)

lemma grows_operation_loop: "operation_loop sts cs s = Some t \<Longrightarrow> grows s t"
  by (induction sts) (auto simp: grows_op_apply split: option.splits)

lemma grows_operation: "grows s (checkOperationTransitioning cs s)"
  by (auto simp: checkOperationTransitioning_def dest: grows_operation_loop split: option.split)

lemma grows_transitioning [grows_intros]: "grows s (checkTransitioning E ob cs s)"
  by (simp add: checkTransitioning_def grows_machine grows_sets grows_cluster grows_operation
      grows_generic)

text \<open>All summarizers but the first, which may overwrite what was there, only add.\<close>

interpretation after_status: growing "tl Summarizers"
  by unfold_locales (auto simp: Summarizers_def intro!: grows_intros)

interpretation per_condition: growing ConditionSummarizers
  by unfold_locales (auto simp: ConditionSummarizers_def intro!: grows_intros)

subsection \<open>A decided state stays\<close>

definition decided :: "summary \<Rightarrow> bool" where
  "decided s = (s_State s \<noteq> '''' \<and> s_State s \<noteq> ''active'')"

locale settled =
  fixes fs :: "summarizer list"
  assumes keeps: "f \<in> set fs \<Longrightarrow> decided s \<Longrightarrow> only_rels s (f E ob cs s)"
begin

lemma run_keeps: "decided s \<Longrightarrow> set gs \<subseteq> set fs \<Longrightarrow> only_rels s (run_summarizers E gs ob cs s)"
proof (induction gs arbitrary: s)
  case Nil
  then show ?case by (simp add: run_summarizers_def only_rels_refl)
next
  case (Cons g gs)
  then have g: "only_rels s (g E ob cs s)" using keeps by simp
  with Cons.prems have "decided (g E ob cs s)" by (auto simp: only_rels_def decided_def)
  with Cons have "only_rels (g E ob cs s) (run_summarizers E gs ob cs (g E ob cs s))" by simp
  with g show ?case by (simp add: run_summarizers_def only_rels_trans)
qed

lemma verdict_kept:
  assumes "decided s"
  shows "s_State (run_summarizers E fs ob cs s) = s_State s"
    "s_Transitioning (run_summarizers E fs ob cs s) = s_Transitioning s"
    "s_Error (run_summarizers E fs ob cs s) = s_Error s"
    "s_Message (run_summarizers E fs ob cs s) = s_Message s"
  using run_keeps[OF assms order_refl, of E ob cs] by (auto simp: only_rels_def)

end

lemma decided_standard: "decided s \<Longrightarrow> checkStandard E ob cs s = s"
  by (simp add: decided_def checkStandard_def)

lemma decided_lb: "decided s \<Longrightarrow> checkLoadBalancer E ob cs s = s"
  by (simp add: decided_def checkLoadBalancer_def)

lemma decided_generation: "decided s \<Longrightarrow> checkGeneration E ob cs s = s"
  by (simp add: decided_def checkGeneration_def)

lemma decided_initializing: "decided s \<Longrightarrow> checkInitializing E ob cs s = s"
  by (simp add: decided_def checkInitializing_def Let_def)

interpretation after_removing: settled "drop 7 Summarizers"
  by unfold_locales
    (auto simp: Summarizers_def decided_standard decided_lb decided_generation intro: rel_intros)

subsection \<open>The pipeline\<close>

definition before_phase :: "senv \<Rightarrow> object \<Rightarrow> condition list \<Rightarrow> summary \<Rightarrow> summary" where
  "before_phase E ob cs s = run_summarizers E (take 4 Summarizers) ob cs s"

definition raw_summary :: "senv \<Rightarrow> object \<Rightarrow> bool option \<Rightarrow> summary" where
  "raw_summary E ob opts =
     run_summarizers E Summarizers ob (getConditions E ob)
       (case opts of None \<Rightarrow> summary0
        | Some hasObs \<Rightarrow> summary0\<lparr>s_HasObservedGeneration := hasObs\<rparr>)"

lemma run_append: "run_summarizers E (fs @ gs) ob cs s =
    run_summarizers E gs ob cs (run_summarizers E fs ob cs s)"
  by (simp add: run_summarizers_def)

lemma run_pipeline:
  "run_summarizers E Summarizers ob cs s =
   run_summarizers E (drop 7 Summarizers) ob cs
     (checkRemoving E ob cs (checkInitializing E ob cs (checkPhase E ob cs (before_phase E ob cs s))))"
  by (simp add: run_summarizers_def Summarizers_def before_phase_def)

lemma Summarize_raw:
  "SummarizeWithOptions E (ROUnstructured (Some ob)) opts =
   (let s = raw_summary E ob opts in
    s\<lparr>s_State := ToLower (if s_State s = '''' then ''active'' else s_State s),
      s_Message := dedupMessage (s_Message s)\<rparr>)"
  by (simp add: SummarizeWithOptions_def ToUnstructured_def raw_summary_def Let_def)

lemma removing_state:
  "Object_String ob [''metadata'', ''removed''] \<noteq> '''' \<Longrightarrow>
   s_State (checkRemoving E ob cs s) = ''removing'' \<and> s_Transitioning (checkRemoving E ob cs s)"
proof -
  have "s_State (fold removed_step cs t) = s_State t \<and>
      s_Transitioning (fold removed_step cs t) = s_Transitioning t" for t
    by (induction cs arbitrary: t) (simp_all add: removed_step_def add_message_def)
  moreover assume "Object_String ob [''metadata'', ''removed''] \<noteq> ''''"
  ultimately show ?thesis
    by (simp add: checkRemoving_def Let_def add_message_def split: sum.split)
qed

lemma not_removing:
  "Object_String ob [''metadata'', ''removed''] = '''' \<Longrightarrow> checkRemoving E ob cs s = s"
  by (simp add: checkRemoving_def)

lemma checkErrors_reports:
  assumes c: "c \<in> set cs"
    and bad: "Reason c = ''Error'' \<or>
      (\<exists>st. map_of (mappingFor (se_errorMapping E) (se_gvkOf E ob)) (Type c) = Some st \<and> Status c \<in> set st)"
  shows "s_Error (checkErrors E ob cs s) \<and> Message c \<in> set (s_Message (checkErrors E ob cs s))"
proof -
  let ?f = "errors_step (mappingFor (se_errorMapping E) (se_gvkOf E ob))"
  have g: "grows t (fold ?f xs t)" for xs t
    by (auto intro!: grows_fold simp: errors_step_def Let_def split: option.split)
  from c obtain a b where cs: "cs = a @ c # b" by (meson split_list)
  let ?t = "fold ?f a s"
  from bad have "s_Error (?f c ?t) \<and> Message c \<in> set (s_Message (?f c ?t))"
    by (auto simp: errors_step_def add_message_def Let_def)
  moreover have "checkErrors E ob cs s = fold ?f b (?f c ?t)"
    by (simp add: checkErrors_def cs)
  ultimately show ?thesis
    using g[of "?f c ?t" b] by (auto simp: grows_def prefix_def)
qed

lemma raw_reports:
  assumes "c \<in> set (getConditions E ob)"
    and "Reason c = ''Error'' \<or>
      (\<exists>st. map_of (mappingFor (se_errorMapping E) (se_gvkOf E ob)) (Type c) = Some st \<and> Status c \<in> set st)"
  shows "s_Error (raw_summary E ob opts) \<and> Message c \<in> set (s_Message (raw_summary E ob opts))"
proof -
  let ?cs = "getConditions E ob"
  obtain t where raw: "raw_summary E ob opts =
      run_summarizers E (drop 2 Summarizers) ob ?cs (checkErrors E ob ?cs t)"
    by (simp add: raw_summary_def run_summarizers_def Summarizers_def)
  have "growing (drop 2 Summarizers)"
    by unfold_locales (rule after_status.grow, auto simp: Summarizers_def)
  from growing.error_stays[OF this] growing.message_stays[OF this] checkErrors_reports[OF assms]
  show ?thesis unfolding raw by blast
qed

subsection \<open>A concrete environment\<close>

text \<open>Accessors that behave as documented on the samples below: nested fields by path, the kind
  from \<open>apiVersion\<close> and \<open>kind\<close>, no owners, and \<open>kstatus\<close> answering \<open>Current\<close>.\<close>

definition gvk_of0 :: "object \<Rightarrow> gvk" where
  "gvk_of0 ob =
     (let av = Object_String ob [''apiVersion'']; k = Object_String ob [''kind''] in
      case Index av ''/'' of
        None \<Rightarrow> mk_gvk '''' av k
      | Some i \<Rightarrow> mk_gvk (take i av) (drop (i + 1) av) k)"

definition senv0 :: senv where
  "senv0 =
    \<lparr>se_errorMapping = GVKConditionErrorMapping,
     se_unmarshal = (\<lambda>_. Inl (Err ''no annotation'')),
     se_unmarshalMapping = (\<lambda>_. Inl (Err ''not set'')),
     se_encodeToMap = (\<lambda>_. Inr []),
     se_apiVersionAndKind = (\<lambda>_. (''v1'', ''Pod'')),
     se_accessor = (\<lambda>_. Inl (Err ''no metadata'')),
     se_gvkOf = gvk_of0,
     se_ownerReferences = (\<lambda>_. []),
     se_NestedFieldNoCopy = (\<lambda>ob path. Inr (GetValue (obj_read ob) path)),
     se_NestedInt64 = (\<lambda>ob path. case GetValue (obj_read ob) path of
         (VInt64 i, True) \<Rightarrow> Inr (i, True)
       | (_, True) \<Rightarrow> Inl (Err ''not an int64'')
       | _ \<Rightarrow> Inr (0, False)),
     se_kstatus = (\<lambda>_. Inr (''Current'', ''Resource is current'')),
     se_toSelector = (\<lambda>_. Inr \<lparr>ls_matchLabels = [], ls_matchExpressions = []\<rparr>),
     se_parseTime = (\<lambda>_. Inr 0),
     se_floatToInt64 = (\<lambda>f. case Atoi f of None \<Rightarrow> 0 | Some i \<Rightarrow> word_of_int i),
     se_parseFloat = (\<lambda>_. Inl (Err ''not a number'')),
     se_now = 1000000000000\<rparr>"

definition status_with :: "string \<Rightarrow> string \<Rightarrow> (string \<times> val) list \<Rightarrow> val list \<Rightarrow> object" where
  "status_with apiVersion kind metadata conditions =
     Some [(''apiVersion'', VStr apiVersion), (''kind'', VStr kind), (''metadata'', VMap metadata),
           (''status'', VMap [(''phase'', VStr ''Succeeded''), (''conditions'', VSlice conditions)])]"

definition cond_val :: "string \<Rightarrow> string \<Rightarrow> string \<Rightarrow> string \<Rightarrow> val" where
  "cond_val t st r m = VMap (obj_read (NewCondition t st r m))"

subsection \<open>Properties\<close>

text \<open>C21: The summary of an unstructured object is well formed, whatever the object holds: the
  state is not empty and in lower case, and the messages are non-empty, trimmed and pairwise
  different. Summarizing the summarized object again gives the same summary.\<close>

theorem Summarize_wellformed:
  "(let s = SummarizeWithOptions E (ROUnstructured (Some ob)) opts in
     s_State s \<noteq> '''' \<and> ToLower (s_State s) = s_State s \<and> distinct (s_Message s) \<and>
     set (s_Message s) \<subseteq> {m. m \<noteq> '''' \<and> TrimSpace m = m} \<and>
     Summarize E (ROSummarized (SummarizedWithOptions E (ROUnstructured (Some ob)) opts)) = s)"
proof -
  let ?s = "SummarizeWithOptions E (ROUnstructured (Some ob)) opts"
  have "s_State ?s \<noteq> ''''" "ToLower (s_State ?s) = s_State ?s"
    by (simp_all add: Summarize_raw Let_def)
  moreover have "distinct (s_Message ?s)" "set (s_Message ?s) \<subseteq> {m. m \<noteq> '''' \<and> TrimSpace m = m}"
    by (auto simp: Summarize_raw Let_def distinct_dedupMessage set_dedupMessage)
  moreover have "Summarize E (ROSummarized (SummarizedWithOptions E (ROUnstructured (Some ob)) opts)) = ?s"
    by (simp add: Summarize_def SummarizedWithOptions_def SummarizeWithOptions_def[of E "ROSummarized _"])
  ultimately show ?thesis by (simp add: Let_def)
qed

text \<open>C22: A condition whose reason is \<open>Error\<close>, or whose status the table for the object's kind
  lists as an error, sets the error flag of the summary, whatever the other summarizers do, and
  its message is among the messages unless it is empty.\<close>

theorem Summarize_reports_errors:
  assumes "c \<in> set (getConditions E ob)"
    and "Reason c = ''Error'' \<or>
      (\<exists>st. map_of (mappingFor (se_errorMapping E) (se_gvkOf E ob)) (Type c) = Some st \<and> Status c \<in> set st)"
  shows "s_Error (SummarizeWithOptions E (ROUnstructured (Some ob)) opts) \<and>
    (Message c \<noteq> '''' \<longrightarrow>
      Message c \<in> set (s_Message (SummarizeWithOptions E (ROUnstructured (Some ob)) opts)))"
  using raw_reports[OF assms, of opts]
  by (auto simp: Summarize_raw Let_def set_dedupMessage intro!: image_eqI[of _ TrimSpace "Message c"])

definition failed_chart :: object where
  "failed_chart = status_with ''helm.cattle.io/v1'' ''HelmChart'' []
     [cond_val ''Ready'' ''True'' '''' '''', cond_val ''Failed'' ''True'' ''Oops'' ''install failed'']"

theorem Summarize_reports_errors_witness:
  "s_Error (SummarizeWithOptions senv0 (ROUnstructured (Some failed_chart)) None)"
proof -
  have c: "NewCondition ''Failed'' ''True'' ''Oops'' ''install failed''
      \<in> set (getConditions senv0 failed_chart)"
    by code_simp
  have "map_of (mappingFor (se_errorMapping senv0) (se_gvkOf senv0 failed_chart))
        (Type (NewCondition ''Failed'' ''True'' ''Oops'' ''install failed'')) = Some [''True'']"
    "Status (NewCondition ''Failed'' ''True'' ''Oops'' ''install failed'') \<in> set [''True'']"
    by code_simp+
  then show ?thesis using Summarize_reports_errors[OF c, of None] by blast
qed

text \<open>The state of an object that is being removed is \<open>removing\<close> and transitioning, whatever
  its conditions say; otherwise the phases \<open>Succeeded\<close> and \<open>Bound\<close> decide the state, and the
  object is not transitioning.\<close>

theorem Summarize_precedence:
  fixes E ob opts
  defines "s \<equiv> SummarizeWithOptions E (ROUnstructured (Some ob)) opts"
    and "removed \<equiv> Object_String ob [''metadata'', ''removed'']"
    and "phase \<equiv> Object_String ob [''status'', ''phase'']"
  shows "(removed \<noteq> '''' \<longrightarrow> s_State s = ''removing'' \<and> s_Transitioning s) \<and>
    (removed = '''' \<and> phase = ''Succeeded'' \<longrightarrow> s_State s = ''succeeded'' \<and> \<not> s_Transitioning s) \<and>
    (removed = '''' \<and> phase = ''Bound'' \<longrightarrow> s_State s = ''bound'' \<and> \<not> s_Transitioning s)"
proof -
  let ?cs = "getConditions E ob"
  obtain t where raw: "raw_summary E ob opts = run_summarizers E (drop 7 Summarizers) ob ?cs
      (checkRemoving E ob ?cs (checkInitializing E ob ?cs (checkPhase E ob ?cs t)))"
    by (simp add: raw_summary_def run_pipeline)
  have low: "ToLower ''removing'' = ''removing''" "ToLower ''succeeded'' = ''succeeded''"
    "ToLower ''bound'' = ''bound''"
    by code_simp+
  have settled: "s_State s = ToLower (s_State u) \<and> s_Transitioning s = s_Transitioning u"
    if "u = checkRemoving E ob ?cs (checkInitializing E ob ?cs (checkPhase E ob ?cs t))" "decided u" for u
    using after_removing.verdict_kept[OF that(2), of E ob ?cs] that
    by (simp add: s_def Summarize_raw raw Let_def decided_def)
  have 1: "removed \<noteq> '''' \<longrightarrow> s_State s = ''removing'' \<and> s_Transitioning s"
    using settled[OF refl] removing_state[of ob E ?cs] low by (simp add: removed_def decided_def)
  have 2: "s_State s = ToLower x \<and> \<not> s_Transitioning s"
    if r: "removed = ''''" and p: "checkPhase E ob ?cs t = t\<lparr>s_State := x, s_Transitioning := False\<rparr>"
      and x: "x \<noteq> ''''" "x \<noteq> ''active''" for x
  proof -
    have d: "decided (t\<lparr>s_State := x, s_Transitioning := False\<rparr>)" using x by (simp add: decided_def)
    with r p have "checkRemoving E ob ?cs (checkInitializing E ob ?cs (checkPhase E ob ?cs t)) =
        t\<lparr>s_State := x, s_Transitioning := False\<rparr>"
      by (simp add: decided_initializing not_removing removed_def)
    with settled[OF refl] d show ?thesis by simp
  qed
  have "checkPhase E ob ?cs t = t\<lparr>s_State := ''succeeded'', s_Transitioning := False\<rparr>"
    if "phase = ''Succeeded''" using that by (simp add: checkPhase_def phase_def)
  moreover have "checkPhase E ob ?cs t = t\<lparr>s_State := ''bound'', s_Transitioning := False\<rparr>"
    if "phase = ''Bound''" using that by (simp add: checkPhase_def phase_def)
  ultimately show ?thesis using 1 2[of "''succeeded''"] 2[of "''bound''"] low by auto
qed

definition removed_chart :: object where
  "removed_chart = status_with ''helm.cattle.io/v1'' ''HelmChart''
     [(''removed'', VStr ''2020-01-01T00:00:00Z'')] [cond_val ''Ready'' ''True'' '''' '''']"

theorem Summarize_precedence_witness:
  "s_State (SummarizeWithOptions senv0 (ROUnstructured (Some removed_chart)) None) = ''removing'' \<and>
   s_State (SummarizeWithOptions senv0 (ROUnstructured (Some failed_chart)) None) = ''succeeded''"
proof -
  have "Object_String removed_chart [''metadata'', ''removed''] \<noteq> ''''"
    "Object_String failed_chart [''metadata'', ''removed''] = ''''"
    "Object_String failed_chart [''status'', ''phase''] = ''Succeeded''"
    by code_simp+
  then show ?thesis
    using Summarize_precedence[of removed_chart senv0 None] Summarize_precedence[of failed_chart senv0 None]
    by simp
qed

end
