(* ===== verification/Summary_Kinds.thy ===== *)
theory Summary_Kinds
  imports Summary_Spec
begin

section \<open>Operations, Cluster API kinds, pods, error tables and normalized conditions\<close>

text \<open>
  The second half of the properties of \<open>pkg/summary\<close>: which condition decides the state of an
  operation and of a Cluster API object, how an aggregated message is read, what a pod refers
  to, how the error table is read from its JSON form and merged, and what
  \<open>NormalizeConditions\<close> writes.
\<close>

subsection \<open>Operations\<close>

lemma op_apply_verdict:
  "s_State (op_apply st c s) = op_state st"
  "s_Error (op_apply st c s) = (s_Error s \<or> op_err st)"
  "s_Transitioning (op_apply st c s) = (s_Transitioning s \<or> op_transitioning st)"
  by (simp_all add: op_apply_def Let_def add_nonempty_def add_message_def)

lemma operation_loop_find:
  "(case List.find (\<lambda>st. \<exists>c \<in> set cs. op_holds st c) sts of
      None \<Rightarrow> operation_loop sts cs s = None
    | Some st \<Rightarrow> (\<exists>c. operation_loop sts cs s = Some (op_apply st c s)))"
proof (induction sts)
  case (Cons st sts)
  show ?case
  proof (cases "List.find (op_holds st) cs")
    case None
    then have "\<not> (\<exists>c \<in> set cs. op_holds st c)" by (auto simp: find_None_iff)
    with None Cons show ?thesis by (simp split: option.splits)
  next
    case (Some c)
    then have "\<exists>c \<in> set cs. op_holds st c" by (auto simp: find_Some_iff)
    with Some show ?thesis by auto
  qed
qed simp

text \<open>The state of an operation is that of the first entry of \<open>operationStates\<close> for which some
  condition is true, wherever that condition stands, so terminal phases win over \<open>Paused\<close> and
  over the phases Rancher leaves behind; an operation without conditions is pending, and one
  with conditions of which none is true is passed through.\<close>

theorem operation_priority:
  "(case List.find (\<lambda>st. \<exists>c \<in> set conditions. Type c = op_condition st \<and> Status c = ''True'') operationStates of
      Some st \<Rightarrow>
        s_State (checkOperationTransitioning conditions s) = op_state st \<and>
        s_Error (checkOperationTransitioning conditions s) = (s_Error s \<or> op_err st) \<and>
        s_Transitioning (checkOperationTransitioning conditions s) = (s_Transitioning s \<or> op_transitioning st)
    | None \<Rightarrow>
        checkOperationTransitioning conditions s =
          (if conditions = [] then s\<lparr>s_State := ''pending'', s_Transitioning := True\<rparr> else s))"
proof -
  have "(\<lambda>st. \<exists>c \<in> set conditions. Type c = op_condition st \<and> Status c = ''True'') =
      (\<lambda>st. \<exists>c \<in> set conditions. op_holds st c)"
    by (simp add: op_holds_def)
  then show ?thesis
    using operation_loop_find[where cs = conditions and sts = operationStates and s = s]
    by (auto simp: checkOperationTransitioning_def op_apply_verdict split: option.split)
qed

subsection \<open>Cluster API\<close>

definition stops :: "condition \<Rightarrow> bool" where
  "stops c = ((Type c = ''Deleting'' \<or> Type c = ''Paused'') \<and> Status c = ''True'')"

definition last_of :: "string \<Rightarrow> condition list \<Rightarrow> condition option" where
  "last_of t cs = List.find (\<lambda>c. Type c = t) (rev cs)"

definition is_true :: "string \<Rightarrow> condition list \<Rightarrow> bool" where
  "is_true t cs = (case last_of t cs of None \<Rightarrow> False | Some c \<Rightarrow> Status c = ''True'')"

lemma find_append: "List.find P (xs @ ys) = (case List.find P xs of None \<Rightarrow> List.find P ys | Some x \<Rightarrow> Some x)"
  by (induction xs) simp_all

lemma last_of_Cons:
  "last_of t (c # cs) = (case last_of t cs of Some d \<Rightarrow> Some d | None \<Rightarrow> if Type c = t then Some c else None)"
  by (simp add: last_of_def find_append split: option.split)

definition stopped :: "condition \<Rightarrow> summary \<Rightarrow> string list \<Rightarrow> summary" where
  "stopped c s ms = s\<lparr>s_State := if Type c = ''Deleting'' then ''deleting'' else ''paused'',
     s_Transitioning := True, s_Message := s_Message s @ ms\<rparr>"

lemma stopped_verdict [simp]:
  "s_State (stopped c s ms) = (if Type c = ''Deleting'' then ''deleting'' else ''paused'')"
  "s_Transitioning (stopped c s ms)" "s_Error (stopped c s ms) = s_Error s"
  by (simp_all add: stopped_def)

lemma capi_scan_stop: "stops c \<Longrightarrow> \<exists>ms. capi_scan rw found (c # cs) s = Inl (stopped c s ms)"
proof (cases "Type c = ''Deleting'' \<and> Message c \<noteq> ''''")
  case True
  assume "stops c"
  with True have "capi_scan rw found (c # cs) s = Inl (stopped c s [rw (Message c)])"
    by (simp add: stops_def stopped_def add_message_def Let_def)
  then show ?thesis by blast
next
  case False
  assume "stops c"
  with False have "capi_scan rw found (c # cs) s = Inl (stopped c s [])"
    by (auto simp: stops_def stopped_def Let_def)
  then show ?thesis by blast
qed

lemma capi_scan_Some:
  "List.find stops cs = Some c \<Longrightarrow> \<exists>ms. capi_scan rw found cs s = Inl (stopped c s ms)"
proof (induction cs arbitrary: found)
  case (Cons d cs)
  show ?case
  proof (cases "stops d")
    case True
    with Cons.prems capi_scan_stop[OF True] show ?thesis by (simp del: capi_scan.simps)
  next
    case False
    then have "capi_scan rw found (d # cs) s = capi_scan rw (AList.update (Type d) d found) cs s"
      by (auto simp: stops_def)
    with False Cons show ?thesis by simp
  qed
qed simp

lemma capi_scan_None:
  "List.find stops cs = None \<Longrightarrow> \<exists>f. capi_scan rw found cs s = Inr f \<and>
     (\<forall>t. map_of f t = (case last_of t cs of Some c \<Rightarrow> Some c | None \<Rightarrow> map_of found t))"
proof (induction cs arbitrary: found)
  case Nil
  then show ?case by (simp add: last_of_def)
next
  case (Cons c cs)
  then have n: "\<not> stops c" "List.find stops cs = None" by (auto split: if_splits)
  then have "capi_scan rw found (c # cs) s = capi_scan rw (AList.update (Type c) c found) cs s"
    by (auto simp: stops_def)
  with Cons.IH[OF n(2), of "AList.update (Type c) c found"] show ?case
    by (auto simp: last_of_Cons map_of_update split: option.split)
qed

lemma status_is_found:
  "\<forall>t. map_of f t = (case last_of t cs of Some c \<Rightarrow> Some c | None \<Rightarrow> map_of [] t) \<Longrightarrow>
   status_is f t ''True'' = is_true t cs"
  by (simp add: status_is_def is_true_def split: option.split)

lemma add_counted_verdict [simp]:
  "s_State (add_counted f c s) = s_State s" "s_Error (add_counted f c s) = s_Error s"
  "s_Transitioning (add_counted f c s) = s_Transitioning s"
  by (simp_all add: add_counted_def add_message_def split: option.split)

text \<open>The state of a Cluster API machine set or deployment: the first \<open>Deleting\<close> or \<open>Paused\<close>
  condition that is true decides; without one a rollout comes before scaling down, which a
  replica count above the wanted one also shows, and that before scaling up; otherwise the
  summary is passed through. The error flag is never touched.\<close>

theorem machine_set_states:
  fixes E ob conditions s
  defines "s' \<equiv> checkCAPIMachineSetAndDeploymentTransitioning E ob conditions s"
    and "spec \<equiv> replicas E ob [''spec'', ''replicas'']"
    and "status \<equiv> replicas E ob [''status'', ''replicas'']"
    and "ready \<equiv> replicas E ob [''status'', ''readyReplicas'']"
  shows "s_Error s' = s_Error s \<and>
    (case List.find (\<lambda>c. (Type c = ''Deleting'' \<or> Type c = ''Paused'') \<and> Status c = ''True'') conditions of
       Some c \<Rightarrow> s_Transitioning s' \<and>
         s_State s' = (if Type c = ''Deleting'' then ''deleting'' else ''paused'')
     | None \<Rightarrow>
         if is_true ''RollingOut'' conditions then s_State s' = ''rollingout'' \<and> s_Transitioning s'
         else if is_true ''ScalingDown'' conditions \<or> greater status spec
         then s_State s' = ''scalingdown'' \<and> s_Transitioning s'
         else if is_true ''ScalingUp'' conditions \<or> greater spec ready
         then s_State s' = ''scalingup'' \<and> s_Transitioning s'
         else s' = s)"
proof -
  have stops: "(\<lambda>c. (Type c = ''Deleting'' \<or> Type c = ''Paused'') \<and> Status c = ''True'') = stops"
    by (simp add: stops_def fun_eq_iff)
  show ?thesis
  proof (cases "List.find stops conditions")
    case None
    then obtain f where "capi_scan (\<lambda>msg. msg) [] conditions s = Inr f"
      and "\<forall>t. map_of f t = (case last_of t conditions of Some c \<Rightarrow> Some c | None \<Rightarrow> map_of [] t)"
      using capi_scan_None[where rw = "\<lambda>msg. msg" and found = "[]" and s = s] by blast
    with None status_is_found[OF this(2)] show ?thesis
      unfolding stops s'_def spec_def status_def ready_def
      by (simp add: checkCAPIMachineSetAndDeploymentTransitioning_def Let_def)
  next
    case (Some c)
    then obtain ms where "capi_scan (\<lambda>msg. msg) [] conditions s = Inl (stopped c s ms)"
      using capi_scan_Some[where rw = "\<lambda>msg. msg" and found = "[]" and s = s] by blast
    with Some show ?thesis
      unfolding stops s'_def by (simp add: checkCAPIMachineSetAndDeploymentTransitioning_def Let_def)
  qed
qed

text \<open>The order of the conditions matters when both are true: \<open>Paused\<close> wins when it comes first.\<close>

lemma paused_before_deleting:
  "s_State (checkCAPIMachineTransitioning
     [NewCondition ''Paused'' ''True'' '''' '''', NewCondition ''Deleting'' ''True'' '''' ''''] summary0)
   = ''paused''"
  by code_simp
lemma add_nonempty_verdict [simp]:
  "s_State (add_nonempty m s) = s_State s" "s_Error (add_nonempty m s) = s_Error s"
  "s_Transitioning (add_nonempty m s) = s_Transitioning s"
  by (simp_all add: add_nonempty_def add_message_def)

lemma add_message_verdict [simp]:
  "s_State (add_message m s) = s_State s" "s_Error (add_message m s) = s_Error s"
  "s_Transitioning (add_message m s) = s_Transitioning s"
  by (simp_all add: add_message_def)

lemma machine_ready_verdict:
  "s_Error (machine_ready r s) = s_Error s"
  "Status r = ''Unknown'' \<Longrightarrow>
     s_State (machine_ready r s) = ''reconciling'' \<and> s_Transitioning (machine_ready r s)"
  "Status r = ''False'' \<Longrightarrow> snd (parseMessage (Message r)) = ''BootstrapConfigReady'' \<Longrightarrow>
     s_State (machine_ready r s) = ''waitingforinfrastructure'' \<and> s_Transitioning (machine_ready r s)"
  "Status r = ''False'' \<Longrightarrow> snd (parseMessage (Message r)) = ''InfrastructureReady'' \<Longrightarrow>
     s_State (machine_ready r s) = ''waitingfornoderef'' \<and> s_Transitioning (machine_ready r s)"
  "Status r \<noteq> ''Unknown'' \<Longrightarrow>
     \<not> (Status r = ''False'' \<and> snd (parseMessage (Message r)) = ''BootstrapConfigReady'') \<Longrightarrow>
     \<not> (Status r = ''False'' \<and> snd (parseMessage (Message r)) = ''InfrastructureReady'') \<Longrightarrow>
     machine_ready r s = s"
  by ((cases "parseMessage (Message r)", simp add: machine_ready_def Let_def)+)

lemma machine_reconciled_verdict:
  "s_Error (machine_reconciled r s) = (s_Error s \<or> Status r = ''False'')"
  "s_Transitioning (machine_reconciled r s) = (s_Transitioning s \<or> Status r = ''Unknown'')"
  "s_State (machine_reconciled r s) =
     (if Status r = ''Unknown'' \<or> Status r = ''False'' then ''reconciling'' else s_State s)"
  by (simp_all add: machine_reconciled_def)

text \<open>The state of a Cluster API machine: \<open>Deleting\<close> or \<open>Paused\<close> first; then \<open>Reconciled\<close>
  unless it is true, an error exactly when it is false; then \<open>Ready\<close>, where a false one is
  read through the first bullet of its message and never is an error, and a true one passes
  the summary through.\<close>

theorem machine_states:
  fixes conditions s
  defines "s' \<equiv> checkCAPIMachineTransitioning conditions s"
  shows "case List.find (\<lambda>c. (Type c = ''Deleting'' \<or> Type c = ''Paused'') \<and> Status c = ''True'') conditions of
      Some c \<Rightarrow> s_Transitioning s' \<and> s_Error s' = s_Error s \<and>
        s_State s' = (if Type c = ''Deleting'' then ''deleting'' else ''paused'')
    | None \<Rightarrow>
        (case last_of ''Reconciled'' conditions of
           Some r \<Rightarrow> Status r \<noteq> ''True'' \<longrightarrow>
             s_Error s' = (s_Error s \<or> Status r = ''False'') \<and>
             s_Transitioning s' = (s_Transitioning s \<or> Status r = ''Unknown'') \<and>
             (Status r \<in> {''Unknown'', ''False''} \<longrightarrow> s_State s' = ''reconciling'')
         | None \<Rightarrow> True) \<and>
        ((last_of ''Reconciled'' conditions = None \<or> is_true ''Reconciled'' conditions) \<longrightarrow>
          s_Error s' = s_Error s \<and>
          (case last_of ''Ready'' conditions of
             None \<Rightarrow> s' = s
           | Some r \<Rightarrow>
               if Status r = ''Unknown'' then s_State s' = ''reconciling'' \<and> s_Transitioning s'
               else if Status r = ''False'' \<and> snd (parseMessage (Message r)) = ''BootstrapConfigReady''
               then s_State s' = ''waitingforinfrastructure'' \<and> s_Transitioning s'
               else if Status r = ''False'' \<and> snd (parseMessage (Message r)) = ''InfrastructureReady''
               then s_State s' = ''waitingfornoderef'' \<and> s_Transitioning s'
               else s' = s))"
proof -
  have stops: "(\<lambda>c. (Type c = ''Deleting'' \<or> Type c = ''Paused'') \<and> Status c = ''True'') = stops"
    by (simp add: stops_def fun_eq_iff)
  show ?thesis
  proof (cases "List.find stops conditions")
    case (Some c)
    then obtain ms where "capi_scan drain_message [] conditions s = Inl (stopped c s ms)"
      using capi_scan_Some[where rw = drain_message and found = "[]" and s = s] by blast
    with Some show ?thesis
      unfolding stops s'_def by (simp add: checkCAPIMachineTransitioning_def)
  next
    case None
    then obtain f where f: "capi_scan drain_message [] conditions s = Inr f"
      and "\<forall>t. map_of f t = (case last_of t conditions of Some c \<Rightarrow> Some c | None \<Rightarrow> map_of [] t)"
      using capi_scan_None[where rw = drain_message and found = "[]" and s = s] by blast
    then have found: "map_of f t = last_of t conditions" for t by (simp split: option.split)
    have ready: "case last_of ''Ready'' conditions of
             None \<Rightarrow> s = s
           | Some r \<Rightarrow> s_Error (machine_ready r s) = s_Error s \<and>
              (if Status r = ''Unknown'' then s_State (machine_ready r s) = ''reconciling'' \<and> s_Transitioning (machine_ready r s)
               else if Status r = ''False'' \<and> snd (parseMessage (Message r)) = ''BootstrapConfigReady''
               then s_State (machine_ready r s) = ''waitingforinfrastructure'' \<and> s_Transitioning (machine_ready r s)
               else if Status r = ''False'' \<and> snd (parseMessage (Message r)) = ''InfrastructureReady''
               then s_State (machine_ready r s) = ''waitingfornoderef'' \<and> s_Transitioning (machine_ready r s)
               else machine_ready r s = s)"
      by (auto simp: machine_ready_verdict split: option.split)
    show ?thesis
    proof (cases "last_of ''Reconciled'' conditions")
      case (Some r)
      with None f found ready show ?thesis
        unfolding stops s'_def
        by (cases "Status r = ''True''"; cases "last_of ''Ready'' conditions")
          (simp_all add: checkCAPIMachineTransitioning_def machine_reconciled_verdict is_true_def)
    next
      case n: None
      with None f found ready show ?thesis
        unfolding stops s'_def
        by (cases "last_of ''Ready'' conditions") (simp_all add: checkCAPIMachineTransitioning_def)
    qed
  qed
qed

definition waiting_machine :: "condition list" where
  "waiting_machine =
     [NewCondition ''Reconciled'' ''True'' '''' '''',
      NewCondition ''Ready'' ''False'' ''NotReady''
        (''* InfrastructureReady: creating VM'' @ [CHR 0x0A] @ ''* NodeHealthy: waiting'')]"

theorem machine_states_witness:
  "s_State (checkCAPIMachineTransitioning waiting_machine summary0) = ''waitingfornoderef''"
proof -
  have "List.find (\<lambda>c. (Type c = ''Deleting'' \<or> Type c = ''Paused'') \<and> Status c = ''True'') waiting_machine = None"
    "is_true ''Reconciled'' waiting_machine"
    "last_of ''Ready'' waiting_machine = Some (waiting_machine ! 1)"
    "Status (waiting_machine ! 1) = ''False''"
    "snd (parseMessage (Message (waiting_machine ! 1))) = ''InfrastructureReady''"
    by code_simp+
  then show ?thesis using machine_states[of waiting_machine summary0] by simp
qed

text \<open>The state of a Cluster API cluster: \<open>Deleting\<close> or \<open>Paused\<close> first, then a rollout, then
  scaling of the workers in either direction, seen from the conditions or from the replica
  counts, then \<open>Available\<close>: false is a transition to \<open>updating\<close>, unknown the only error.\<close>

theorem cluster_states:
  fixes E ob conditions s
  defines "s' \<equiv> checkCAPIClusterTransitioning E ob conditions s"
    and "desired \<equiv> replicas E ob [''status'', ''workers'', ''desiredReplicas'']"
    and "workers \<equiv> replicas E ob [''status'', ''workers'', ''replicas'']"
    and "ready \<equiv> replicas E ob [''status'', ''workers'', ''readyReplicas'']"
  shows
    "case List.find (\<lambda>c. (Type c = ''Deleting'' \<or> Type c = ''Paused'') \<and> Status c = ''True'') conditions of
       Some c \<Rightarrow> s_Transitioning s' \<and> s_Error s' = s_Error s \<and>
         s_State s' = (if Type c = ''Deleting'' then ''deleting'' else ''paused'')
     | None \<Rightarrow>
         if is_true ''RollingOut'' conditions
         then s_State s' = ''rollingout'' \<and> s_Transitioning s' \<and> s_Error s' = s_Error s
         else if is_true ''ScalingDown'' conditions \<or> greater workers desired \<or>
           is_true ''ScalingUp'' conditions \<or> greater desired ready
         then s_State s' = ''updating'' \<and> s_Transitioning s' \<and> s_Error s' = s_Error s
         else (case last_of ''Available'' conditions of
             None \<Rightarrow> s' = s
           | Some c \<Rightarrow>
               if Status c = ''False''
               then s_State s' = ''updating'' \<and> s_Transitioning s' \<and> s_Error s' = s_Error s
               else if Status c = ''Unknown'' then s_State s' = ''unavailable'' \<and> s_Error s'
               else s' = s)"
proof -
  have stops: "(\<lambda>c. (Type c = ''Deleting'' \<or> Type c = ''Paused'') \<and> Status c = ''True'') = stops"
    by (simp add: stops_def fun_eq_iff)
  show ?thesis
  proof (cases "List.find stops conditions")
    case (Some c)
    then obtain ms where "capi_scan workers_message [] conditions s = Inl (stopped c s ms)"
      using capi_scan_Some[where rw = workers_message and found = "[]" and s = s] by blast
    with Some show ?thesis
      unfolding stops s'_def by (simp add: checkCAPIClusterTransitioning_def Let_def)
  next
    case None
    then obtain f where f: "capi_scan workers_message [] conditions s = Inr f"
      and m: "\<forall>t. map_of f t = (case last_of t conditions of Some c \<Rightarrow> Some c | None \<Rightarrow> map_of [] t)"
      using capi_scan_None[where rw = workers_message and found = "[]" and s = s] by blast
    then have found: "map_of f t = last_of t conditions" for t by (simp split: option.split)
    have "cluster_available c s = s" if "Status c \<noteq> ''False''" "Status c \<noteq> ''Unknown''" for c
      using that by (simp add: cluster_available_def)
    moreover have "s_State (cluster_available c s) = ''updating'' \<and>
        s_Transitioning (cluster_available c s) \<and> s_Error (cluster_available c s) = s_Error s"
      if "Status c = ''False''" for c
      using that by (cases "parseMessage (Message c)") (simp add: cluster_available_def Let_def)
    moreover have "s_State (cluster_available c s) = ''unavailable'' \<and> s_Error (cluster_available c s)"
      if "Status c = ''Unknown''" for c
      using that by (simp add: cluster_available_def)
    ultimately show ?thesis
      using None f found status_is_found[OF m]
      unfolding stops s'_def desired_def workers_def ready_def
      by (cases "last_of ''Available'' conditions") (simp_all add: checkCAPIClusterTransitioning_def Let_def)
  qed
qed

subsection \<open>Aggregated messages\<close>

lemma Index_colon: "CHR '':'' \<notin> set T \<Longrightarrow> Index (T @ '': '' @ d) '': '' = Some (length T)"
  using Index_first_char[of "CHR '':''" T "'' ''" d] by simp

lemma Index_colon_end: "CHR '':'' \<notin> set T \<Longrightarrow> Index (T @ '':'') '': '' = None"
  by (induction T) auto

lemma TrimPrefix_star: "TrimPrefix (''* '' @ s) ''* '' = s"
  by (simp add: TrimPrefix_def)

lemma TrimSuffix_colon: "TrimSuffix (T @ '':'') '':'' = T"
  by (simp add: TrimSuffix_def)

lemma HasSuffix_colon: "HasSuffix (T @ '':'') '':''"
  by (simp add: suffix_def)

lemma Split_Join_Cons:
  "CHR 0x0A \<notin> set l \<Longrightarrow> xs \<noteq> [] \<Longrightarrow> Split (Join (l # xs) [CHR 0x0A]) [CHR 0x0A] =
     l # Split (Join xs [CHR 0x0A]) [CHR 0x0A]"
  using Split_first_char[of "CHR 0x0A" l "[]" "Join xs [CHR 0x0A]"] by (simp add: Join_Cons)

lemma hd_Split_Join:
  "CHR 0x0A \<notin> set l \<Longrightarrow> \<exists>ls. Split (Join (l # xs) [CHR 0x0A]) [CHR 0x0A] = l # ls"
  using Split_Join_Cons[of l xs] by (cases xs) (simp_all add: Split_char_None)

lemma first_sub_bullet_Join:
  assumes "\<forall>l \<in> set (sub # lines). CHR 0x0A \<notin> set l"
    and "CHR '':'' \<notin> set S" "TrimSpace sub = ''* '' @ S @ '': '' @ e"
    and "\<forall>l \<in> set lines. \<not> HasPrefix (TrimSpace l) ''* ''"
  shows "first_sub_bullet (Split (Join (lines @ sub # rest) [CHR 0x0A]) [CHR 0x0A]) = e"
  using assms
proof (induction lines)
  case Nil
  then obtain ls where "Split (Join (sub # rest) [CHR 0x0A]) [CHR 0x0A] = sub # ls"
    using hd_Split_Join[of sub rest] by auto
  with Nil show ?case
    using TrimPrefix_star[of "S @ '': '' @ e"] Index_colon[of S e]
    by (simp add: first_sub_bullet_def del: append_Cons)
next
  case (Cons l lines)
  then have "Split (Join ((l # lines) @ sub # rest) [CHR 0x0A]) [CHR 0x0A] =
      l # Split (Join (lines @ sub # rest) [CHR 0x0A]) [CHR 0x0A]"
    by (simp only: append_Cons) (rule Split_Join_Cons, simp_all)
  with Cons show ?case by (simp add: first_sub_bullet_def)
qed

text \<open>A message of bullets \<open>* Type: detail\<close> on separate lines is read as the detail and the
  type of its first bullet; when the first bullet has no detail, the detail is that of the first
  sub-bullet, whatever other lines come before it.\<close>

theorem parseMessage_bullets:
  assumes T: "CHR '':'' \<notin> set T" "CHR 0x0A \<notin> set T"
    and lines: "\<forall>l \<in> set (d # sub # lines). CHR 0x0A \<notin> set l"
    and S: "CHR '':'' \<notin> set S" "TrimSpace sub = ''* '' @ S @ '': '' @ e"
    and skip: "\<forall>l \<in> set lines. \<not> HasPrefix (TrimSpace l) ''* ''"
    and d: "d \<noteq> ''''"
  shows
    "parseMessage (Join ((''* '' @ T @ '': '' @ d) # lines @ sub # rest) [CHR 0x0A]) = (d, T) \<and>
     parseMessage (Join ((''* '' @ T @ '':'') # lines @ sub # rest) [CHR 0x0A]) = (e, T)"
proof
  let ?nl = "[CHR 0x0A]"
  have split: "Split (Join (l # lines @ sub # rest) ?nl) ?nl = l # Split (Join (lines @ sub # rest) ?nl) ?nl"
    if "CHR 0x0A \<notin> set l" for l
    using that by (rule Split_Join_Cons) simp
  have ne: "Join ((''* '' @ l) # lines @ sub # rest) ?nl \<noteq> ''''" for l by (simp add: Join_Cons)
  have "CHR 0x0A \<notin> set (''* '' @ T @ '': '' @ d)" using T lines by simp
  from split[OF this] ne[of "T @ '': '' @ d"] d
  show "parseMessage (Join ((''* '' @ T @ '': '' @ d) # lines @ sub # rest) ?nl) = (d, T)"
    using TrimPrefix_star[of "T @ '': '' @ d"] Index_colon[OF T(1), of d]
    by (simp add: parseMessage_def Let_def del: append_Cons Join.simps)
  have "CHR 0x0A \<notin> set (''* '' @ T @ '':'')" using T by simp
  from split[OF this] ne[of "T @ '':''"]
  show "parseMessage (Join ((''* '' @ T @ '':'') # lines @ sub # rest) ?nl) = (e, T)"
    using TrimPrefix_star[of "T @ '':''"] Index_colon_end[OF T(1)] HasSuffix_colon[of T]
      TrimSuffix_colon[of T] first_sub_bullet_Join[OF _ S skip, of rest] lines
    by (simp add: parseMessage_def Let_def del: append_Cons Join.simps)
qed

theorem parseMessage_bullets_witness:
  "parseMessage (''* NodeHealthy:'' @ [CHR 0x0A] @ ''note'' @ [CHR 0x0A] @ ''  * Ready: kubelet down'' @
     [CHR 0x0A] @ ''* Other: x'') = (''kubelet down'', ''NodeHealthy'')"
proof -
  have "TrimSpace ''  * Ready: kubelet down'' = ''* '' @ ''Ready'' @ '': '' @ ''kubelet down''"
    "\<not> HasPrefix (TrimSpace ''note'') ''* ''"
    by code_simp+
  then show ?thesis
    using parseMessage_bullets[of "''NodeHealthy''" "''x''" "''  * Ready: kubelet down''" "[''note'']"
        "''Ready''" "''kubelet down''" "[''* Other: x'']"]
    by simp
qed

subsection \<open>The error table in JSON\<close>

definition readable_gvk :: "gvk \<Rightarrow> bool" where
  "readable_gvk g = (CHR ''/'' \<notin> set (g_group g) \<and> CHR 0x0A \<notin> set (g_group g @ g_version g @ g_kind g) \<and>
     CHR '','' \<notin> set (g_kind g) \<and> g_kind g \<noteq> '''')"

lemma version_kind_no_comma: "CHR '','' \<notin> set s \<Longrightarrow> version_kind s = None"
  by (induction s) auto

lemma kind_part_Kind: "CHR 0x0A \<notin> set k \<Longrightarrow> k \<noteq> '''' \<Longrightarrow> kind_part ('' Kind='' @ k) = Some k"
  by (simp add: kind_part_def regSpace_def no_newline_def)

lemma version_kind_String:
  assumes "CHR 0x0A \<notin> set v" "CHR 0x0A \<notin> set k" "CHR '','' \<notin> set k" "k \<noteq> ''''"
  shows "version_kind (v @ '', Kind='' @ k) = Some (v, k)"
  using assms
proof (induction v)
  case Nil
  have "version_kind ('' Kind='' @ k) = None"
    using Nil by (intro version_kind_no_comma) simp
  with kind_part_Kind[of k] Nil show ?case by simp
qed auto

lemma gvkRegExp_String:
  assumes "readable_gvk g"
  shows "gvkRegExp (gvk_String g) = Some (g_group g, g_version g, g_kind g)"
proof -
  have "gvkRegExp (grp @ ''/'' @ g_version g @ '', Kind='' @ g_kind g) = Some (grp, g_version g, g_kind g)"
    if "CHR ''/'' \<notin> set grp" "CHR 0x0A \<notin> set grp" for grp
    using that assms
    by (induction grp) (auto simp: version_kind_String[simplified] readable_gvk_def)
  with assms show ?thesis by (simp add: readable_gvk_def gvk_String_def)
qed

lemma fold_update_fresh:
  "distinct (map fst xs) \<Longrightarrow> set (map fst xs) \<inter> set (map fst m) = {} \<Longrightarrow>
   fold (\<lambda>(k, v). AList.update k v) xs m = m @ xs"
proof (induction xs arbitrary: m)
  case (Cons x xs)
  obtain k v where x: "x = (k, v)" by (cases x)
  have "AList.update k v m = m @ [(k, v)]" if "k \<notin> fst ` set m" for m :: "('a \<times> 'b) list"
    using that by (induction m) auto
  with Cons x show ?case by auto
qed simp

definition wf_errorMapping :: "errorMapping \<Rightarrow> bool" where
  "wf_errorMapping m = (distinct (map fst m) \<and>
     (\<forall>gm \<in> set m. distinct (map fst (snd gm)) \<and> (\<forall>cs \<in> set (snd gm). distinct (snd cs))))"

lemma update_fresh: "k \<notin> fst ` set m \<Longrightarrow> AList.update k v m = m @ [(k, v)]"
  by (induction m) auto

lemma inner_roundtrip:
  assumes "distinct (map fst cm)" "\<forall>cs \<in> set cm. distinct (snd cs)"
  shows "fold (\<lambda>c cm. AList.update (cse_Type c) (sets_New (cse_Status c)) cm)
     (map (\<lambda>(condition, statuses). \<lparr>cse_Type = condition, cse_Status = statuses\<rparr>) cm) [] = cm"
proof -
  have "fold (\<lambda>c cm. AList.update (cse_Type c) (sets_New (cse_Status c)) cm)
      (map (\<lambda>(condition, statuses). \<lparr>cse_Type = condition, cse_Status = statuses\<rparr>) cm) acc
      = fold (\<lambda>(k, v). AList.update k v) cm acc" for acc
    using assms(2) by (induction cm arbitrary: acc) (auto simp: sets_New_def distinct_remdups_id)
  with fold_update_fresh[of cm "[]"] assms(1) show ?thesis by simp
qed

lemma Unmarshal_Marshal:
  assumes "wf_errorMapping m" "\<forall>gm \<in> set m. readable_gvk (fst gm)"
    and "fst ` set m \<inter> fst ` set acc = {}"
  shows "Mapping_UnmarshalJSON acc (Mapping_MarshalJSON m) = (acc @ m, None)"
  using assms
proof (induction m arbitrary: acc)
  case (Cons gm m)
  obtain g cm where gm: "gm = (g, cm)" by (cases gm)
  with Cons.prems have r: "gvkRegExp (gvk_String g) = Some (g_group g, g_version g, g_kind g)"
    by (intro gvkRegExp_String) simp
  have wf: "wf_errorMapping m" using Cons.prems(1) by (simp add: wf_errorMapping_def)
  have g: "mk_gvk (g_group g) (g_version g) (g_kind g) = g" by (simp add: mk_gvk_def)
  have "distinct (map fst cm)" "\<forall>cs \<in> set cm. distinct (snd cs)"
    using Cons.prems(1) gm by (simp_all add: wf_errorMapping_def)
  from inner_roundtrip[OF this] r g
  have "Mapping_UnmarshalJSON acc (Mapping_MarshalJSON (gm # m)) =
      Mapping_UnmarshalJSON (AList.update g cm acc) (Mapping_MarshalJSON m)"
    by (simp add: gm Mapping_MarshalJSON_def)
  also have "AList.update g cm acc = acc @ [(g, cm)]"
    using Cons.prems(3) gm by (intro update_fresh) auto
  also have "Mapping_UnmarshalJSON (acc @ [(g, cm)]) (Mapping_MarshalJSON m) = (acc @ [(g, cm)] @ m, None)"
    using Cons.IH[OF wf, of "acc @ [(g, cm)]"] Cons.prems gm
    by (auto simp: wf_errorMapping_def)
  finally show ?case by (simp add: gm)
qed (simp add: Mapping_MarshalJSON_def)

text \<open>Reading back the JSON form of an error table gives the table, when the kinds in it are
  not empty and hold no separator of the text form. The entry of the fallback, whose kind is
  empty, is refused: the table of the package itself cannot be read back.\<close>

theorem errorMapping_roundtrip:
  "(wf_errorMapping m \<longrightarrow> (\<forall>gm \<in> set m. readable_gvk (fst gm)) \<longrightarrow>
      Mapping_UnmarshalJSON [] (Mapping_MarshalJSON m) = (m, None)) \<and>
   Mapping_UnmarshalJSON [] (Mapping_MarshalJSON GVKConditionErrorMapping) =
     (butlast GVKConditionErrorMapping, Some (Err ''gvk parsing failed: wrong GVK format: </, Kind=>''))"
proof
  show "wf_errorMapping m \<longrightarrow> (\<forall>gm \<in> set m. readable_gvk (fst gm)) \<longrightarrow>
      Mapping_UnmarshalJSON [] (Mapping_MarshalJSON m) = (m, None)"
    using Unmarshal_Marshal[of m "[]"] by simp
  show "Mapping_UnmarshalJSON [] (Mapping_MarshalJSON GVKConditionErrorMapping) =
     (butlast GVKConditionErrorMapping, Some (Err ''gvk parsing failed: wrong GVK format: </, Kind=>''))"
    by code_simp
qed

theorem errorMapping_roundtrip_witness:
  "Mapping_UnmarshalJSON [] (Mapping_MarshalJSON (butlast GVKConditionErrorMapping)) =
     (butlast GVKConditionErrorMapping, None)"
proof -
  have "wf_errorMapping (butlast GVKConditionErrorMapping)"
    "\<forall>gm \<in> set (butlast GVKConditionErrorMapping). readable_gvk (fst gm)"
    by code_simp+
  then show ?thesis using errorMapping_roundtrip[of "butlast GVKConditionErrorMapping"] by simp
qed

definition table_entry :: "errorMapping \<Rightarrow> gvk \<Rightarrow> string \<Rightarrow> string list option" where
  "table_entry m g c = (case map_of m g of None \<Rightarrow> None | Some cm \<Rightarrow> map_of cm c)"

lemma table_entry_merge:
  "distinct (map fst cm) \<Longrightarrow>
   table_entry (merge_mapping (g, cm) m) g' c =
     (if g' = g then (case map_of cm c of Some st \<Rightarrow> Some st | None \<Rightarrow> table_entry m g c)
      else table_entry m g' c)"
proof -
  assume "distinct (map fst cm)"
  then have rev: "map_of (rev cm) = map_of cm" by (rule map_of_rev_keys)
  show ?thesis
    by (simp add: merge_mapping_def Let_def table_entry_def map_of_update fold_put_lookup rev
        split: option.split)
qed

lemma fold_update_upd_distinct:
  "distinct (map fst m) \<Longrightarrow> distinct (map fst (fold (\<lambda>x m. AList.update (f x) (h x) m) xs m))"
  by (induction xs arbitrary: m) (auto simp: distinct_update)

definition inner_distinct :: "errorMapping \<Rightarrow> bool" where
  "inner_distinct m = (\<forall>gm \<in> set m. distinct (map fst (snd gm)))"

lemma set_update_subset: "set (AList.update k v m) \<subseteq> insert (k, v) (set m)"
  by (induction m) auto

lemma Unmarshal_distinct:
  "distinct (map fst m) \<Longrightarrow> inner_distinct m \<Longrightarrow>
   distinct (map fst (fst (Mapping_UnmarshalJSON m ms))) \<and> inner_distinct (fst (Mapping_UnmarshalJSON m ms))"
proof (induction m ms rule: Mapping_UnmarshalJSON.induct)
  case (2 m mapping ms)
  show ?case
  proof (cases "gvkRegExp (cts_GVK mapping)")
    case None
    with 2 show ?thesis by simp
  next
    case (Some gvk)
    obtain g v k where gvk: "gvk = (g, v, k)" by (cases gvk)
    let ?cm = "fold (\<lambda>c cm. AList.update (cse_Type c) (sets_New (cse_Status c)) cm)
      (cts_ConditionMappings mapping) []"
    have "distinct (map fst ?cm)" by (rule fold_update_upd_distinct) simp
    with 2(3) have "inner_distinct (AList.update (mk_gvk g v k) ?cm m)"
      using set_update_subset[of "mk_gvk g v k" ?cm m] unfolding inner_distinct_def by fastforce
    moreover have "distinct (map fst (AList.update (mk_gvk g v k) ?cm m))"
      using 2(2) by (rule distinct_update)
    ultimately show ?thesis using 2(1)[OF Some] Some gvk by (simp add: Let_def)
  qed
qed simp

lemma table_entry_fold:
  "distinct (map fst new) \<Longrightarrow> inner_distinct new \<Longrightarrow>
   table_entry (fold merge_mapping new m) g c =
     (case table_entry new g c of Some st \<Rightarrow> Some st | None \<Rightarrow> table_entry m g c)"
proof (induction new arbitrary: m)
  case Nil
  then show ?case by (simp add: table_entry_def)
next
  case (Cons gm new)
  obtain g1 cm where gm: "gm = (g1, cm)" by (cases gm)
  with Cons.prems have d: "distinct (map fst cm)" and i: "inner_distinct new"
    and f: "map_of new g1 = None"
    by (auto simp: inner_distinct_def map_of_eq_None_iff)
  show ?case
  proof (cases "g = g1")
    case True
    have e: "table_entry new g1 c = None" "table_entry ((g1, cm) # new) g1 c = map_of cm c"
      using f by (simp_all add: table_entry_def)
    from Cons.IH[OF _ i, of "merge_mapping gm m"] Cons.prems True d gm e show ?thesis
      by (simp add: table_entry_merge split: option.split)
  next
    case False
    have e: "table_entry ((g1, cm) # new) g c = table_entry new g c"
      using False by (simp add: table_entry_def)
    from Cons.IH[OF _ i, of "merge_mapping gm m"] Cons.prems False d gm e show ?thesis
      by (simp add: table_entry_merge split: option.split)
  qed
qed

text \<open>A decodable value of the environment variable is merged per condition: a condition it
  names gets exactly its set of statuses, every other condition of every kind keeps its own; any
  other value leaves the table as it is.\<close>

theorem initializeCheckErrors_merges:
  assumes "gvkConfig \<noteq> ''''" "se_unmarshalMapping E gvkConfig = Inr decoded"
  shows "case Mapping_UnmarshalJSON [] decoded of
      (new, Some err) \<Rightarrow> initializeCheckErrors E gvkConfig m = m
    | (new, None) \<Rightarrow>
        table_entry (initializeCheckErrors E gvkConfig m) g c =
          (case table_entry new g c of Some st \<Rightarrow> Some st | None \<Rightarrow> table_entry m g c)"
  using Unmarshal_distinct[of "[]" decoded] table_entry_fold[of "fst (Mapping_UnmarshalJSON [] decoded)" m g c]
  by (cases "Mapping_UnmarshalJSON [] decoded"; cases "snd (Mapping_UnmarshalJSON [] decoded)")
    (use assms in \<open>simp_all add: initializeCheckErrors_def inner_distinct_def\<close>)

definition config0 :: "conditionTypeStatusJSON list" where
  "config0 = [\<lparr>cts_GVK = ''helm.cattle.io/v1, Kind=HelmChart'',
     cts_ConditionMappings = [\<lparr>cse_Type = ''Failed'', cse_Status = [''False'']\<rparr>]\<rparr>]"

theorem initializeCheckErrors_merges_witness:
  "(let E = senv0\<lparr>se_unmarshalMapping := \<lambda>_. Inr config0\<rparr>;
        m = initializeCheckErrors E ''cfg'' GVKConditionErrorMapping;
        g = mk_gvk ''helm.cattle.io'' ''v1'' ''HelmChart'' in
    table_entry m g ''Failed'' = Some [''False''] \<and> table_entry m g ''JobCreated'' = Some [])"
proof -
  let ?E = "senv0\<lparr>se_unmarshalMapping := \<lambda>_. Inr config0\<rparr>"
  let ?g = "mk_gvk ''helm.cattle.io'' ''v1'' ''HelmChart''"
  have u: "Mapping_UnmarshalJSON [] config0 = ([(?g, [(''Failed'', [''False''])])], None)"
    by code_simp
  have t: "table_entry [(?g, [(''Failed'', [''False''])])] ?g ''Failed'' = Some [''False'']"
    "table_entry [(?g, [(''Failed'', [''False''])])] ?g ''JobCreated'' = None"
    "table_entry GVKConditionErrorMapping ?g ''JobCreated'' = Some []"
    by code_simp+
  have "''cfg'' \<noteq> ''''" "se_unmarshalMapping ?E ''cfg'' = Inr config0" by simp_all
  from initializeCheckErrors_merges[OF this, of GVKConditionErrorMapping "?g" "''Failed''"]
    initializeCheckErrors_merges[OF this, of GVKConditionErrorMapping "?g" "''JobCreated''"]
  show ?thesis using t by (simp add: u Let_def)
qed

subsection \<open>Pods\<close>

lemma uses_relationships [simp]:
  "s_Relationships (add_uses k ns s) = s_Relationships s @ map (\<lambda>n. uses n k) ns"
  by (simp add: add_uses_def)

definition appends :: "relationship set \<Rightarrow> summary \<Rightarrow> summary \<Rightarrow> bool" where
  "appends R s t = (\<exists>rs. s_Relationships t = s_Relationships s @ rs \<and> set rs \<subseteq> R)"

lemma appends_refl: "appends R s s"
  by (auto simp: appends_def)

lemma appends_trans: "appends R s t \<Longrightarrow> appends R t u \<Longrightarrow> appends R s u"
  by (fastforce simp: appends_def)

lemma appends_fold: "(\<And>x t. appends R t (f x t)) \<Longrightarrow> appends R s (fold f xs s)"
proof (induction xs arbitrary: s)
  case Nil
  then show ?case by (simp add: appends_refl)
next
  case (Cons x xs)
  then have "appends R s (f x s)" "appends R (f x s) (fold f xs (f x s))" by blast+
  then show ?case by (simp add: appends_trans)
qed

lemma appends_nonempty: "appends {uses n k |n k. n \<noteq> '''' \<and> k \<in> {''Secret'', ''ConfigMap''}} s
   (if n \<noteq> '''' then add_relationship (uses n ''Secret'') s else s)"
  "appends {uses n k |n k. n \<noteq> '''' \<and> k \<in> {''Secret'', ''ConfigMap''}} s
   (if n \<noteq> '''' then add_relationship (uses n ''ConfigMap'') s else s)"
  by (auto simp: appends_def add_relationship_def)

lemma volumes_and_pull_secrets:
  "appends {uses n k |n k. n \<noteq> '''' \<and> k \<in> {''Secret'', ''ConfigMap''}} s
     (checkPodPullSecret E ob cs (checkPodProjectedVolume E ob cs s))"
  unfolding checkPodPullSecret_def checkPodProjectedVolume_def use_nonempty_def
  by (rule appends_trans[OF appends_fold appends_fold])
    (rule appends_fold appends_trans[OF appends_nonempty(1) appends_nonempty(2)] appends_nonempty)+

text \<open>A pod is related to each config map and each secret that its volumes and environment
  name, once per name and to no other, then to its service account, then to what projected
  volumes and pull secrets name; nothing else of the summary changes.\<close>

theorem pod_relationships:
  assumes "isKind ob ''Pod'' []"
  shows "\<exists>cms secs rest.
    checkPod E ob cs s = s\<lparr>s_Relationships := s_Relationships s @
      map (\<lambda>n. uses n ''ConfigMap'') cms @ map (\<lambda>n. uses n ''Secret'') secs @
      uses (Object_String ob [''spec'', ''serviceAccountName'']) ''ServiceAccount'' # rest\<rparr> \<and>
    distinct cms \<and> set cms = set (configmap_names ob) - {''''} \<and>
    distinct secs \<and> set secs = set (secret_names ob) - {''''} \<and>
    set rest \<subseteq> {uses n k |n k. n \<noteq> '''' \<and> k \<in> {''Secret'', ''ConfigMap''}}"
proof -
  let ?cms = "rev (fresh_names [] (configmap_names ob))" and ?secs = "rev (fresh_names [] (secret_names ob))"
  let ?t = "add_relationship (uses (Object_String ob [''spec'', ''serviceAccountName'']) ''ServiceAccount'')
     (add_uses ''Secret'' ?secs (add_uses ''ConfigMap'' ?cms s))"
  let ?u = "checkPodPullSecret E ob cs (checkPodProjectedVolume E ob cs ?t)"
  from assms have "Object_String ob [''kind''] = ''Pod''" "Object_String ob [''apiVersion''] = ''v1''"
    by (simp_all add: isKind_def split: if_splits)
  then have u: "checkPod E ob cs s = ?u"
    by (simp add: checkPod_def isKind_def checkPodTemplate_def Let_def checkPodConfigMaps_uses
        checkPodSecrets_uses checkPodServiceAccount_def)
  obtain rest where rest: "s_Relationships ?u = s_Relationships ?t @ rest"
    "set rest \<subseteq> {uses n k |n k. n \<noteq> '''' \<and> k \<in> {''Secret'', ''ConfigMap''}}"
    using volumes_and_pull_secrets[of ?t E ob cs] by (auto simp: appends_def)
  have "only_rels s (checkPod E ob cs s)" by (rule rel_intros)
  then have "checkPod E ob cs s = s\<lparr>s_Relationships := s_Relationships (checkPod E ob cs s)\<rparr>"
    by (auto simp: only_rels_def)
  with u rest(1) have "checkPod E ob cs s = s\<lparr>s_Relationships := s_Relationships s @
      map (\<lambda>n. uses n ''ConfigMap'') ?cms @ map (\<lambda>n. uses n ''Secret'') ?secs @
      uses (Object_String ob [''spec'', ''serviceAccountName'']) ''ServiceAccount'' # rest\<rparr>"
    by (simp add: add_relationship_def)
  with rest(2) show ?thesis
    by - (rule exI[of _ ?cms], rule exI[of _ ?secs], rule exI[of _ rest],
      simp add: distinct_fresh_names set_fresh_names)
qed

definition pod0 :: object where
  "pod0 = Some [(''apiVersion'', VStr ''v1''), (''kind'', VStr ''Pod''),
     (''spec'', VMap [(''serviceAccountName'', VStr ''sa''),
        (''imagePullSecrets'', VSlice [VMap [(''name'', VStr ''pull'')]]),
        (''volumes'', VSlice [VMap [(''configMap'', VMap [(''name'', VStr ''conf'')])],
                             VMap [(''configMap'', VMap [(''name'', VStr ''conf'')])]])])]"

theorem pod_relationships_witness:
  "\<exists>rest. s_Relationships (checkPod senv0 pod0 [] summary0) =
     uses ''conf'' ''ConfigMap'' # uses ''sa'' ''ServiceAccount'' # rest"
proof -
  have "isKind pod0 ''Pod'' []" "set (configmap_names pod0) - {''''} = {''conf''}"
    "set (secret_names pod0) - {''''} = {}"
    "Object_String pod0 [''spec'', ''serviceAccountName''] = ''sa''"
    "s_Relationships summary0 = []"
    by code_simp+
  note facts = this
  from pod_relationships[OF facts(1), of senv0 "[]" summary0] facts(2-) obtain cms rest where
    "s_Relationships (checkPod senv0 pod0 [] summary0) =
      map (\<lambda>n. uses n ''ConfigMap'') cms @ uses ''sa'' ''ServiceAccount'' # rest"
    and cms: "distinct cms" "set cms = {''conf''}"
    by auto
  moreover from cms have "cms = [''conf'']"
    by (metis distinct_length_2_or_more empty_set insert_not_empty list.exhaust list.set_intros
        singletonD)
  ultimately show ?thesis by auto
qed

text \<open>The pull secrets are read from the top level of the object, where a pod has none: those of
  \<open>spec.imagePullSecrets\<close> give no relationship.\<close>

lemma spec_pull_secrets_not_read:
  "s_Relationships (checkPod senv0 pod0 [] summary0) =
     [uses ''conf'' ''ConfigMap'', uses ''sa'' ''ServiceAccount'']"
  by code_simp

text \<open>An API group without a slash is compared with the wrong operator, so an \<open>App\<close> of any other
  group is taken for a Helm release of the catalog.\<close>

lemma isKind_other_group:
  "isKind (Some [(''apiVersion'', VStr ''apps.example.com/v1''), (''kind'', VStr ''App'')])
     ''App'' [''catalog.cattle.io''] \<and>
   \<not> isKind (Some [(''apiVersion'', VStr ''catalog.cattle.io''), (''kind'', VStr ''App'')])
     ''App'' [''catalog.cattle.io'']"
  by code_simp

subsection \<open>Normalized conditions\<close>

lemma GetValue_1: "GetValueN m [k] = (case map_of m k of None \<Rightarrow> VNil | Some v \<Rightarrow> v)"
  by (simp add: GetValueN_def split: option.split)

lemma Object_String_Set:
  "k \<noteq> k' \<Longrightarrow> Object_String (Object_Set c k' v) [k] = Object_String c [k]"
  by (cases c) (simp_all add: Object_String_def Object_Set_def obj_read_def GetValue_1 map_of_update)

lemma obj_read_Set:
  "map_of (obj_read (Object_Set (Some c) k v)) k' = (if k' = k then Some v else map_of c k')"
  by (simp add: Object_Set_def obj_read_def map_of_update)

lemma normalize_condition_Some: "\<exists>c'. normalize_condition E ob (Some c) = Some c'"
  by (simp add: normalize_condition_def Let_def Object_Set_def)

lemma normalize_condition_fields:
  assumes "normalize_condition E ob (Some c) = Some c'"
    and s: "s = run_summarizers E ConditionSummarizers ob [Some c] summary0"
  shows "map_of c' ''error'' = Some (VBool (s_Error s))"
    "map_of c' ''transitioning'' = Some (VBool (s_Transitioning s))"
    "k \<notin> {''error'', ''transitioning'', ''lastUpdateTime''} \<Longrightarrow> map_of c' k = map_of c k"
    "Object_String (Some c') [''lastUpdateTime''] =
      (if Object_String (Some c) [''lastUpdateTime''] = ''''
       then Object_String (Some c) [''lastTransitionTime'']
       else Object_String (Some c) [''lastUpdateTime''])"
proof -
  let ?c = "Object_Set (Object_Set (Some c) ''error'' (VBool (s_Error s))) ''transitioning''
     (VBool (s_Transitioning s))"
  have c': "Some c' = (if Object_String (Some c) [''lastUpdateTime''] = ''''
      then Object_Set ?c ''lastUpdateTime'' (VStr (Object_String (Some c) [''lastTransitionTime'']))
      else ?c)"
    unfolding assms(1)[symmetric] s by (simp add: normalize_condition_def Let_def Object_String_Set)
  have m: "map_of c' k = map_of (obj_read (Some c')) k" for k by (simp add: obj_read_def)
  have r: "map_of (obj_read ?c) k = (if k = ''transitioning'' then Some (VBool (s_Transitioning s))
      else if k = ''error'' then Some (VBool (s_Error s)) else map_of c k)" for k
    by (simp add: Object_Set_def obj_read_def map_of_update)
  have l: "map_of (obj_read (Object_Set ?c k' v)) k = (if k = k' then Some v else map_of (obj_read ?c) k)"
    for k k' v
    by (simp add: Object_Set_def obj_read_def map_of_update)
  show "map_of c' ''error'' = Some (VBool (s_Error s))"
    "map_of c' ''transitioning'' = Some (VBool (s_Transitioning s))"
    "k \<notin> {''error'', ''transitioning'', ''lastUpdateTime''} \<Longrightarrow> map_of c' k = map_of c k"
    unfolding m c' using r l by simp_all
  have t: "Object_String (Object_Set (Some d) k (VStr (Object_String ob' p))) [k] = Object_String ob' p"
    for d k ob' p
    by (simp add: Object_String_def GetValue_1 obj_read_Set ToString_def ToStringNoTrim_def Singular_def)
  have "\<exists>d. ?c = Some d" by (simp add: Object_Set_def)
  then show "Object_String (Some c') [''lastUpdateTime''] =
      (if Object_String (Some c) [''lastUpdateTime''] = ''''
       then Object_String (Some c) [''lastTransitionTime'']
       else Object_String (Some c) [''lastUpdateTime''])"
    unfolding c' using t by (auto simp: Object_String_Set)
qed

definition with_verdict :: "condition \<Rightarrow> summary \<Rightarrow> condition \<Rightarrow> bool" where
  "with_verdict c s c' =
     (Type c' = Type c \<and> Status c' = Status c \<and> Reason c' = Reason c \<and> Message c' = Message c \<and>
      map_of (obj_read c') ''error'' = Some (VBool (s_Error s)) \<and>
      map_of (obj_read c') ''transitioning'' = Some (VBool (s_Transitioning s)) \<and>
      Object_String c' [''lastUpdateTime''] =
        (if Object_String c [''lastUpdateTime''] = '''' then Object_String c [''lastTransitionTime'']
         else Object_String c [''lastUpdateTime'']))"

lemma normalize_condition_verdict:
  assumes "c \<noteq> None"
  shows "with_verdict c (run_summarizers E ConditionSummarizers ob [c] summary0) (normalize_condition E ob c)"
proof -
  obtain m where m: "c = Some m" using assms by auto
  obtain m' where m': "normalize_condition E ob (Some m) = Some m'" using normalize_condition_Some by blast
  note fields = normalize_condition_fields[OF m' refl]
  have "Object_String (Some m') [k] = Object_String (Some m) [k]"
    if "k \<notin> {''error'', ''transitioning'', ''lastUpdateTime''}" for k
    using fields(3)[OF that] by (simp add: Object_String_def GetValue_1 obj_read_def)
  with fields(1,2,4) show ?thesis
    by (simp add: with_verdict_def m m' Type_def Status_def Reason_def Message_def obj_read_def)
qed

lemma Slice_not_blocked:
  "Object_Slice ob [''status'', ''conditions''] \<noteq> [] \<Longrightarrow>
   \<exists>m. ob = Some m \<and> \<not> blocked m [''status'', ''conditions'']"
  by (cases ob)
    (auto simp: Object_Slice_def obj_read_def GetValueN_def sub_map_def ToInterfaceSlice_def blocked_Cons
      split: option.splits val.splits)

text \<open>Normalizing an object with conditions keeps their number and order and everything outside
  them, and gives each condition the error and transitioning flags that it has on its own and,
  when it has none, its last transition time as update time; type, status, reason and message
  stay.\<close>

theorem NormalizeConditions_spec:
  fixes ob
  defines "cs \<equiv> Object_Slice ob [''status'', ''conditions'']"
  assumes "cs \<noteq> []" "\<forall>c \<in> set cs. c \<noteq> None"
  shows "\<exists>m. NormalizeConditions E (Some (ROUnstructured (Some ob))) = Some (Some (ROUnstructured (Some (Some m)))) \<and>
    list_all2 (\<lambda>c c'. with_verdict c (run_summarizers E ConditionSummarizers ob [c] summary0) c')
      cs (Object_Slice (Some m) [''status'', ''conditions'']) \<and>
    (\<forall>path. indep [''status'', ''conditions''] path \<longrightarrow> GetValue m path = GetValue (obj_read ob) path)"
proof -
  obtain m0 where m0: "ob = Some m0" "\<not> blocked m0 [''status'', ''conditions'']"
    using Slice_not_blocked assms(2) unfolding cs_def by blast
  let ?new = "map (normalize_condition E ob) cs"
  let ?v = "VSlice (map (\<lambda>c. VMap (obj_read c)) ?new)"
  let ?m = "PutValue_loop m0 ?v [''status'', ''conditions'']"
  have run: "NormalizeConditions E (Some (ROUnstructured (Some ob))) = Some (Some (ROUnstructured (Some (Some ?m))))"
    using assms(2) m0
    by (simp add: NormalizeConditions_def normalizeAndSetConditions_def cs_def Object_SetNested_def
        PutValue_def Let_def comp_def del: PutValue_loop.simps)
  have "GetValue ?m [''status'', ''conditions''] = (?v, True)"
    by (rule Get_Put_same[OF _ m0(2)]) simp
  then have slice: "Object_Slice (Some ?m) [''status'', ''conditions''] = map (\<lambda>c. Some (obj_read c)) ?new"
    by (simp add: Object_Slice_def obj_read_def GetValueN_def ToInterfaceSlice_def ToMapInterface_def comp_def
        del: GetValue.simps PutValue_loop.simps)
  have some: "Some (obj_read (normalize_condition E ob c)) = normalize_condition E ob c" if "c \<in> set cs" for c
  proof -
    from assms(3) that obtain d where "c = Some d" by blast
    with normalize_condition_Some[of E ob d] show ?thesis by (auto simp: obj_read_def)
  qed
  have "Object_Slice (Some ?m) [''status'', ''conditions''] = ?new"
    by (rule trans[OF slice], rule map_idI) (auto simp: some)
  moreover have "list_all2 (\<lambda>c c'. with_verdict c (run_summarizers E ConditionSummarizers ob [c] summary0) c') cs ?new"
    using assms(3) by (auto simp: list_all2_conv_all_nth intro!: normalize_condition_verdict)
  moreover have "\<forall>path. indep [''status'', ''conditions''] path \<longrightarrow> GetValue ?m path = GetValue m0 path"
    using Get_Put_indep by blast
  ultimately show ?thesis using run m0(1)
    by - (rule exI[of _ ?m], simp add: obj_read_def del: GetValue.simps PutValue_loop.simps)
qed

theorem NormalizeConditions_spec_witness:
  "\<exists>m. NormalizeConditions senv0 (Some (ROUnstructured (Some failed_chart))) = Some (Some (ROUnstructured (Some (Some m)))) \<and>
     length (Object_Slice (Some m) [''status'', ''conditions'']) = 2"
proof -
  have n: "length (Object_Slice failed_chart [''status'', ''conditions'']) = 2"
    "list_all (\<lambda>c. c \<noteq> None) (Object_Slice failed_chart [''status'', ''conditions''])"
    by code_simp+
  then have "Object_Slice failed_chart [''status'', ''conditions''] \<noteq> []"
    "\<forall>c \<in> set (Object_Slice failed_chart [''status'', ''conditions'']). c \<noteq> None"
    by (auto simp: list_all_iff)
  from NormalizeConditions_spec[OF this, of senv0] n(1) show ?thesis
    by (metis (no_types, lifting) list_all2_lengthD)
qed

subsection \<open>Kinds that are not known\<close>

definition quiet :: "condition \<Rightarrow> bool" where
  "quiet c =
     ((map_of TransitioningUnknown (Type c) \<noteq> None \<longrightarrow> Status c \<noteq> ''False'' \<and> Status c \<noteq> ''Unknown'') \<and>
      (map_of TransitioningTrue (Type c) \<noteq> None \<longrightarrow> Status c \<noteq> ''True'') \<and>
      (map_of TransitioningFalse (Type c) \<noteq> None \<longrightarrow> Status c \<noteq> ''False'' \<and> Status c \<noteq> ''Unknown''))"

lemma new_state_None_iff: "new_state t c = None \<longleftrightarrow> map_of t (Type c) = None"
  by (simp add: new_state_def)

lemma unknown_step_error:
  "map_of TransitioningUnknown (Type c) \<noteq> None \<Longrightarrow> Status c = ''False'' \<Longrightarrow>
   s_Error (unknown_step c s) \<and> Message c \<in> set (s_Message (unknown_step c s))"
  by (auto simp: unknown_step_def new_state_def add_message_def)

lemma grows_unknown_fold: "grows s (fold unknown_step cs s)"
  by (rule grows_fold) (simp add: unknown_step_def split: option.split)

lemma quiet_unknown: "\<forall>c \<in> set cs. quiet c \<Longrightarrow> fold unknown_step cs s = s"
  by (induction cs) (auto simp: unknown_step_def quiet_def new_state_def split: option.split)

lemma quiet_true: "\<forall>c \<in> set cs. quiet c \<Longrightarrow> true_loop cs s = s"
  by (induction cs) (auto simp: quiet_def new_state_def split: option.split)

lemma quiet_false: "\<forall>c \<in> set cs. quiet c \<Longrightarrow> false_loop cs None s = (s, None)"
proof (induction cs)
  case (Cons c cs)
  have "map_of TransitioningFalse ''Ready'' \<noteq> None" by (simp add: TransitioningFalse_def)
  with Cons show ?case by (auto simp: quiet_def new_state_def split: option.split)
qed simp

text \<open>For kinds without rules of their own: conditions none of which is in a bad status of
  the three tables leave the summary alone, and a false condition of the first table sets the
  error flag and reports its message, whatever the other conditions are.\<close>

theorem generic_transitioning:
  "((\<forall>c \<in> set conditions. quiet c) \<longrightarrow> checkGenericTransitioning E ob conditions s = s) \<and>
   (\<forall>c \<in> set conditions. map_of TransitioningUnknown (Type c) \<noteq> None \<longrightarrow> Status c = ''False'' \<longrightarrow>
      s_Error (checkGenericTransitioning E ob conditions s) \<and>
      Message c \<in> set (s_Message (checkGenericTransitioning E ob conditions s)))"
proof (intro conjI impI ballI)
  assume "\<forall>c \<in> set conditions. quiet c"
  then show "checkGenericTransitioning E ob conditions s = s"
    by (simp add: checkGenericTransitioning_def quiet_unknown quiet_true quiet_false)
next
  fix c
  assume c: "c \<in> set conditions" "map_of TransitioningUnknown (Type c) \<noteq> None" "Status c = ''False''"
  obtain a b where cs: "conditions = a @ c # b" using c(1) by (meson split_list)
  let ?t = "unknown_step c (fold unknown_step a s)"
  have "s_Error ?t \<and> Message c \<in> set (s_Message ?t)" using unknown_step_error c(2,3) by blast
  moreover have "grows ?t (fold unknown_step conditions s)" using grows_unknown_fold cs by simp
  moreover have "grows (fold unknown_step conditions s) (checkGenericTransitioning E ob conditions s)"
    by (rule grows_generic_rest)
  ultimately show "s_Error (checkGenericTransitioning E ob conditions s)"
    "Message c \<in> set (s_Message (checkGenericTransitioning E ob conditions s))"
    by (auto simp: grows_def prefix_def)
qed

theorem generic_transitioning_witness:
  "s_Error (checkGenericTransitioning senv0 None
     [NewCondition ''Ready'' ''True'' '''' '''', NewCondition ''Deployed'' ''False'' '''' ''no image''] summary0)"
proof -
  let ?c = "NewCondition ''Deployed'' ''False'' '''' ''no image''"
  have "map_of TransitioningUnknown (Type ?c) \<noteq> None" "Status ?c = ''False''" by code_simp+
  then show ?thesis
    using generic_transitioning[of "[NewCondition ''Ready'' ''True'' '''' '''', ?c]" senv0 None summary0]
    by simp
qed

end
