(* ===== verification/Generic_Handlers.thy ===== *)
theory Generic_Handlers
  imports Condition Apply_Env
begin

section \<open>Handlers of generic controllers: pkg/generic and the generated status handlers\<close>

text \<open>
  \<open>pkg/generic/remove.go\<close> (finalizers), \<open>generating.go\<close>, the adapter of \<open>controller.go\<close>, the
  lookups of \<open>cache.go\<close>, and the status and generating handlers that the code generator writes
  for every kind, in the copy of \<open>pkg/generated/controllers/core/v1/node.go\<close>. A handler, a
  client's update and an apply are arguments, functions of what they are given; the calls a
  function makes are recorded, in order. Objects are \<open>robj\<close> values, so a deep copy is the value
  itself.
\<close>

subsection \<open>generic/remove.go\<close>

type_synonym handler = "string \<Rightarrow> robj option \<Rightarrow> robj option \<times> goerr option"
type_synonym updater = "robj \<Rightarrow> robj option \<times> goerr option"

datatype hcall = HHandler robj | HUpdate robj

type_synonym handled = "robj option \<times> goerr option \<times> hcall list"

definition finalizerKey :: string where
  "finalizerKey = ''wrangler.cattle.io/''"

definition constructFinalizerKey :: "string \<Rightarrow> string" where
  "constructFinalizerKey name = finalizerKey @ name"

definition hasFinalizer :: "string \<Rightarrow> robj \<Rightarrow> bool" where
  "hasFinalizer name obj =
     (case Accessor obj of
        Inl _ \<Rightarrow> False
      | Inr metadata \<Rightarrow> list_ex (\<lambda>f. f = constructFinalizerKey name) (m_finalizers metadata))"

text \<open>The loop of \<open>removeFinalizer\<close>. \<open>append(finalizers[:k], finalizers[k+1:]...)\<close> writes the
  shifted elements into the array that the loop ranges over: \<open>arr\<close> is that array, whose length
  stays, and the elements behind the shifted ones keep their old values.\<close>

fun remove_loop :: "string \<Rightarrow> nat list \<Rightarrow> string list \<Rightarrow> string list \<Rightarrow> string list" where
  "remove_loop key [] arr newFinalizers = newFinalizers"
| "remove_loop key (k # ks) arr newFinalizers =
     (if arr ! k \<noteq> key then remove_loop key ks arr newFinalizers
      else
        (let joined = take k arr @ drop (k + 1) arr in
         remove_loop key ks (joined @ drop (length joined) arr) joined))"

definition removeFinalizer :: "string \<Rightarrow> updater \<Rightarrow> robj \<Rightarrow> handled" where
  "removeFinalizer name upd obj =
     (if \<not> hasFinalizer name obj then (Some obj, None, [])
      else case Accessor obj of
        Inl err \<Rightarrow> (Some obj, Some err, [])
      | Inr metadata \<Rightarrow>
          (let finalizers = m_finalizers metadata;
               newFinalizers = remove_loop (constructFinalizerKey name) [0..<length finalizers] finalizers [];
               obj = set_meta (metadata\<lparr>m_finalizers := newFinalizers\<rparr>) obj in
           case upd obj of (r, err) \<Rightarrow> (r, err, [HUpdate obj])))"

definition addFinalizer :: "string \<Rightarrow> updater \<Rightarrow> robj \<Rightarrow> handled" where
  "addFinalizer name upd obj =
     (if hasFinalizer name obj then (Some obj, None, [])
      else case Accessor obj of
        Inl err \<Rightarrow> (None, Some err, [])
      | Inr metadata \<Rightarrow>
          (let obj = set_meta (metadata\<lparr>m_finalizers := m_finalizers metadata @ [constructFinalizerKey name]\<rparr>) obj in
           case upd obj of (r, err) \<Rightarrow> (r, err, [HUpdate obj])))"

definition remove_sync :: "string \<Rightarrow> updater \<Rightarrow> handler \<Rightarrow> string \<Rightarrow> robj option \<Rightarrow> handled" where
  "remove_sync name upd hdl key obj =
     (case obj of
        None \<Rightarrow> (None, None, [])
      | Some obj \<Rightarrow>
          (case Accessor obj of
             Inl err \<Rightarrow> (Some obj, Some err, [])
           | Inr metadata \<Rightarrow>
               if m_deletionTimestamp metadata = None then addFinalizer name upd obj
               else if \<not> hasFinalizer name obj then (Some obj, None, [])
               else (case hdl key (Some obj) of
                   (newObj, Some err) \<Rightarrow> (newObj, Some err, [HHandler obj])
                 | (newObj, None) \<Rightarrow>
                     (case removeFinalizer name upd (case newObj of Some o' \<Rightarrow> o' | None \<Rightarrow> obj) of
                        (r, err, calls) \<Rightarrow> (r, err, HHandler obj # calls)))))"

definition NewRemoveHandler :: "string \<Rightarrow> updater \<Rightarrow> handler \<Rightarrow> string \<Rightarrow> robj option \<Rightarrow> handled" where
  "NewRemoveHandler name upd hdl = remove_sync name upd hdl"

subsection \<open>generic/generating.go\<close>

record GeneratingHandlerOptions =
  AllowCrossNamespace :: bool
  AllowClusterScoped :: bool
  NoOwnerReference :: bool
  DynamicLookup :: bool
  UniqueApplyForResourceVersion :: bool

definition no_options :: GeneratingHandlerOptions where
  "no_options = \<lparr>AllowCrossNamespace = False, AllowClusterScoped = False, NoOwnerReference = False,
     DynamicLookup = False, UniqueApplyForResourceVersion = False\<rparr>"

definition ConfigureApplyForObject ::
    "desiredset \<Rightarrow> objmeta \<Rightarrow> GeneratingHandlerOptions option \<Rightarrow> desiredset" where
  "ConfigureApplyForObject apply obj opts =
     (let opts = (case opts of None \<Rightarrow> no_options | Some o' \<Rightarrow> o');
          apply = (if DynamicLookup opts then WithDynamicLookup apply else apply);
          apply = (if NoOwnerReference opts then WithSetOwnerReference True False apply else apply);
          apply = (if AllowCrossNamespace opts \<and> \<not> AllowClusterScoped opts
                   then WithListerNamespace (m_namespace obj) (WithDefaultNamespace (m_namespace obj) apply)
                   else apply) in
      if \<not> AllowClusterScoped opts then WithRestrictClusterScoped apply else apply)"

subsection \<open>The generated handlers\<close>

text \<open>The status of the kind: its conditions, and the rest of it.\<close>

record status =
  st_conditions :: "cond list"
  st_rest :: string

record node =
  n_gvk :: gvk
  n_meta :: objmeta
  n_status :: status

text \<open>\<open>&newStatus\<close> for the condition setters: a pointer to a struct with a field \<open>Conditions\<close>.\<close>

definition status_obj :: "status \<Rightarrow> condobj" where
  "status_obj s = \<lparr>co_pointer = True, co_statusConditions = None, co_conditions = Some (st_conditions s)\<rparr>"

definition with_cond :: "(condobj \<Rightarrow> condobj option) \<Rightarrow> status \<Rightarrow> status option" where
  "with_cond f s = Option.bind (f (status_obj s)) (\<lambda>ob.
     case co_conditions ob of None \<Rightarrow> None | Some cs \<Rightarrow> Some (s\<lparr>st_conditions := cs\<rparr>))"

text \<open>\<open>sync\<close> of the status handler. \<open>same\<close> is \<open>equality.Semantic.DeepEqual\<close>; the clock readings
  are the arguments \<open>now1\<close>, \<open>now2\<close> (touching the condition) and \<open>now3\<close>. The result is the
  object, the error, and the status update that was sent, if any; \<open>None\<close> is a panic.\<close>

definition status_sync ::
    "(status \<Rightarrow> status \<Rightarrow> bool) \<Rightarrow> string \<Rightarrow> string \<Rightarrow> string \<Rightarrow> string
     \<Rightarrow> (node \<Rightarrow> status \<Rightarrow> status \<times> goerr option) \<Rightarrow> (node \<Rightarrow> node \<times> goerr option)
     \<Rightarrow> node option \<Rightarrow> (node option \<times> goerr option \<times> node option) option" where
  "status_sync same now1 now2 now3 cnd hdl UpdateStatus obj =
     (case obj of
        None \<Rightarrow> Some (None, None, None)
      | Some obj \<Rightarrow>
          (let origStatus = n_status obj;
               (newStatus, err) = hdl obj (n_status obj);
               newStatus = (if err \<noteq> None then origStatus else newStatus) in
           Option.bind
             (if cnd \<noteq> '''' then
                (if IsConflict err then with_cond (\<lambda>ob. Cond_SetError now1 now2 cnd ob '''' None) newStatus
                 else with_cond (\<lambda>ob. Cond_SetError now1 now2 cnd ob '''' err) newStatus)
              else Some newStatus)
             (\<lambda>newStatus.
               if \<not> same origStatus newStatus then
                 Option.bind
                   (if cnd \<noteq> '''' then with_cond (\<lambda>ob. setTS ob cnd now3) newStatus else Some newStatus)
                   (\<lambda>newStatus.
                     (let obj = obj\<lparr>n_status := newStatus\<rparr>;
                          (newObj, newErr) = UpdateStatus obj in
                      Some (Some (if newErr = None then newObj else obj),
                            (if err = None then newErr else err), Some obj)))
               else Some (Some obj, err, None))))"

text \<open>The generating handler: \<open>seen\<close> is its map from keys to resource versions, \<open>apply\<close> what
  \<open>ApplyObjects\<close> on a configured desired set returns; the apply that was made is recorded.\<close>

record genhandler =
  gh_opts :: GeneratingHandlerOptions
  gh_gvk :: gvk
  gh_name :: string
  gh_apply :: desiredset
  gh_seen :: "(string \<times> string) list"

definition seen_key :: "node \<Rightarrow> string" where
  "seen_key obj = m_namespace (n_meta obj) @ ''/'' @ m_name (n_meta obj)"

definition isNewResourceVersion :: "genhandler \<Rightarrow> node \<Rightarrow> bool" where
  "isNewResourceVersion a obj =
     (if \<not> UniqueApplyForResourceVersion (gh_opts a) then True
      else (case map_of (gh_seen a) (seen_key obj) of
          None \<Rightarrow> True
        | Some previous \<Rightarrow> previous \<noteq> m_resourceVersion (n_meta obj)))"

definition storeResourceVersion :: "genhandler \<Rightarrow> node \<Rightarrow> genhandler" where
  "storeResourceVersion a obj =
     (if \<not> UniqueApplyForResourceVersion (gh_opts a) then a
      else a\<lparr>gh_seen := AList.update (seen_key obj) (m_resourceVersion (n_meta obj)) (gh_seen a)\<rparr>)"

definition node_robj :: "node \<Rightarrow> robj" where
  "node_robj obj = \<lparr>o_gvk = n_gvk obj, o_meta = Some (n_meta obj), o_body = []\<rparr>"

definition configured :: "genhandler \<Rightarrow> objmeta \<Rightarrow> robj \<Rightarrow> desiredset" where
  "configured a m obj =
     WithSetID (gh_name a) (WithOwner obj (ConfigureApplyForObject (gh_apply a) m (Some (gh_opts a))))"

definition gen_Handle ::
    "(node \<Rightarrow> status \<Rightarrow> robj list \<times> status \<times> goerr option)
     \<Rightarrow> (desiredset \<Rightarrow> robj list \<Rightarrow> goerr option) \<Rightarrow> genhandler \<Rightarrow> node \<Rightarrow> status
     \<Rightarrow> (status \<times> goerr option) \<times> genhandler \<times> (desiredset \<times> robj list) list" where
  "gen_Handle generate apply a obj st =
     (if m_deletionTimestamp (n_meta obj) \<noteq> None then ((st, None), a, [])
      else case generate obj st of
        (objs, newStatus, Some err) \<Rightarrow> ((newStatus, Some err), a, [])
      | (objs, newStatus, None) \<Rightarrow>
          if \<not> isNewResourceVersion a obj then ((newStatus, None), a, [])
          else
            (let ds = configured a (n_meta obj) (node_robj obj) in
             case apply ds objs of
               Some err \<Rightarrow> ((newStatus, Some err), a, [(ds, objs)])
             | None \<Rightarrow> ((newStatus, None), storeResourceVersion a obj, [(ds, objs)])))"

definition empty_meta :: "string \<Rightarrow> string \<Rightarrow> objmeta" where
  "empty_meta ns name = \<lparr>m_namespace = ns, m_name = name, m_uid = '''', m_resourceVersion = '''',
     m_generation = 0, m_labels = None, m_annotations = None, m_ownerReferences = [],
     m_finalizers = [], m_deletionTimestamp = None\<rparr>"

definition gen_Remove ::
    "(desiredset \<Rightarrow> robj list \<Rightarrow> goerr option) \<Rightarrow> genhandler \<Rightarrow> string \<Rightarrow> node option
     \<Rightarrow> (node option \<times> goerr option) \<times> genhandler \<times> (desiredset \<times> robj list) list" where
  "gen_Remove apply a key obj =
     (case obj of
        Some obj \<Rightarrow> ((Some obj, None), a, [])
      | None \<Rightarrow>
          (let m = (case kv_RSplit key ''/'' of (ns, name) \<Rightarrow> empty_meta ns name);
               obj = \<lparr>o_gvk = gh_gvk a, o_meta = Some m, o_body = []\<rparr>;
               a = (if UniqueApplyForResourceVersion (gh_opts a)
                    then a\<lparr>gh_seen := AList.delete key (gh_seen a)\<rparr> else a);
               ds = configured a m obj in
           ((None, apply ds []), a, [(ds, [])])))"

subsection \<open>controller.go and cache.go\<close>

text \<open>A typed handler made generic: the nil pointer of the type comes back as a nil interface.
  \<open>conv\<close> is the type assertion, which panics on a value of another type.\<close>

definition FromObjectHandlerToHandler ::
    "(string \<Rightarrow> 't option \<Rightarrow> 't option \<times> goerr option) \<Rightarrow> (robj \<Rightarrow> 't option) \<Rightarrow> ('t \<Rightarrow> robj)
     \<Rightarrow> string \<Rightarrow> robj option \<Rightarrow> (robj option \<times> goerr option) option" where
  "FromObjectHandlerToHandler sync conv back key obj =
     (case obj of
        None \<Rightarrow> Some (case sync key None of (r, err) \<Rightarrow> (map_option back r, err))
      | Some ob \<Rightarrow>
          (case conv ob of
             None \<Rightarrow> None
           | Some t \<Rightarrow> Some (case sync key (Some t) of (r, err) \<Rightarrow> (map_option back r, err))))"

definition Cache_Get ::
    "(string \<Rightarrow> robj option result) \<Rightarrow> (robj \<Rightarrow> 't option) \<Rightarrow> string \<Rightarrow> string \<Rightarrow> 't result" where
  "Cache_Get GetByKey conv namespace name =
     (let key = (if namespace \<noteq> '''' then namespace @ ''/'' @ name else name) in
      case GetByKey key of
        Inl err \<Rightarrow> Inl err
      | Inr None \<Rightarrow> Inl (NotFound name)
      | Inr (Some obj) \<Rightarrow>
          (case conv obj of
             None \<Rightarrow> Inl (Err ''could not convert cache item'')
           | Some t \<Rightarrow> Inr t))"

fun convert_all :: "(robj \<Rightarrow> 't option) \<Rightarrow> robj list \<Rightarrow> 't list \<Rightarrow> 't list result" where
  "convert_all conv [] res = Inr res"
| "convert_all conv (obj # objs) res =
     (case conv obj of
        None \<Rightarrow> Inl (Err ''could not convert cache item'')
      | Some t \<Rightarrow> convert_all conv objs (res @ [t]))"

definition Cache_GetByIndex ::
    "(string \<Rightarrow> string \<Rightarrow> robj list result) \<Rightarrow> (robj \<Rightarrow> 't option) \<Rightarrow> string \<Rightarrow> string \<Rightarrow> 't list result" where
  "Cache_GetByIndex ByIndex conv indexName key =
     (case ByIndex indexName key of
        Inl err \<Rightarrow> Inl err
      | Inr objs \<Rightarrow> convert_all conv objs [])"

end
