(* ===== verification/Generic_Spec.thy ===== *)
theory Generic_Spec
  imports Generic_Handlers
begin

section \<open>What the generic handlers promise\<close>

text \<open>
  Finalizers: what the remove handler does to an object, and the life of an object in the
  cluster as a step relation, where the handler of a controller has run before the object is
  gone. Status handlers: what is written back and which error is returned. Generating
  handlers: which applies are made.
\<close>

subsection \<open>Removing a finalizer\<close>

lemma remove_loop_skip:
  "\<forall>k \<in> set ks. arr ! k \<noteq> key \<Longrightarrow> remove_loop key (ks @ ks') arr nf = remove_loop key ks' arr nf"
  by (induction ks) auto

lemma remove_loop_distinct:
  assumes "distinct arr" "key \<in> set arr"
  shows "remove_loop key [0..<length arr] arr nf = filter (\<lambda>f. f \<noteq> key) arr"
proof -
  obtain a b where arr: "arr = a @ key # b" using assms(2) by (meson split_list)
  with assms(1) have ab: "key \<notin> set a" "key \<notin> set b" by auto
  have "[0..<length arr] = [0..<length a] @ [length a..<length arr]"
    using arr upt_add_eq_append[of 0 "length a" "Suc (length b)"] by (simp del: upt_Suc)
  then have idx: "[0..<length arr] = [0..<length a] @ length a # [Suc (length a)..<length arr]"
    using upt_conv_Cons[of "length a" "length arr"] arr by (simp only: length_append list.size)
  have "\<forall>k \<in> set [0..<length a]. arr ! k \<noteq> key"
    using arr ab(1) by (auto simp: nth_append)
  then have 1: "remove_loop key [0..<length arr] arr nf =
      remove_loop key (length a # [Suc (length a)..<length arr]) arr nf"
    unfolding idx by (rule remove_loop_skip)
  let ?arr = "(a @ b) @ drop (length (a @ b)) arr"
  have "remove_loop key (length a # [Suc (length a)..<length arr]) arr nf =
      remove_loop key [Suc (length a)..<length arr] ?arr (a @ b)"
    using arr by (simp add: Let_def)
  moreover have "\<forall>k \<in> set [Suc (length a)..<length arr]. ?arr ! k \<noteq> key"
  proof (cases "b = []")
    case True
    then show ?thesis using arr by simp
  next
    case False
    then have "drop (length (a @ b)) arr = [last b]"
      using arr by (cases b rule: rev_cases) simp_all
    then have "set (drop (length a) ?arr) \<subseteq> set b" using False by simp
    moreover have "?arr ! k \<in> set (drop (length a) ?arr)" if "length a < k" "k < length arr" for k
    proof -
      have "length ?arr = length arr" using arr by simp
      then have "k - length a < length (drop (length a) ?arr)"
        "drop (length a) ?arr ! (k - length a) = ?arr ! k"
        using that by (simp_all only: length_drop nth_drop) (use arr in simp_all)
      then show ?thesis using nth_mem by metis
    qed
    ultimately have inb: "?arr ! k \<in> set b" if "length a < k" "k < length arr" for k
      using that by (meson subsetD)
    show ?thesis
    proof
      fix k assume "k \<in> set [Suc (length a)..<length arr]"
      then have "length a < k" "k < length arr" by auto
      then have "?arr ! k \<in> set b" by (rule inb)
      with ab(2) show "?arr ! k \<noteq> key" by metis
    qed
  qed
  then have "remove_loop key ([Suc (length a)..<length arr] @ []) ?arr (a @ b) = remove_loop key [] ?arr (a @ b)"
    by (rule remove_loop_skip)
  ultimately have "remove_loop key [0..<length arr] arr nf = a @ b" using 1 by simp
  moreover have "filter (\<lambda>f. f \<noteq> key) arr = a @ b"
  proof -
    have "filter (\<lambda>f. f \<noteq> key) xs = xs" if "key \<notin> set xs" for xs
      using that by (induction xs) auto
    with arr ab show ?thesis by simp
  qed
  ultimately show ?thesis by simp
qed

text \<open>With a duplicate the loop reads elements that it has shifted: one copy stays.\<close>

lemma remove_loop_duplicate:
  "remove_loop ''F'' [0..<2] [''F'', ''F''] [] = [''F'']"
  "remove_loop ''F'' [0..<4] [''F'', ''x'', ''F'', ''y''] [] = [''x'', ''y'', ''y'']"
  by code_simp+

definition finalizers_of :: "robj \<Rightarrow> string list" where
  "finalizers_of obj = (case o_meta obj of None \<Rightarrow> [] | Some m \<Rightarrow> m_finalizers m)"

definition deleted_obj :: "robj \<Rightarrow> bool" where
  "deleted_obj obj = (case o_meta obj of None \<Rightarrow> False | Some m \<Rightarrow> m_deletionTimestamp m \<noteq> None)"

definition with_finalizers :: "string list \<Rightarrow> robj \<Rightarrow> robj" where
  "with_finalizers fs obj = (case o_meta obj of None \<Rightarrow> obj | Some m \<Rightarrow> set_meta (m\<lparr>m_finalizers := fs\<rparr>) obj)"

lemma finalizers_with [simp]: "o_meta obj \<noteq> None \<Longrightarrow> finalizers_of (with_finalizers fs obj) = fs"
  by (auto simp: finalizers_of_def with_finalizers_def set_meta_def)

lemma hasFinalizer_iff: "hasFinalizer name obj \<longleftrightarrow> constructFinalizerKey name \<in> set (finalizers_of obj)"
  by (auto simp: hasFinalizer_def finalizers_of_def Accessor_def list_ex_iff split: option.split)

lemma addFinalizer_calls:
  "o_meta obj \<noteq> None \<Longrightarrow> snd (snd (addFinalizer name upd obj)) =
     (if hasFinalizer name obj then []
      else [HUpdate (with_finalizers (finalizers_of obj @ [constructFinalizerKey name]) obj)])"
  by (auto simp: addFinalizer_def Accessor_def with_finalizers_def finalizers_of_def Let_def
      split: prod.split)

lemma removeFinalizer_calls:
  "o_meta obj \<noteq> None \<Longrightarrow> distinct (finalizers_of obj) \<Longrightarrow>
   snd (snd (removeFinalizer name upd obj)) =
     (if hasFinalizer name obj
      then [HUpdate (with_finalizers (filter (\<lambda>f. f \<noteq> constructFinalizerKey name) (finalizers_of obj)) obj)]
      else [])"
  using remove_loop_distinct[of "finalizers_of obj" "constructFinalizerKey name" "[]"]
  by (auto simp: removeFinalizer_def Accessor_def with_finalizers_def finalizers_of_def Let_def
      hasFinalizer_iff split: prod.split)

lemma remove_sync_calls_shape:
  "o_meta obj \<noteq> None \<Longrightarrow> constructFinalizerKey name \<in> set (finalizers_of obj) \<and>
     deleted_obj obj \<and> snd (hdl key (Some obj)) = None \<Longrightarrow>
   \<exists>cs. snd (snd (remove_sync name upd hdl key (Some obj))) = HHandler obj # cs"
  by (auto simp: remove_sync_def Accessor_def deleted_obj_def hasFinalizer_iff split: prod.split option.split)

lemma remove_sync_calls_fail:
  "o_meta obj \<noteq> None \<Longrightarrow> constructFinalizerKey name \<in> set (finalizers_of obj) \<Longrightarrow>
   \<not> (deleted_obj obj \<and> snd (hdl key (Some obj)) = None) \<Longrightarrow>
   snd (snd (remove_sync name upd hdl key (Some obj))) = (if deleted_obj obj then [HHandler obj] else [])"
  by (auto simp: remove_sync_def Accessor_def deleted_obj_def addFinalizer_def hasFinalizer_iff
      split: prod.split option.split)

text \<open>What the remove handler does to an object with metadata: while the object is not being
  deleted the handler is not called, and the finalizer is appended if it is missing; on a
  deleted object with the finalizer the handler is called, once, and only when it succeeds is
  the object it returned (or the old one) written back without the finalizer and with the
  other finalizers in their order; a deleted object without the finalizer is left alone.\<close>

theorem remove_sync_calls:
  assumes "o_meta obj \<noteq> None"
  shows "snd (snd (remove_sync name upd hdl key (Some obj))) =
     (let F = constructFinalizerKey name in
      if \<not> deleted_obj obj then
        (if F \<in> set (finalizers_of obj) then [] else [HUpdate (with_finalizers (finalizers_of obj @ [F]) obj)])
      else if F \<notin> set (finalizers_of obj) then []
      else HHandler obj #
        (case hdl key (Some obj) of
           (_, Some _) \<Rightarrow> []
         | (None, None) \<Rightarrow> snd (snd (removeFinalizer name upd obj))
         | (Some new, None) \<Rightarrow> snd (snd (removeFinalizer name upd new)))) \<and>
    (\<forall>new. o_meta new \<noteq> None \<longrightarrow> distinct (finalizers_of new) \<longrightarrow>
       snd (snd (removeFinalizer name upd new)) =
         (if constructFinalizerKey name \<in> set (finalizers_of new)
          then [HUpdate (with_finalizers (filter (\<lambda>f. f \<noteq> constructFinalizerKey name) (finalizers_of new)) new)]
          else []))"
proof
  obtain m where m: "o_meta obj = Some m" using assms by auto
  show "snd (snd (remove_sync name upd hdl key (Some obj))) =
     (let F = constructFinalizerKey name in
      if \<not> deleted_obj obj then
        (if F \<in> set (finalizers_of obj) then [] else [HUpdate (with_finalizers (finalizers_of obj @ [F]) obj)])
      else if F \<notin> set (finalizers_of obj) then []
      else HHandler obj #
        (case hdl key (Some obj) of
           (_, Some _) \<Rightarrow> []
         | (None, None) \<Rightarrow> snd (snd (removeFinalizer name upd obj))
         | (Some new, None) \<Rightarrow> snd (snd (removeFinalizer name upd new))))"
    using m addFinalizer_calls[OF assms]
    by (simp add: remove_sync_def Accessor_def deleted_obj_def hasFinalizer_iff Let_def
        split: prod.split option.split)
  show "\<forall>new. o_meta new \<noteq> None \<longrightarrow> distinct (finalizers_of new) \<longrightarrow>
       snd (snd (removeFinalizer name upd new)) =
         (if constructFinalizerKey name \<in> set (finalizers_of new)
          then [HUpdate (with_finalizers (filter (\<lambda>f. f \<noteq> constructFinalizerKey name) (finalizers_of new)) new)]
          else [])"
    using removeFinalizer_calls by (simp add: hasFinalizer_iff)
qed

definition leaving :: robj where
  "leaving = \<lparr>o_gvk = gvk_zero,
     o_meta = Some ((meta0 ''ns'' ''a'')\<lparr>m_finalizers := [''x'', ''wrangler.cattle.io/h''],
       m_deletionTimestamp := Some ''now''\<rparr>), o_body = []\<rparr>"

theorem remove_sync_calls_witness:
  "snd (snd (remove_sync ''h'' (\<lambda>ob. (Some ob, None)) (\<lambda>_ _. (None, None)) ''ns/a'' (Some leaving))) =
     [HHandler leaving, HUpdate (with_finalizers [''x''] leaving)]"
proof -
  have "o_meta leaving \<noteq> None" "deleted_obj leaving" "distinct (finalizers_of leaving)"
    "constructFinalizerKey ''h'' \<in> set (finalizers_of leaving)"
    "filter (\<lambda>f. f \<noteq> constructFinalizerKey ''h'') (finalizers_of leaving) = [''x'']"
    by code_simp+
  note facts = this
  from remove_sync_calls[OF facts(1), of "''h''" "\<lambda>ob. (Some ob, None)" "\<lambda>_ _. (None, None)" "''ns/a''"]
  show ?thesis using facts by (simp add: Let_def)
qed

subsection \<open>The life of an object with a remove handler\<close>

text \<open>
  The object in the cluster and whether the handler has succeeded since the object was there
  with its finalizer. The API server keeps a deleted object while it has finalizers and drops it
  with the last one. Other clients change the object, and never take away a finalizer that is
  not theirs nor the mark of deletion. A sync of the controller sees the object as it is (an
  update made from an older copy is refused as a conflict); its update succeeds or changes
  nothing.
\<close>

record world =
  w_obj :: "robj option"
  w_cleaned :: bool

definition stored :: "robj \<Rightarrow> robj option" where
  "stored obj = (if deleted_obj obj \<and> finalizers_of obj = [] then None else Some obj)"

fun apply_calls :: "(robj \<Rightarrow> bool) \<Rightarrow> bool \<Rightarrow> hcall list \<Rightarrow> world \<Rightarrow> world" where
  "apply_calls succeeds update_ok [] w = w"
| "apply_calls succeeds update_ok (HHandler obj # cs) w =
     apply_calls succeeds update_ok cs (if succeeds obj then w\<lparr>w_cleaned := True\<rparr> else w)"
| "apply_calls succeeds update_ok (HUpdate obj # cs) w =
     apply_calls succeeds update_ok cs (if update_ok then w\<lparr>w_obj := stored obj\<rparr> else w)"

inductive lifecycle :: "string \<Rightarrow> updater \<Rightarrow> handler \<Rightarrow> world \<Rightarrow> world \<Rightarrow> bool"
  for name upd hdl where
  delete: "w_obj w = Some obj \<Longrightarrow> o_meta obj = Some m \<Longrightarrow>
     lifecycle name upd hdl w (w\<lparr>w_obj := stored (set_meta (m\<lparr>m_deletionTimestamp := Some t\<rparr>) obj)\<rparr>)"
| others: "w_obj w = Some obj \<Longrightarrow> o_meta obj' \<noteq> None \<Longrightarrow> (deleted_obj obj \<longrightarrow> deleted_obj obj') \<Longrightarrow>
     (constructFinalizerKey name \<in> set (finalizers_of obj) \<longrightarrow>
        constructFinalizerKey name \<in> set (finalizers_of obj')) \<Longrightarrow>
     lifecycle name upd hdl w (w\<lparr>w_obj := stored obj'\<rparr>)"
| sync: "w_obj w = Some obj \<Longrightarrow>
     lifecycle name upd hdl w
       (apply_calls (\<lambda>ob. snd (hdl key (Some ob)) = None) ok
          (snd (snd (remove_sync name upd hdl key (Some obj)))) w)"

inductive reaches :: "string \<Rightarrow> updater \<Rightarrow> handler \<Rightarrow> world \<Rightarrow> world \<Rightarrow> bool"
  for name upd hdl where
  start: "reaches name upd hdl w w"
| step: "reaches name upd hdl w w1 \<Longrightarrow> lifecycle name upd hdl w1 w2 \<Longrightarrow> reaches name upd hdl w w2"

text \<open>The invariant: the handler has succeeded, or the object is there with the finalizer.\<close>

definition guarded :: "string \<Rightarrow> world \<Rightarrow> bool" where
  "guarded name w = (w_cleaned w \<or>
     (\<exists>obj. w_obj w = Some obj \<and> o_meta obj \<noteq> None \<and>
        constructFinalizerKey name \<in> set (finalizers_of obj)))"

lemma guarded_stored:
  "o_meta obj \<noteq> None \<Longrightarrow> constructFinalizerKey name \<in> set (finalizers_of obj) \<Longrightarrow>
   guarded name (w\<lparr>w_obj := stored obj\<rparr>)"
  by (auto simp: guarded_def stored_def)

lemma apply_calls_cleaned: "w_cleaned w \<Longrightarrow> w_cleaned (apply_calls succeeds ok cs w)"
  by (induction succeeds ok cs w rule: apply_calls.induct) auto

lemma lifecycle_guarded: "lifecycle name upd hdl w w' \<Longrightarrow> guarded name w \<Longrightarrow> guarded name w'"
proof (induction rule: lifecycle.induct)
  case (delete w obj m t)
  then show ?case
    by (cases "w_cleaned w")
      (auto simp: guarded_def stored_def finalizers_of_def set_meta_def)
next
  case (others w obj obj')
  show ?case
  proof (cases "w_cleaned w")
    case True
    then show ?thesis by (simp add: guarded_def)
  next
    case False
    with others have "constructFinalizerKey name \<in> set (finalizers_of obj')"
      by (auto simp: guarded_def)
    with others(2) show ?thesis by (rule guarded_stored)
  qed
next
  case (sync w obj key ok)
  let ?w = "apply_calls (\<lambda>ob. snd (hdl key (Some ob)) = None) ok
     (snd (snd (remove_sync name upd hdl key (Some obj)))) w"
  show ?case
  proof (cases "w_cleaned w")
    case True
    then show ?thesis using apply_calls_cleaned by (simp add: guarded_def)
  next
    case False
    with sync have obj: "o_meta obj \<noteq> None" "constructFinalizerKey name \<in> set (finalizers_of obj)"
      by (auto simp: guarded_def)
    show ?thesis
    proof (cases "deleted_obj obj \<and> snd (hdl key (Some obj)) = None")
      case True
      then obtain cs where "snd (snd (remove_sync name upd hdl key (Some obj))) = HHandler obj # cs"
        using remove_sync_calls_shape[OF obj(1)] obj(2) by blast
      with True have "w_cleaned ?w" by (simp add: apply_calls_cleaned)
      then show ?thesis by (simp add: guarded_def)
    next
      case False
      then have "?w = w"
        using remove_sync_calls_fail[OF obj(1,2)] by auto
      with sync show ?thesis by simp
    qed
  qed
qed

text \<open>C15: Cleanup before disappearance: once the object is in the cluster with the finalizer of the
  handler, it is never gone from the cluster unless the handler has returned without an error,
  whatever deletes, updates of others, failed updates and syncs happen in whatever order.\<close>

theorem cleanup_before_gone:
  assumes "reaches name upd hdl w w'"
    and "w_obj w = Some obj" "o_meta obj \<noteq> None" "constructFinalizerKey name \<in> set (finalizers_of obj)"
    and "w_obj w' = None"
  shows "w_cleaned w'"
proof -
  have "guarded name w" using assms(2-4) by (auto simp: guarded_def)
  with assms(1) have "guarded name w'"
    by (induction rule: reaches.induct) (auto intro: lifecycle_guarded)
  with assms(5) show ?thesis by (simp add: guarded_def)
qed

definition alone :: robj where
  "alone = with_finalizers [''wrangler.cattle.io/h''] leaving"

definition upd0 :: updater where
  "upd0 ob = (Some ob, None)"

definition hdl0 :: handler where
  "hdl0 key ob = (None, None)"

theorem cleanup_before_gone_witness:
  "\<exists>w'. reaches ''h'' upd0 hdl0 \<lparr>w_obj = Some alone, w_cleaned = False\<rparr> w' \<and>
     w_obj w' = None \<and> w_cleaned w'"
proof -
  let ?w = "\<lparr>w_obj = Some alone, w_cleaned = False\<rparr>"
  let ?w' = "apply_calls (\<lambda>ob. snd (hdl0 ''k'' (Some ob)) = None) True
     (snd (snd (remove_sync ''h'' upd0 hdl0 ''k'' (Some alone)))) ?w"
  have r: "reaches ''h'' upd0 hdl0 ?w ?w'"
    by (rule reaches.step[OF reaches.start], rule lifecycle.sync) simp
  have facts: "o_meta alone \<noteq> None" "constructFinalizerKey ''h'' \<in> set (finalizers_of alone)" "w_obj ?w' = None"
    by code_simp+
  have "w_cleaned ?w'"
    by (rule cleanup_before_gone[OF r _ facts]) simp
  with r facts(3) show ?thesis by blast
qed

subsection \<open>Status handlers\<close>

lemma set_condSlice_status [simp]:
  "set_condSlice (status_obj s) cs = status_obj (s\<lparr>st_conditions := cs\<rparr>)"
  "condSlice (status_obj s) = Some (st_conditions s)"
  by (simp_all add: set_condSlice_def status_obj_def condSlice_def)

lemma settable_status_obj [simp]: "settable (status_obj s)" "co_pointer (status_obj s)"
  by (simp_all add: settable_def) (simp_all add: status_obj_def)

lemma upd_cond_status:
  "upd_cond (status_obj s) n f = Some ob \<Longrightarrow> \<exists>cs. ob = status_obj (s\<lparr>st_conditions := cs\<rparr>)"
proof -
  have s: "s = s\<lparr>st_conditions := st_conditions s\<rparr>" by simp
  assume "upd_cond (status_obj s) n f = Some ob"
  then show ?thesis
    by (auto simp: upd_cond_def findOrCreateCond_def Let_def split: option.splits if_splits)
qed

lemma run_status:
  "cs.run us (status_obj s) = Some ob \<Longrightarrow> \<exists>cs. ob = status_obj (s\<lparr>st_conditions := cs\<rparr>)"
proof (induction us arbitrary: s)
  case Nil
  then show ?case by (auto intro: exI[of _ "st_conditions s"])
next
  case (Cons u us)
  obtain n f where u: "u = (n, f)" by (cases u)
  with Cons.prems obtain o1 where o1: "upd_cond (status_obj s) n f = Some o1" "cs.run us o1 = Some ob"
    by (auto split: option.splits)
  from upd_cond_status[OF o1(1)] obtain cs where "o1 = status_obj (s\<lparr>st_conditions := cs\<rparr>)" by blast
  with Cons.IH o1(2) show ?case by fastforce
qed

lemma with_cond_run:
  assumes "\<forall>(n, f) \<in> set us. keeps_type f"
  shows "\<exists>cs. with_cond (cs.run us) s = Some (s\<lparr>st_conditions := cs\<rparr>) \<and>
     cs.run us (status_obj s) = Some (status_obj (s\<lparr>st_conditions := cs\<rparr>))"
proof -
  obtain ob where ob: "cs.run us (status_obj s) = Some ob"
    using cs.run_spec[OF settable_status_obj(1) assms] by blast
  with run_status obtain cs where "ob = status_obj (s\<lparr>st_conditions := cs\<rparr>)" by blast
  with ob show ?thesis by (auto simp: with_cond_def status_obj_def)
qed

text \<open>The verdict the code records for an error: a conflict and a skipped error count as success.\<close>

definition verdict :: "goerr option \<Rightarrow> string \<times> string \<times> string" where
  "verdict err =
     (if err = None \<or> IsConflict err \<or> err = Some ErrSkip then (''True'', '''', '''')
      else (''False'', err_text (the err), ''Error''))"

lemma SetError_status:
  "\<exists>cs. with_cond (\<lambda>ob. Cond_SetError n1 n2 c ob '''' (if IsConflict err then None else err)) s =
       Some (s\<lparr>st_conditions := cs\<rparr>) \<and>
     cond_is (status_obj (s\<lparr>st_conditions := cs\<rparr>)) c (verdict err) \<and>
     (\<forall>n. n \<noteq> c \<longrightarrow> cond_view (status_obj (s\<lparr>st_conditions := cs\<rparr>)) n = cond_view (status_obj s) n)"
proof -
  let ?err = "if IsConflict err then None else err"
  define skip where "skip = (?err = None \<or> ?err = Some ErrSkip)"
  define us where "us = [(c, setValue_Status n1 (if skip then ''True'' else ''False'')),
       (c, setValue_Message n2 (if skip then '''' else err_text (the ?err))),
       (c, \<lambda>cd. cd\<lparr>c_reason := (if skip then '''' else ''Error'')\<rparr>)]"
  have k: "\<forall>(n, f) \<in> set us. keeps_type f" by (auto simp: us_def)
  have "with_cond (\<lambda>ob. Cond_SetError n1 n2 c ob '''' ?err) s = with_cond (cs.run us) s"
    by (simp add: with_cond_def SetError_run us_def skip_def Let_def del: cs.run_simps)
  with with_cond_run[OF k, of s] obtain cs where cs:
    "with_cond (\<lambda>ob. Cond_SetError n1 n2 c ob '''' ?err) s = Some (s\<lparr>st_conditions := cs\<rparr>)"
    "cs.run us (status_obj s) = Some (status_obj (s\<lparr>st_conditions := cs\<rparr>))"
    by auto
  from cs.run_spec[OF settable_status_obj(1) k, of s] cs(2) have v:
    "\<forall>n \<in> fst ` set us. cond_view (status_obj (s\<lparr>st_conditions := cs\<rparr>)) n
       = Some (fold (\<lambda>(m, f) c. if m = n then f c else c) us (cs.cur (status_obj s) n))"
    "\<forall>n. n \<notin> fst ` set us \<longrightarrow> cond_view (status_obj (s\<lparr>st_conditions := cs\<rparr>)) n = cond_view (status_obj s) n"
    by auto
  have "cond_is (status_obj (s\<lparr>st_conditions := cs\<rparr>)) c (verdict err)"
    using v(1) unfolding us_def
    by (auto simp: cond_is_def verdict_def skip_def setValue_Status_def setValue_Message_def touchTS_def)
  with cs(1) v(2) show ?thesis by (auto simp: us_def)
qed

lemma setTS_status:
  "\<exists>cs. with_cond (\<lambda>ob. setTS ob c now) s = Some (s\<lparr>st_conditions := cs\<rparr>) \<and>
     (\<forall>v. cond_is (status_obj s) c v \<longrightarrow> cond_is (status_obj (s\<lparr>st_conditions := cs\<rparr>)) c v) \<and>
     (\<forall>n. n \<noteq> c \<longrightarrow> cond_view (status_obj (s\<lparr>st_conditions := cs\<rparr>)) n = cond_view (status_obj s) n)"
proof -
  let ?us = "[(c, \<lambda>cd. cd\<lparr>c_lastUpdateTime := now\<rparr>)]"
  have k: "\<forall>(n, f) \<in> set ?us. keeps_type f" by simp
  have "with_cond (\<lambda>ob. setTS ob c now) s = with_cond (cs.run ?us) s"
    by (simp add: with_cond_def setTS_def upd_run del: cs.run_simps)
  with with_cond_run[OF k, of s] obtain cs where cs:
    "with_cond (\<lambda>ob. setTS ob c now) s = Some (s\<lparr>st_conditions := cs\<rparr>)"
    "cs.run ?us (status_obj s) = Some (status_obj (s\<lparr>st_conditions := cs\<rparr>))"
    by auto
  from cs.run_spec[OF settable_status_obj(1) k, of s] cs(2) have
    "cond_view (status_obj (s\<lparr>st_conditions := cs\<rparr>)) c
       = Some ((cs.cur (status_obj s) c)\<lparr>c_lastUpdateTime := now\<rparr>)"
    "\<forall>n. n \<noteq> c \<longrightarrow> cond_view (status_obj (s\<lparr>st_conditions := cs\<rparr>)) n = cond_view (status_obj s) n"
    by auto
  with cs(1) show ?thesis
    by (auto simp: cond_is_def cs.cur_def split: option.splits)
qed

lemma with_cond_id: "f (status_obj s) = Some (status_obj s) \<Longrightarrow> with_cond f s = Some s"
  by (simp add: with_cond_def) (simp add: status_obj_def)

lemma SetError_status_same:
  assumes "cond_is (status_obj s) c (verdict err)"
  shows "with_cond (\<lambda>ob. Cond_SetError n1 n2 c ob '''' (if IsConflict err then None else err)) s = Some s"
proof (rule with_cond_id)
  obtain cd where cd: "cond_view (status_obj s) c = Some cd"
    "(c_status cd, c_message cd, c_reason cd) = verdict err"
    using assms by (auto simp: cond_is_def split: option.splits)
  show "Cond_SetError n1 n2 c (status_obj s) '''' (if IsConflict err then None else err) = Some (status_obj s)"
    unfolding SetError_run[OF settable_status_obj(2)] Let_def
    by (rule cs.run_id[OF settable_status_obj(1)])
      (use cd in \<open>auto simp: verdict_def setValue_Status_def setValue_Message_def\<close>)
qed

lemma status_sync_facts:
  assumes "hdl obj (n_status obj) = (st, e)" "cnd \<noteq> ''''"
  shows "\<exists>obj' err' sent.
    status_sync same now1 now2 now3 cnd hdl upd (Some obj) = Some (Some obj', err', sent) \<and>
    (e \<noteq> None \<longrightarrow> err' = e) \<and>
    (e = None \<longrightarrow> err' = (case sent of None \<Rightarrow> None | Some o' \<Rightarrow> snd (upd o'))) \<and>
    (case sent of None \<Rightarrow> obj' = obj
     | Some o' \<Rightarrow>
         n_meta o' = n_meta obj \<and> n_gvk o' = n_gvk obj \<and>
         obj' = (if snd (upd o') = None then fst (upd o') else o') \<and>
         st_rest (n_status o') = st_rest (if e = None then st else n_status obj) \<and>
         cond_is (status_obj (n_status o')) cnd (verdict e) \<and>
         (\<forall>n. n \<noteq> cnd \<longrightarrow> cond_view (status_obj (n_status o')) n =
            cond_view (status_obj (if e = None then st else n_status obj)) n)) \<and>
    (same (n_status obj) (n_status obj) \<longrightarrow> (e = None \<longrightarrow> st = n_status obj) \<longrightarrow>
       cond_is (status_obj (n_status obj)) cnd (verdict e) \<longrightarrow> sent = None)"
proof -
  let ?s0 = "if e \<noteq> None then n_status obj else st"
  let ?set = "\<lambda>ob. Cond_SetError now1 now2 cnd ob '''' (if IsConflict e then None else e)"
  have branch: "(if IsConflict e then with_cond (\<lambda>ob. Cond_SetError now1 now2 cnd ob '''' None) s
      else with_cond (\<lambda>ob. Cond_SetError now1 now2 cnd ob '''' e) s) = with_cond ?set s" for s
    by simp
  obtain cs where cs: "with_cond ?set ?s0 = Some (?s0\<lparr>st_conditions := cs\<rparr>)"
    "cond_is (status_obj (?s0\<lparr>st_conditions := cs\<rparr>)) cnd (verdict e)"
    "\<forall>n. n \<noteq> cnd \<longrightarrow> cond_view (status_obj (?s0\<lparr>st_conditions := cs\<rparr>)) n = cond_view (status_obj ?s0) n"
    using SetError_status[of now1 now2 cnd e ?s0] by blast
  let ?s1 = "?s0\<lparr>st_conditions := cs\<rparr>"
  obtain ds where ds: "with_cond (\<lambda>ob. setTS ob cnd now3) ?s1 = Some (?s1\<lparr>st_conditions := ds\<rparr>)"
    "\<forall>v. cond_is (status_obj ?s1) cnd v \<longrightarrow> cond_is (status_obj (?s1\<lparr>st_conditions := ds\<rparr>)) cnd v"
    "\<forall>n. n \<noteq> cnd \<longrightarrow> cond_view (status_obj (?s1\<lparr>st_conditions := ds\<rparr>)) n = cond_view (status_obj ?s1) n"
    using setTS_status[where c = cnd and now = now3 and s = ?s1] by blast
  let ?o = "obj\<lparr>n_status := ?s1\<lparr>st_conditions := ds\<rparr>\<rparr>"
  have run: "status_sync same now1 now2 now3 cnd hdl upd (Some obj) =
      (if \<not> same (n_status obj) ?s1
       then Some (Some (if snd (upd ?o) = None then fst (upd ?o) else ?o),
              (if e = None then snd (upd ?o) else e), Some ?o)
       else Some (Some obj, e, None))"
    unfolding status_sync_def option.case Let_def assms(1) prod.case branch
    using cs(1) ds(1) assms(2) by (simp split: prod.split)
  have quiet: "same (n_status obj) ?s1" if "same (n_status obj) (n_status obj)"
    "e = None \<longrightarrow> st = n_status obj" "cond_is (status_obj (n_status obj)) cnd (verdict e)"
  proof -
    from that(2) have "?s0 = n_status obj" by auto
    with SetError_status_same[OF that(3), of now1 now2] cs(1) have "?s1 = n_status obj" by simp
    with that(1) show ?thesis by (simp only:)
  qed
  show ?thesis
  proof (cases "same (n_status obj) ?s1")
    case True
    with run have "status_sync same now1 now2 now3 cnd hdl upd (Some obj) = Some (Some obj, e, None)"
      by (simp only: simp_thms if_False if_True)
    then show ?thesis by simp
  next
    case False
    with run have "status_sync same now1 now2 now3 cnd hdl upd (Some obj) =
      Some (Some (if snd (upd ?o) = None then fst (upd ?o) else ?o),
              (if e = None then snd (upd ?o) else e), Some ?o)"
      by (simp only: simp_thms if_False if_True)
    moreover have "cond_is (status_obj (?s1\<lparr>st_conditions := ds\<rparr>)) cnd (verdict e)"
      using ds(2) cs(2) by blast
    moreover have "\<forall>n. n \<noteq> cnd \<longrightarrow>
        cond_view (status_obj (?s1\<lparr>st_conditions := ds\<rparr>)) n = cond_view (status_obj ?s0) n"
      using ds(3) cs(3) by simp
    moreover have "\<not> (same (n_status obj) (n_status obj) \<and> (e = None \<longrightarrow> st = n_status obj) \<and>
        cond_is (status_obj (n_status obj)) cnd (verdict e))"
      using False quiet by blast
    ultimately show ?thesis
      by - (rule exI[of _ "if snd (upd ?o) = None then fst (upd ?o) else ?o"],
        rule exI[of _ "if e = None then snd (upd ?o) else e"], rule exI[of _ "Some ?o"], cases e, simp_all)
  qed
qed


definition node0 :: node where
  "node0 = \<lparr>n_gvk = gvk_zero, n_meta = meta0 '''' ''n'', n_status = \<lparr>st_conditions = [], st_rest = ''old''\<rparr>\<rparr>"

definition fail0 :: "node \<Rightarrow> status \<Rightarrow> status \<times> goerr option" where
  "fail0 obj s = (s\<lparr>st_rest := ''half done''\<rparr>, Some (Err ''boom''))"

definition upd_node0 :: "node \<Rightarrow> node \<times> goerr option" where
  "upd_node0 obj = (obj, None)"


subsection \<open>Generating handlers\<close>

datatype genevent = GHandle node status | GRemove string "node option"

text \<open>What one event does to the handler's state, and the applies it makes.\<close>

fun gen_event ::
    "(node \<Rightarrow> status \<Rightarrow> robj list \<times> status \<times> goerr option)
     \<Rightarrow> (desiredset \<Rightarrow> robj list \<Rightarrow> goerr option) \<Rightarrow> genevent \<Rightarrow> genhandler
     \<Rightarrow> genhandler \<times> (desiredset \<times> robj list) list" where
  "gen_event generate apply (GHandle obj st) a = snd (gen_Handle generate apply a obj st)"
| "gen_event generate apply (GRemove key obj) a = snd (gen_Remove apply a key obj)"

definition gen_run ::
    "(node \<Rightarrow> status \<Rightarrow> robj list \<times> status \<times> goerr option)
     \<Rightarrow> (desiredset \<Rightarrow> robj list \<Rightarrow> goerr option) \<Rightarrow> genevent list \<Rightarrow> genhandler \<Rightarrow> genhandler" where
  "gen_run generate apply es a = fold (\<lambda>e a. fst (gen_event generate apply e a)) es a"

text \<open>The events that may make the handler forget the resource version of an object: the object
  seen in another version, and the removal of its key.\<close>

definition forgets :: "node \<Rightarrow> genevent \<Rightarrow> bool" where
  "forgets obj e = (case e of
       GHandle obj2 st \<Rightarrow> seen_key obj2 = seen_key obj \<and>
         m_resourceVersion (n_meta obj2) \<noteq> m_resourceVersion (n_meta obj)
     | GRemove key ob \<Rightarrow> key = seen_key obj)"

lemma gen_event_opts: "gh_opts (fst (gen_event generate apply e a)) = gh_opts a"
  by (cases e)
    (auto simp: gen_Handle_def gen_Remove_def storeResourceVersion_def Let_def
      split: prod.split option.split)

lemma gen_event_seen:
  assumes "\<not> forgets obj e" "map_of (gh_seen a) (seen_key obj) = Some (m_resourceVersion (n_meta obj))"
  shows "map_of (gh_seen (fst (gen_event generate apply e a))) (seen_key obj) =
     Some (m_resourceVersion (n_meta obj))"
proof (cases e)
  case (GHandle obj2 st)
  with assms show ?thesis
    by (auto simp: gen_Handle_def storeResourceVersion_def forgets_def update_conv' Let_def
        split: prod.split option.split)
next
  case (GRemove key ob)
  with assms show ?thesis
    by (auto simp: gen_Remove_def forgets_def delete_conv' Let_def split: option.split)
qed

lemma gen_run_seen:
  "\<forall>e \<in> set es. \<not> forgets obj e \<Longrightarrow>
   map_of (gh_seen a) (seen_key obj) = Some (m_resourceVersion (n_meta obj)) \<Longrightarrow>
   map_of (gh_seen (gen_run generate apply es a)) (seen_key obj) = Some (m_resourceVersion (n_meta obj)) \<and>
   gh_opts (gen_run generate apply es a) = gh_opts a"
proof (induction es arbitrary: a)
  case (Cons e es)
  then show ?case
    using Cons.IH[of "fst (gen_event generate apply e a)"]
    by (simp add: gen_run_def gen_event_seen gen_event_opts)
qed (simp add: gen_run_def)

lemma Handle_applied_seen:
  "UniqueApplyForResourceVersion (gh_opts a) \<Longrightarrow>
   gen_Handle generate apply a obj st = ((st1, None), a1, [(ds, objs)]) \<Longrightarrow>
   map_of (gh_seen a1) (seen_key obj) = Some (m_resourceVersion (n_meta obj)) \<and> gh_opts a1 = gh_opts a"
  by (auto simp: gen_Handle_def storeResourceVersion_def update_conv' Let_def
      split: prod.splits option.splits if_splits)

lemma Handle_seen_quiet:
  "UniqueApplyForResourceVersion (gh_opts a) \<Longrightarrow>
   map_of (gh_seen a) (seen_key obj) = Some (m_resourceVersion (n_meta obj)) \<Longrightarrow>
   snd (snd (gen_Handle generate apply a obj st)) = []"
  by (auto simp: gen_Handle_def isNewResourceVersion_def split: prod.split option.split)

text \<open>C19: With \<open>UniqueApplyForResourceVersion\<close>, once the objects generated for a version of an
  object have been applied without error, no later event applies for that version again, as
  long as the object is not seen in another version and its key is not removed; an apply that
  fails is not remembered. Without the option every event of a live object applies.\<close>

theorem applies_once_per_version:
  "(UniqueApplyForResourceVersion (gh_opts a) \<longrightarrow>
      gen_Handle generate apply a obj st = ((st1, None), a1, [(ds, objs)]) \<longrightarrow>
      (\<forall>e \<in> set es. \<not> forgets obj e) \<longrightarrow>
      snd (snd (gen_Handle generate apply (gen_run generate apply es a1) obj st2)) = []) \<and>
   (gen_Handle generate apply a obj st = ((st1, Some err), a2, applies) \<longrightarrow> a2 = a) \<and>
   (\<not> UniqueApplyForResourceVersion (gh_opts a) \<longrightarrow> m_deletionTimestamp (n_meta obj) = None \<longrightarrow>
      generate obj st = (objs, st1, None) \<longrightarrow>
      snd (snd (gen_Handle generate apply a obj st)) = [(configured a (n_meta obj) (node_robj obj), objs)])"
proof (intro conjI impI)
  assume u: "UniqueApplyForResourceVersion (gh_opts a)"
    and h: "gen_Handle generate apply a obj st = ((st1, None), a1, [(ds, objs)])"
    and q: "\<forall>e \<in> set es. \<not> forgets obj e"
  from Handle_applied_seen[OF u h] gen_run_seen[OF q, of a1 generate "apply"] u
  show "snd (snd (gen_Handle generate apply (gen_run generate apply es a1) obj st2)) = []"
    by (intro Handle_seen_quiet) simp_all
next
  assume "gen_Handle generate apply a obj st = ((st1, Some err), a2, applies)"
  then show "a2 = a" by (auto simp: gen_Handle_def Let_def split: prod.splits option.splits if_splits)
next
  assume "\<not> UniqueApplyForResourceVersion (gh_opts a)" "m_deletionTimestamp (n_meta obj) = None"
    "generate obj st = (objs, st1, None)"
  then show "snd (snd (gen_Handle generate apply a obj st)) = [(configured a (n_meta obj) (node_robj obj), objs)]"
    by (simp add: gen_Handle_def isNewResourceVersion_def Let_def split: option.split)
qed

definition gen0 :: "node \<Rightarrow> status \<Rightarrow> robj list \<times> status \<times> goerr option" where
  "gen0 obj st = ([], st, None)"

definition apply0 :: "desiredset \<Rightarrow> robj list \<Rightarrow> goerr option" where
  "apply0 ds objs = None"

definition gh0 :: genhandler where
  "gh0 = \<lparr>gh_opts = no_options\<lparr>UniqueApplyForResourceVersion := True\<rparr>, gh_gvk = gvk_zero, gh_name = ''h'',
     gh_apply = newDesiredSet [] [] [], gh_seen = []\<rparr>"

theorem applies_once_per_version_witness:
  "snd (snd (gen_Handle gen0 apply0 gh0 node0 (n_status node0))) \<noteq> [] \<and>
   snd (snd (gen_Handle gen0 apply0 (fst (snd (gen_Handle gen0 apply0 gh0 node0 (n_status node0)))) node0 (n_status node0))) = []"
proof -
  have u: "UniqueApplyForResourceVersion (gh_opts gh0)" by code_simp
  have ne: "snd (snd (gen_Handle gen0 apply0 gh0 node0 (n_status node0))) \<noteq> []" by code_simp
  then obtain st1 a1 ds objs where
    h: "gen_Handle gen0 apply0 gh0 node0 (n_status node0) = ((st1, None), a1, [(ds, objs)])"
    by (auto simp: gen_Handle_def apply0_def gen0_def Let_def split: if_splits)
  from applies_once_per_version[of gh0 gen0 apply0 node0 "n_status node0" st1 a1 ds objs "[]"] u h ne
  show ?thesis by (simp add: gen_run_def)
qed

text \<open>The key of a cluster-scoped object has no slash, but the handler stores its version under a
  key with one: the removal of the object does not remove the entry.\<close>

lemma cluster_scoped_entry_stays:
  "seen_key node0 = ''/n'' \<and>
   map_of (gh_seen (fst (gen_event gen0 apply0 (GRemove ''n'' None)
     (fst (gen_event gen0 apply0 (GHandle node0 (n_status node0)) gh0))))) ''/n'' = Some ''''"
  by code_simp

text \<open>The option that asks for no owner reference sets one.\<close>

lemma NoOwnerReference_sets_owner:
  "ds_setOwnerReference (ConfigureApplyForObject (newDesiredSet [] [] []) m
     (Some (no_options\<lparr>NoOwnerReference := True\<rparr>)))"
  by (simp add: ConfigureApplyForObject_def no_options_def Let_def WithSetOwnerReference_def
      WithRestrictClusterScoped_def)

end
