(* ===== verification/Broadcast.thy ===== *)
theory Broadcast
  imports Go_Error
begin

section \<open>Broadcasting to subscribers: pkg/broadcast/generic.go\<close>

text \<open>
  A \<open>Broadcaster\<close> holds a lock, the flag \<open>running\<close> and the set of subscribed channels. Every
  section of code under the lock is one function on the state; which goroutine takes the lock
  next is the choice of the step relation. The state also holds the goroutines that wait: for
  the end of a subscriber's context, or for the lock in \<open>unsub\<close>. Channels are numbered in the
  order of creation; a channel is its buffer of 100 items and whether it is closed. Ghost
  fields record what a consumer took out of a channel, how many items had been streamed when it
  was made, and the items streamed. Closing a closed channel and sending on one panics.
\<close>

subsection \<open>The state\<close>

record 'a chan =
  ch_buf :: "'a list"
  ch_closed :: bool
  ch_got :: "'a list"
  ch_from :: nat

record 'a broadcaster =
  b_running :: bool
  b_subs :: "nat list"
  b_chans :: "'a chan list"
  b_contexts :: "nat list"
  b_unsubs :: "nat list"
  b_streams :: nat
  b_log :: "'a list"
  b_panic :: bool

definition bcast0 :: "'a broadcaster" where
  "bcast0 = \<lparr>b_running = False, b_subs = [], b_chans = [], b_contexts = [], b_unsubs = [],
     b_streams = 0, b_log = [], b_panic = False\<rparr>"

subsection \<open>The operations\<close>

definition close_chan :: "nat \<Rightarrow> 'a broadcaster \<Rightarrow> 'a broadcaster" where
  "close_chan sub b =
     (let c = b_chans b ! sub in
      if ch_closed c then b\<lparr>b_panic := True\<rparr>
      else b\<lparr>b_chans := (b_chans b)[sub := c\<lparr>ch_closed := True\<rparr>]\<rparr>)"

text \<open>\<open>unsub\<close> with the lock held.\<close>

definition unsub :: "nat \<Rightarrow> 'a broadcaster \<Rightarrow> 'a broadcaster" where
  "unsub sub b =
     (if sub \<in> set (b_subs b) then (close_chan sub b)\<lparr>b_subs := removeAll sub (b_subs b)\<rparr> else b)"

text \<open>\<open>start\<close>: the argument says whether \<open>connect\<close> returned a channel or an error.\<close>

definition bcast_start :: "goerr option \<Rightarrow> 'a broadcaster \<Rightarrow> goerr option \<times> 'a broadcaster" where
  "bcast_start connect b =
     (case connect of
        Some err \<Rightarrow> (Some err, b)
      | None \<Rightarrow> (None, b\<lparr>b_streams := b_streams b + 1, b_running := True\<rparr>))"

definition subscribe_chan :: "'a broadcaster \<Rightarrow> 'a broadcaster" where
  "subscribe_chan b =
     (let sub = length (b_chans b) in
      b\<lparr>b_chans := b_chans b @ [\<lparr>ch_buf = [], ch_closed = False, ch_got = [], ch_from = length (b_log b)\<rparr>],
        b_subs := b_subs b @ [sub], b_contexts := b_contexts b @ [sub]\<rparr>)"

definition Subscribe :: "goerr option \<Rightarrow> 'a broadcaster \<Rightarrow> nat result \<times> 'a broadcaster" where
  "Subscribe connect b =
     (if \<not> b_running b then
        (case bcast_start connect b of
           (Some err, b) \<Rightarrow> (Inl err, b)
         | (None, b) \<Rightarrow> (Inr (length (b_chans b)), subscribe_chan b))
      else (Inr (length (b_chans b)), subscribe_chan b))"

text \<open>One item for one subscriber: sent when there is room, else a goroutine is started to
  unsubscribe the slow consumer.\<close>

definition send_or_drop :: "'a \<Rightarrow> nat \<Rightarrow> 'a broadcaster \<Rightarrow> 'a broadcaster" where
  "send_or_drop item sub b =
     (let c = b_chans b ! sub in
      if ch_closed c then b\<lparr>b_panic := True\<rparr>
      else if length (ch_buf c) < 100
      then b\<lparr>b_chans := (b_chans b)[sub := c\<lparr>ch_buf := ch_buf c @ [item]\<rparr>]\<rparr>
      else b\<lparr>b_unsubs := b_unsubs b @ [sub]\<rparr>)"

text \<open>The body of the loop of \<open>stream\<close>, and what follows the loop. The order of the list is the
  order in which the map of subscribers is ranged over.\<close>

definition stream_item :: "'a \<Rightarrow> nat list \<Rightarrow> 'a broadcaster \<Rightarrow> 'a broadcaster" where
  "stream_item item order b = fold (send_or_drop item) order (b\<lparr>b_log := b_log b @ [item]\<rparr>)"

definition stream_end :: "nat list \<Rightarrow> 'a broadcaster \<Rightarrow> 'a broadcaster" where
  "stream_end order b = (fold unsub order b)\<lparr>b_running := False, b_streams := b_streams b - 1\<rparr>"

subsection \<open>The steps\<close>

inductive bstep :: "'a broadcaster \<Rightarrow> 'a broadcaster \<Rightarrow> bool" where
  subscribe: "bstep b (snd (Subscribe connect b))"
| context_done: "sub \<in> set (b_contexts b) \<Longrightarrow>
    bstep b (b\<lparr>b_contexts := remove1 sub (b_contexts b), b_unsubs := b_unsubs b @ [sub]\<rparr>)"
| unsubscribe: "sub \<in> set (b_unsubs b) \<Longrightarrow>
    bstep b (unsub sub (b\<lparr>b_unsubs := remove1 sub (b_unsubs b)\<rparr>))"
| item: "b_streams b > 0 \<Longrightarrow> distinct order \<Longrightarrow> set order = set (b_subs b) \<Longrightarrow> bstep b (stream_item x order b)"
| input_closed: "b_streams b > 0 \<Longrightarrow> distinct order \<Longrightarrow> set order = set (b_subs b) \<Longrightarrow> bstep b (stream_end order b)"
| receive: "sub < length (b_chans b) \<Longrightarrow> ch_buf (b_chans b ! sub) = x # xs \<Longrightarrow>
    bstep b (b\<lparr>b_chans := (b_chans b)[sub := (b_chans b ! sub)\<lparr>ch_buf := xs, ch_got := ch_got (b_chans b ! sub) @ [x]\<rparr>]\<rparr>)"

inductive breach :: "'a broadcaster \<Rightarrow> bool" where
  init: "breach bcast0"
| step: "breach b \<Longrightarrow> bstep b b' \<Longrightarrow> breach b'"

subsection \<open>The invariant\<close>

text \<open>What is known of one channel: it is registered or closed, its buffer is bounded, and what
  passed through it is a part, in order, of what was streamed since it was made.\<close>

definition chan_ok :: "'a list \<Rightarrow> bool \<Rightarrow> 'a chan \<Rightarrow> bool" where
  "chan_ok log registered c =
     (registered = (\<not> ch_closed c) \<and> length (ch_buf c) \<le> 100 \<and> ch_from c \<le> length log \<and>
      subseq (ch_got c @ ch_buf c) (drop (ch_from c) log))"

definition binv :: "'a broadcaster \<Rightarrow> bool" where
  "binv b =
     (\<not> b_panic b \<and> distinct (b_subs b) \<and> (\<forall>n \<in> set (b_subs b). n < length (b_chans b)) \<and>
      b_streams b = (if b_running b then 1 else 0) \<and> (\<not> b_running b \<longrightarrow> b_subs b = []) \<and>
      (\<forall>n < length (b_chans b). chan_ok (b_log b) (n \<in> set (b_subs b)) (b_chans b ! n)))"

lemma binv_init: "binv bcast0"
  by (simp add: binv_def bcast0_def)

lemma chan_ok_nth: "binv b \<Longrightarrow> n \<in> set (b_subs b) \<Longrightarrow> \<not> ch_closed (b_chans b ! n)"
  by (auto simp: binv_def chan_ok_def)

lemma unsub_binv: "binv b \<Longrightarrow> binv (unsub sub b)"
  using chan_ok_nth[of b sub]
  by (auto simp: binv_def unsub_def close_chan_def Let_def chan_ok_def nth_list_update
      distinct_removeAll)

lemma subscribe_chan_binv: "binv b \<Longrightarrow> b_running b \<Longrightarrow> binv (subscribe_chan b)"
  by (auto simp: binv_def subscribe_chan_def Let_def chan_ok_def nth_append less_Suc_eq)

lemma Subscribe_binv: "binv b \<Longrightarrow> binv (snd (Subscribe connect b))"
  using subscribe_chan_binv[of b] subscribe_chan_binv[of "b\<lparr>b_streams := b_streams b + 1, b_running := True\<rparr>"]
  by (auto simp: Subscribe_def bcast_start_def split: option.split) (auto simp: binv_def)

text \<open>One item for all subscribers, channel by channel.\<close>

definition push :: "'a \<Rightarrow> 'a chan \<Rightarrow> 'a chan" where
  "push x c = (if length (ch_buf c) < 100 then c\<lparr>ch_buf := ch_buf c @ [x]\<rparr> else c)"

lemma fold_send:
  assumes "distinct order" "\<forall>n \<in> set order. n < length (b_chans b) \<and> \<not> ch_closed (b_chans b ! n)"
  shows "\<exists>cs us. fold (send_or_drop x) order b = b\<lparr>b_chans := cs, b_unsubs := us\<rparr> \<and>
     length cs = length (b_chans b) \<and>
     (\<forall>n < length cs. cs ! n = (if n \<in> set order then push x (b_chans b ! n) else b_chans b ! n))"
  using assms
proof (induction order arbitrary: b)
  case Nil
  then show ?case by (auto intro!: exI[of _ "b_chans b"] exI[of _ "b_unsubs b"])
next
  case (Cons k order)
  obtain cs1 us1 where b1: "send_or_drop x k b = b\<lparr>b_chans := cs1, b_unsubs := us1\<rparr>"
    "cs1 = (b_chans b)[k := push x (b_chans b ! k)]"
  proof (cases "length (ch_buf (b_chans b ! k)) < 100")
    case True
    with Cons.prems that[of "b_unsubs b" "(b_chans b)[k := push x (b_chans b ! k)]"] show ?thesis
      by (simp add: send_or_drop_def push_def Let_def)
  next
    case False
    with Cons.prems that[of "b_unsubs b @ [k]" "b_chans b"] show ?thesis
      by (simp add: send_or_drop_def push_def Let_def)
  qed
  have "\<forall>n \<in> set order. n < length (b_chans (send_or_drop x k b)) \<and>
      \<not> ch_closed (b_chans (send_or_drop x k b) ! n)"
    using Cons.prems b1 by (auto simp: nth_list_update)
  with Cons.IH[of "send_or_drop x k b"] Cons.prems obtain cs us where
    r: "fold (send_or_drop x) order (send_or_drop x k b) = (send_or_drop x k b)\<lparr>b_chans := cs, b_unsubs := us\<rparr>"
      "length cs = length cs1"
      "\<forall>n < length cs. cs ! n = (if n \<in> set order then push x (cs1 ! n) else cs1 ! n)"
    using b1 by auto
  have "\<forall>n < length cs. cs ! n = (if n \<in> set (k # order) then push x (b_chans b ! n) else b_chans b ! n)"
    using r(2,3) b1 Cons.prems by (auto simp: nth_list_update)
  with r(1,2) b1 show ?case by auto
qed

lemma chan_ok_longer: "chan_ok log r c \<Longrightarrow> chan_ok (log @ [x]) r c"
  by (auto simp: chan_ok_def intro: subseq_order.order_trans)

lemma chan_ok_push: "chan_ok log r c \<Longrightarrow> chan_ok (log @ [x]) r (push x c)"
proof -
  assume c: "chan_ok log r c"
  show ?thesis
  proof (cases "length (ch_buf c) < 100")
    case True
    have "subseq ((ch_got c @ ch_buf c) @ [x]) (drop (ch_from c) log @ [x])"
      using c by (intro list_emb_append_mono) (simp_all add: chan_ok_def)
    with c True show ?thesis by (simp add: chan_ok_def push_def)
  next
    case False
    with c show ?thesis by (simp add: push_def chan_ok_longer)
  qed
qed

lemma stream_item_spec:
  assumes "binv b" "distinct order" "set order = set (b_subs b)"
  shows "\<exists>cs us. stream_item x order b = b\<lparr>b_log := b_log b @ [x], b_chans := cs, b_unsubs := us\<rparr> \<and>
     length cs = length (b_chans b) \<and>
     (\<forall>n < length cs. cs ! n = (if n \<in> set (b_subs b) then push x (b_chans b ! n) else b_chans b ! n))"
  unfolding stream_item_def
  using fold_send[of order "b\<lparr>b_log := b_log b @ [x]\<rparr>" x] assms
  by (auto simp: chan_ok_nth binv_def)

lemma stream_item_binv:
  assumes "binv b" "distinct order" "set order = set (b_subs b)"
  shows "binv (stream_item x order b)"
proof -
  obtain cs us where r: "stream_item x order b = b\<lparr>b_log := b_log b @ [x], b_chans := cs, b_unsubs := us\<rparr>"
    "length cs = length (b_chans b)"
    "\<forall>n < length cs. cs ! n = (if n \<in> set (b_subs b) then push x (b_chans b ! n) else b_chans b ! n)"
    using stream_item_spec[OF assms] by blast
  have "chan_ok (b_log b @ [x]) (n \<in> set (b_subs b)) (cs ! n)" if "n < length (b_chans b)" for n
  proof -
    have "chan_ok (b_log b) (n \<in> set (b_subs b)) (b_chans b ! n)"
      using assms(1) that by (simp add: binv_def)
    with that r(2,3) show ?thesis
      by (metis (full_types) chan_ok_longer chan_ok_push)
  qed
  with assms(1) r(2) show ?thesis unfolding r(1) by (simp add: binv_def)
qed

text \<open>At the end of the stream every subscriber is closed.\<close>

lemma fold_unsub_binv: "binv b \<Longrightarrow> binv (fold unsub order b)"
  by (induction order arbitrary: b) (simp_all add: unsub_binv)

lemma unsub_fields [simp]:
  "b_running (unsub n b) = b_running b" "b_streams (unsub n b) = b_streams b"
  "b_log (unsub n b) = b_log b" "b_subs (unsub n b) = removeAll n (b_subs b)"
  "length (b_chans (unsub n b)) = length (b_chans b)"
  by (simp_all add: unsub_def close_chan_def Let_def)

lemma fold_unsub_fields [simp]:
  "b_running (fold unsub order b) = b_running b" "b_streams (fold unsub order b) = b_streams b"
  "length (b_chans (fold unsub order b)) = length (b_chans b)"
  by (induction order arbitrary: b) simp_all

lemma fold_unsub_subs: "set (b_subs (fold unsub order b)) = set (b_subs b) - set order"
  by (induction order arbitrary: b) auto

lemma stream_end_binv:
  assumes "binv b" "b_streams b > 0" "set order = set (b_subs b)"
  shows "binv (stream_end order b)" "b_subs (stream_end order b) = []"
proof -
  have s: "b_subs (fold unsub order b) = []"
    using fold_unsub_subs[of order b] assms(3) by simp
  from fold_unsub_binv[OF assms(1), of order] assms(1,2) s
  show "binv (stream_end order b)" by (auto simp: stream_end_def binv_def split: if_splits)
  show "b_subs (stream_end order b) = []" using s by (simp add: stream_end_def)
qed

lemma bstep_binv: "bstep b b' \<Longrightarrow> binv b \<Longrightarrow> binv b'"
proof (induction rule: bstep.induct)
  case (subscribe b connect)
  then show ?case by (simp add: Subscribe_binv)
next
  case (context_done sub b)
  then show ?case by (simp add: binv_def)
next
  case (unsubscribe sub b)
  then have "binv (b\<lparr>b_unsubs := remove1 sub (b_unsubs b)\<rparr>)" by (simp add: binv_def)
  then show ?case by (rule unsub_binv)
next
  case (item b order x)
  then show ?case by (simp add: stream_item_binv)
next
  case (input_closed b order)
  then show ?case by (simp add: stream_end_binv)
next
  case (receive sub b x xs)
  then show ?case by (auto simp: binv_def chan_ok_def nth_list_update)
qed

lemma breach_binv: "breach b \<Longrightarrow> binv b"
  by (induction rule: breach.induct) (auto intro: binv_init bstep_binv)

subsection \<open>Properties\<close>

text \<open>C33: In every state that any interleaving of subscriptions, cancelled contexts, items and
  ends of the input reaches: no channel was closed twice or sent on after it was closed, one
  stream runs exactly when the broadcaster is running, a channel is open exactly while it is
  subscribed, no buffer exceeds 100 items, and what a consumer has received followed by what
  waits for it is a part, in order and without repetition, of what was streamed since it
  subscribed.\<close>

theorem broadcast_safe:
  assumes "breach b"
  shows "\<not> b_panic b \<and> b_streams b = (if b_running b then 1 else 0) \<and>
    (\<forall>n < length (b_chans b).
       (n \<in> set (b_subs b)) = (\<not> ch_closed (b_chans b ! n)) \<and>
       length (ch_buf (b_chans b ! n)) \<le> 100 \<and>
       subseq (ch_got (b_chans b ! n) @ ch_buf (b_chans b ! n))
         (drop (ch_from (b_chans b ! n)) (b_log b)))"
  using breach_binv[OF assms] by (simp add: binv_def chan_ok_def)

text \<open>In every reachable state an item reaches every subscriber that has room and nobody else
  is touched, and after the end of the input every channel is closed, nobody is subscribed, the
  broadcaster no longer counts as running, and nothing that waits in a buffer is lost.\<close>

theorem broadcast_delivers:
  assumes "breach b" "distinct order" "set order = set (b_subs b)"
  shows "(\<forall>n < length (b_chans b).
      b_chans (stream_item x order b) ! n =
        (if n \<in> set (b_subs b) \<and> length (ch_buf (b_chans b ! n)) < 100
         then (b_chans b ! n)\<lparr>ch_buf := ch_buf (b_chans b ! n) @ [x]\<rparr> else b_chans b ! n)) \<and>
    (b_streams b > 0 \<longrightarrow>
      b_subs (stream_end order b) = [] \<and> \<not> b_running (stream_end order b) \<and>
      (\<forall>n < length (b_chans b). ch_closed (b_chans (stream_end order b) ! n) \<and>
        ch_buf (b_chans (stream_end order b) ! n) = ch_buf (b_chans b ! n)))"
proof -
  note i = breach_binv[OF assms(1)]
  obtain cs us where r: "stream_item x order b = b\<lparr>b_log := b_log b @ [x], b_chans := cs, b_unsubs := us\<rparr>"
    "length cs = length (b_chans b)"
    "\<forall>n < length cs. cs ! n = (if n \<in> set (b_subs b) then push x (b_chans b ! n) else b_chans b ! n)"
    using stream_item_spec[OF i assms(2,3)] by blast
  have buf: "ch_buf (b_chans (fold unsub order b) ! n) = ch_buf (b_chans b ! n)" for n
  proof (induction order arbitrary: b)
    case (Cons k order)
    have "ch_buf (b_chans (unsub k b) ! n) = ch_buf (b_chans b ! n)"
      by (cases "n = k"; cases "k < length (b_chans b)")
        (simp_all add: unsub_def close_chan_def Let_def list_update_beyond)
    with Cons show ?case by simp
  qed simp
  have e: "b_streams b > 0 \<Longrightarrow> binv (stream_end order b)" "b_streams b > 0 \<Longrightarrow> b_subs (stream_end order b) = []"
    using stream_end_binv[OF i _ assms(3)] by simp_all
  show ?thesis
    unfolding r(1) using r(2,3) e buf
    by (auto simp: push_def binv_def chan_ok_def stream_end_def)
qed

definition sub1 :: "string broadcaster" where
  "sub1 = snd (Subscribe None bcast0)"

lemma sub1_reachable: "breach sub1" "breach (stream_item ''x'' [0] sub1)"
proof -
  show r: "breach sub1" unfolding sub1_def by (rule breach.step[OF breach.init bstep.subscribe])
  show "breach (stream_item ''x'' [0] sub1)"
    by (rule breach.step[OF r], rule bstep.item)
      (simp_all add: sub1_def Subscribe_def bcast_start_def subscribe_chan_def bcast0_def Let_def)
qed

theorem broadcast_safe_witness:
  "subseq (ch_got (b_chans (stream_item ''x'' [0] sub1) ! 0) @ ch_buf (b_chans (stream_item ''x'' [0] sub1) ! 0)) [''x'']"
proof -
  have "0 < length (b_chans (stream_item ''x'' [0] sub1))"
    "drop (ch_from (b_chans (stream_item ''x'' [0] sub1) ! 0)) (b_log (stream_item ''x'' [0] sub1)) = [''x'']"
    by code_simp+
  with broadcast_safe[OF sub1_reachable(2)] show ?thesis by metis
qed

theorem broadcast_delivers_witness:
  "ch_buf (b_chans (stream_item ''x'' [0] sub1) ! 0) = [''x''] \<and> b_subs (stream_end [0] sub1) = []"
proof -
  have f: "distinct [0::nat]" "set [0] = set (b_subs sub1)" "0 < length (b_chans sub1)" "b_streams sub1 > 0"
    "0 \<in> set (b_subs sub1) \<and> length (ch_buf (b_chans sub1 ! 0)) < 100" "ch_buf (b_chans sub1 ! 0) = []"
    by code_simp+
  from broadcast_delivers[OF sub1_reachable(1) f(1,2), of "''x''"] f(3-) show ?thesis by simp
qed

end
