(* ===== verification/Leader.thy ===== *)
theory Leader
  imports Go_Error
begin

section \<open>Leader election: pkg/leader\<close>

text \<open>
  \<open>pkg/leader/manager.go\<close>: a manager starts one election, and functions registered with
  \<open>OnLeader\<close> and \<open>OnLeaderOrDie\<close> wait in goroutines until the callback of the election has stored
  the leader's context and closed the channel. \<open>pkg/leader/leader.go\<close>: the namespace and the
  configuration of the election. The election itself is client-go's \<open>leaderelection.RunOrDie\<close>:
  it calls \<open>OnStartedLeading\<close> at most once in a run, and \<open>OnStoppedLeading\<close> when the run ends,
  where the code ends the process. A context is a number, a duration nanoseconds.
\<close>

subsection \<open>The configuration\<close>

definition default_namespace :: "string \<Rightarrow> string" where
  "default_namespace namespace = (if namespace = '''' then ''kube-system'' else namespace)"

record lease_config =
  LeaseDuration :: "64 word"
  RenewDeadline :: "64 word"
  RetryPeriod :: "64 word"

definition seconds :: "nat \<Rightarrow> 64 word" where
  "seconds n = of_nat (n * 1000000000)"

text \<open>One environment variable: empty keeps the value, a bad duration is an error.\<close>

definition read_duration ::
    "(string \<Rightarrow> string) \<Rightarrow> (string \<Rightarrow> 64 word result) \<Rightarrow> string \<Rightarrow> 64 word \<Rightarrow> 64 word result" where
  "read_duration getenv ParseDuration key dflt =
     (let d = getenv key in
      if d = '''' then Inr dflt
      else case ParseDuration d of
        Inl err \<Rightarrow> Inl (Wrap (key @ '' value ['' @ d @ ''] is not a valid duration'') err)
      | Inr v \<Rightarrow> Inr v)"

definition computeConfig ::
    "(string \<Rightarrow> string) \<Rightarrow> (string \<Rightarrow> 64 word result) \<Rightarrow> lease_config result" where
  "computeConfig getenv ParseDuration =
     (let dev = (getenv ''CATTLE_DEV_MODE'' \<noteq> '''');
          leaseDuration = (if dev then seconds (45 * 3600) else seconds 45);
          renewDeadline = (if dev then seconds (30 * 3600) else seconds 30);
          retryPeriod = seconds 2 in
      case read_duration getenv ParseDuration ''CATTLE_ELECTION_LEASE_DURATION'' leaseDuration of
        Inl err \<Rightarrow> Inl err
      | Inr leaseDuration \<Rightarrow>
          (case read_duration getenv ParseDuration ''CATTLE_ELECTION_RENEW_DEADLINE'' renewDeadline of
             Inl err \<Rightarrow> Inl err
           | Inr renewDeadline \<Rightarrow>
               (case read_duration getenv ParseDuration ''CATTLE_ELECTION_RETRY_PERIOD'' retryPeriod of
                  Inl err \<Rightarrow> Inl err
                | Inr retryPeriod \<Rightarrow>
                    Inr \<lparr>LeaseDuration = leaseDuration, RenewDeadline = renewDeadline,
                         RetryPeriod = retryPeriod\<rparr>)))"

subsection \<open>The manager\<close>

datatype taskkind = KLeader | KLeaderOrDie
datatype taskstate = Waiting | Running | Finished

record ltask =
  t_kind :: taskkind
  t_state :: taskstate

text \<open>Fields \<open>lm_elections\<close>, \<open>lm_closes\<close> and \<open>lm_calls\<close> count the elections started and the times
  the channel was closed, and list the calls of the registered functions: which, with which
  context, and what they returned.\<close>

record manager =
  lm_started :: bool
  lm_closed :: bool
  lm_ctx :: "nat option"
  lm_tasks :: "ltask list"
  lm_elections :: nat
  lm_callback_due :: bool
  lm_closes :: nat
  lm_died :: bool
  lm_calls :: "(nat \<times> nat option \<times> goerr option) list"

definition NewManager :: manager where
  "NewManager = \<lparr>lm_started = False, lm_closed = False, lm_ctx = None, lm_tasks = [],
     lm_elections = 0, lm_callback_due = False, lm_closes = 0, lm_died = False, lm_calls = []\<rparr>"

definition lm_Start :: "manager \<Rightarrow> manager" where
  "lm_Start m =
     (if lm_started m then m
      else m\<lparr>lm_started := True, lm_elections := lm_elections m + 1, lm_callback_due := True\<rparr>)"

text \<open>The callback handed to \<open>RunOrDie\<close>.\<close>

definition started_leading :: "nat \<Rightarrow> manager \<Rightarrow> manager" where
  "started_leading ctx m =
     m\<lparr>lm_ctx := Some ctx, lm_closed := True, lm_closes := lm_closes m + 1, lm_callback_due := False\<rparr>"

definition OnLeaderOrDie :: "manager \<Rightarrow> manager" where
  "OnLeaderOrDie m = m\<lparr>lm_tasks := lm_tasks m @ [\<lparr>t_kind = KLeaderOrDie, t_state = Waiting\<rparr>]\<rparr>"

definition OnLeader :: "manager \<Rightarrow> manager" where
  "OnLeader m = m\<lparr>lm_tasks := lm_tasks m @ [\<lparr>t_kind = KLeader, t_state = Waiting\<rparr>]\<rparr>"

text \<open>One call of the function of task \<open>i\<close> with result \<open>err\<close>: an error of an \<open>OnLeader\<close> function
  is tried again, one of an \<open>OnLeaderOrDie\<close> function ends the process.\<close>

definition call_task :: "nat \<Rightarrow> goerr option \<Rightarrow> manager \<Rightarrow> manager" where
  "call_task i err m =
     (let t = lm_tasks m ! i;
          m = m\<lparr>lm_calls := lm_calls m @ [(i, lm_ctx m, err)]\<rparr> in
      case err of
        None \<Rightarrow> m\<lparr>lm_tasks := (lm_tasks m)[i := t\<lparr>t_state := Finished\<rparr>]\<rparr>
      | Some _ \<Rightarrow>
          (case t_kind t of
             KLeader \<Rightarrow> m\<lparr>lm_tasks := (lm_tasks m)[i := t\<lparr>t_state := Running\<rparr>]\<rparr>
           | KLeaderOrDie \<Rightarrow> m\<lparr>lm_died := True\<rparr>))"

inductive lstep :: "manager \<Rightarrow> manager \<Rightarrow> bool" where
  start: "\<not> lm_died m \<Longrightarrow> lstep m (lm_Start m)"
| leading: "\<not> lm_died m \<Longrightarrow> lm_callback_due m \<Longrightarrow> lstep m (started_leading ctx m)"
| stopped: "lm_elections m > 0 \<Longrightarrow> lstep m (m\<lparr>lm_died := True\<rparr>)"
| onLeader: "\<not> lm_died m \<Longrightarrow> lstep m (OnLeader m)"
| onLeaderOrDie: "\<not> lm_died m \<Longrightarrow> lstep m (OnLeaderOrDie m)"
| run: "\<not> lm_died m \<Longrightarrow> i < length (lm_tasks m) \<Longrightarrow> lm_closed m \<Longrightarrow>
    t_state (lm_tasks m ! i) \<noteq> Finished \<Longrightarrow> lstep m (call_task i err m)"

inductive lreach :: "manager \<Rightarrow> bool" where
  init: "lreach NewManager"
| step: "lreach m \<Longrightarrow> lstep m m' \<Longrightarrow> lreach m'"

inductive_cases lstepE: "lstep m m'"

subsection \<open>The retry loop of OnLeader\<close>

text \<open>The loop as such: \<open>f i\<close> is what the \<open>i\<close>-th call returns, the result the number of calls;
  a function that never succeeds never returns (\<open>None\<close>).\<close>

partial_function (option) onLeader_loop :: "(nat \<Rightarrow> goerr option) \<Rightarrow> nat \<Rightarrow> nat option" where
  "onLeader_loop f i = (if f i \<noteq> None then onLeader_loop f (i + 1) else Some (i + 1))"

lemma onLeader_loop_ends:
  "f k = None \<Longrightarrow> \<forall>j. i \<le> j \<and> j < k \<longrightarrow> f j \<noteq> None \<Longrightarrow> i \<le> k \<Longrightarrow> onLeader_loop f i = Some (k + 1)"
proof (induction "k - i" arbitrary: i)
  case 0
  then show ?case by (simp add: onLeader_loop.simps[of f i])
next
  case (Suc d)
  then have "f i \<noteq> None" "onLeader_loop f (i + 1) = Some (k + 1)" by auto
  then show ?case by (simp add: onLeader_loop.simps[of f i])
qed

lemma onLeader_loop_result:
  assumes "onLeader_loop f i = Some n"
  shows "i < n \<and> f (n - 1) = None"
proof (rule onLeader_loop.raw_induct[where P = "\<lambda>f i n. i < n \<and> f (n - 1) = None", OF _ assms])
  fix loop :: "(nat \<Rightarrow> goerr option) \<Rightarrow> nat \<Rightarrow> nat option" and f i n
  assume IH: "\<And>f i n. loop f i = Some n \<Longrightarrow> i < n \<and> f (n - 1) = None"
    and eq: "(if f i \<noteq> None then loop f (i + 1) else Some (i + 1)) = Some n"
  show "i < n \<and> f (n - 1) = None"
    using eq IH[of f "i + 1" n] by (auto split: if_splits)
qed

text \<open>A function registered with \<open>OnLeader\<close> is called until it succeeds: it is called again
  after every error, the loop ends with its first success, and it does not end if there is
  none.\<close>

theorem onLeader_retries:
  "(\<forall>k. f k = None \<longrightarrow> (\<forall>j < k. f j \<noteq> None) \<longrightarrow> onLeader_loop f 0 = Some (k + 1)) \<and>
   ((\<forall>k. f k \<noteq> None) \<longrightarrow> onLeader_loop f 0 = None)"
proof (intro conjI allI impI)
  show "onLeader_loop f 0 = Some (k + 1)" if "f k = None" "\<forall>j < k. f j \<noteq> None" for k
    by (rule onLeader_loop_ends) (use that in auto)
  show "onLeader_loop f 0 = None" if "\<forall>k. f k \<noteq> None"
    using onLeader_loop_result[of f 0] that by (cases "onLeader_loop f 0") auto
qed

theorem onLeader_retries_witness:
  "onLeader_loop (\<lambda>i. if i < 2 then Some (Err ''not yet'') else None) 0 = Some 3"
  using onLeader_retries[of "\<lambda>i. if i < 2 then Some (Err ''not yet'') else None"]
  by (auto dest!: spec[of _ 2])

subsection \<open>Safety\<close>

definition linv :: "manager \<Rightarrow> bool" where
  "linv m \<longleftrightarrow>
     lm_elections m = (if lm_started m then 1 else 0) \<and>
     lm_closes m = (if lm_closed m then 1 else 0) \<and>
     (lm_callback_due m \<longrightarrow> \<not> lm_closed m) \<and>
     (lm_closed m \<longrightarrow> lm_started m \<and> lm_ctx m \<noteq> None) \<and>
     (lm_callback_due m \<longrightarrow> lm_started m) \<and>
     (lm_calls m \<noteq> [] \<longrightarrow> lm_closed m)"

definition successes :: "nat \<Rightarrow> manager \<Rightarrow> nat" where
  "successes i m = length (filter (\<lambda>(j, c, e). j = i \<and> e = None) (lm_calls m))"

definition tinv :: "manager \<Rightarrow> bool" where
  "tinv m \<longleftrightarrow>
     (\<forall>call \<in> set (lm_calls m). fst call < length (lm_tasks m) \<and> fst (snd call) = lm_ctx m) \<and>
     (\<forall>i. i < length (lm_tasks m) \<longrightarrow>
        successes i m = (if t_state (lm_tasks m ! i) = Finished then 1 else 0))"

lemmas lm_defs = lm_Start_def started_leading_def OnLeader_def OnLeaderOrDie_def call_task_def

lemma linv_step: "lstep m m' \<Longrightarrow> linv m \<Longrightarrow> linv m'"
  by (elim lstepE)
    (auto simp: linv_def lm_defs Let_def split: if_splits option.split taskkind.split)

lemma linv_init: "linv NewManager"
  by (simp add: linv_def NewManager_def)

lemma tinv_init: "tinv NewManager"
  by (simp add: tinv_def NewManager_def)

lemma linv_reach: "lreach m \<Longrightarrow> linv m"
  by (induction rule: lreach.induct) (simp_all add: linv_init linv_step)

lemma successes_append:
  "lm_calls m' = lm_calls m @ cs \<Longrightarrow>
   successes i m' = successes i m + length (filter (\<lambda>(j, c, e). j = i \<and> e = None) cs)"
  by (simp add: successes_def)

lemma successes_unchanged: "lm_calls m' = lm_calls m \<Longrightarrow> successes i m' = successes i m"
  by (simp add: successes_def)

lemma successes_none:
  "\<forall>call \<in> set (lm_calls m). fst call < length (lm_tasks m) \<Longrightarrow> length (lm_tasks m) \<le> i \<Longrightarrow>
   successes i m = 0"
  by (auto simp: successes_def filter_empty_conv)

lemma tinv_call_task:
  assumes "tinv m" "i < length (lm_tasks m)" "t_state (lm_tasks m ! i) \<noteq> Finished"
  shows "tinv (call_task i err m)"
proof -
  have calls: "lm_calls (call_task i err m) = lm_calls m @ [(i, lm_ctx m, err)]"
    by (simp add: call_task_def Let_def split: option.split taskkind.split)
  have ctx: "lm_ctx (call_task i err m) = lm_ctx m"
    and len: "length (lm_tasks (call_task i err m)) = length (lm_tasks m)"
    by (simp_all add: call_task_def Let_def split: option.split taskkind.split)
  have st: "t_state (lm_tasks (call_task i err m) ! j) = Finished \<longleftrightarrow>
      (if j = i then err = None else t_state (lm_tasks m ! j) = Finished)" if "j < length (lm_tasks m)" for j
    using assms(2,3) that
    by (auto simp: call_task_def Let_def nth_list_update split: option.split taskkind.split)
  show ?thesis
    using assms by (auto simp: tinv_def calls ctx len st successes_append[OF calls])
qed

lemma tinv_step: "lstep m m' \<Longrightarrow> linv m \<Longrightarrow> tinv m \<Longrightarrow> tinv m'"
proof (elim lstepE)
  fix i err
  assume "i < length (lm_tasks m)" "t_state (lm_tasks m ! i) \<noteq> Finished" "m' = call_task i err m" "tinv m"
  then show "tinv m'" by (simp add: tinv_call_task)
next
  fix ctx
  assume "lm_callback_due m" "m' = started_leading ctx m" "linv m" "tinv m"
  then show "tinv m'"
    by (auto simp: tinv_def linv_def started_leading_def successes_def)
next
  assume "m' = OnLeader m" "tinv m"
  then show "tinv m'"
    by (auto simp: tinv_def OnLeader_def nth_append less_Suc_eq successes_unchanged[of "OnLeader m" m, unfolded OnLeader_def]
      intro!: successes_none)
next
  assume "m' = OnLeaderOrDie m" "tinv m"
  then show "tinv m'"
    by (auto simp: tinv_def OnLeaderOrDie_def nth_append less_Suc_eq
      successes_unchanged[of "OnLeaderOrDie m" m, unfolded OnLeaderOrDie_def] intro!: successes_none)
qed (auto simp: tinv_def lm_Start_def successes_def)

lemma tinv_reach: "lreach m \<Longrightarrow> tinv m"
  by (induction rule: lreach.induct) (simp_all add: tinv_init tinv_step[OF _ linv_reach])

text \<open>C34: However the calls of \<open>Start\<close>, \<open>OnLeader\<close> and \<open>OnLeaderOrDie\<close>, the election and the
  goroutines interleave: at most one election runs and the channel is closed at most once (a
  second close would panic); no registered function runs before the leader's context is stored,
  every call gets that context, and no function is called again after it has succeeded.\<close>

theorem leader_safe:
  assumes "lreach m"
  shows "lm_elections m \<le> 1 \<and> lm_closes m \<le> 1 \<and>
    (\<forall>(i, c, err) \<in> set (lm_calls m). lm_started m \<and> c = lm_ctx m \<and> c \<noteq> None) \<and>
    (\<forall>i. successes i m \<le> 1)"
proof (intro conjI allI ballI)
  note inv = linv_reach[OF assms] tinv_reach[OF assms]
  show "lm_elections m \<le> 1" "lm_closes m \<le> 1" using inv(1) by (auto simp: linv_def)
  show "case call of (i, c, err) \<Rightarrow> lm_started m \<and> c = lm_ctx m \<and> c \<noteq> None"
    if "call \<in> set (lm_calls m)" for call
  proof -
    have "lm_calls m \<noteq> []" using that by auto
    moreover have "fst (snd call) = lm_ctx m" using inv(2) that by (auto simp: tinv_def)
    ultimately show ?thesis using inv(1) by (auto simp: linv_def)
  qed
  show "successes i m \<le> 1" for i
    using inv(2) successes_none[of m i] by (cases "i < length (lm_tasks m)") (auto simp: tinv_def)
qed

definition lm_example :: manager where
  "lm_example = call_task 0 None (call_task 0 (Some (Err ''no'')) (started_leading 7
     (lm_Start (lm_Start (OnLeader NewManager)))))"

lemma lm_example_reach: "lreach lm_example"
proof -
  have 1: "lreach (OnLeader NewManager)"
    by (rule lreach.step[OF lreach.init lstep.onLeader]) (simp add: NewManager_def)
  have 2: "lreach (lm_Start (OnLeader NewManager))"
    by (rule lreach.step[OF 1 lstep.start]) (simp add: NewManager_def OnLeader_def)
  have 3: "lreach (lm_Start (lm_Start (OnLeader NewManager)))"
    by (rule lreach.step[OF 2 lstep.start]) (simp add: NewManager_def lm_defs)
  have 4: "lreach (started_leading 7 (lm_Start (lm_Start (OnLeader NewManager))))"
    by (rule lreach.step[OF 3 lstep.leading]) (simp_all add: NewManager_def lm_defs)
  have 5: "lreach (call_task 0 (Some (Err ''no'')) (started_leading 7 (lm_Start (lm_Start (OnLeader NewManager)))))"
    by (rule lreach.step[OF 4 lstep.run]) (simp_all add: NewManager_def lm_defs)
  show ?thesis
    unfolding lm_example_def
    by (rule lreach.step[OF 5 lstep.run]) (simp_all add: NewManager_def lm_defs)
qed

theorem leader_safe_witness:
  "lm_calls lm_example = [(0, Some 7, Some (Err ''no'')), (0, Some 7, None)] \<and>
   lm_elections lm_example \<le> 1 \<and> lm_closes lm_example \<le> 1 \<and>
   lm_started lm_example \<and> lm_ctx lm_example = Some 7 \<and> successes 0 lm_example \<le> 1"
proof -
  have calls: "lm_calls lm_example = [(0, Some 7, Some (Err ''no'')), (0, Some 7, None)]"
    by (simp add: lm_example_def NewManager_def lm_defs Let_def)
  then show ?thesis
    using leader_safe[OF lm_example_reach] by simp
qed

end
