(* ===== verification/Schema_Types.thy ===== *)
theory Schema_Types
  imports Data
begin

section \<open>Schemas as data: types, fields and their validation\<close>

text \<open>
  \<open>pkg/schemas/types.go\<close> (fields and schemas), \<open>definition/definition.go\<close> (the names of composite
  types) and \<open>validation/validation.go\<close> with the numbers of \<open>convert.go\<close> it uses. A nil map that
  code writes to is an option. Floating point numbers are their shortest decimal text, so the
  conversions from and to them are arguments, as are the name checks of apimachinery.
\<close>

subsection \<open>definition/definition.go\<close>

definition IsMapType :: "string \<Rightarrow> bool" where
  "IsMapType fieldType = (HasPrefix fieldType ''map['' \<and> HasSuffix fieldType '']'')"

definition IsArrayType :: "string \<Rightarrow> bool" where
  "IsArrayType fieldType = (HasPrefix fieldType ''array['' \<and> HasSuffix fieldType '']'')"

definition IsReferenceType :: "string \<Rightarrow> bool" where
  "IsReferenceType fieldType = (HasPrefix fieldType ''reference['' \<and> HasSuffix fieldType '']'')"

definition HasReferenceType :: "string \<Rightarrow> bool" where
  "HasReferenceType fieldType = Contains fieldType ''reference[''"

definition SubType :: "string \<Rightarrow> string" where
  "SubType fieldType =
     (case Index fieldType ''['' of
        None \<Rightarrow> fieldType
      | Some i \<Rightarrow>
          if i \<le> 0 \<or> int i \<ge> int (length fieldType) - 1 then fieldType
          else take (length fieldType - 1 - (i + 1)) (drop (i + 1) fieldType))"

definition GetType :: "gomap \<Rightarrow> string" where
  "GetType data = ToString (case map_of data ''type'' of Some v \<Rightarrow> v | None \<Rightarrow> VNil)"

subsection \<open>types.go\<close>

record field =
  f_Type :: string
  f_Default :: val
  f_Nullable :: bool
  f_Create :: bool
  f_WriteOnly :: bool
  f_Required :: bool
  f_Update :: bool
  f_MinLength :: "64 word option"
  f_MaxLength :: "64 word option"
  f_Min :: "64 word option"
  f_Max :: "64 word option"
  f_Options :: "string list"
  f_ValidChars :: string
  f_InvalidChars :: string
  f_Description :: string
  f_CodeName :: string

definition field0 :: field where
  "field0 = \<lparr>f_Type = '''', f_Default = VNil, f_Nullable = False, f_Create = False,
     f_WriteOnly = False, f_Required = False, f_Update = False, f_MinLength = None,
     f_MaxLength = None, f_Min = None, f_Max = None, f_Options = [], f_ValidChars = '''',
     f_InvalidChars = '''', f_Description = '''', f_CodeName = ''''\<rparr>"

type_synonym fields = "(string \<times> field) list"

record action =
  ac_Input :: string
  ac_Output :: string

type_synonym verbs = "(string \<times> string) list"

subsection \<open>Numbers of convert.go\<close>

text \<open>\<open>strconv.ParseInt(s, 10, 64)\<close>, with the value it returns beside an error: zero for bad
  syntax, the nearest bound when out of range.\<close>

definition parse_int64 :: "string \<Rightarrow> 64 word \<times> goerr option" where
  "parse_int64 s =
     (let neg = (s \<noteq> [] \<and> hd s = CHR ''-'');
          body = (if s \<noteq> [] \<and> (hd s = CHR ''-'' \<or> hd s = CHR ''+'') then tl s else s) in
      case digits_val body of
        None \<Rightarrow> (0, Some (Err ''invalid syntax''))
      | Some n \<Rightarrow>
          if \<not> neg \<and> n \<ge> 2 ^ 63 then (of_int (2 ^ 63 - 1), Some (Err ''value out of range''))
          else if neg \<and> n > 2 ^ 63 then (of_int (- (2 ^ 63)), Some (Err ''value out of range''))
          else (of_int (if neg then - n else n), None))"

record floats =
  fl_trunc :: "string \<Rightarrow> 64 word"
  fl_of_int :: "64 word \<Rightarrow> string"
  fl_parse :: "string \<Rightarrow> string \<times> goerr option"

definition ToNumber_both :: "floats \<Rightarrow> val \<Rightarrow> 64 word \<times> goerr option" where
  "ToNumber_both fl v =
     (case Singular v of
        VInt64 i \<Rightarrow> (i, None)
      | VFloat f \<Rightarrow> (fl_trunc fl f, None)
      | VNumber n \<Rightarrow>
          (case parse_int64 n of
             (i, None) \<Rightarrow> (i, None)
           | (_, Some _) \<Rightarrow> (case fl_parse fl n of (f, err) \<Rightarrow> (fl_trunc fl f, err)))
      | v' \<Rightarrow> parse_int64 (ToString v'))"

definition ToFloat :: "floats \<Rightarrow> val \<Rightarrow> string \<times> goerr option" where
  "ToFloat fl v =
     (case Singular v of
        VFloat f \<Rightarrow> (f, None)
      | VNumber n \<Rightarrow>
          (case parse_int64 n of
             (i, None) \<Rightarrow> (fl_of_int fl i, None)
           | (_, Some _) \<Rightarrow> fl_parse fl n)
      | v' \<Rightarrow> fl_parse fl (ToString v'))"

subsection \<open>validation\<close>

record errcode =
  ec_Code :: string
  ec_Status :: nat

definition ErrorCode_Error :: "errcode \<Rightarrow> string" where
  "ErrorCode_Error e = ec_Code e @ '' '' @ digits_of (ec_Status e)"

definition unprocessable :: "string \<Rightarrow> errcode" where
  "unprocessable code = \<lparr>ec_Code = code, ec_Status = 422\<rparr>"

definition NotNullable :: errcode where "NotNullable = unprocessable ''NotNullable''"
definition MinLimitExceeded :: errcode where "MinLimitExceeded = unprocessable ''MinLimitExceeded''"
definition MaxLimitExceeded :: errcode where "MaxLimitExceeded = unprocessable ''MaxLimitExceeded''"
definition MinLengthExceeded :: errcode where "MinLengthExceeded = unprocessable ''MinLengthExceeded''"
definition MaxLengthExceeded :: errcode where "MaxLengthExceeded = unprocessable ''MaxLengthExceeded''"
definition InvalidOption :: errcode where "InvalidOption = unprocessable ''InvalidOption''"
definition InvalidCharacters :: errcode where "InvalidCharacters = unprocessable ''InvalidCharacters''"
definition InvalidFormat :: errcode where "InvalidFormat = unprocessable ''InvalidFormat''"

definition below :: "64 word option \<Rightarrow> int \<Rightarrow> bool" where
  "below bound n = (case bound of None \<Rightarrow> False | Some b \<Rightarrow> n < sint b)"

definition above :: "64 word option \<Rightarrow> int \<Rightarrow> bool" where
  "above bound n = (case bound of None \<Rightarrow> False | Some b \<Rightarrow> n > sint b)"

definition CheckFieldCriteria :: "string \<Rightarrow> field \<Rightarrow> val \<Rightarrow> errcode option" where
  "CheckFieldCriteria fieldName fld v =
     (let num = (case v of VInt64 n \<Rightarrow> Some (sint n) | _ \<Rightarrow> None);
          v = (if v = VNil \<and> f_Default fld \<noteq> VNil then f_Default fld else v);
          hasStrVal = (v \<noteq> VNil \<and> v \<noteq> VStr '''');
          strVal = (if hasStrVal then Sprint v else '''') in
      if (v = VNil \<or> v = VStr '''') \<and> \<not> f_Nullable fld \<and> f_Default fld = VNil then Some NotNullable
      else if (\<exists>n. num = Some n \<and> below (f_Min fld) n) then Some MinLimitExceeded
      else if (\<exists>n. num = Some n \<and> above (f_Max fld) n) then Some MaxLimitExceeded
      else if (hasStrVal \<or> v = VStr '''') \<and> below (f_MinLength fld) (int (length strVal))
        then Some MinLengthExceeded
      else if (hasStrVal \<or> v = VStr '''') \<and> above (f_MaxLength fld) (int (length strVal))
        then Some MaxLengthExceeded
      else if f_Options fld \<noteq> [] \<and> (hasStrVal \<or> \<not> f_Nullable fld)
          \<and> \<not> list_ex (\<lambda>opt. strVal = opt) (f_Options fld) then Some InvalidOption
      else if f_ValidChars fld \<noteq> '''' \<and> hasStrVal
          \<and> list_ex (\<lambda>c. c \<notin> set (f_ValidChars fld)) strVal then Some InvalidCharacters
      else if f_InvalidChars fld \<noteq> '''' \<and> hasStrVal
          \<and> list_ex (\<lambda>c. c \<in> set (f_InvalidChars fld)) strVal then Some InvalidCharacters
      else None)"

datatype verr = VCode errcode | VComplexType | VOther goerr

record namechecks =
  IsDNS1123Label :: "string \<Rightarrow> string list"
  IsDNS1035Label :: "string \<Rightarrow> string list"
  IsDNS1123Subdomain :: "string \<Rightarrow> string list"

definition ConvertSimple :: "floats \<Rightarrow> namechecks \<Rightarrow> string \<Rightarrow> val \<Rightarrow> val \<times> verr option" where
  "ConvertSimple fl chk fieldType v =
     (if v = VNil then (v, None)
      else if fieldType = ''json'' then (v, None)
      else if fieldType = ''date'' then (if ToString v = '''' then (VNil, None) else (VStr (ToString v), None))
      else if fieldType = ''boolean'' then (VBool (ToBool v), None)
      else if fieldType = ''enum'' then (VStr (ToString v), None)
      else if fieldType = ''int'' then
        (case ToNumber_both fl v of (n, err) \<Rightarrow> (VInt64 n, map_option VOther err))
      else if fieldType = ''float'' then
        (case ToFloat fl v of (f, err) \<Rightarrow> (VFloat f, map_option VOther err))
      else if fieldType = ''password'' then (VStr (ToString v), None)
      else if fieldType = ''string'' then (VStr (ToString v), None)
      else if fieldType = ''dnsLabel'' then
        (let str = ToString v in
         if str = '''' then (VStr '''', None)
         else if IsDNS1123Label chk str \<noteq> [] then (VNil, Some (VCode InvalidFormat))
         else (VStr str, None))
      else if fieldType = ''dnsLabelRestricted'' then
        (let str = ToString v in
         if str = '''' then (VStr '''', None)
         else if IsDNS1035Label chk str \<noteq> [] then (v, Some (VCode InvalidFormat))
         else (VStr str, None))
      else if fieldType = ''hostname'' then
        (let str = ToString v in
         if str = '''' then (VStr '''', None)
         else if IsDNS1123Subdomain chk str \<noteq> [] then (v, Some (VCode InvalidFormat))
         else (VStr str, None))
      else if fieldType = ''intOrString'' then
        (case ToNumber_both fl v of
           (num, None) \<Rightarrow> (VInt64 num, None)
         | (_, Some _) \<Rightarrow> (VStr (ToString v), None))
      else if fieldType = ''base64'' then (VStr (ToString v), None)
      else if fieldType = ''reference'' then (VStr (ToString v), None)
      else (VNil, Some VComplexType))"

subsection \<open>Properties\<close>

definition within :: "64 word option \<Rightarrow> 64 word option \<Rightarrow> int \<Rightarrow> bool" where
  "within lo hi n \<longleftrightarrow> (\<forall>b. lo = Some b \<longrightarrow> sint b \<le> n) \<and> (\<forall>b. hi = Some b \<longrightarrow> n \<le> sint b)"

lemma within_iff: "within lo hi n \<longleftrightarrow> \<not> below lo n \<and> \<not> above hi n"
  by (cases lo; cases hi) (auto simp: within_def below_def above_def)

text \<open>The values \<open>CheckFieldCriteria\<close> accepts. With the default in the place of a missing value:
  a value that is empty needs a nullable field or a default; an integer given by the caller lies
  within the bounds of the field; the text of a value that is not missing has an allowed length;
  a given text, and an empty one in a field that is not nullable, is one of the options if the
  field has any; and its characters are allowed ones. The bounds are not applied to a default.\<close>

theorem CheckFieldCriteria_accepts:
  "CheckFieldCriteria fieldName fld v = None \<longleftrightarrow>
     (let w = (if v = VNil then f_Default fld else v);
          given = (w \<noteq> VNil \<and> w \<noteq> VStr '''');
          str = (if given then Sprint w else '''') in
      (given \<or> f_Nullable fld \<or> f_Default fld \<noteq> VNil) \<and>
      (\<forall>n. v = VInt64 n \<longrightarrow> within (f_Min fld) (f_Max fld) (sint n)) \<and>
      (w \<noteq> VNil \<longrightarrow> within (f_MinLength fld) (f_MaxLength fld) (int (length str))) \<and>
      (f_Options fld \<noteq> [] \<and> (given \<or> \<not> f_Nullable fld) \<longrightarrow> str \<in> set (f_Options fld)) \<and>
      (given \<and> f_ValidChars fld \<noteq> '''' \<longrightarrow> set str \<subseteq> set (f_ValidChars fld)) \<and>
      (given \<longrightarrow> set str \<inter> set (f_InvalidChars fld) = {}))"
proof -
  define num where "num = (case v of VInt64 n \<Rightarrow> Some (sint n) | _ \<Rightarrow> None)"
  define w where "w = (if v = VNil \<and> f_Default fld \<noteq> VNil then f_Default fld else v)"
  define given where "given = (w \<noteq> VNil \<and> w \<noteq> VStr '''')"
  define str where "str = (if given then Sprint w else '''')"
  have w: "w = (if v = VNil then f_Default fld else v)" by (auto simp: w_def)
  have num: "(\<exists>n. num = Some n \<and> P n) \<longleftrightarrow> (\<exists>n. v = VInt64 n \<and> P (sint n))" for P
    by (cases v) (auto simp: num_def)
  have "CheckFieldCriteria fieldName fld v = None \<longleftrightarrow>
      \<not> ((w = VNil \<or> w = VStr '''') \<and> \<not> f_Nullable fld \<and> f_Default fld = VNil) \<and>
      \<not> (\<exists>n. num = Some n \<and> below (f_Min fld) n) \<and> \<not> (\<exists>n. num = Some n \<and> above (f_Max fld) n) \<and>
      \<not> ((given \<or> w = VStr '''') \<and> below (f_MinLength fld) (int (length str))) \<and>
      \<not> ((given \<or> w = VStr '''') \<and> above (f_MaxLength fld) (int (length str))) \<and>
      \<not> (f_Options fld \<noteq> [] \<and> (given \<or> \<not> f_Nullable fld) \<and> \<not> list_ex (\<lambda>opt. str = opt) (f_Options fld)) \<and>
      \<not> (f_ValidChars fld \<noteq> '''' \<and> given \<and> list_ex (\<lambda>c. c \<notin> set (f_ValidChars fld)) str) \<and>
      \<not> (f_InvalidChars fld \<noteq> '''' \<and> given \<and> list_ex (\<lambda>c. c \<in> set (f_InvalidChars fld)) str)"
    unfolding CheckFieldCriteria_def Let_def num_def[symmetric] w_def[symmetric] given_def[symmetric] str_def[symmetric]
    by (simp only: if_split_eq1 option.distinct de_Morgan_conj not_not simp_thms) blast
  moreover have "\<not> ((w = VNil \<or> w = VStr [])  \<and> \<not> f_Nullable fld \<and> f_Default fld = VNil) \<longleftrightarrow>
      (given \<or> f_Nullable fld \<or> f_Default fld \<noteq> VNil)" by (auto simp: given_def)
  moreover have "(\<not> (\<exists>n. num = Some n \<and> below (f_Min fld) n) \<and> \<not> (\<exists>n. num = Some n \<and> above (f_Max fld) n)) \<longleftrightarrow>
      (\<forall>n. v = VInt64 n \<longrightarrow> within (f_Min fld) (f_Max fld) (sint n))" unfolding num within_iff by blast
  moreover have "(\<not> ((given \<or> w = VStr []) \<and> below (f_MinLength fld) (int (length str))) \<and>
      \<not> ((given \<or> w = VStr []) \<and> above (f_MaxLength fld) (int (length str)))) \<longleftrightarrow>
      (w \<noteq> VNil \<longrightarrow> within (f_MinLength fld) (f_MaxLength fld) (int (length str)))"
    unfolding within_iff by (auto simp: given_def)
  moreover have "\<not> (f_Options fld \<noteq> [] \<and> (given \<or> \<not> f_Nullable fld) \<and> \<not> list_ex (\<lambda>opt. str = opt) (f_Options fld)) \<longleftrightarrow>
      (f_Options fld \<noteq> [] \<and> (given \<or> \<not> f_Nullable fld) \<longrightarrow> str \<in> set (f_Options fld))"
    by (auto simp: list_ex_iff)
  moreover have "\<not> (f_ValidChars fld \<noteq> [] \<and> given \<and> list_ex (\<lambda>c. c \<notin> set (f_ValidChars fld)) str) \<longleftrightarrow>
      (given \<and> f_ValidChars fld \<noteq> [] \<longrightarrow> set str \<subseteq> set (f_ValidChars fld))"
    by (auto simp: list_ex_iff)
  moreover have "\<not> (f_InvalidChars fld \<noteq> [] \<and> given \<and> list_ex (\<lambda>c. c \<in> set (f_InvalidChars fld)) str) \<longleftrightarrow>
      (given \<longrightarrow> set str \<inter> set (f_InvalidChars fld) = {})"
    by (auto simp: list_ex_iff)
  ultimately show ?thesis
    unfolding Let_def w[symmetric] given_def[symmetric] str_def[symmetric] by argo
qed

theorem CheckFieldCriteria_accepts_witness:
  "CheckFieldCriteria ''mode'' (field0\<lparr>f_Options := [''fast'', ''slow''], f_Default := VStr ''slow''\<rparr>) VNil = None \<and>
   CheckFieldCriteria ''mode'' (field0\<lparr>f_Options := [''fast'', ''slow'']\<rparr>) (VStr ''other'') \<noteq> None"
  unfolding CheckFieldCriteria_accepts by (simp add: field0_def within_def Let_def)

end
