(* ===== verification/Schema_Mappers.thy ===== *)
theory Schema_Mappers
  imports Schema_Types
begin

section \<open>Mappers: pkg/schemas/mappers on data\<close>

text \<open>
  The mappers of \<open>pkg/schemas/mappers\<close> and \<open>Mappers\<close> of \<open>mapper.go\<close>: what \<open>FromInternal\<close> and
  \<open>ToInternal\<close> do to an object. The argument \<open>data\<close> may be the nil map; the functions return the
  changed map. \<open>title\<close> is the title casing of \<open>golang.org/x/text\<close> that \<open>ToJSONKey\<close> calls. An
  error message prints values as \<open>fmt.Sprint\<close> does.
\<close>

subsection \<open>The mappers\<close>

datatype mapper =
    Access "(string \<times> string) list" bool
  | AliasField string "string list"
  | DefaultMapper string
  | Drop string bool
  | Embed (em_Field: string) (em_Optional: bool) (em_ReadOnly: bool) (em_Ignore: "string list")
      (em_ignoreOverride: bool) (em_embeddedFields: "string list") (em_EmptyValueOk: bool)
  | EmptyMapper
  | Enum string "(string \<times> string) list"
  | Exists string mapper bool
  | JSONKeys
  | Move (mv_Optional: bool) (mv_From: string) (mv_To: string) (mv_CodeName: string)
      (mv_DestDefined: bool) (mv_NoDeleteFromField: bool)
  | SetValue string val val
  | SliceToMap (sl_Field: string) (sl_Key: string)
  | Mappers "mapper list"

definition NewAlias :: "string \<Rightarrow> string list \<Rightarrow> mapper" where
  "NewAlias fld names = AliasField fld names"

definition normalize :: "string \<Rightarrow> string" where
  "normalize v = ToLower (filter (\<lambda>c. c \<noteq> CHR ''-'') (filter (\<lambda>c. c \<noteq> CHR ''_'') v))"

definition NewEnum :: "string \<Rightarrow> string list \<Rightarrow> mapper" where
  "NewEnum fld vals =
     Enum fld (fold (\<lambda>v f.
        (let (v, k) = (if Contains v ''='' then kv_Split v ''='' else (v, v)) in
         AList.update (normalize v) k f)) vals [])"

definition ToJSONKey :: "(string \<Rightarrow> string) \<Rightarrow> string \<Rightarrow> string" where
  "ToJSONKey title str =
     (case Split str ''_'' of
        [] \<Rightarrow> ''''
      | p # ps \<Rightarrow> Join (p # map title ps) '''')"

definition mp :: "string \<Rightarrow> string \<Rightarrow> string \<Rightarrow> mapper" where
  "mp from to codeName = Move False from to codeName False False"

definition NewMetadataMapper :: mapper where
  "NewMetadataMapper = Mappers [
     mp ''name'' ''id'' ''ID'', Drop ''namespace'' False, Drop ''generateName'' False,
     mp ''uid'' ''uuid'' ''UUID'', Drop ''resourceVersion'' False, Drop ''generation'' False,
     mp ''creationTimestamp'' ''created'' '''', mp ''deletionTimestamp'' ''removed'' '''',
     Drop ''deletionGracePeriodSeconds'' False, Drop ''initializers'' False,
     Drop ''finalizers'' False, Drop ''managedFields'' False, Drop ''ownerReferences'' False,
     Drop ''clusterName'' False, Drop ''selfLink'' False,
     Access [(''labels'', ''cu''), (''annotations'', ''cu'')] False]"

subsection \<open>From and to the internal form\<close>

definition obj_update :: "string \<Rightarrow> val \<Rightarrow> object \<Rightarrow> object" where
  "obj_update k v = map_option (AList.update k v)"

definition obj_delete :: "string \<Rightarrow> object \<Rightarrow> object" where
  "obj_delete k = map_option (AList.delete k)"

definition obj_get :: "object \<Rightarrow> string \<Rightarrow> val option" where
  "obj_get ob k = map_of (obj_read ob) k"

definition Move_path :: "string \<Rightarrow> string \<Rightarrow> object \<Rightarrow> object" where
  "Move_path from to d =
     (case d of
        None \<Rightarrow> None
      | Some m \<Rightarrow>
          (case RemoveValue m (Split from ''/'') of
             (m, v, ok) \<Rightarrow> if ok then PutValue (Some m) v (Split to ''/'') else Some m))"

text \<open>The items of \<open>data.Slice\<close> are \<open>data.Object\<close> values, and as such \<open>FromInternal\<close> stores them.
  Deleting from a nil item is no change.\<close>

definition SliceToMap_from :: "string \<Rightarrow> string \<Rightarrow> object \<Rightarrow> object" where
  "SliceToMap_from fld key d =
     (let result = fold (\<lambda>item result.
          (let name = (case obj_get item key of Some (VStr s) \<Rightarrow> s | _ \<Rightarrow> '''') in
           AList.update name (VObject (obj_delete key item)) result))
          (Object_Slice d [fld]) [] in
      if length result > 0 then obj_update fld (VMap result) d else d)"

definition SliceToMap_to :: "string \<Rightarrow> string \<Rightarrow> object \<Rightarrow> object" where
  "SliceToMap_to fld key d =
     (let datas = Object_Map d [fld];
          result = List.map_filter (\<lambda>(name, item).
            case item of VMap mapItem \<Rightarrow> Some (VMap (AList.update key (VStr name) mapItem)) | _ \<Rightarrow> None)
            (obj_read datas) in
      if length result > 0 then obj_update fld (VSlice result) d
      else if datas \<noteq> None then obj_update fld (VSlice result) d
      else d)"

definition Embed_from :: "string \<Rightarrow> string list \<Rightarrow> object \<Rightarrow> object" where
  "Embed_from fld embedded d =
     (let sub = Object_Map d [fld];
          d = fold (\<lambda>fieldName d. case obj_get sub fieldName of
              Some v \<Rightarrow> obj_update fieldName v d | None \<Rightarrow> d) embedded d in
      obj_delete fld d)"

definition Embed_to :: "string \<Rightarrow> bool \<Rightarrow> string list \<Rightarrow> object \<Rightarrow> object" where
  "Embed_to fld emptyOk embedded d =
     (case d of
        None \<Rightarrow> None
      | Some m \<Rightarrow>
          (let (sub, m) = fold (\<lambda>fieldName (sub, m).
               ((case map_of m fieldName of Some v \<Rightarrow> AList.update fieldName v sub | None \<Rightarrow> sub),
                AList.delete fieldName m)) embedded ([], m) in
           if length sub = 0 then
             (if emptyOk then Some (AList.update fld VNil m) else Some m)
           else Some (AList.update fld (VMap sub) m)))"

definition JSONKeys_to :: "(string \<Rightarrow> string) \<Rightarrow> object \<Rightarrow> object" where
  "JSONKeys_to title d =
     fold (\<lambda>key d.
        (let newKey = ToJSONKey title key in
         if newKey \<noteq> key
         then obj_delete key (obj_update newKey (case obj_get d key of Some v \<Rightarrow> v | None \<Rightarrow> VNil) d)
         else d)) (map fst (obj_read d)) d"

definition Drop_from :: "string \<Rightarrow> object \<Rightarrow> object" where
  [simp]: "Drop_from fld d = obj_delete fld d"

definition Alias_to :: "string \<Rightarrow> string list \<Rightarrow> object \<Rightarrow> object" where
  [simp]: "Alias_to fld names d = fold (\<lambda>name d. case obj_get d name of
     Some v \<Rightarrow> obj_update fld v (obj_delete name d) | None \<Rightarrow> d) names d"

definition Enum_to :: "string \<Rightarrow> (string \<times> string) list \<Rightarrow> object \<Rightarrow> object \<times> goerr option" where
  [simp]: "Enum_to fld vals d =
     (case obj_get d fld of
        None \<Rightarrow> (d, None)
      | Some v \<Rightarrow>
          (case map_of vals (normalize (ToString v)) of
             None \<Rightarrow> (d, Some (Err (Sprint v @ '' is not a valid value for field '' @ fld)))
           | Some newValue \<Rightarrow> (obj_update fld (VStr newValue) d, None)))"

text \<open>\<open>SetValue\<close> writes its external value on the way out and its internal value on the way in.\<close>

definition set_value :: "string \<Rightarrow> val \<Rightarrow> object \<Rightarrow> object" where
  [simp]: "set_value fld v d = (if d \<noteq> None \<and> v \<noteq> VNil then obj_update fld v d else d)"

fun FromInternal :: "mapper \<Rightarrow> object \<Rightarrow> object" where
  "FromInternal (Access _ _) d = d"
| "FromInternal (AliasField _ _) d = d"
| "FromInternal (DefaultMapper _) d = d"
| "FromInternal (Drop fld _) d = Drop_from fld d"
| "FromInternal (Embed fld _ _ _ _ embedded _) d = Embed_from fld embedded d"
| "FromInternal EmptyMapper d = d"
| "FromInternal (Enum _ _) d = d"
| "FromInternal (Exists _ m enabled) d = (if enabled then FromInternal m d else d)"
| "FromInternal JSONKeys d = d"
| "FromInternal (Move _ from to _ _ _) d = Move_path from to d"
| "FromInternal (SetValue fld _ external) d = set_value fld external d"
| "FromInternal (SliceToMap fld key) d = SliceToMap_from fld key d"
| "FromInternal (Mappers ms) d = fold FromInternal ms d"

text \<open>\<open>Mappers.ToInternal\<close> goes through the list from its end and collects the errors.\<close>

fun ToInternal :: "(string \<Rightarrow> string) \<Rightarrow> mapper \<Rightarrow> object \<Rightarrow> object \<times> goerr option" where
  "ToInternal title (Access _ _) d = (d, None)"
| "ToInternal title (AliasField fld names) d = (Alias_to fld names d, None)"
| "ToInternal title (DefaultMapper _) d = (d, None)"
| "ToInternal title (Drop _ _) d = (d, None)"
| "ToInternal title (Embed fld _ _ _ _ embedded emptyOk) d = (Embed_to fld emptyOk embedded d, None)"
| "ToInternal title EmptyMapper d = (d, None)"
| "ToInternal title (Enum fld vals) d = Enum_to fld vals d"
| "ToInternal title (Exists _ m enabled) d = (if enabled then ToInternal title m d else (d, None))"
| "ToInternal title JSONKeys d = (JSONKeys_to title d, None)"
| "ToInternal title (Move _ from to _ _ _) d = (Move_path to from d, None)"
| "ToInternal title (SetValue fld internal _) d = (set_value fld internal d, None)"
| "ToInternal title (SliceToMap fld key) d = (SliceToMap_to fld key d, None)"
| "ToInternal title (Mappers ms) d =
     (case fold (\<lambda>m (d, errs). case ToInternal title m d of (d, err) \<Rightarrow> (d, errs @ [err])) (rev ms) (d, []) of
        (d, errs) \<Rightarrow> (d, NewErrors errs))"

text \<open>\<open>copy.go\<close> and \<open>condition.go\<close>: their methods take a \<open>map[string]interface{}\<close>, so they do not
  have the method set of \<open>Mapper\<close> and cannot be elements of a list of mappers.\<close>

definition Copy_FromInternal :: "string \<Rightarrow> string \<Rightarrow> object \<Rightarrow> object" where
  "Copy_FromInternal from to d =
     (if d = None then d
      else case obj_get d from of Some v \<Rightarrow> obj_update to v d | None \<Rightarrow> d)"

definition Copy_ToInternal :: "string \<Rightarrow> string \<Rightarrow> object \<Rightarrow> object" where
  "Copy_ToInternal from to d =
     (if d = None then d
      else case obj_get d to of
        Some t \<Rightarrow> if obj_get d from = None then obj_update from t d else d
      | None \<Rightarrow> d)"

text \<open>Comparing two interface values panics when both hold the same type and it is not
  comparable.\<close>

definition iface_eq :: "val \<Rightarrow> val \<Rightarrow> bool option" where
  "iface_eq a b =
     (case (a, b) of
        (VSlice _, VSlice _) \<Rightarrow> None
      | (VMap _, VMap _) \<Rightarrow> None
      | (VStrs _, VStrs _) \<Rightarrow> None
      | (VBytes _, VBytes _) \<Rightarrow> None
      | (VObject _, VObject _) \<Rightarrow> None
      | _ \<Rightarrow> Some (a = b))"

definition Condition_FromInternal :: "string \<Rightarrow> val \<Rightarrow> mapper \<Rightarrow> object \<Rightarrow> object option" where
  "Condition_FromInternal fld v m d =
     map_option (\<lambda>eq. if eq then FromInternal m d else d)
       (iface_eq (case obj_get d fld of Some x \<Rightarrow> x | None \<Rightarrow> VNil) v)"

definition Condition_ToInternal ::
    "(string \<Rightarrow> string) \<Rightarrow> string \<Rightarrow> val \<Rightarrow> mapper \<Rightarrow> object \<Rightarrow> (object \<times> goerr option) option" where
  "Condition_ToInternal title fld v m d =
     map_option (\<lambda>eq. if eq then ToInternal title m d else (d, None))
       (iface_eq (case obj_get d fld of Some x \<Rightarrow> x | None \<Rightarrow> VNil) v)"

end
