(* ===== verification/Schema_Store.thy ===== *)
theory Schema_Store
  imports Schema_Mappers
begin

section \<open>The schema registry: pkg/schemas\<close>

text \<open>
  \<open>pkg/schemas/schemas.go\<close>, \<open>mapper.go\<close>, \<open>types.go\<close> and the \<open>ModifySchema\<close> methods of
  \<open>pkg/schemas/mappers\<close>. A \<open>*Schema\<close> is an index of the heap, a list of schemas that only grows;
  \<open>InternalSchema\<close>, which nothing changes after it was made, is kept as a value. A registered
  mapper belongs to one schema, so a mapper that \<open>ModifySchema\<close> changes is kept as a value too.
  A \<open>reflect.Type\<close> is a number. The mutex of a registry is its flag \<open>rg_locked\<close>: \<open>None\<close> is the result of a call that never
  comes back, because it locks a mutex that is held, and of a panic.
\<close>

subsection \<open>types.go\<close>

record typeMapper =
  tm_Mappers :: "mapper list"
  tm_root :: bool
  tm_typeName :: string
  tm_subSchemas :: "(string \<times> nat) list"
  tm_subArraySchemas :: "(string \<times> nat) list"
  tm_subMapSchemas :: "(string \<times> nat) list"

datatype smapper = TypeMapper typeMapper | PlainMapper mapper

record schema_core =
  sm_ID :: string
  sm_Description :: string
  sm_CodeName :: string
  sm_CodeNamePlural :: string
  sm_PkgName :: string
  sm_PluralName :: string
  sm_ResourceMethods :: "string list"
  sm_ResourceFields :: "fields option"
  sm_ResourceActions :: "(string \<times> action) list option"
  sm_CollectionMethods :: "string list"
  sm_CollectionFields :: "fields option"
  sm_CollectionActions :: "(string \<times> action) list option"
  sm_Attributes :: "gomap option"
  sm_ResourcePermissions :: "(string \<times> verbs option) list option"
  sm_Mapper :: "smapper option"

datatype schema = Schema (core: schema_core) (InternalSchema: "schema option")

type_synonym heap = "schema list"

definition fields_of :: "schema_core \<Rightarrow> fields" where
  "fields_of c = (case sm_ResourceFields c of None \<Rightarrow> [] | Some fs \<Rightarrow> fs)"

definition copy_map :: "('k \<times> 'v) list \<Rightarrow> ('k \<times> 'v) list" where
  "copy_map m = fold (\<lambda>(k, v) r. AList.update k v r) m []"

definition copy_verbs :: "verbs option \<Rightarrow> verbs option" where
  "copy_verbs perms = Some (copy_map (case perms of None \<Rightarrow> [] | Some vs \<Rightarrow> vs))"

fun DeepCopy :: "schema \<Rightarrow> schema" where
  "DeepCopy (Schema c i) =
     Schema (c\<lparr>sm_ResourceFields := map_option copy_map (sm_ResourceFields c),
               sm_ResourceActions := map_option copy_map (sm_ResourceActions c),
               sm_CollectionFields := map_option copy_map (sm_CollectionFields c),
               sm_CollectionActions := map_option copy_map (sm_CollectionActions c),
               sm_Attributes := map_option copy_map (sm_Attributes c),
               sm_ResourcePermissions :=
                 map_option (\<lambda>rp. copy_map (map (\<lambda>(res, perms). (res, copy_verbs perms)) rp))
                   (sm_ResourcePermissions c)\<rparr>)
       (map_option DeepCopy i)"

definition SetHasObservedGeneration :: "schema option \<Rightarrow> bool \<Rightarrow> schema option" where
  "SetHasObservedGeneration s value =
     map_option (\<lambda>s. case s of Schema c i \<Rightarrow>
       Schema (c\<lparr>sm_Attributes := Some (AList.update ''hasObservedGeneration'' (VBool value)
         (case sm_Attributes c of None \<Rightarrow> [] | Some a \<Rightarrow> a))\<rparr>) i) s"

definition HasObservedGeneration :: "schema option \<Rightarrow> bool" where
  "HasObservedGeneration s =
     (case s of
        None \<Rightarrow> False
      | Some s \<Rightarrow> (case sm_Attributes (core s) of
          None \<Rightarrow> False
        | Some a \<Rightarrow> ToBool (case map_of a ''hasObservedGeneration'' of Some v \<Rightarrow> v | None \<Rightarrow> VNil)))"

subsection \<open>The registry\<close>

record registry =
  rg_processingTypes :: "(nat \<times> nat) list"
  rg_typeNames :: "(nat \<times> string) list"
  rg_schemasByID :: "(string \<times> nat) list"
  rg_mappers :: "(string \<times> mapper list) list"
  rg_fieldMappers :: "(string \<times> (string \<Rightarrow> string list \<Rightarrow> mapper)) list option"
  rg_DefaultMapper :: "mapper option"
  rg_DefaultPostMapper :: "mapper option"
  rg_schemas :: "nat list"
  rg_locked :: bool

definition registry0 :: registry where
  "registry0 = \<lparr>rg_processingTypes = [], rg_typeNames = [], rg_schemasByID = [], rg_mappers = [], rg_fieldMappers = None,
     rg_DefaultMapper = None, rg_DefaultPostMapper = None, rg_schemas = [], rg_locked = False\<rparr>"

definition upd_core :: "nat \<Rightarrow> (schema_core \<Rightarrow> schema_core) \<Rightarrow> heap \<Rightarrow> heap" where
  "upd_core p f H = H[p := (case H ! p of Schema c i \<Rightarrow> Schema (f c) i)]"

definition set_fields :: "nat \<Rightarrow> (fields \<Rightarrow> fields) \<Rightarrow> heap \<Rightarrow> heap" where
  "set_fields p f = upd_core p (\<lambda>c. c\<lparr>sm_ResourceFields := map_option f (sm_ResourceFields c)\<rparr>)"

text \<open>\<open>schema.ResourceFields[name] = field\<close>, a panic on the nil map.\<close>

definition put_field :: "nat \<Rightarrow> string \<Rightarrow> field \<Rightarrow> heap \<Rightarrow> heap option" where
  "put_field p name fld H =
     (if sm_ResourceFields (core (H ! p)) = None then None
      else Some (set_fields p (AList.update name fld) H))"

definition get_field :: "heap \<Rightarrow> nat \<Rightarrow> string \<Rightarrow> field option" where
  "get_field H p name = map_of (fields_of (core (H ! p))) name"

definition field_or_zero :: "field option \<Rightarrow> field" where
  "field_or_zero fld = (case fld of Some f \<Rightarrow> f | None \<Rightarrow> field0)"

definition find_schema :: "registry \<Rightarrow> heap \<Rightarrow> string \<Rightarrow> nat option" where
  "find_schema R H name =
     (case map_of (rg_schemasByID R) name of
        Some p \<Rightarrow> Some p
      | None \<Rightarrow>
          List.find (\<lambda>p. EqualFold (sm_ID (core (H ! p))) name
            \<or> EqualFold (sm_PluralName (core (H ! p))) name) (rg_schemas R))"

definition doSchema :: "registry \<Rightarrow> heap \<Rightarrow> string \<Rightarrow> bool \<Rightarrow> nat option option" where
  "doSchema R H name lock = (if lock \<and> rg_locked R then None else Some (find_schema R H name))"

definition rg_Schema :: "registry \<Rightarrow> heap \<Rightarrow> string \<Rightarrow> nat option option" where
  "rg_Schema R H name = doSchema R H name True"

definition AddFieldMapper ::
    "string \<Rightarrow> (string \<Rightarrow> string list \<Rightarrow> mapper) \<Rightarrow> registry \<Rightarrow> registry" where
  "AddFieldMapper name factory R =
     R\<lparr>rg_fieldMappers := Some (AList.update name factory
        (case rg_fieldMappers R of None \<Rightarrow> [] | Some fm \<Rightarrow> fm))\<rparr>"

definition rg_mapper :: "registry \<Rightarrow> string \<Rightarrow> mapper list" where
  "rg_mapper R schemaID = (case map_of (rg_mappers R) schemaID of Some ms \<Rightarrow> ms | None \<Rightarrow> [])"

definition AddMapper :: "string \<Rightarrow> mapper \<Rightarrow> registry \<Rightarrow> registry" where
  "AddMapper schemaID m R =
     R\<lparr>rg_mappers := AList.update schemaID (rg_mapper R schemaID @ [m]) (rg_mappers R)\<rparr>"

definition doRemoveSchema :: "string \<Rightarrow> registry \<Rightarrow> registry" where
  "doRemoveSchema schemaID R = R\<lparr>rg_schemasByID := AList.delete schemaID (rg_schemasByID R)\<rparr>"

definition RemoveSchema :: "string \<Rightarrow> registry \<Rightarrow> registry option" where
  "RemoveSchema schemaID R = (if rg_locked R then None else Some (doRemoveSchema schemaID R))"

subsection \<open>ModifySchema of the mappers\<close>

definition ValidateField :: "string \<Rightarrow> nat \<Rightarrow> heap \<Rightarrow> goerr option" where
  "ValidateField fld p H =
     (if get_field H p fld = None
      then Some (Err (''field '' @ fld @ '' missing on schema '' @ sm_ID (core (H ! p)))) else None)"

fun Access_modify :: "(string \<times> string) list \<Rightarrow> bool \<Rightarrow> nat \<Rightarrow> heap \<Rightarrow> goerr option \<times> heap" where
  "Access_modify [] optional p H = (None, H)"
| "Access_modify ((name, access) # fs) optional p H =
     (case ValidateField name p H of
        Some err \<Rightarrow> if optional then Access_modify fs optional p H else (Some err, H)
      | None \<Rightarrow>
          (let fld = (field_or_zero (get_field H p name))\<lparr>f_Create := Contains access ''c'',
                 f_Update := Contains access ''u'', f_WriteOnly := Contains access ''o''\<rparr> in
           Access_modify fs optional p (set_fields p (AList.update name fld) H)))"

fun Alias_modify :: "string list \<Rightarrow> nat \<Rightarrow> heap \<Rightarrow> heap option" where
  "Alias_modify [] p H = Some H"
| "Alias_modify (name # names) p H = Option.bind (put_field p name field0 H) (Alias_modify names p)"

text \<open>\<open>getField\<close>: the schema a path of field names ends in, and the field there.\<close>

fun getField_loop :: "registry \<Rightarrow> heap \<Rightarrow> nat \<Rightarrow> string list \<Rightarrow> (nat \<times> string \<times> field \<times> bool) result option" where
  "getField_loop R H p [] = Some (Inr (p, '''', field0, False))"
| "getField_loop R H p [name] =
     Some (Inr (p, name, field_or_zero (get_field H p name), get_field H p name \<noteq> None))"
| "getField_loop R H p (part # parts) =
     (let fieldType = f_Type (field_or_zero (get_field H p part));
          fieldType = (if IsArrayType fieldType then SubType fieldType else fieldType) in
      Option.bind (rg_Schema R H fieldType) (\<lambda>sub.
        case sub of
          None \<Rightarrow> Some (Inl (Err (''failed to find field or schema for '' @ part @ '' on ''
                    @ sm_ID (core (H ! p)))))
        | Some q \<Rightarrow> getField_loop R H q parts))"

definition getField :: "registry \<Rightarrow> heap \<Rightarrow> nat \<Rightarrow> string \<Rightarrow> (nat \<times> string \<times> field \<times> bool) result option" where
  "getField R H p target = getField_loop R H p (Split target ''/'')"

text \<open>The loop of \<open>Embed.ModifySchema\<close> over the fields of the embedded schema: the error, the
  embedded fields, whether the field itself is to be deleted, and the heap.\<close>

fun Embed_loop ::
    "string \<Rightarrow> bool \<Rightarrow> string list \<Rightarrow> bool \<Rightarrow> fields \<Rightarrow> nat \<Rightarrow> string list \<Rightarrow> bool \<Rightarrow> heap
     \<Rightarrow> (goerr option \<times> string list \<times> bool \<times> heap) option" where
  "Embed_loop fld readOnly ignored override [] p embedded del H = Some (None, embedded, del, H)"
| "Embed_loop fld readOnly ignored override ((name, f) # fs) p embedded del H =
     (if name \<in> set ignored then Embed_loop fld readOnly ignored override fs p embedded del H
      else if name \<noteq> fld \<and> \<not> override \<and> get_field H p name \<noteq> None then
        Some (Some (Err (''embedding field '' @ fld @ '' on '' @ sm_ID (core (H ! p))
          @ '' will overwrite the field '' @ name)), embedded, del, H)
      else
        (let f = (if readOnly then f\<lparr>f_Create := False, f_Update := False\<rparr> else f) in
         Option.bind (put_field p name f H)
           (Embed_loop fld readOnly ignored override fs p (embedded @ [name]) (del \<and> name \<noteq> fld))))"

definition Embed_modify ::
    "string \<Rightarrow> bool \<Rightarrow> bool \<Rightarrow> string list \<Rightarrow> bool \<Rightarrow> string list \<Rightarrow> registry \<Rightarrow> nat \<Rightarrow> heap
     \<Rightarrow> (goerr option \<times> string list \<times> heap) option" where
  "Embed_modify fld optional readOnly ignored override old R p H =
     (case ValidateField fld p H of
        Some err \<Rightarrow> Some (if optional then None else Some err, old, H)
      | None \<Rightarrow>
          (let embeddedSchemaID = f_Type (field_or_zero (get_field H p fld)) in
           Option.bind (rg_Schema R H embeddedSchemaID) (\<lambda>sub.
             case sub of
               None \<Rightarrow> Some (if optional then None
                 else Some (Err (''failed to find schema '' @ embeddedSchemaID @ '' for embedding'')), [], H)
             | Some q \<Rightarrow>
                 Option.bind (Embed_loop fld readOnly ignored override (fields_of (core (H ! q))) p [] True H)
                   (\<lambda>(err, embedded, deleteField, H).
                     case err of
                       Some _ \<Rightarrow> Some (err, embedded, H)
                     | None \<Rightarrow> Some (None, embedded,
                         if deleteField then set_fields p (AList.delete fld) H else H)))))"

definition Move_modify ::
    "bool \<Rightarrow> string \<Rightarrow> string \<Rightarrow> string \<Rightarrow> bool \<Rightarrow> bool \<Rightarrow> registry \<Rightarrow> nat \<Rightarrow> heap
     \<Rightarrow> (goerr option \<times> heap) option" where
  "Move_modify optional from to codeName destDefined noDelete R p H =
     Option.bind (getField R H p from) (\<lambda>r. case r of
       Inl err \<Rightarrow> Some (Some err, H)
     | Inr (fromSchema, _, fromField, ok) \<Rightarrow>
         if \<not> ok then
           Some (if optional then None
             else Some (Err (''failed to find field '' @ from @ '' on schema '' @ sm_ID (core (H ! p)))), H)
         else
           Option.bind (getField R H p to) (\<lambda>r. case r of
             Inl err \<Rightarrow> Some (Some err, H)
           | Inr (toSchema, toFieldName, _, _) \<Rightarrow>
               if get_field H toSchema toFieldName \<noteq> None \<and> \<not> Contains to ''/'' \<and> \<not> destDefined then
                 Some (Some (Err (''field '' @ to @ '' already exists on schema '' @ sm_ID (core (H ! p)))), H)
               else
                 (let H = (if \<not> noDelete then set_fields fromSchema (AList.delete from) H else H);
                      fld = fromField\<lparr>f_CodeName := if codeName = '''' then Capitalize toFieldName else codeName\<rparr> in
                  if destDefined then Some (None, H)
                  else Option.bind (put_field toSchema toFieldName fld H) (\<lambda>H. Some (None, H)))))"

definition SliceToMap_modify ::
    "string \<Rightarrow> string \<Rightarrow> registry \<Rightarrow> nat \<Rightarrow> heap \<Rightarrow> (goerr option \<times> heap) option" where
  "SliceToMap_modify fld key R p H =
     (case ValidateField fld p H of
        Some err \<Rightarrow> Some (Some err, H)
      | None \<Rightarrow>
          Option.bind (getField R H p (fld @ ''/'' @ key)) (\<lambda>r. case r of
            Inl err \<Rightarrow> Some (Some err, H)
          | Inr (subSchema, subFieldName, _, _) \<Rightarrow>
              (let f = field_or_zero (get_field H p fld) in
               if \<not> IsArrayType (f_Type f) then
                 Some (Some (Err (''field '' @ fld @ '' on '' @ sm_ID (core (H ! p)) @ '' is not an array'')), H)
               else
                 (let f = f\<lparr>f_Type := ''map['' @ SubType (f_Type f) @ '']''\<rparr>;
                      H = set_fields p (AList.update fld f) H in
                  Some (None, set_fields subSchema (AList.delete subFieldName) H)))))"

definition Drop_modify :: "string \<Rightarrow> bool \<Rightarrow> nat \<Rightarrow> heap \<Rightarrow> goerr option \<times> heap" where
  [simp]: "Drop_modify fld optional p H =
     (if get_field H p fld = None \<and> \<not> optional then
        (Some (Err (''can not drop missing field '' @ fld @ '' on '' @ sm_ID (core (H ! p)))), H)
      else (None, set_fields p (AList.delete fld) H))"

definition Default_modify :: "string \<Rightarrow> nat \<Rightarrow> heap \<Rightarrow> goerr option" where
  [simp]: "Default_modify fld p H = (if fld \<noteq> '''' then ValidateField fld p H else None)"

definition Copy_ModifySchema :: "string \<Rightarrow> string \<Rightarrow> nat \<Rightarrow> heap \<Rightarrow> (goerr option \<times> heap) option" where
  "Copy_ModifySchema from to p H =
     (case get_field H p from of
        None \<Rightarrow> Some (Some (Err (''field '' @ from @ '' missing on schema '' @ sm_ID (core (H ! p)))), H)
      | Some f \<Rightarrow> map_option (Pair None) (put_field p to f H))"

fun ModifySchema :: "mapper \<Rightarrow> registry \<Rightarrow> nat \<Rightarrow> heap \<Rightarrow> (mapper \<times> goerr option \<times> heap) option" where
  "ModifySchema (Access fs optional) R p H =
     (case Access_modify fs optional p H of (err, H) \<Rightarrow> Some (Access fs optional, err, H))"
| "ModifySchema (AliasField fld names) R p H =
     map_option (\<lambda>H. (AliasField fld names, ValidateField fld p H, H)) (Alias_modify names p H)"
| "ModifySchema (DefaultMapper fld) R p H = Some (DefaultMapper fld, Default_modify fld p H, H)"
| "ModifySchema (Drop fld optional) R p H = Some (Drop fld optional, Drop_modify fld optional p H)"
| "ModifySchema (Embed fld optional readOnly ignored override embedded emptyOk) R p H =
     map_option (\<lambda>(err, embedded, H). (Embed fld optional readOnly ignored override embedded emptyOk, err, H))
       (Embed_modify fld optional readOnly ignored override embedded R p H)"
| "ModifySchema EmptyMapper R p H = Some (EmptyMapper, None, H)"
| "ModifySchema (Enum fld vals) R p H = Some (Enum fld vals, Default_modify fld p H, H)"
| "ModifySchema (Exists fld m enabled) R p H =
     (if get_field H p fld \<noteq> None then
        map_option (\<lambda>(m, r). (Exists fld m True, r)) (ModifySchema m R p H)
      else Some (Exists fld m enabled, None, H))"
| "ModifySchema JSONKeys R p H = Some (JSONKeys, None, H)"
| "ModifySchema (Move optional from to codeName destDefined noDelete) R p H =
     map_option (Pair (Move optional from to codeName destDefined noDelete))
       (Move_modify optional from to codeName destDefined noDelete R p H)"
| "ModifySchema (SetValue fld internal external) R p H =
     Some (SetValue fld internal external, ValidateField fld p H, H)"
| "ModifySchema (SliceToMap fld key) R p H =
     map_option (Pair (SliceToMap fld key)) (SliceToMap_modify fld key R p H)"
| "ModifySchema (Mappers []) R p H = Some (Mappers [], None, H)"
| "ModifySchema (Mappers (m # ms)) R p H =
     Option.bind (ModifySchema m R p H) (\<lambda>(m, err, H).
       case err of
         Some _ \<Rightarrow> Some (Mappers (m # ms), err, H)
       | None \<Rightarrow> map_option (\<lambda>(m', r). case m' of Mappers ms' \<Rightarrow> (Mappers (m # ms'), r) | _ \<Rightarrow> (m', r))
           (ModifySchema (Mappers ms) R p H))"

subsection \<open>typeMapper and assignMappers\<close>

definition canList :: "schema_core \<Rightarrow> bool" where
  "canList c = ContainsString (sm_CollectionMethods c) ''GET''"

datatype target = TSchema | TArray | TMap

definition field_target :: "string \<Rightarrow> target \<times> string" where
  "field_target fieldType =
     (if IsArrayType fieldType then (TArray, SubType fieldType)
      else if IsMapType fieldType then (TMap, SubType fieldType)
      else (TSchema, fieldType))"

definition sub_schemas :: "target \<Rightarrow> registry \<Rightarrow> heap \<Rightarrow> fields \<Rightarrow> (string \<times> nat) list" where
  "sub_schemas tgt R H fs = List.map_filter (\<lambda>(name, fld).
     case field_target (f_Type fld) of (t, fieldType) \<Rightarrow>
       if t = tgt then map_option (Pair name) (find_schema R H fieldType) else None) fs"

definition typeMapper_ModifySchema ::
    "typeMapper \<Rightarrow> registry \<Rightarrow> nat \<Rightarrow> heap \<Rightarrow> (typeMapper \<times> goerr option \<times> heap) option" where
  "typeMapper_ModifySchema t R p H =
     (let mapperSchema = (case InternalSchema (H ! p) of Some s \<Rightarrow> s | None \<Rightarrow> H ! p);
          fs = fields_of (core mapperSchema);
          t = t\<lparr>tm_typeName := sm_ID (core (H ! p)), tm_subSchemas := sub_schemas TSchema R H fs,
                tm_subArraySchemas := sub_schemas TArray R H fs, tm_subMapSchemas := sub_schemas TMap R H fs\<rparr> in
      map_option (\<lambda>(m, r). (case m of Mappers ms \<Rightarrow> t\<lparr>tm_Mappers := ms\<rparr> | _ \<Rightarrow> t, r))
        (ModifySchema (Mappers (tm_Mappers t)) R p H))"

definition assignMappers :: "registry \<Rightarrow> nat \<Rightarrow> heap \<Rightarrow> (goerr option \<times> heap) option" where
  "assignMappers R p H =
     (if sm_Mapper (core (H ! p)) \<noteq> None then Some (None, H)
      else
        (let mappers = rg_mapper R (sm_ID (core (H ! p)));
             list = canList (core (H ! p));
             mappers = (if list then (case rg_DefaultMapper R of Some m \<Rightarrow> m # mappers | None \<Rightarrow> mappers) else mappers);
             mappers = (if list then (case rg_DefaultPostMapper R of Some m \<Rightarrow> mappers @ [m] | None \<Rightarrow> mappers) else mappers);
             H = (if length mappers > 0 then H[p := Schema (core (H ! p)) (Some (DeepCopy (H ! p)))] else H) in
         Option.bind (typeMapper_ModifySchema \<lparr>tm_Mappers = mappers, tm_root = list, tm_typeName = '''',
             tm_subSchemas = [], tm_subArraySchemas = [], tm_subMapSchemas = []\<rparr> R p H)
           (\<lambda>(t, err, H). case err of
              Some _ \<Rightarrow> Some (err, H)
            | None \<Rightarrow> Some (None, upd_core p (\<lambda>c. c\<lparr>sm_Mapper := Some (TypeMapper t)\<rparr>) H))))"

definition setupDefaults :: "registry \<Rightarrow> nat \<Rightarrow> heap \<Rightarrow> (goerr option \<times> heap) option" where
  "setupDefaults R p H =
     (if sm_ID (core (H ! p)) = '''' then Some (Some (Err ''ID is not set on schema''), H)
      else
        (let H = upd_core p (\<lambda>c. if sm_PluralName c = '''' then c\<lparr>sm_PluralName := GuessPluralName (sm_ID c)\<rparr> else c) H;
             H = upd_core p (\<lambda>c. if sm_CodeName c = '''' then c\<lparr>sm_CodeName := Capitalize (sm_ID c)\<rparr> else c) H;
             H = upd_core p (\<lambda>c. if sm_CodeNamePlural c = '''' then c\<lparr>sm_CodeNamePlural := GuessPluralName (sm_CodeName c)\<rparr> else c) H in
         assignMappers R p H))"

subsection \<open>Adding schemas\<close>

definition doAddSchema :: "schema \<Rightarrow> registry \<Rightarrow> heap \<Rightarrow> (goerr option \<times> registry \<times> heap) option" where
  "doAddSchema s R H =
     (let p = length H in
      Option.bind (setupDefaults R p (H @ [s])) (\<lambda>(err, H).
        case err of
          Some _ \<Rightarrow> Some (err, R, H)
        | None \<Rightarrow>
            (case map_of (rg_schemasByID R) (sm_ID (core (H ! p))) of
               Some existing \<Rightarrow> Some (None, R, H[existing := H ! p])
             | None \<Rightarrow> Some (None,
                 R\<lparr>rg_schemasByID := AList.update (sm_ID (core (H ! p))) p (rg_schemasByID R),
                   rg_schemas := rg_schemas R @ [p]\<rparr>, H))))"

definition AddSchema :: "schema \<Rightarrow> registry \<Rightarrow> heap \<Rightarrow> (goerr option \<times> registry \<times> heap) option" where
  "AddSchema s R H =
     (if rg_locked R then None
      else map_option (\<lambda>(err, R, H). (err, R\<lparr>rg_locked := False\<rparr>, H))
        (doAddSchema s (R\<lparr>rg_locked := True\<rparr>) H))"

definition MustAddSchema :: "schema \<Rightarrow> registry \<Rightarrow> heap \<Rightarrow> (registry \<times> heap) option" where
  "MustAddSchema s R H =
     Option.bind (AddSchema s R H) (\<lambda>(err, R, H). if err = None then Some (R, H) else None)"

text \<open>\<open>AddSchemas\<close> ranges over the list the other registry had when the loop began.\<close>

fun AddSchemas_loop ::
    "nat list \<Rightarrow> goerr option list \<Rightarrow> registry \<Rightarrow> heap \<Rightarrow> (goerr option list \<times> registry \<times> heap) option" where
  "AddSchemas_loop [] errs R H = Some (errs, R, H)"
| "AddSchemas_loop (p # ps) errs R H =
     Option.bind (AddSchema (H ! p) R H) (\<lambda>(err, R, H).
       AddSchemas_loop ps (if err = None then errs else errs @ [err]) R H)"

definition AddSchemas :: "registry \<Rightarrow> registry \<Rightarrow> heap \<Rightarrow> (goerr option \<times> registry \<times> heap) option" where
  "AddSchemas other R H =
     map_option (\<lambda>(errs, r). (NewErrors errs, r)) (AddSchemas_loop (rg_schemas other) [] R H)"

definition MustAddSchemas :: "registry \<Rightarrow> registry \<Rightarrow> heap \<Rightarrow> (registry \<times> heap) option" where
  "MustAddSchemas other R H =
     Option.bind (AddSchemas other R H) (\<lambda>(err, R, H). if err = None then Some (R, H) else None)"

fun NewSchemas_loop ::
    "registry list \<Rightarrow> goerr option list \<Rightarrow> registry \<Rightarrow> heap \<Rightarrow> (goerr option list \<times> registry \<times> heap) option" where
  "NewSchemas_loop [] errs R H = Some (errs, R, H)"
| "NewSchemas_loop (other # others) errs R H =
     Option.bind (AddSchemas other R H) (\<lambda>(err, R, H).
       NewSchemas_loop others (if err = None then errs else errs @ [err]) R H)"

definition NewSchemas :: "registry list \<Rightarrow> heap \<Rightarrow> (goerr option \<times> registry \<times> heap) option" where
  "NewSchemas others H =
     map_option (\<lambda>(errs, r). (NewErrors errs, r)) (NewSchemas_loop others [] registry0 H)"

definition EmptySchemas :: "heap \<Rightarrow> (registry \<times> heap) option" where
  "EmptySchemas H = map_option snd (NewSchemas [] H)"

definition MustCustomizeField :: "nat \<Rightarrow> string \<Rightarrow> (field \<Rightarrow> field) \<Rightarrow> heap \<Rightarrow> heap option" where
  "MustCustomizeField p name f H =
     (case get_field H p name of
        None \<Rightarrow> None
      | Some fld \<Rightarrow> Some (set_fields p (AList.update name (f fld)) H))"

subsection \<open>typeMapper on data\<close>

text \<open>A schema's mapper goes down into the objects of the fields that have schemas of their own.
  The recursion follows pointers between schemas and is not bounded by the data, because a
  missing object is the nil map and is mapped too: \<open>None\<close> says that the fuel did not suffice.
  A nested map that was mapped in place is stored back where it was.\<close>

definition put_sub :: "string \<Rightarrow> object \<Rightarrow> object \<Rightarrow> object" where
  "put_sub k sub d = (case sub of None \<Rightarrow> d | Some m \<Rightarrow> obj_update k (VMap m) d)"

definition put_item :: "string \<Rightarrow> nat \<Rightarrow> object \<Rightarrow> object \<Rightarrow> object" where
  "put_item k i sub d =
     (case sub of
        None \<Rightarrow> d
      | Some m \<Rightarrow> obj_update k (VSlice ((ToInterfaceSlice (GetValueN (obj_read d) [k]))[i := VMap m])) d)"

fun fold_opt :: "('a \<Rightarrow> 'b \<Rightarrow> 'b option) \<Rightarrow> 'a list \<Rightarrow> 'b \<Rightarrow> 'b option" where
  "fold_opt f [] b = Some b"
| "fold_opt f (a # as) b = Option.bind (f a b) (fold_opt f as)"

definition map_entries :: "string \<Rightarrow> object \<Rightarrow> string list" where
  "map_entries k d = map fst (obj_read (Object_Map d [k]))"

definition item_indices :: "string \<Rightarrow> object \<Rightarrow> nat list" where
  "item_indices k d = [0..<length (Object_Slice d [k])]"

definition mapper_at :: "heap \<Rightarrow> nat \<Rightarrow> smapper option" where
  "mapper_at H p = sm_Mapper (core (H ! p))"

fun schema_FromInternal :: "nat \<Rightarrow> heap \<Rightarrow> smapper \<Rightarrow> object \<Rightarrow> object option" where
  "schema_FromInternal 0 H sm d = None"
| "schema_FromInternal (Suc n) H (PlainMapper m) d = Some (FromInternal m d)"
| "schema_FromInternal (Suc n) H (TypeMapper t) d =
     (let one = (\<lambda>p sub. case mapper_at H p of None \<Rightarrow> Some sub | Some sm \<Rightarrow> schema_FromInternal n H sm sub) in
      Option.bind (fold_opt (\<lambda>(k, p) d. map_option (\<lambda>sub. put_sub k sub d) (one p (Object_Map d [k])))
        (tm_subSchemas t) d) (\<lambda>d.
      Option.bind (fold_opt (\<lambda>(k, p) d. fold_opt (\<lambda>key d.
          map_option (\<lambda>sub. put_sub k (put_sub key sub (Object_Map d [k])) d) (one p (Object_Map d [k, key])))
          (map_entries k d) d) (tm_subMapSchemas t) d) (\<lambda>d.
      Option.bind (fold_opt (\<lambda>(k, p) d. fold_opt (\<lambda>i d.
          map_option (\<lambda>sub. put_item k i sub d) (one p (Object_Slice d [k] ! i)))
          (item_indices k d) d) (tm_subArraySchemas t) d) (\<lambda>d.
      Some (FromInternal (Mappers (tm_Mappers t)) d)))))"

definition addError :: "goerr option list \<Rightarrow> goerr option \<Rightarrow> goerr option list" where
  "addError errors err = (if err = None then errors else errors @ [err])"

fun schema_ToInternal ::
    "(string \<Rightarrow> string) \<Rightarrow> nat \<Rightarrow> heap \<Rightarrow> smapper \<Rightarrow> object \<Rightarrow> (object \<times> goerr option) option" where
  "schema_ToInternal title 0 H sm d = None"
| "schema_ToInternal title (Suc n) H (PlainMapper m) d = Some (ToInternal title m d)"
| "schema_ToInternal title (Suc n) H (TypeMapper t) d =
     (let one = (\<lambda>p sub. case mapper_at H p of
            None \<Rightarrow> Some (sub, None) | Some sm \<Rightarrow> schema_ToInternal title n H sm sub) in
      case ToInternal title (Mappers (tm_Mappers t)) d of (d, err) \<Rightarrow>
      Option.bind (fold_opt (\<lambda>(k, p) (d, errors). fold_opt (\<lambda>i (d, errors).
          map_option (\<lambda>(sub, err). (put_item k i sub d, addError errors err)) (one p (Object_Slice d [k] ! i)))
          (item_indices k d) (d, errors)) (tm_subArraySchemas t) (d, addError [] err)) (\<lambda>s.
      Option.bind (fold_opt (\<lambda>(k, p) (d, errors). fold_opt (\<lambda>key (d, errors).
          map_option (\<lambda>(sub, err). (put_sub k (put_sub key sub (Object_Map d [k])) d, addError errors err))
            (one p (Object_Map d [k, key])))
          (map_entries k d) (d, errors)) (tm_subMapSchemas t) s) (\<lambda>s.
      Option.bind (fold_opt (\<lambda>(k, p) (d, errors).
          map_option (\<lambda>(sub, err). (put_sub k sub d, addError errors err)) (one p (Object_Map d [k])))
        (tm_subSchemas t) s) (\<lambda>(d, errors).
      Some (d, NewErrors errors)))))"

end
