(* ===== verification/Schema_Spec.thy ===== *)
theory Schema_Spec
  imports Schema_Store
begin

section \<open>Properties of schemas and mappers\<close>

text \<open>
  What the mappers keep: mapping to the external form and back restores an object, mapped data
  fits the modified schema, and mapping by registered schemas returns.
\<close>

subsection \<open>Objects up to the order of nested maps\<close>

fun canon :: "val \<Rightarrow> val" where
  "canon (VMap m) = VMap (sort_key fst (map (\<lambda>(k, v). (k, canon v)) m))"
| "canon v = v"

definition same_object :: "object \<Rightarrow> object \<Rightarrow> bool" where
  "same_object d e \<longleftrightarrow> (d = None \<longleftrightarrow> e = None) \<and>
     (\<forall>k. map_option canon (obj_get d k) = map_option canon (obj_get e k))"

lemma same_object_refl [simp]: "same_object d d"
  by (simp add: same_object_def)

lemma obj_get_None [simp]: "obj_get None k = None"
  by (simp add: obj_get_def obj_read_def)

lemma obj_get_update [simp]:
  "obj_get (obj_update k v d) k' = (if d \<noteq> None \<and> k' = k then Some v else obj_get d k')"
  by (cases d) (auto simp: obj_get_def obj_read_def obj_update_def map_of_update)

lemma obj_get_delete [simp]:
  "obj_get (obj_delete k d) k' = (if k' = k then None else obj_get d k')"
  by (cases d) (auto simp: obj_get_def obj_read_def obj_delete_def delete_conv')

lemma obj_None_iff [simp]: "obj_update k v d = None \<longleftrightarrow> d = None" "obj_delete k d = None \<longleftrightarrow> d = None"
  by (simp_all add: obj_update_def obj_delete_def)

lemma obj_Some_iff [simp]: "(\<exists>e. obj_update k v d = Some e) \<longleftrightarrow> d \<noteq> None" "(\<exists>e. obj_delete k d = Some e) \<longleftrightarrow> d \<noteq> None"
  by (simp_all add: obj_update_def obj_delete_def)

lemma obj_None [simp]: "obj_update k v None = None" "obj_delete k None = None"
  by simp_all

lemma Object_Map_get: "Object_Map d [k] = (case obj_get d k of Some (VMap m) \<Rightarrow> Some m | _ \<Rightarrow> None)"
  by (auto simp: Object_Map_def obj_get_def GetValueN_def ToMapInterface_def split: option.splits val.splits)

lemma Object_Slice_get:
  "Object_Slice d [k] = (case obj_get d k of Some (VSlice vs) \<Rightarrow> map ToMapInterface vs | _ \<Rightarrow> [])"
  by (auto simp: Object_Slice_def obj_get_def GetValueN_def ToInterfaceSlice_def split: option.splits val.splits)

lemma canon_eq_iff [simp]:
  "canon v = VStr s \<longleftrightarrow> v = VStr s" "canon v = VNil \<longleftrightarrow> v = VNil" "canon v = VSlice vs \<longleftrightarrow> v = VSlice vs"
  by (cases v; simp)+

lemma canon_is_map: "canon v = VMap m \<Longrightarrow> \<exists>m'. v = VMap m'"
  by (cases v) auto

definition flat_name :: "string \<Rightarrow> bool" where
  "flat_name s = (CHR ''/'' \<notin> set s)"

lemma Split_flat: "flat_name s \<Longrightarrow> Split s ''/'' = [s]"
  by (simp add: flat_name_def Split_char_None)

lemma Move_flat:
  assumes "flat_name from" "flat_name to"
  shows "Move_path from to d = (case obj_get d from of
    Some v \<Rightarrow> obj_update to v (obj_delete from d) | None \<Rightarrow> obj_delete from d)"
  using assms
  by (cases d) (auto simp: Move_path_def Split_flat obj_get_def obj_read_def obj_delete_def obj_update_def
      PutValue_def split: option.splits)

subsection \<open>Round trips\<close>

text \<open>The objects on which a mapper loses nothing. Executable, and checked for a list of mappers
  against the object each of them gets.\<close>

fun reversible :: "(string \<Rightarrow> string) \<Rightarrow> mapper \<Rightarrow> object \<Rightarrow> bool" where
  "reversible title (AliasField fld names) d = list_all (\<lambda>n. obj_get d n = None) names"
| "reversible title (Drop fld _) d = (obj_get d fld = None)"
| "reversible title (Embed fld _ _ _ _ embedded emptyOk) d =
     (fld \<notin> set embedded \<and> list_all (\<lambda>n. obj_get d n = None) embedded \<and>
      (case obj_get d fld of
         None \<Rightarrow> \<not> emptyOk \<or> d = None
       | Some VNil \<Rightarrow> emptyOk
       | Some (VMap sub) \<Rightarrow> sub \<noteq> [] \<and> distinct (map fst sub) \<and> list_all (\<lambda>k. k \<in> set embedded) (map fst sub)
       | _ \<Rightarrow> False))"
| "reversible title (Enum fld vals) d =
     (case obj_get d fld of
        None \<Rightarrow> True
      | Some (VStr s) \<Rightarrow> map_of vals (normalize (ToString (VStr s))) = Some s
      | Some _ \<Rightarrow> False)"
| "reversible title (Exists _ m enabled) d = (enabled \<longrightarrow> reversible title m d)"
| "reversible title JSONKeys d = list_all (\<lambda>k. ToJSONKey title k = k) (map fst (obj_read d))"
| "reversible title (Move _ from to _ _ _) d =
     (flat_name from \<and> flat_name to \<and> from \<noteq> to \<and> obj_get d to = None)"
| "reversible title (SetValue fld internal external) d =
     (d = None \<or>
      (if internal = VNil then external = VNil \<or> obj_get d fld = Some external
       else obj_get d fld = Some internal))"
| "reversible title (SliceToMap fld key) d =
     (Object_Slice d [fld] = [] \<and> Object_Map d [fld] = None)"
| "reversible title (Mappers []) d = True"
| "reversible title (Mappers (m # ms)) d =
     (reversible title m d \<and> reversible title (Mappers ms) (FromInternal m d))"
| "reversible title _ d = True"

text \<open>The contract of a mapper, and what it gives for a chain of them: each undoes its change even
  when later mappers hand the object back with its nested maps in another order.\<close>

locale mapper_chain =
  fixes eqv :: "'d \<Rightarrow> 'd \<Rightarrow> bool" and from_int :: "'m \<Rightarrow> 'd \<Rightarrow> 'd" and to_int :: "'m \<Rightarrow> 'd \<Rightarrow> 'd"
    and ok :: "'m \<Rightarrow> 'd \<Rightarrow> bool"
  assumes eqv_refl: "eqv d d"
    and undo: "ok m d \<Longrightarrow> eqv e (from_int m d) \<Longrightarrow> eqv (to_int m e) d"
begin

fun chain_ok :: "'m list \<Rightarrow> 'd \<Rightarrow> bool" where
  "chain_ok [] d = True"
| "chain_ok (m # ms) d = (ok m d \<and> chain_ok ms (from_int m d))"

lemma undo_chain:
  "chain_ok ms d \<Longrightarrow> eqv e (fold from_int ms d) \<Longrightarrow> eqv (fold to_int (rev ms) e) d"
  by (induction ms arbitrary: d) (auto intro: undo)

lemma chain_restores: "chain_ok ms d \<Longrightarrow> eqv (fold to_int (rev ms) (fold from_int ms d)) d"
  by (rule undo_chain) (simp_all add: eqv_refl)

end

subsubsection \<open>The mappers fulfil the contract\<close>

lemma sort_key_set_eq:
  assumes "distinct (map fst a)" "distinct (map fst b)" "set a = set b"
  shows "sort_key fst a = sort_key fst (b :: (string \<times> 'v) list)"
proof (rule map_sorted_distinct_set_unique[of fst])
  show "inj_on fst (set (sort_key fst a) \<union> set (sort_key fst b))"
    using assms by (simp add: distinct_map)
qed (use assms in \<open>auto simp: distinct_map\<close>)

lemma map_of_map_snd: "map_of (map (\<lambda>(k, v). (k, f v)) m) k = map_option f (map_of m k)"
  by (induction m) auto

lemma canon_map_eq:
  assumes "distinct (map fst a)" "distinct (map fst b)"
    and "\<And>k. map_option canon (map_of a k) = map_option canon (map_of b k)"
  shows "canon (VMap a) = canon (VMap b)"
proof -
  let ?c = "map (\<lambda>(k, v). (k, canon v))"
  have d: "distinct (map fst (?c m)) = distinct (map fst m)" for m
    by (simp add: comp_def case_prod_unfold)
  have "map_of (?c a) = map_of (?c b)" by (simp add: map_of_map_snd assms(3) fun_eq_iff)
  then have "set (?c a) = set (?c b)"
    using d[of a] d[of b] assms(1,2) by (metis map_of_eqI map_of_inject_set)
  then have "sort_key fst (?c a) = sort_key fst (?c b)"
    by (intro sort_key_set_eq) (use d[of a] d[of b] assms(1,2) in simp_all)
  then show ?thesis by simp
qed

lemma Embed_from_get:
  "obj_get (Embed_from fld embedded d) k =
     (if k = fld then None
      else if k \<in> set embedded \<and> d \<noteq> None \<and> obj_get (Object_Map d [fld]) k \<noteq> None
      then obj_get (Object_Map d [fld]) k else obj_get d k)"
proof -
  have "obj_get (fold (\<lambda>fieldName d. case obj_get sub fieldName of
            Some v \<Rightarrow> obj_update fieldName v d | None \<Rightarrow> d) embedded e) k =
      (if k \<in> set embedded \<and> e \<noteq> None \<and> obj_get sub k \<noteq> None then obj_get sub k else obj_get e k)" for sub e
    by (induction embedded arbitrary: e) (auto split: option.split)
  then show ?thesis by (simp add: Embed_from_def Let_def)
qed

lemma Embed_from_None [simp]: "Embed_from fld embedded d = None \<longleftrightarrow> d = None"
proof -
  have "fold (\<lambda>fieldName d. case obj_get sub fieldName of
            Some v \<Rightarrow> obj_update fieldName v d | None \<Rightarrow> d) embedded e = None \<longleftrightarrow> e = None" for sub e
    by (induction embedded arbitrary: e) (auto split: option.split)
  then show ?thesis by (simp add: Embed_from_def Let_def)
qed

definition split_off :: "string list \<Rightarrow> gomap \<Rightarrow> gomap \<times> gomap" where
  "split_off embedded m = fold (\<lambda>fieldName (sub, m).
     ((case map_of m fieldName of Some v \<Rightarrow> AList.update fieldName v sub | None \<Rightarrow> sub),
      AList.delete fieldName m)) embedded ([], m)"

lemma split_off_spec:
  "distinct (map fst (fst (split_off embedded m))) \<and>
   map_of (fst (split_off embedded m)) k = (if k \<in> set embedded then map_of m k else None) \<and>
   map_of (snd (split_off embedded m)) k = (if k \<in> set embedded then None else map_of m k)"
proof -
  let ?f = "\<lambda>fieldName (sub, m).
     ((case map_of m fieldName of Some v \<Rightarrow> AList.update fieldName v sub | None \<Rightarrow> sub),
      AList.delete fieldName m)"
  have "distinct (map fst sub) \<Longrightarrow> \<forall>k. map_of m k = None \<or> map_of sub k = None \<Longrightarrow>
     distinct (map fst (fst (fold ?f embedded (sub, m)))) \<and>
     map_of (fst (fold ?f embedded (sub, m))) k =
       (if k \<in> set embedded \<and> map_of m k \<noteq> None then map_of m k else map_of sub k) \<and>
     map_of (snd (fold ?f embedded (sub, m))) k = (if k \<in> set embedded then None else map_of m k)" for sub m
  proof (induction embedded arbitrary: sub m)
    case (Cons x embedded)
    let ?sub = "case map_of m x of Some v \<Rightarrow> AList.update x v sub | None \<Rightarrow> sub"
    have 1: "distinct (map fst ?sub)"
      using Cons.prems(1) by (auto simp: distinct_update split: option.split)
    have 2: "\<forall>k. map_of (AList.delete x m) k = None \<or> map_of ?sub k = None"
      using Cons.prems(2) by (auto simp: delete_conv' map_of_update split: option.split)
    show ?case
      using Cons.IH[OF 1 2]
      by (auto simp: delete_conv' map_of_update split: option.split)
  qed simp
  from this[of "[]" m] show ?thesis by (auto simp: split_off_def)
qed

lemma Embed_to_split:
  "Embed_to fld emptyOk embedded (Some m) =
     (case split_off embedded m of (sub, m) \<Rightarrow>
        if sub = [] then (if emptyOk then Some (AList.update fld VNil m) else Some m)
        else Some (AList.update fld (VMap sub) m))"
  by (simp add: Embed_to_def split_off_def case_prod_unfold Let_def)

lemma same_object_get:
  "same_object e d \<Longrightarrow> map_option canon (obj_get e k) = map_option canon (obj_get d k)"
  by (simp add: same_object_def)

lemma same_object_present: "same_object e d \<Longrightarrow> obj_get e k = None \<longleftrightarrow> obj_get d k = None"
  using same_object_get[of e d k] by (cases "obj_get e k"; cases "obj_get d k") auto

lemma same_object_None: "same_object e d \<Longrightarrow> e = None \<longleftrightarrow> d = None"
  by (simp add: same_object_def)

lemma undo_Embed:
  assumes ok: "reversible title (Embed fld opt ro ign ovr embedded emptyOk) d"
    and e: "same_object e (Embed_from fld embedded d)"
  shows "same_object (Embed_to fld emptyOk embedded e) d"
proof (cases e)
  case None
  then have "d = None" using same_object_None[OF e] by simp
  with None show ?thesis by (simp add: Embed_to_def)
next
  case (Some m)
  let ?sub = "fst (split_off embedded m)" and ?m = "snd (split_off embedded m)"
  have d: "d \<noteq> None" using same_object_None[OF e] Some by simp
  have emb: "fld \<notin> set embedded" "\<And>n. n \<in> set embedded \<Longrightarrow> obj_get d n = None"
    using ok by (auto simp: list_all_iff)
  have ge: "map_option canon (map_of m k) = map_option canon (obj_get (Embed_from fld embedded d) k)" for k
    using same_object_get[OF e, of k] Some by (simp add: obj_get_def obj_read_def)
  note sp = split_off_spec[of embedded m]
  have sub: "map_option canon (map_of ?sub k)
      = (if k \<in> set embedded then map_option canon (obj_get (Object_Map d [fld]) k) else None)" for k
    using sp[of k] ge[of k] emb d by (auto simp: Embed_from_get)
  have rest: "map_option canon (map_of ?m k)
      = (if k = fld \<or> k \<in> set embedded then None else map_option canon (obj_get d k))" for k
    using sp[of k] ge[of k] emb d by (auto simp: Embed_from_get)
  show ?thesis
  proof (cases "?sub = []")
    case True
    have fld: "obj_get d fld = None \<and> \<not> emptyOk \<or> obj_get d fld = Some VNil \<and> emptyOk"
    proof (cases "obj_get d fld")
      case (Some v)
      have "\<not> (\<exists>mm. v = VMap mm)"
      proof
        assume "\<exists>mm. v = VMap mm"
        then obtain mm where mm: "v = VMap mm" by blast
        with ok Some have ne: "mm \<noteq> []" "\<forall>k \<in> fst ` set mm. k \<in> set embedded"
          by (auto simp: list_all_iff)
        then obtain k w where "(k, w) \<in> set mm" by (cases mm) auto
        moreover from this ne(2) have "k \<in> set embedded" by force
        ultimately show False using sub[of k] True Some mm
          by (auto simp: Object_Map_get obj_get_def obj_read_def map_of_eq_None_iff split: if_splits)
            force
      qed
      with ok Some show ?thesis by (auto split: val.splits)
    qed (use ok d in auto)
    show ?thesis
      using True Some d rest emb fld
      by (auto simp: Embed_to_split case_prod_unfold same_object_def obj_get_def obj_read_def map_of_update)
  next
    case False
    have "obj_get (Object_Map d [fld]) \<noteq> (\<lambda>_. None)"
    proof
      assume "obj_get (Object_Map d [fld]) = (\<lambda>_. None)"
      then have "map_of ?sub k = None" for k using sub[of k] by (auto split: if_splits)
      with False show False by (metis list.exhaust map_of_eq_None_iff list.set_intros(1) image_eqI)
    qed
    then obtain mm where mm: "obj_get d fld = Some (VMap mm)"
      by (auto simp: Object_Map_get split: option.splits val.splits)
    have dist: "distinct (map fst mm)" "\<And>k. k \<notin> set embedded \<Longrightarrow> map_of mm k = None"
      using ok mm by (auto simp: list_all_iff map_of_eq_None_iff)
    have "canon (VMap ?sub) = canon (VMap mm)"
    proof (rule canon_map_eq)
      show "map_option canon (map_of ?sub k) = map_option canon (map_of mm k)" for k
        using sub[of k] dist(2)[of k] mm by (auto simp: Object_Map_get obj_get_def obj_read_def)
    qed (use sp dist in auto)
    then show ?thesis
      using False Some d rest emb mm
      by (auto simp: Embed_to_split case_prod_unfold same_object_def obj_get_def obj_read_def map_of_update
          simp del: canon.simps)
  qed
qed

abbreviation to_int :: "(string \<Rightarrow> string) \<Rightarrow> mapper \<Rightarrow> object \<Rightarrow> object" where
  "to_int title m d \<equiv> fst (ToInternal title m d)"

lemma ToInternal_Mappers_fold:
  "fold (\<lambda>m (d, errs). case ToInternal title m d of (d, err) \<Rightarrow> (d, errs @ [err])) ms (d, errs) =
   (fold (to_int title) ms d,
    errs @ snd (fold (\<lambda>m (d, errs). case ToInternal title m d of (d, err) \<Rightarrow> (d, errs @ [err])) ms (d, [])))"
proof (induction ms arbitrary: d errs)
  case (Cons m ms)
  obtain d' err where m: "ToInternal title m d = (d', err)" by (cases "ToInternal title m d")
  show ?case
    using Cons.IH[of d' "errs @ [err]"] Cons.IH[of d' "[err]"] by (simp add: m)
qed simp

lemma to_int_Mappers [simp]: "to_int title (Mappers ms) d = fold (to_int title) (rev ms) d"
  by (simp only: ToInternal.simps, subst ToInternal_Mappers_fold) simp

lemma undo_Enum:
  assumes "reversible title (Enum fld vals) d" "same_object e d"
  shows "same_object (to_int title (Enum fld vals) e) d \<and> snd (ToInternal title (Enum fld vals) e) = None"
proof (cases "obj_get d fld")
  case None
  with assms same_object_present[of e d fld] show ?thesis by simp
next
  case (Some v)
  with assms(1) obtain s where v: "v = VStr s" and s: "map_of vals (normalize (ToString (VStr s))) = Some s"
    by (auto split: val.splits)
  with Some same_object_get[OF assms(2), of fld] have "obj_get e fld = Some (VStr s)"
    by (cases "obj_get e fld") auto
  with s assms(2) v Some show ?thesis
    by (auto simp: same_object_def)
qed

lemma undo_Move:
  assumes "reversible title (Move opt from to cn dd nd) d" "same_object e (FromInternal (Move opt from to cn dd nd) d)"
  shows "same_object (to_int title (Move opt from to cn dd nd) e) d"
proof -
  have f: "flat_name from" "flat_name to" "from \<noteq> to" "obj_get d to = None" using assms(1) by auto
  have none: "e = None \<longleftrightarrow> d = None"
    using same_object_None[OF assms(2)] f by (auto simp: Move_flat split: option.splits)
  have get: "map_option canon (obj_get e k) =
      map_option canon (if k = from then None else if k = to then obj_get d from else obj_get d k)" for k
    using same_object_get[OF assms(2), of k] f
    by (auto simp: Move_flat split: option.splits if_splits)
  have to: "map_option canon (obj_get e to) = map_option canon (obj_get d from)"
    using get[of to] f(3) by auto
  have ?thesis if "obj_get e to = None"
    using that to get none f by (auto simp: same_object_def Move_flat)
  moreover have ?thesis if "obj_get e to = Some w" for w
  proof -
    have "e \<noteq> None" using that by (cases e) auto
    with that to get none f show ?thesis by (auto simp: same_object_def Move_flat)
  qed
  ultimately show ?thesis by (cases "obj_get e to") blast+
qed

lemma undo_SetValue:
  assumes "reversible title (SetValue fld i x) d" "same_object e (FromInternal (SetValue fld i x) d)"
  shows "same_object (to_int title (SetValue fld i x) e) d"
proof (cases "d = None")
  case True
  with same_object_None[OF assms(2)] show ?thesis by simp
next
  case False
  then have e: "e \<noteq> None" using same_object_None[OF assms(2)] by (auto split: if_splits)
  show ?thesis
    using assms False e by (auto simp: same_object_def split: if_splits)
qed

lemma JSONKeys_to_same: "list_all (\<lambda>k. ToJSONKey title k = k) (map fst (obj_read d)) \<Longrightarrow> JSONKeys_to title d = d"
proof -
  have "list_all (\<lambda>k. ToJSONKey title k = k) ks \<Longrightarrow> fold (\<lambda>key d.
        (let newKey = ToJSONKey title key in
         if newKey \<noteq> key
         then obj_delete key (obj_update newKey (case obj_get d key of Some v \<Rightarrow> v | None \<Rightarrow> VNil) d)
         else d)) ks d = d" for ks
    by (induction ks) auto
  then show "list_all (\<lambda>k. ToJSONKey title k = k) (map fst (obj_read d)) \<Longrightarrow> JSONKeys_to title d = d"
    by (simp add: JSONKeys_to_def)
qed

lemma keys_obj_read: "set (map fst (obj_read d)) = {k. obj_get d k \<noteq> None}"
  by (auto simp: obj_get_def map_of_eq_None_iff)

lemma list_all_keys: "list_all P (map fst (obj_read d)) \<longleftrightarrow> (\<forall>k \<in> {k. obj_get d k \<noteq> None}. P k)"
  by (simp only: list_all_iff keys_obj_read)

lemma undo_SliceToMap:
  assumes "reversible title (SliceToMap fld key) d" "same_object e (FromInternal (SliceToMap fld key) d)"
  shows "same_object (to_int title (SliceToMap fld key) e) d"
proof -
  have e: "same_object e d" using assms by (simp add: SliceToMap_from_def)
  have "Object_Map e [fld] = None"
    using same_object_get[OF e, of fld] assms(1)
    by (auto simp: Object_Map_get split: option.splits val.splits)
  then show ?thesis using e by (simp add: SliceToMap_to_def List.map_filter_simps obj_read_def)
qed

lemma ToInternal_Mappers_Cons:
  "snd (ToInternal title (Mappers (m # ms)) e) = None \<longleftrightarrow>
     snd (ToInternal title (Mappers ms) e) = None \<and> snd (ToInternal title m (to_int title (Mappers ms) e)) = None"
proof -
  define F where "F = (\<lambda>m (d, errs). case ToInternal title m d of (d, err) \<Rightarrow> (d, errs @ [err]))"
  have s: "ToInternal title (Mappers ns) e = (fst (fold F (rev ns) (e, [])), NewErrors (snd (fold F (rev ns) (e, []))))" for ns
    by (simp add: F_def case_prod_unfold)
  have f: "fst (fold F (rev ms) (e, [])) = to_int title (Mappers ms) e"
    by (simp only: s fst_conv)
  have "fold F (rev (m # ms)) (e, []) = F m (fold F (rev ms) (e, []))" by simp
  moreover obtain d errs where p: "fold F (rev ms) (e, []) = (d, errs)" by fastforce
  moreover have "F m (d, errs) = (to_int title m d, errs @ [snd (ToInternal title m d)])"
    by (simp add: F_def case_prod_unfold)
  ultimately have c: "fold F (rev (m # ms)) (e, []) = (to_int title m d, errs @ [snd (ToInternal title m d)])" by simp
  have "d = to_int title (Mappers ms) e" using f p by simp
  then show ?thesis unfolding s c p by (auto simp: NewErrors_None_iff)
qed

lemma undo_mapper:
  "reversible title m d \<Longrightarrow> same_object e (FromInternal m d) \<Longrightarrow>
   same_object (to_int title m e) d \<and> snd (ToInternal title m e) = None"
proof (induction title m d arbitrary: e rule: reversible.induct)
  case (1 title fld names d)
  have "fold (\<lambda>name d. case obj_get d name of
          Some v \<Rightarrow> obj_update fld v (obj_delete name d) | None \<Rightarrow> d) names e = e"
    using 1(1)
  proof (induction names)
    case (Cons a names)
    then have "obj_get e a = None" using same_object_present[OF 1(2)[simplified], of a] by simp
    with Cons show ?case by simp
  qed simp
  with 1 show ?case by simp
next
  case (2 title fld opt d)
  then have "map_option canon (obj_get e k) = map_option canon (obj_get d k)" for k
    using same_object_get[OF 2(2), of k] by (cases "k = fld") auto
  with 2 show ?case by (auto simp: same_object_def)
next
  case (3 title fld opt ro ign ovr embedded emptyOk d)
  then show ?case using undo_Embed[of title fld opt ro ign ovr embedded emptyOk d e] by simp
next
  case (4 title fld vals d)
  then show ?case using undo_Enum[of title fld vals d e] by simp
next
  case (6 title d)
  have "{k. obj_get e k \<noteq> None} = {k. obj_get d k \<noteq> None}" using 6(2) same_object_present[of e d] by auto
  then have "JSONKeys_to title e = e"
    using 6(1) by (intro JSONKeys_to_same) (simp only: list_all_keys reversible.simps)
  with 6 show ?case by simp
next
  case (7 title opt from_f to_f cn dd nd d)
  then show ?case using undo_Move[of title opt from_f to_f cn dd nd d e] by simp
next
  case (8 title fld i x d)
  then show ?case using undo_SetValue[of title fld i x d e] by simp
next
  case (9 title fld key d)
  then show ?case using undo_SliceToMap[of title fld key d e] by simp
next
  case (11 title m ms d)
  then have "same_object (to_int title (Mappers ms) e) (FromInternal m d) \<and> snd (ToInternal title (Mappers ms) e) = None"
    by simp
  with 11(1)[of "to_int title (Mappers ms) e"] 11(3)
  have "same_object (to_int title m (to_int title (Mappers ms) e)) d
      \<and> snd (ToInternal title m (to_int title (Mappers ms) e)) = None" by simp
  with \<open>_ \<and> snd (ToInternal title (Mappers ms) e) = None\<close> show ?case
    by (simp add: ToInternal_Mappers_Cons del: ToInternal.simps)
qed (auto split: if_splits)

interpretation mappers: mapper_chain same_object FromInternal "to_int title" "reversible title" for title
  by unfold_locales (simp, rule conjunct1[OF undo_mapper])

text \<open>C35: Mapping to the external form and back restores the object, up to the order of the entries
  in nested maps, and reports no error, for every list of mappers and every object on which each
  mapper in turn loses nothing: nothing is dropped, the target of a move is free, embedded fields
  are exactly the embedded object, an enum holds a known value. \<open>reversible\<close> is computable.\<close>

theorem mappers_roundtrip:
  assumes "reversible title (Mappers ms) d"
  shows "same_object (fst (ToInternal title (Mappers ms) (FromInternal (Mappers ms) d))) d \<and>
    snd (ToInternal title (Mappers ms) (FromInternal (Mappers ms) d)) = None"
  by (rule undo_mapper[OF assms same_object_refl])

definition sample_mappers :: "mapper list" where
  "sample_mappers = [Embed ''spec'' False False [] False [''size'', ''mode''] False,
     Move False ''size'' ''count'' '''' False False, Enum ''mode'' [(''fast'', ''Fast'')]]"

definition sample_object :: object where
  "sample_object = Some [(''spec'', VMap [(''mode'', VStr ''Fast''), (''size'', VInt64 3)]), (''id'', VStr ''x'')]"

theorem mappers_roundtrip_witness:
  "FromInternal (Mappers sample_mappers) sample_object
     = Some [(''id'', VStr ''x''), (''mode'', VStr ''Fast''), (''count'', VInt64 3)] \<and>
   same_object (fst (ToInternal id (Mappers sample_mappers) (FromInternal (Mappers sample_mappers) sample_object)))
     sample_object"
proof
  show "FromInternal (Mappers sample_mappers) sample_object
     = Some [(''id'', VStr ''x''), (''mode'', VStr ''Fast''), (''count'', VInt64 3)]"
    by code_simp
  have "reversible id (Mappers sample_mappers) sample_object"
    by code_simp
  then show "same_object (fst (ToInternal id (Mappers sample_mappers)
      (FromInternal (Mappers sample_mappers) sample_object))) sample_object"
    using mappers_roundtrip by blast
qed

subsubsection \<open>The metadata mapper\<close>

definition dropped_metadata :: "string list" where
  "dropped_metadata = [''namespace'', ''generateName'', ''resourceVersion'', ''generation'',
     ''deletionGracePeriodSeconds'', ''initializers'', ''finalizers'', ''managedFields'',
     ''ownerReferences'', ''clusterName'', ''selfLink'']"

lemma Move_get:
  "flat_name from \<Longrightarrow> flat_name to \<Longrightarrow> from \<noteq> to \<Longrightarrow>
   obj_get (Move_path from to d) k =
     (if k = to \<and> obj_get d from \<noteq> None then obj_get d from else if k = from then None else obj_get d k)"
  by (cases d) (auto simp: Move_flat split: option.split)

lemma Access_from [simp]: "FromInternal (Access fs opt) = id"
  by (simp add: fun_eq_iff)

lemma metadata_from:
  assumes "\<forall>k \<in> {''id'', ''uuid'', ''created'', ''removed''}. obj_get d k = None"
  shows "obj_get (FromInternal NewMetadataMapper d) k =
    (if k = ''id'' then obj_get d ''name'' else if k = ''uuid'' then obj_get d ''uid''
     else if k = ''created'' then obj_get d ''creationTimestamp''
     else if k = ''removed'' then obj_get d ''deletionTimestamp''
     else if k \<in> {''name'', ''uid'', ''creationTimestamp'', ''deletionTimestamp''} \<union> set dropped_metadata then None
     else obj_get d k)"
proof -
  let ?special = "{''id'', ''uuid'', ''created'', ''removed'', ''name'', ''uid'', ''creationTimestamp'',
    ''deletionTimestamp''} \<union> set dropped_metadata"
  note defs = NewMetadataMapper_def mp_def Move_get flat_name_def dropped_metadata_def
  show ?thesis
  proof (cases "k \<in> ?special")
    case True
    then show ?thesis
      unfolding dropped_metadata_def Un_insert_right list.set(1,2) sup_bot_right
      by (elim insertE) (simp_all add: defs assms[simplified])
  next
    case False
    then show ?thesis by (simp add: defs)
  qed
qed

lemma metadata_to:
  "obj_get (to_int title NewMetadataMapper e) k =
    (if k = ''name'' then (case obj_get e ''id'' of Some v \<Rightarrow> Some v | None \<Rightarrow> obj_get e k)
     else if k = ''uid'' then (case obj_get e ''uuid'' of Some v \<Rightarrow> Some v | None \<Rightarrow> obj_get e k)
     else if k = ''creationTimestamp'' then (case obj_get e ''created'' of Some v \<Rightarrow> Some v | None \<Rightarrow> obj_get e k)
     else if k = ''deletionTimestamp'' then (case obj_get e ''removed'' of Some v \<Rightarrow> Some v | None \<Rightarrow> obj_get e k)
     else if k \<in> {''id'', ''uuid'', ''created'', ''removed''} then None
     else obj_get e k)"
  by (simp add: NewMetadataMapper_def mp_def Move_get flat_name_def split: option.split)

lemma metadata_no_error: "snd (ToInternal title NewMetadataMapper e) = None"
  by (simp add: NewMetadataMapper_def mp_def NewErrors_None_iff case_prod_unfold)

text \<open>The metadata mapper renames four fields and drops eleven; an object that does not use the
  new names is restored by mapping back, except for the dropped fields, which stay lost.\<close>

theorem metadata_roundtrip:
  assumes "\<forall>k \<in> {''id'', ''uuid'', ''created'', ''removed''}. obj_get d k = None"
  shows "obj_get (fst (ToInternal title NewMetadataMapper (FromInternal NewMetadataMapper d))) k =
      (if k \<in> set dropped_metadata then None else obj_get d k) \<and>
    snd (ToInternal title NewMetadataMapper (FromInternal NewMetadataMapper d)) = None"
proof
  let ?special = "{''id'', ''uuid'', ''created'', ''removed'', ''name'', ''uid'', ''creationTimestamp'',
    ''deletionTimestamp''} \<union> set dropped_metadata"
  note defs = metadata_to metadata_from[OF assms] dropped_metadata_def
  show "obj_get (fst (ToInternal title NewMetadataMapper (FromInternal NewMetadataMapper d))) k =
      (if k \<in> set dropped_metadata then None else obj_get d k)"
  proof (cases "k \<in> ?special")
    case True
    then show ?thesis
      unfolding dropped_metadata_def Un_insert_right list.set(1,2) sup_bot_right
      by (elim insertE) (simp_all add: defs assms[simplified] split: option.split)
  next
    case False
    then show ?thesis by (simp add: defs)
  qed
qed (rule metadata_no_error)

theorem metadata_roundtrip_witness:
  "obj_get (fst (ToInternal id NewMetadataMapper (FromInternal NewMetadataMapper
     (Some [(''name'', VStr ''n''), (''finalizers'', VSlice [VStr ''f''])])))) ''name'' = Some (VStr ''n'') \<and>
   obj_get (fst (ToInternal id NewMetadataMapper (FromInternal NewMetadataMapper
     (Some [(''name'', VStr ''n''), (''finalizers'', VSlice [VStr ''f''])])))) ''finalizers'' = None"
proof -
  let ?d = "Some [(''name'', VStr ''n''), (''finalizers'', VSlice [VStr ''f''])]"
  have "\<forall>k \<in> {''id'', ''uuid'', ''created'', ''removed''}. obj_get ?d k = None"
    by (simp add: obj_get_def obj_read_def)
  from metadata_roundtrip[OF this, of id "''name''"] metadata_roundtrip[OF this, of id "''finalizers''"]
  show ?thesis by (simp add: dropped_metadata_def obj_get_def obj_read_def)
qed

subsubsection \<open>Where a round trip loses data\<close>

text \<open>\<open>SliceToMap.FromInternal\<close> stores the items as \<open>data.Object\<close>, and \<open>ToInternal\<close> asks for
  \<open>map[string]interface{}\<close>: mapped back without an encoding in between, the items are gone.\<close>

lemma SliceToMap_loses_items:
  "fst (ToInternal title (SliceToMap ''ports'' ''name'') (FromInternal (SliceToMap ''ports'' ''name'')
     (Some [(''ports'', VSlice [VMap [(''name'', VStr ''http''), (''port'', VInt64 80)]])])))
   = Some [(''ports'', VSlice [])]"
  by code_simp

text \<open>A field that is embedded under its own name is put into place and then deleted.\<close>

lemma Embed_own_name_lost:
  "FromInternal (Embed ''spec'' False False [] False [''spec''] False)
     (Some [(''spec'', VMap [(''spec'', VInt64 1)])]) = Some []"
  by code_simp

end
