(* ===== verification/Schema_Safety.thy ===== *)
theory Schema_Safety
  imports Schema_Spec
begin

section \<open>Registered schemas: mapped data fits its schema, and mapping returns\<close>

text \<open>
  What \<open>ModifySchema\<close> and \<open>FromInternal\<close> of a mapper owe each other, what \<open>AddSchema\<close> does to a
  registry, and why the mappers of registered schemas, which call each other through pointers,
  come to an end.
\<close>

subsection \<open>The heap under ModifySchema\<close>

lemma core_upd_core:
  "p < length H \<Longrightarrow> core (upd_core p f H ! q) = (if q = p then f (core (H ! p)) else core (H ! q))"
  by (auto simp: upd_core_def nth_list_update split: schema.split)

lemma length_upd_core [simp]: "length (upd_core p f H) = length H"
  by (simp add: upd_core_def)

lemma length_set_fields [simp]: "length (set_fields p f H) = length H"
  by (simp add: set_fields_def)

lemma upd_core_beyond [simp]: "length H \<le> p \<Longrightarrow> upd_core p f H = H"
  by (simp add: upd_core_def list_update_beyond)

lemma set_fields_mapper [simp]: "mapper_at (set_fields p f H) q = mapper_at H q"
  by (cases "p < length H") (simp_all add: mapper_at_def set_fields_def core_upd_core)

lemma set_fields_ID [simp]: "sm_ID (core (set_fields p f H ! q)) = sm_ID (core (H ! q))"
  by (cases "p < length H") (simp_all add: set_fields_def core_upd_core)

lemma get_set_fields:
  "p < length H \<Longrightarrow> get_field (set_fields p f H) q name =
     (if q = p then Option.bind (map_option f (sm_ResourceFields (core (H ! p)))) (\<lambda>fs. map_of fs name)
      else get_field H q name)"
  by (auto simp: get_field_def set_fields_def core_upd_core fields_of_def split: option.split)

lemma get_field_fields: "get_field H p name = Option.bind (sm_ResourceFields (core (H ! p))) (\<lambda>fs. map_of fs name)"
  by (simp add: get_field_def fields_of_def split: option.split)

lemma get_update_fields:
  "p < length H \<Longrightarrow> get_field (set_fields p (AList.update n fld) H) p name =
     (if sm_ResourceFields (core (H ! p)) = None then None else if name = n then Some fld else get_field H p name)"
  by (cases "sm_ResourceFields (core (H ! p))")
    (simp_all add: get_set_fields map_of_update, simp add: get_field_fields)

lemma get_delete_fields:
  "p < length H \<Longrightarrow> get_field (set_fields p (AList.delete n) H) p name =
     (if name = n then None else get_field H p name)"
  by (cases "sm_ResourceFields (core (H ! p))")
    (simp_all add: get_set_fields delete_conv', simp_all add: get_field_fields)

lemma get_field_Some_fields: "get_field H p name = Some fld \<Longrightarrow> sm_ResourceFields (core (H ! p)) \<noteq> None"
  by (auto simp: get_field_fields bind_eq_Some_conv)

lemma put_field_Some:
  "put_field p n fld H = Some H' \<longleftrightarrow>
     sm_ResourceFields (core (H ! p)) \<noteq> None \<and> H' = set_fields p (AList.update n fld) H"
  by (auto simp: put_field_def)

text \<open>\<open>ModifySchema\<close> changes fields only: no schema appears and no mapper changes.\<close>

definition same_mappers :: "heap \<Rightarrow> heap \<Rightarrow> bool" where
  "same_mappers H H' \<longleftrightarrow> length H' = length H \<and> (\<forall>q. mapper_at H' q = mapper_at H q \<and>
     sm_ID (core (H' ! q)) = sm_ID (core (H ! q)))"

lemma same_mappers_refl [simp]: "same_mappers H H"
  by (simp add: same_mappers_def)

lemma same_mappers_trans: "same_mappers H H' \<Longrightarrow> same_mappers H' H'' \<Longrightarrow> same_mappers H H''"
  by (simp add: same_mappers_def)

lemma same_mappers_set_fields [simp]: "same_mappers H (set_fields p f H)"
  by (simp add: same_mappers_def)

lemma same_mappers_set_fields_trans: "same_mappers H H' \<Longrightarrow> same_mappers H (set_fields p f H')"
  by (simp add: same_mappers_def)

lemma Access_modify_mappers: "Access_modify fs opt p H = (err, H') \<Longrightarrow> same_mappers H H'"
  by (induction fs opt p H arbitrary: err H' rule: Access_modify.induct)
    (auto simp: Let_def split: option.splits if_splits intro: same_mappers_trans[OF same_mappers_set_fields])

lemma Alias_modify_mappers: "Alias_modify ns p H = Some H' \<Longrightarrow> same_mappers H H'"
  by (induction ns p H arbitrary: H' rule: Alias_modify.induct)
    (auto simp: put_field_Some bind_eq_Some_conv intro: same_mappers_trans[OF same_mappers_set_fields])

lemma Embed_loop_mappers: "Embed_loop fld ro ign ovr fs p emb del H = Some (err, emb', del', H') \<Longrightarrow> same_mappers H H'"
  by (induction fld ro ign ovr fs p emb del H arbitrary: err emb' del' H' rule: Embed_loop.induct)
    (auto simp: put_field_Some bind_eq_Some_conv Let_def split: if_splits
      intro: same_mappers_trans[OF same_mappers_set_fields])

lemma Embed_modify_mappers:
  "Embed_modify fld opt ro ign ovr old R p H = Some (err, emb, H') \<Longrightarrow> same_mappers H H'"
  by (auto simp: Embed_modify_def bind_eq_Some_conv Let_def split: option.splits if_splits
      dest!: Embed_loop_mappers intro: same_mappers_set_fields_trans)

lemma Move_modify_mappers:
  assumes "Move_modify opt from to cn dd nd R p H = Some (err, H')"
  shows "same_mappers H H'"
proof -
  from assms obtain r where r: "getField R H p from = Some r"
    by (auto simp: Move_modify_def bind_eq_Some_conv)
  show ?thesis
  proof (cases r)
    case (Inl e)
    with assms r show ?thesis by (simp add: Move_modify_def)
  next
    case (Inr x)
    obtain q n f ok where x: "x = (q, n, f, ok)" by (cases x)
    show ?thesis
    proof (cases ok)
      case True
      with assms r Inr x obtain r2 where r2: "getField R H p to = Some r2"
        by (auto simp: Move_modify_def bind_eq_Some_conv)
      show ?thesis
      proof (cases r2)
        case (Inr x2)
        obtain q2 n2 f2 ok2 where "x2 = (q2, n2, f2, ok2)" by (cases x2)
        with assms r \<open>r = Inr x\<close> x True r2 Inr show ?thesis
          by (auto simp: Move_modify_def put_field_def Let_def split: if_splits
              intro: same_mappers_set_fields_trans)
      qed (use assms r Inr x True r2 in \<open>simp add: Move_modify_def\<close>)
    qed (use assms r Inr x in \<open>simp add: Move_modify_def\<close>)
  qed
qed

lemma SliceToMap_modify_mappers:
  assumes "SliceToMap_modify fld key R p H = Some (err, H')"
  shows "same_mappers H H'"
proof (cases "ValidateField fld p H")
  case None
  with assms obtain r where r: "getField R H p (fld @ ''/'' @ key) = Some r"
    by (auto simp: SliceToMap_modify_def bind_eq_Some_conv)
  show ?thesis
  proof (cases r)
    case (Inr x)
    obtain q n f ok where "x = (q, n, f, ok)" by (cases x)
    with assms None r Inr show ?thesis
      by (auto simp: SliceToMap_modify_def Let_def split: if_splits intro: same_mappers_set_fields_trans)
  qed (use assms None r in \<open>simp add: SliceToMap_modify_def\<close>)
qed (use assms in \<open>simp add: SliceToMap_modify_def\<close>)

lemma ModifySchema_mappers: "ModifySchema m R p H = Some (m', err, H') \<Longrightarrow> same_mappers H H'"
proof (induction m R p H arbitrary: m' err H' rule: ModifySchema.induct)
  case (14 m ms R p H)
  obtain m1 err1 H1 where 1: "ModifySchema m R p H = Some (m1, err1, H1)"
    using 14(3) by (auto simp: bind_eq_Some_conv)
  note s1 = 14(1)[OF 1]
  show ?case
  proof (cases err1)
    case None
    with 14(3) 1 have "map_option (\<lambda>(m', r). case m' of Mappers ms' \<Rightarrow> (Mappers (m1 # ms'), r) | _ \<Rightarrow> (m', r))
        (ModifySchema (Mappers ms) R p H1) = Some (m', err, H')" by simp
    then obtain m2 err2 H2 where 2: "ModifySchema (Mappers ms) R p H1 = Some (m2, err2, H2)"
        "(case m2 of Mappers ms' \<Rightarrow> (Mappers (m1 # ms'), err2, H2) | _ \<Rightarrow> (m2, err2, H2)) = (m', err, H')"
      by (auto simp: map_option_eq_Some)
    from 2(2) have H': "H' = H2" by (cases m2) simp_all
    from 14(2)[OF 1 refl refl None 2(1)] s1 H' show ?thesis
      by (auto intro: same_mappers_trans)
  qed (use 14(3) 1 s1 in simp)
next
  case (1 fs opt R p H)
  then show ?case by (auto split: prod.splits dest: Access_modify_mappers)
next
  case (2 fld names R p H)
  then show ?case by (auto dest: Alias_modify_mappers)
next
  case (5 fld opt ro ign ovr emb ok R p H)
  then show ?case by (auto dest: Embed_modify_mappers)
next
  case (8 fld m enabled R p H)
  then show ?case by (auto split: if_splits)
next
  case (10 opt from_f to_f cn dd nd R p H)
  then show ?case by (auto dest: Move_modify_mappers)
next
  case (12 fld key R p H)
  then show ?case by (auto dest: SliceToMap_modify_mappers)
qed (auto split: if_splits)

subsection \<open>Mapping by registered schemas returns\<close>

definition tm_targets :: "typeMapper \<Rightarrow> nat set" where
  "tm_targets t = snd ` (set (tm_subSchemas t) \<union> set (tm_subArraySchemas t) \<union> set (tm_subMapSchemas t))"

definition targets :: "heap \<Rightarrow> nat \<Rightarrow> nat set" where
  "targets H p = (case mapper_at H p of Some (TypeMapper t) \<Rightarrow> tm_targets t | _ \<Rightarrow> {})"

text \<open>From a grounded schema no path of pointers goes on for ever.\<close>

inductive grounded :: "heap \<Rightarrow> nat \<Rightarrow> bool" for H where
  "p < length H \<Longrightarrow> (\<And>q. q \<in> targets H p \<Longrightarrow> grounded H q) \<Longrightarrow> grounded H p"

lemma grounded_less: "grounded H p \<Longrightarrow> p < length H"
  by (induction rule: grounded.induct)

lemma grounded_agree:
  "grounded H p \<Longrightarrow> length H \<le> length H' \<Longrightarrow> \<forall>q < length H. mapper_at H' q = mapper_at H q \<Longrightarrow> grounded H' p"
proof (induction rule: grounded.induct)
  case (1 p)
  have t: "targets H' p = targets H p" using 1(1,5) by (simp add: targets_def)
  show ?case
    by (rule grounded.intros) (use 1(1,4) t 1(3)[OF _ 1(4,5)] in auto)
qed

lemma fold_opt_total: "(\<And>a b. a \<in> set as \<Longrightarrow> f a b \<noteq> None) \<Longrightarrow> fold_opt f as b \<noteq> None"
proof (induction as arbitrary: b)
  case (Cons a as)
  from Cons.prems[of a b] obtain y where "f a b = Some y" by auto
  with Cons.IH[of y] Cons.prems show ?case by simp
qed simp

lemma finite_tm_targets: "finite (tm_targets t)"
  by (simp add: tm_targets_def)

lemma schema_FromInternal_step:
  assumes "\<And>q sm sub. q \<in> tm_targets t \<Longrightarrow> mapper_at H q = Some sm \<Longrightarrow> schema_FromInternal n H sm sub \<noteq> None"
  shows "schema_FromInternal (Suc n) H (TypeMapper t) d \<noteq> None"
proof -
  let ?one = "\<lambda>p sub. case mapper_at H p of None \<Rightarrow> Some sub | Some sm \<Rightarrow> schema_FromInternal n H sm sub"
  have one: "?one q sub \<noteq> None"
    if "(k, q) \<in> set (tm_subSchemas t) \<union> set (tm_subArraySchemas t) \<union> set (tm_subMapSchemas t)" for k q sub
  proof -
    have "q \<in> tm_targets t" using that by (force simp: tm_targets_def)
    then show ?thesis using assms by (simp split: option.split)
  qed
  define A where "A = (\<lambda>(k, p) d. map_option (\<lambda>sub. put_sub k sub d) (?one p (Object_Map d [k])))"
  define B where "B = (\<lambda>(k, p) d. fold_opt (\<lambda>key d.
      map_option (\<lambda>sub. put_sub k (put_sub key sub (Object_Map d [k])) d) (?one p (Object_Map d [k, key])))
      (map_entries k d) d)"
  define C where "C = (\<lambda>(k, p) d. fold_opt (\<lambda>i d.
      map_option (\<lambda>sub. put_item k i sub d) (?one p (Object_Slice d [k] ! i))) (item_indices k d) d)"
  have A: "fold_opt A (tm_subSchemas t) d \<noteq> None" for d
  proof (rule fold_opt_total)
    fix x d assume m: "x \<in> set (tm_subSchemas t)"
    obtain k q where x: "x = (k, q)" by fastforce
    with m one[of k q] have "?one q (Object_Map d [k]) \<noteq> None" by blast
    then show "A x d \<noteq> None" by (simp add: A_def x)
  qed
  have B: "fold_opt B (tm_subMapSchemas t) d \<noteq> None" for d
  proof (rule fold_opt_total)
    fix x d assume m: "x \<in> set (tm_subMapSchemas t)"
    obtain k q where kq: "x = (k, q)" by fastforce
    with m one[of k q] have x: "?one q sub \<noteq> None" for sub by blast
    have "fold_opt (\<lambda>key d. map_option (\<lambda>sub. put_sub k (put_sub key sub (Object_Map d [k])) d)
        (?one q (Object_Map d [k, key]))) (map_entries k d) d \<noteq> None"
      by (rule fold_opt_total) (use x in simp)
    then show "B x d \<noteq> None" by (simp add: B_def kq)
  qed
  have C: "fold_opt C (tm_subArraySchemas t) d \<noteq> None" for d
  proof (rule fold_opt_total)
    fix x d assume m: "x \<in> set (tm_subArraySchemas t)"
    obtain k q where kq: "x = (k, q)" by fastforce
    with m one[of k q] have x: "?one q sub \<noteq> None" for sub by blast
    have "fold_opt (\<lambda>i d. map_option (\<lambda>sub. put_item k i sub d) (?one q (Object_Slice d [k] ! i)))
        (item_indices k d) d \<noteq> None"
      by (rule fold_opt_total) (use x in simp)
    then show "C x d \<noteq> None" by (simp add: C_def kq)
  qed
  have "schema_FromInternal (Suc n) H (TypeMapper t) d =
      Option.bind (fold_opt A (tm_subSchemas t) d) (\<lambda>d.
      Option.bind (fold_opt B (tm_subMapSchemas t) d) (\<lambda>d.
      Option.bind (fold_opt C (tm_subArraySchemas t) d) (\<lambda>d.
      Some (FromInternal (Mappers (tm_Mappers t)) d))))"
    by (simp add: A_def B_def C_def)
  then show ?thesis using A B C by (simp add: bind_eq_None_conv)
qed

lemma FromInternal_returns:
  "grounded H p \<Longrightarrow> mapper_at H p = Some sm \<Longrightarrow>
   \<exists>N. \<forall>n \<ge> N. \<forall>d. schema_FromInternal n H sm d \<noteq> None"
proof (induction arbitrary: sm rule: grounded.induct)
  case (1 p)
  show ?case
  proof (cases sm)
    case (PlainMapper m)
    then have "schema_FromInternal n H sm d \<noteq> None" if "n \<ge> 1" for n d
      using that by (cases n) simp_all
    then show ?thesis by blast
  next
    case (TypeMapper t)
    then have T: "targets H p = tm_targets t" using 1(4) by (simp add: targets_def)
    have "\<forall>q \<in> tm_targets t. \<exists>N. \<forall>sm. mapper_at H q = Some sm \<longrightarrow>
        (\<forall>n \<ge> N. \<forall>d. schema_FromInternal n H sm d \<noteq> None)"
    proof
      fix q assume q: "q \<in> tm_targets t"
      show "\<exists>N. \<forall>sm. mapper_at H q = Some sm \<longrightarrow> (\<forall>n \<ge> N. \<forall>d. schema_FromInternal n H sm d \<noteq> None)"
      proof (cases "mapper_at H q")
        case (Some sm')
        with 1(3)[of q sm'] q T show ?thesis by auto
      qed simp
    qed
    then obtain N where N: "\<And>q sm n d. q \<in> tm_targets t \<Longrightarrow> mapper_at H q = Some sm \<Longrightarrow> n \<ge> N q \<Longrightarrow>
        schema_FromInternal n H sm d \<noteq> None" by metis
    have "schema_FromInternal n H sm d \<noteq> None" if n: "n \<ge> Suc (Max (insert 0 (N ` tm_targets t)))" for n d
    proof -
      obtain n' where n': "n = Suc n'" "n' \<ge> Max (insert 0 (N ` tm_targets t))" using n by (cases n) auto
      have "n' \<ge> N q" if "q \<in> tm_targets t" for q
        using n'(2) that by (auto intro: order_trans[OF Max_ge] simp: finite_tm_targets)
      then show ?thesis unfolding n'(1) TypeMapper by (intro schema_FromInternal_step N) auto
    qed
    then show ?thesis by blast
  qed
qed

definition regs :: "registry \<Rightarrow> nat set" where
  "regs R = set (rg_schemas R) \<union> snd ` set (rg_schemasByID R)"

lemma find_schema_regs: "find_schema R H n = Some q \<Longrightarrow> q \<in> regs R"
  by (auto simp: find_schema_def regs_def find_Some_iff split: option.splits dest!: map_of_SomeD)
    (force simp: regs_def)+

lemma set_map_filter_iff: "y \<in> set (List.map_filter f xs) \<longleftrightarrow> (\<exists>x \<in> set xs. f x = Some y)"
  by (induction xs) (auto simp: List.map_filter_simps split: option.splits)

lemma sub_schemas_regs: "snd ` set (sub_schemas tgt R H fs) \<subseteq> regs R"
  by (auto simp: sub_schemas_def set_map_filter_iff case_prod_unfold split: if_splits dest: find_schema_regs)

lemma typeMapper_ModifySchema_targets:
  assumes "typeMapper_ModifySchema t R p H = Some (t', err, H')"
  shows "same_mappers H H' \<and> tm_targets t' \<subseteq> regs R"
proof -
  define fs where "fs = fields_of (core (case InternalSchema (H ! p) of Some s \<Rightarrow> s | None \<Rightarrow> H ! p))"
  define t0 where "t0 = t\<lparr>tm_typeName := sm_ID (core (H ! p)), tm_subSchemas := sub_schemas TSchema R H fs,
      tm_subArraySchemas := sub_schemas TArray R H fs, tm_subMapSchemas := sub_schemas TMap R H fs\<rparr>"
  have "typeMapper_ModifySchema t R p H =
      map_option (\<lambda>(m, r). (case m of Mappers ms \<Rightarrow> t0\<lparr>tm_Mappers := ms\<rparr> | _ \<Rightarrow> t0, r))
        (ModifySchema (Mappers (tm_Mappers t0)) R p H)"
    unfolding typeMapper_ModifySchema_def Let_def fs_def t0_def ..
  with assms obtain m where m: "ModifySchema (Mappers (tm_Mappers t0)) R p H = Some (m, err, H')"
    and t': "t' = (case m of Mappers ms \<Rightarrow> t0\<lparr>tm_Mappers := ms\<rparr> | _ \<Rightarrow> t0)"
    by auto
  have "tm_targets t' = tm_targets t0" unfolding t' by (cases m) (simp_all add: tm_targets_def)
  also have "\<dots> \<subseteq> regs R"
    using sub_schemas_regs[of TSchema R H fs] sub_schemas_regs[of TArray R H fs] sub_schemas_regs[of TMap R H fs]
    by (auto simp: tm_targets_def t0_def)
  finally show ?thesis using ModifySchema_mappers[OF m] by simp
qed

lemma mapper_at_upd_core:
  "p < length H \<Longrightarrow> mapper_at (upd_core p f H) q = (if q = p then sm_Mapper (f (core (H ! p))) else mapper_at H q)"
  by (simp add: mapper_at_def core_upd_core)

lemma assignMappers_targets:
  assumes "assignMappers R p H = Some (err, H')" "p < length H" "mapper_at H p = None"
  shows "length H' = length H \<and> (\<forall>q. q \<noteq> p \<longrightarrow> mapper_at H' q = mapper_at H q) \<and>
    sm_ID (core (H' ! p)) = sm_ID (core (H ! p)) \<and> (err = None \<longrightarrow> targets H' p \<subseteq> regs R)"
proof -
  define ms where "ms = (let mappers = rg_mapper R (sm_ID (core (H ! p)));
             list = canList (core (H ! p));
             mappers = (if list then (case rg_DefaultMapper R of Some m \<Rightarrow> m # mappers | None \<Rightarrow> mappers) else mappers)
             in (if list then (case rg_DefaultPostMapper R of Some m \<Rightarrow> mappers @ [m] | None \<Rightarrow> mappers) else mappers))"
  define H1 where "H1 = (if length ms > 0 then H[p := Schema (core (H ! p)) (Some (DeepCopy (H ! p)))] else H)"
  have core1: "core (H1 ! q) = core (H ! q)" for q
    by (cases "q = p") (use assms(2) in \<open>simp_all add: H1_def\<close>)
  then have s1: "same_mappers H H1" by (simp add: same_mappers_def mapper_at_def H1_def)
  from assms obtain t e H2 where t: "typeMapper_ModifySchema \<lparr>tm_Mappers = ms, tm_root = canList (core (H ! p)),
        tm_typeName = '''', tm_subSchemas = [], tm_subArraySchemas = [], tm_subMapSchemas = []\<rparr> R p H1 = Some (t, e, H2)"
    and r: "(case e of Some _ \<Rightarrow> Some (e, H2)
            | None \<Rightarrow> Some (None, upd_core p (\<lambda>c. c\<lparr>sm_Mapper := Some (TypeMapper t)\<rparr>) H2)) = Some (err, H')"
    by (auto simp: assignMappers_def mapper_at_def Let_def ms_def H1_def bind_eq_Some_conv)
  note tm = typeMapper_ModifySchema_targets[OF t]
  have s2: "same_mappers H H2" using tm s1 same_mappers_trans by blast
  show ?thesis
  proof (cases e)
    case None
    with r have H': "H' = upd_core p (\<lambda>c. c\<lparr>sm_Mapper := Some (TypeMapper t)\<rparr>) H2" "err = None" by auto
    have "p < length H2" using s2 assms(2) by (simp add: same_mappers_def)
    with H' s2 tm show ?thesis
      by (simp add: same_mappers_def mapper_at_upd_core targets_def core_upd_core)
  next
    case (Some x)
    with r s2 show ?thesis by (auto simp: same_mappers_def)
  qed
qed

lemma mapper_at_defaults:
  "(\<And>c. sm_Mapper (f c) = sm_Mapper c) \<Longrightarrow> mapper_at (upd_core p f H) q = mapper_at H q"
  by (cases "p < length H") (simp_all add: mapper_at_upd_core, simp_all add: mapper_at_def)

lemma ID_defaults:
  "(\<And>c. sm_ID (f c) = sm_ID c) \<Longrightarrow> sm_ID (core (upd_core p f H ! q)) = sm_ID (core (H ! q))"
  by (cases "p < length H") (simp_all add: core_upd_core)

lemma setupDefaults_targets:
  assumes "setupDefaults R p H = Some (err, H')" "p < length H" "mapper_at H p = None"
  shows "length H' = length H \<and> (\<forall>q. q \<noteq> p \<longrightarrow> mapper_at H' q = mapper_at H q) \<and>
    sm_ID (core (H' ! p)) = sm_ID (core (H ! p)) \<and> (err = None \<longrightarrow> targets H' p \<subseteq> regs R)"
proof (cases "sm_ID (core (H ! p)) = ''''")
  case True
  with assms(1) show ?thesis by (auto simp: setupDefaults_def)
next
  case False
  define H1 where "H1 = upd_core p (\<lambda>c. if sm_PluralName c = '''' then c\<lparr>sm_PluralName := GuessPluralName (sm_ID c)\<rparr> else c) H"
  define H2 where "H2 = upd_core p (\<lambda>c. if sm_CodeName c = '''' then c\<lparr>sm_CodeName := Capitalize (sm_ID c)\<rparr> else c) H1"
  define H3 where "H3 = upd_core p (\<lambda>c. if sm_CodeNamePlural c = '''' then c\<lparr>sm_CodeNamePlural := GuessPluralName (sm_CodeName c)\<rparr> else c) H2"
  have m: "mapper_at H3 q = mapper_at H q" "sm_ID (core (H3 ! q)) = sm_ID (core (H ! q))" for q
    by (simp_all add: H1_def H2_def H3_def mapper_at_defaults ID_defaults)
  have l: "length H3 = length H" by (simp add: H1_def H2_def H3_def)
  have "assignMappers R p H3 = Some (err, H')"
    using assms(1) False by (simp add: setupDefaults_def Let_def H1_def H2_def H3_def)
  from assignMappers_targets[OF this] show ?thesis using assms m l by simp
qed

definition settled :: "registry \<Rightarrow> heap \<Rightarrow> bool" where
  "settled R H \<longleftrightarrow> (\<forall>p \<in> regs R. grounded H p)"

lemma AddSchema_settled:
  assumes "AddSchema s R H = Some (err, R', H')" "settled R H"
    and new: "sm_Mapper (core s) = None" "map_of (rg_schemasByID R) (sm_ID (core s)) = None"
  shows "settled R' H'"
proof -
  let ?p = "length H" and ?R = "R\<lparr>rg_locked := True\<rparr>"
  from assms(1) obtain R1 where d: "doAddSchema s ?R H = Some (err, R1, H')" and R': "R' = R1\<lparr>rg_locked := False\<rparr>"
    by (auto simp: AddSchema_def split: if_splits)
  then obtain e H1 where sd: "setupDefaults ?R ?p (H @ [s]) = Some (e, H1)"
    and r: "(case e of Some _ \<Rightarrow> Some (e, ?R, H1)
        | None \<Rightarrow> (case map_of (rg_schemasByID ?R) (sm_ID (core (H1 ! ?p))) of
               Some existing \<Rightarrow> Some (None, ?R, H1[existing := H1 ! ?p])
             | None \<Rightarrow> Some (None,
                 ?R\<lparr>rg_schemasByID := AList.update (sm_ID (core (H1 ! ?p))) ?p (rg_schemasByID ?R),
                   rg_schemas := rg_schemas ?R @ [?p]\<rparr>, H1))) = Some (err, R1, H')"
    by (auto simp: doAddSchema_def bind_eq_Some_conv Let_def)
  have m: "mapper_at (H @ [s]) ?p = None" using new(1) by (simp add: mapper_at_def)
  note st = setupDefaults_targets[OF sd _ m]
  have id: "sm_ID (core (H1 ! ?p)) = sm_ID (core s)" using st by simp
  have old: "grounded H1 q" if "q \<in> regs R" for q
  proof (rule grounded_agree)
    show "grounded H q" using that assms(2) by (simp add: settled_def)
    show "length H \<le> length H1" using st by simp
    show "\<forall>q < length H. mapper_at H1 q = mapper_at H q" using st by (simp add: mapper_at_def nth_append)
  qed
  show ?thesis
  proof (cases e)
    case None
    with r id new(2) have H': "H' = H1"
        "R1 = ?R\<lparr>rg_schemasByID := AList.update (sm_ID (core s)) ?p (rg_schemasByID R), rg_schemas := rg_schemas R @ [?p]\<rparr>"
      by auto
    have "targets H1 ?p \<subseteq> regs R" using st None by (simp add: regs_def)
    moreover have "?p < length H1" using st by simp
    ultimately have "grounded H1 ?p" using old by (auto intro: grounded.intros[of ?p H1])
    moreover have "q = ?p \<or> q \<in> regs R" if "q \<in> regs R'" for q
      using that set_update_cases[of _ "sm_ID (core s)" ?p "rg_schemasByID R"]
      by (force simp: R' H'(2) regs_def)
    ultimately show ?thesis unfolding settled_def H'(1) using old by blast
  next
    case (Some x)
    with r R' have "regs R' = regs R" "H' = H1" by (auto simp: regs_def)
    with old show ?thesis by (simp add: settled_def)
  qed
qed

text \<open>More fuel does not change a result.\<close>

lemma fold_opt_mono:
  "fold_opt f as b = Some r \<Longrightarrow> (\<And>a b r. a \<in> set as \<Longrightarrow> f a b = Some r \<Longrightarrow> g a b = Some r) \<Longrightarrow>
   fold_opt g as b = Some r"
proof (induction as arbitrary: b)
  case (Cons a as)
  from Cons.prems(1) obtain y where "f a b = Some y" "fold_opt f as y = Some r"
    by (auto simp: bind_eq_Some_conv)
  with Cons.IH[of y] Cons.prems(2)[of a b y] Cons.prems(2) show ?case by simp
qed simp

lemma FromInternal_Suc:
  "schema_FromInternal n H sm d = Some r \<Longrightarrow> schema_FromInternal (Suc n) H sm d = Some r"
proof (induction n arbitrary: sm d r)
  case (Suc n)
  show ?case
  proof (cases sm)
    case (TypeMapper t)
    let ?one = "\<lambda>n p sub. case mapper_at H p of None \<Rightarrow> Some sub | Some sm \<Rightarrow> schema_FromInternal n H sm sub"
    have one: "?one n p sub = Some r \<Longrightarrow> ?one (Suc n) p sub = Some r" for p sub r
      using Suc.IH by (simp del: schema_FromInternal.simps split: option.splits)
    define A where "A n = (\<lambda>(k, p) d. map_option (\<lambda>sub. put_sub k sub d) (?one n p (Object_Map d [k])))" for n
    define B where "B n = (\<lambda>(k, p) d. fold_opt (\<lambda>key d.
        map_option (\<lambda>sub. put_sub k (put_sub key sub (Object_Map d [k])) d) (?one n p (Object_Map d [k, key])))
        (map_entries k d) d)" for n
    define C where "C n = (\<lambda>(k, p) d. fold_opt (\<lambda>i d.
        map_option (\<lambda>sub. put_item k i sub d) (?one n p (Object_Slice d [k] ! i))) (item_indices k d) d)" for n
    have eq: "schema_FromInternal (Suc n) H sm d =
      Option.bind (fold_opt (A n) (tm_subSchemas t) d) (\<lambda>d.
      Option.bind (fold_opt (B n) (tm_subMapSchemas t) d) (\<lambda>d.
      Option.bind (fold_opt (C n) (tm_subArraySchemas t) d) (\<lambda>d.
      Some (FromInternal (Mappers (tm_Mappers t)) d))))" for n d
      unfolding TypeMapper schema_FromInternal.simps Let_def A_def B_def C_def ..
    have A: "A n x d = Some r \<Longrightarrow> A (Suc n) x d = Some r" for x d r
      by (cases x) (auto simp: A_def simp del: schema_FromInternal.simps dest!: one)
    have B: "B n x d = Some r \<Longrightarrow> B (Suc n) x d = Some r" for x d r
      by (cases x) (auto simp: B_def simp del: schema_FromInternal.simps elim!: fold_opt_mono dest!: one)
    have C: "C n x d = Some r \<Longrightarrow> C (Suc n) x d = Some r" for x d r
      by (cases x) (auto simp: C_def simp del: schema_FromInternal.simps elim!: fold_opt_mono dest!: one)
    from Suc.prems obtain x y z where
      "fold_opt (A n) (tm_subSchemas t) d = Some x" "fold_opt (B n) (tm_subMapSchemas t) x = Some y"
      "fold_opt (C n) (tm_subArraySchemas t) y = Some z" "r = FromInternal (Mappers (tm_Mappers t)) z"
      unfolding eq by (auto simp: bind_eq_Some_conv)
    moreover from this have "fold_opt (A (Suc n)) (tm_subSchemas t) d = Some x"
      "fold_opt (B (Suc n)) (tm_subMapSchemas t) x = Some y" "fold_opt (C (Suc n)) (tm_subArraySchemas t) y = Some z"
      using fold_opt_mono[where f = "A n" and g = "A (Suc n)", OF _ A]
        fold_opt_mono[where f = "B n" and g = "B (Suc n)", OF _ B]
        fold_opt_mono[where f = "C n" and g = "C (Suc n)", OF _ C] by blast+
    ultimately show ?thesis unfolding eq by simp
  qed (use Suc in simp)
qed simp

lemma FromInternal_mono:
  "schema_FromInternal n H sm d = Some r \<Longrightarrow> n \<le> n' \<Longrightarrow> schema_FromInternal n' H sm d = Some r"
proof (induction "n' - n" arbitrary: n')
  case (Suc k)
  then have "k = (n' - 1) - n" "n \<le> n' - 1" "Suc (n' - 1) = n'" by auto
  with Suc FromInternal_Suc[of "n' - 1" H sm d r] show ?case by simp
qed simp

text \<open>Registries that are filled with new schemas, whatever is registered and removed in between.\<close>

inductive built :: "registry \<Rightarrow> heap \<Rightarrow> bool" where
  empty: "built registry0 H"
| mapper: "built R H \<Longrightarrow> built (AddMapper schemaID m R) H"
| field_mapper: "built R H \<Longrightarrow> built (AddFieldMapper name factory R) H"
| defaults: "built R H \<Longrightarrow> built (R\<lparr>rg_DefaultMapper := dm, rg_DefaultPostMapper := dp\<rparr>) H"
| remove: "built R H \<Longrightarrow> RemoveSchema schemaID R = Some R' \<Longrightarrow> built R' H"
| add: "built R H \<Longrightarrow> sm_Mapper (core s) = None \<Longrightarrow> map_of (rg_schemasByID R) (sm_ID (core s)) = None \<Longrightarrow>
    AddSchema s R H = Some (err, R', H') \<Longrightarrow> built R' H'"

lemma built_settled: "built R H \<Longrightarrow> settled R H"
proof (induction rule: built.induct)
  case (remove R H schemaID R')
  then have "regs R' \<subseteq> regs R"
    by (auto simp: RemoveSchema_def doRemoveSchema_def regs_def split: if_splits dest!: set_delete_subset)
  with remove show ?case by (auto simp: settled_def)
next
  case (add R H s err R' H')
  then show ?case by (rule_tac AddSchema_settled)
qed (simp_all add: settled_def regs_def registry0_def AddMapper_def AddFieldMapper_def)

text \<open>C37: Mapping by a registered schema returns, on every object and however much fuel beyond some
  bound is given, with one result, in every registry that was filled by adding schemas under
  new IDs: the pointers from the mapper of a schema to the mappers of its fields then
  lead to schemas that were registered before.\<close>

theorem registered_mapping_returns:
  assumes "built R H" "find_schema R H name = Some p" "mapper_at H p = Some sm"
  shows "\<exists>d' N. \<forall>n \<ge> N. schema_FromInternal n H sm d = Some d'"
proof -
  from built_settled[OF assms(1)] find_schema_regs[OF assms(2)] have "grounded H p"
    by (simp add: settled_def)
  from FromInternal_returns[OF this assms(3)] obtain N where
    "\<forall>n \<ge> N. \<forall>d. schema_FromInternal n H sm d \<noteq> None" by blast
  then obtain d' where "schema_FromInternal N H sm d = Some d'" by auto
  then show ?thesis using FromInternal_mono by blast
qed

definition list_field :: "string \<Rightarrow> field" where
  "list_field ty = field0\<lparr>f_Type := ty, f_Create := True\<rparr>"

definition new_schema :: "string \<Rightarrow> fields \<Rightarrow> schema" where
  "new_schema schemaID fs = Schema \<lparr>sm_ID = schemaID, sm_Description = '''', sm_CodeName = '''',
     sm_CodeNamePlural = '''', sm_PkgName = '''', sm_PluralName = '''', sm_ResourceMethods = [],
     sm_ResourceFields = Some fs, sm_ResourceActions = None, sm_CollectionMethods = [],
     sm_CollectionFields = None, sm_CollectionActions = None, sm_Attributes = None,
     sm_ResourcePermissions = None, sm_Mapper = None\<rparr> None"

definition node_schema :: schema where
  "node_schema = new_schema ''node'' [(''next'', list_field ''node'')]"

definition added_once :: "(goerr option \<times> registry \<times> heap) option" where
  "added_once = AddSchema node_schema registry0 []"

definition added_twice :: "(goerr option \<times> registry \<times> heap) option" where
  "added_twice = Option.bind added_once (\<lambda>(_, R, H). AddSchema node_schema R H)"

definition next_map :: "nat list \<Rightarrow> typeMapper" where
  "next_map ps = \<lparr>tm_Mappers = [], tm_root = False, tm_typeName = ''node'',
     tm_subSchemas = map (Pair ''next'') ps, tm_subArraySchemas = [], tm_subMapSchemas = []\<rparr>"

lemma added_once_eval:
  "added_once \<noteq> None \<and> find_schema (fst (snd (the added_once))) (snd (snd (the added_once))) ''node'' = Some 0 \<and>
   mapper_at (snd (snd (the added_once))) 0 = Some (TypeMapper (next_map []))"
  by code_simp

lemma added_twice_eval:
  "added_twice \<noteq> None \<and> find_schema (fst (snd (the added_twice))) (snd (snd (the added_twice))) ''node'' = Some 0 \<and>
   mapper_at (snd (snd (the added_twice))) 0 = Some (TypeMapper (next_map [0]))"
  by code_simp

lemma built_once: "built (fst (snd (the added_once))) (snd (snd (the added_once)))"
proof -
  have "AddSchema node_schema registry0 [] = Some (the added_once)"
    using added_once_eval by (simp add: added_once_def)
  then show ?thesis
    by (intro built.add[OF built.empty[of "[]"], of node_schema "fst (the added_once)"])
      (simp_all add: node_schema_def new_schema_def registry0_def)
qed

theorem registered_mapping_returns_witness:
  "\<exists>d' n. schema_FromInternal n (snd (snd (the added_once))) (TypeMapper (next_map [])) None = Some d'"
  using registered_mapping_returns[OF built_once conjunct1[OF conjunct2[OF added_once_eval]]
      conjunct2[OF conjunct2[OF added_once_eval]], of None]
  by blast

text \<open>A schema that mentions itself and is added a second time finds itself registered: from then
  on its mapper calls itself for the field, on the missing object too, without end.\<close>

lemma added_twice_diverges:
  "schema_FromInternal n (snd (snd (the added_twice))) (TypeMapper (next_map [0])) d = None"
proof (induction n arbitrary: d)
  case (Suc n)
  then show ?case
    using added_twice_eval by (simp add: next_map_def)
qed simp

subsection \<open>Mapped data fits the modified schema\<close>

definition conforms :: "object \<Rightarrow> nat \<Rightarrow> heap \<Rightarrow> bool" where
  "conforms d p H \<longleftrightarrow> (\<forall>k. obj_get d k \<noteq> None \<longrightarrow> get_field H p k \<noteq> None)"

text \<open>Mappers that stay on the top level of an object, as they are before any \<open>ModifySchema\<close>.\<close>

fun flat :: "mapper \<Rightarrow> bool" where
  "flat (Exists _ m enabled) = (\<not> enabled \<and> flat m)"
| "flat (Move _ from to _ destDefined _) = (flat_name from \<and> flat_name to \<and> \<not> destDefined)"
| "flat (SliceToMap _ _) = False"
| "flat (Mappers ms) = list_all flat ms"
| "flat _ = True"

lemma conformsD: "conforms d p H \<Longrightarrow> get_field H p k = None \<Longrightarrow> obj_get d k = None"
  by (auto simp: conforms_def)

lemma ValidateField_None: "ValidateField fld p H = None \<longleftrightarrow> get_field H p fld \<noteq> None"
  by (simp add: ValidateField_def)

lemma conforms_update_field:
  "p < length H \<Longrightarrow> sm_ResourceFields (core (H ! p)) \<noteq> None \<Longrightarrow> conforms d p H \<Longrightarrow>
   conforms d p (set_fields p (AList.update n fld) H)"
  by (auto simp: conforms_def get_update_fields)

lemma fits_Access:
  "Access_modify fs opt p H = (None, H') \<Longrightarrow> p < length H \<Longrightarrow> conforms d p H \<Longrightarrow> conforms d p H'"
proof (induction fs opt p H arbitrary: H' rule: Access_modify.induct)
  case (2 name access fs opt p H)
  show ?case
  proof (cases "ValidateField name p H")
    case None
    then obtain f where "get_field H p name = Some f" by (auto simp: ValidateField_None)
    from get_field_Some_fields[OF this] 2 None show ?thesis
      by (simp add: conforms_update_field Let_def)
  next
    case (Some e)
    with 2 show ?thesis by (auto split: if_splits)
  qed
qed simp

lemma fits_Alias: "Alias_modify ns p H = Some H' \<Longrightarrow> p < length H \<Longrightarrow> conforms d p H \<Longrightarrow> conforms d p H'"
  by (induction ns p H arbitrary: H' rule: Alias_modify.induct)
    (auto simp: bind_eq_Some_conv put_field_Some intro: conforms_update_field)

lemma Embed_loop_fields:
  "Embed_loop fld ro ign ovr fs p emb del H = Some (None, emb', del', H') \<Longrightarrow> p < length H \<Longrightarrow>
   (\<forall>k. get_field H p k \<noteq> None \<longrightarrow> get_field H' p k \<noteq> None) \<and> set emb \<subseteq> set emb' \<and>
   (\<forall>k \<in> set emb' - set emb. get_field H' p k \<noteq> None) \<and> length H' = length H"
proof (induction fld ro ign ovr fs p emb del H arbitrary: emb' del' H' rule: Embed_loop.induct)
  case (2 fld ro ign ovr name f fs p emb del H)
  show ?case
  proof (cases "name \<in> set ign")
    case False
    let ?f = "if ro then f\<lparr>f_Create := False, f_Update := False\<rparr> else f"
    from 2(3) False obtain H1 where H1: "put_field p name ?f H = Some H1"
        "Embed_loop fld ro ign ovr fs p (emb @ [name]) (del \<and> name \<noteq> fld) H1 = Some (None, emb', del', H')"
      and ov: "\<not> (name \<noteq> fld \<and> \<not> ovr \<and> get_field H p name \<noteq> None)"
      by (auto simp: bind_eq_Some_conv Let_def split: if_splits)
    have H1': "sm_ResourceFields (core (H ! p)) \<noteq> None" "H1 = set_fields p (AList.update name ?f) H"
      using H1(1) by (auto simp: put_field_Some)
    have g: "get_field H1 p k = (if k = name then Some ?f else get_field H p k)" for k
      unfolding H1'(2) using get_update_fields[OF 2(4)] H1'(1) by simp
    have len: "p < length H1" "length H1 = length H" unfolding H1'(2) using 2(4) by simp_all
    have IH: "(\<forall>k. get_field H1 p k \<noteq> None \<longrightarrow> get_field H' p k \<noteq> None) \<and> set (emb @ [name]) \<subseteq> set emb' \<and>
        (\<forall>k \<in> set emb' - set (emb @ [name]). get_field H' p k \<noteq> None) \<and> length H' = length H1"
      by (rule 2(2)[OF False ov refl H1(1,2) len(1)])
    then have "get_field H' p name \<noteq> None" using g[of name] by fastforce
    with IH g len show ?thesis by auto
  qed (use 2 in auto)
qed auto

lemma fits_Embed:
  assumes m: "Embed_modify fld opt ro ign ovr old R p H = Some (None, emb, H')"
    and p: "p < length H" and d: "conforms d p H"
  shows "conforms (Embed_from fld emb d) p H'"
proof (cases "ValidateField fld p H")
  case (Some e)
  with m have "H' = H" "emb = old" by (auto simp: Embed_modify_def split: if_splits)
  moreover have "obj_get d fld = None" using Some d by (auto simp: ValidateField_def conforms_def split: if_splits)
  ultimately show ?thesis using d by (simp add: conforms_def Embed_from_get Object_Map_get)
next
  case None
  let ?id = "f_Type (field_or_zero (get_field H p fld))"
  from m None obtain sub where sub: "rg_Schema R H ?id = Some sub"
    by (auto simp: Embed_modify_def bind_eq_Some_conv Let_def)
  show ?thesis
  proof (cases sub)
    case None': None
    with m None sub have "H' = H" "emb = []" by (auto simp: Embed_modify_def Let_def split: if_splits)
    with d show ?thesis by (simp add: conforms_def Embed_from_get)
  next
    case (Some q)
    with m None sub obtain del H1 where
      l: "Embed_loop fld ro ign ovr (fields_of (core (H ! q))) p [] True H = Some (None, emb, del, H1)"
      and H': "H' = (if del then set_fields p (AList.delete fld) H1 else H1)"
      by (auto simp: Embed_modify_def Let_def bind_eq_Some_conv split: option.splits)
    note lf = Embed_loop_fields[OF l p]
    then have p1: "p < length H1" using p by simp
    have "get_field H1 p k \<noteq> None" if "obj_get (Embed_from fld emb d) k \<noteq> None" for k
      using that lf d by (auto simp: Embed_from_get conforms_def split: if_splits)
    moreover have "obj_get (Embed_from fld emb d) fld = None" by (simp add: Embed_from_get)
    ultimately show ?thesis using p1 by (auto simp: H' conforms_def get_delete_fields)
  qed
qed

lemma getField_flat:
  "flat_name n \<Longrightarrow> getField R H p n = Some (Inr (p, n, field_or_zero (get_field H p n), get_field H p n \<noteq> None))"
  by (simp add: getField_def Split_flat)

lemma Contains_slash_flat: "flat_name n \<Longrightarrow> \<not> Contains n ''/''"
  by (simp add: flat_name_def Contains_def Index_None_notin)

lemma fits_Move:
  assumes m: "Move_modify opt from to cn False nd R p H = Some (None, H')"
    and fl: "flat_name from" "flat_name to" and p: "p < length H" and d: "conforms d p H"
  shows "conforms (Move_path from to d) p H'"
proof (cases "get_field H p from")
  case None
  with m fl have "H' = H" by (simp add: Move_modify_def getField_flat split: if_splits)
  with None d fl show ?thesis by (auto simp: conforms_def Move_flat split: option.splits)
next
  case (Some f)
  from m fl Some have to: "get_field H p to = None"
    by (auto simp: Move_modify_def getField_flat Contains_slash_flat split: if_splits)
  with Some have ne: "from \<noteq> to" by auto
  define H1 where "H1 = (if nd then H else set_fields p (AList.delete from) H)"
  from m fl Some to obtain fl where "put_field p to fl H1 = Some H'"
    by (auto simp: Move_modify_def getField_flat Let_def bind_eq_Some_conv H1_def split: if_splits)
  then have H': "H' = set_fields p (AList.update to fl) H1" "sm_ResourceFields (core (H1 ! p)) \<noteq> None"
    by (simp_all add: put_field_Some)
  have p1: "p < length H1" using p by (simp add: H1_def)
  have g1: "get_field H1 p k = (if k = from \<and> \<not> nd then None else get_field H p k)" for k
    by (cases nd) (simp_all add: H1_def get_delete_fields[OF p])
  have g: "get_field H' p k = (if k = to then Some fl else if k = from \<and> \<not> nd then None else get_field H p k)" for k
    unfolding H'(1) get_update_fields[OF p1] g1 using H'(2) by auto
  show ?thesis
    using d g ne assms(2,3) by (auto simp: conforms_def Move_get split: if_splits)
qed

lemma ModifySchema_Mappers_shape:
  "ModifySchema (Mappers ms) R p H = Some (m', err, H') \<Longrightarrow> \<exists>ms'. m' = Mappers ms'"
proof (induction ms arbitrary: H m' err H')
  case (Cons m ms)
  then obtain m1 err1 H1 where 1: "ModifySchema m R p H = Some (m1, err1, H1)"
    by (auto simp: bind_eq_Some_conv)
  show ?case
  proof (cases err1)
    case None
    with Cons.prems 1 obtain m2 err2 H2 where 2: "ModifySchema (Mappers ms) R p H1 = Some (m2, err2, H2)"
        "(case m2 of Mappers ms' \<Rightarrow> (Mappers (m1 # ms'), err2, H2) | _ \<Rightarrow> (m2, err2, H2)) = (m', err, H')"
      by (fastforce simp: map_option_eq_Some)
    from Cons.IH[OF 2(1)] 2(2) show ?thesis by auto
  qed (use Cons.prems 1 in auto)
qed simp

lemma fits_mapper:
  "ModifySchema m R p H = Some (m', None, H') \<Longrightarrow> flat m \<Longrightarrow> p < length H \<Longrightarrow> conforms d p H \<Longrightarrow>
   conforms (FromInternal m' d) p H'"
proof (induction m R p H arbitrary: m' H' d rule: ModifySchema.induct)
  case (1 fs opt R p H)
  then show ?case by (auto split: prod.splits intro: fits_Access)
next
  case (2 fld names R p H)
  then show ?case by (auto intro: fits_Alias)
next
  case (4 fld opt R p H)
  then show ?case by (auto simp: conforms_def get_delete_fields split: if_splits)
next
  case (5 fld opt ro ign ovr emb ok R p H)
  then show ?case by (auto intro: fits_Embed)
next
  case (8 fld m enabled R p H)
  then show ?case by (auto split: if_splits)
next
  case (10 opt from_f to_f cn dd nd R p H)
  then show ?case by (auto intro: fits_Move)
next
  case (11 fld i x R p H)
  then show ?case by (auto simp: conforms_def ValidateField_None split: if_splits)
next
  case (14 m ms R p H)
  from 14(3) obtain m1 err1 H1 where 1: "ModifySchema m R p H = Some (m1, err1, H1)"
    by (auto simp: bind_eq_Some_conv)
  with 14(3) have e: "err1 = None" by (cases err1) auto
  with 14(3) 1 have "map_option (\<lambda>(m', r). case m' of Mappers ms' \<Rightarrow> (Mappers (m1 # ms'), r) | _ \<Rightarrow> (m', r))
      (ModifySchema (Mappers ms) R p H1) = Some (m', None, H')" by simp
  then obtain m2 err2 H2 where 2: "ModifySchema (Mappers ms) R p H1 = Some (m2, err2, H2)"
      "(case m2 of Mappers ms' \<Rightarrow> (Mappers (m1 # ms'), err2, H2) | _ \<Rightarrow> (m2, err2, H2)) = (m', None, H')"
    by (auto simp: map_option_eq_Some)
  obtain ms' where m2: "m2 = Mappers ms'"
    using ModifySchema_Mappers_shape[OF 2(1)] by blast
  with 2(2) have r: "err2 = None" "H' = H2" "m' = Mappers (m1 # ms')" by auto
  have c1: "conforms (FromInternal m1 d) p H1" using 14(1)[OF 1[unfolded e]] 14(4-6) by simp
  have "p < length H1" using ModifySchema_mappers[OF 1] 14(5) by (simp add: same_mappers_def)
  from 14(2)[OF 1 refl refl e 2(1)[unfolded r(1)] _ this c1] 14(4) show ?case by (simp add: r m2)
qed (auto split: if_splits)


definition outer_inner :: heap where
  "outer_inner = [new_schema ''inner'' [(''size'', list_field ''int'')],
     new_schema ''outer'' [(''spec'', list_field ''inner''), (''id'', list_field ''string'')]]"

definition outer_registry :: registry where
  "outer_registry = registry0\<lparr>rg_schemasByID := [(''inner'', 0)], rg_schemas := [0]\<rparr>"

definition outer_mappers :: "mapper list" where
  "outer_mappers = [Embed ''spec'' False False [] False [] False, mp ''size'' ''count'' '''']"

definition outer_modified :: "mapper \<times> goerr option \<times> heap" where
  "outer_modified = the (ModifySchema (Mappers outer_mappers) outer_registry 1 outer_inner)"


subsection \<open>Findings\<close>

text \<open>\<open>AddSchema\<close> holds the mutex while the mappers modify the schema, and the mappers that look
  up another schema lock it again: the call never comes back.\<close>

lemma AddSchema_embed_hangs:
  "Option.is_none (AddSchema (outer_inner ! 1)
     (AddMapper ''outer'' (Embed ''spec'' False False [] False [] False) outer_registry) outer_inner)"
  by code_simp

text \<open>A removed schema is still found by its ID, through the list that \<open>RemoveSchema\<close> leaves alone.\<close>

lemma removed_schema_found:
  "find_schema (the (RemoveSchema ''inner'' outer_registry)) outer_inner ''inner'' = Some 0"
  by code_simp

text \<open>Moving a field out of a nested schema deletes the whole path as a field name there, so the
  field stays.\<close>

lemma Move_nested_stays:
  "get_field (snd (snd (the (ModifySchema (mp ''spec/size'' ''count'' '''') outer_registry 1 outer_inner))))
     0 ''size'' \<noteq> None"
  by code_simp

end
