(* ===== verification/Schema_OpenAPI.thy ===== *)
theory Schema_OpenAPI
  imports Schema_Safety
begin

section \<open>Schemas to OpenAPI: pkg/schemas/openapi\<close>

text \<open>
  \<open>pkg/schemas/openapi/generate.go\<close>: the JSON schema of a registered schema. Schemas refer to
  each other by name and may do so in a circle; the set \<open>inflight\<close> of the IDs being generated
  cuts the circle. Generation is written with fuel, where \<open>None\<close> is running out of it (or
  waiting for a locked registry), and shown to need only a finite amount. \<open>json.Marshal\<close> and
  the conversion to \<open>float64\<close> are arguments.
\<close>

record jsp_core =
  jp_Description :: string
  jp_Type :: string
  jp_Nullable :: bool
  jp_MinLength :: "64 word option"
  jp_MaxLength :: "64 word option"
  jp_Enum :: "string list"
  jp_Pattern :: string
  jp_Minimum :: "string option"
  jp_Maximum :: "string option"
  jp_Default :: "string option"
  jp_Required :: "string list"
  jp_XPreserveUnknownFields :: "bool option"
  jp_XIntOrString :: bool

datatype jsp = JSP (jc: jsp_core) (jp_Properties: "(string \<times> jsp) list option")
    (jp_AdditionalProperties: "(bool \<times> jsp) option") (jp_Items: "jsp option")

definition jsp0 :: jsp_core where
  "jsp0 = \<lparr>jp_Description = '''', jp_Type = '''', jp_Nullable = False, jp_MinLength = None,
     jp_MaxLength = None, jp_Enum = [], jp_Pattern = '''', jp_Minimum = None, jp_Maximum = None,
     jp_Default = None, jp_Required = [], jp_XPreserveUnknownFields = None, jp_XIntOrString = False\<rparr>"

record jsonlib =
  jl_marshal :: "val \<Rightarrow> string result"
  jl_float :: "64 word \<Rightarrow> string"

fun marshal_all :: "jsonlib \<Rightarrow> string list \<Rightarrow> string list \<Rightarrow> string list result" where
  "marshal_all E [] acc = Inr acc"
| "marshal_all E (opt # opts) acc =
     (case jl_marshal E (VStr opt) of Inl err \<Rightarrow> Inl err | Inr bytes \<Rightarrow> marshal_all E opts (acc @ [bytes]))"

definition populateField :: "jsonlib \<Rightarrow> jsp_core \<Rightarrow> field \<Rightarrow> jsp_core result" where
  "populateField E j f =
     (let j = j\<lparr>jp_Description := f_Description f\<rparr>;
          j = (if f_Nullable f then j\<lparr>jp_Nullable := f_Nullable f\<rparr> else j);
          j = j\<lparr>jp_MinLength := f_MinLength f, jp_MaxLength := f_MaxLength f\<rparr> in
      case (if f_Type f = ''string'' \<and> length (f_Options f) > 0
            then marshal_all E (f_Options f @ ['''']) (jp_Enum j) else Inr (jp_Enum j)) of
        Inl err \<Rightarrow> Inl err
      | Inr enum \<Rightarrow>
          (let j = j\<lparr>jp_Enum := enum\<rparr>;
               j = (if length (f_InvalidChars f) > 0
                    then j\<lparr>jp_Pattern := ''^[^'' @ f_InvalidChars f @ '']*$''\<rparr> else j);
               j = (if length (f_ValidChars f) > 0
                    then j\<lparr>jp_Pattern := ''^['' @ f_ValidChars f @ '']*$''\<rparr> else j);
               j = (case f_Min f of None \<Rightarrow> j | Some n \<Rightarrow> j\<lparr>jp_Minimum := Some (jl_float E n)\<rparr>);
               j = (case f_Max f of None \<Rightarrow> j | Some n \<Rightarrow> j\<lparr>jp_Maximum := Some (jl_float E n)\<rparr>) in
           if f_Default f \<noteq> VNil then
             (case jl_marshal E (f_Default f) of
                Inl err \<Rightarrow> Inl err
              | Inr bytes \<Rightarrow> Inr (j\<lparr>jp_Default := Some bytes\<rparr>))
           else Inr j))"

definition simple_type :: "string \<Rightarrow> string option" where
  "simple_type typeName = map_of
     [(''intOrString'', ''intOrString''), (''int'', ''integer''), (''float'', ''number''),
      (''string'', ''string''), (''date'', ''string''), (''enum'', ''string''), (''base64'', ''string''),
      (''password'', ''string''), (''hostname'', ''string''), (''boolean'', ''boolean''),
      (''json'', ''object'')] typeName"

definition typeAndSchema ::
    "registry \<Rightarrow> heap \<Rightarrow> string \<Rightarrow> (string \<times> string \<times> schema option) result option" where
  "typeAndSchema R H typeName =
     (if IsReferenceType typeName then Some (Inr (''string'', '''', None))
      else if IsArrayType typeName then Some (Inr (''array'', SubType typeName, None))
      else if IsMapType typeName then Some (Inr (''map'', SubType typeName, None))
      else case simple_type typeName of
        Some t \<Rightarrow> Some (Inr (t, '''', None))
      | None \<Rightarrow>
          map_option (\<lambda>p. case p of
              None \<Rightarrow> Inl (Err (''failed to find schema '' @ typeName))
            | Some p \<Rightarrow> (case InternalSchema (H ! p) of
                Some i \<Rightarrow> Inr ('''', '''', Some i)
              | None \<Rightarrow> Inr ('''', '''', Some (H ! p))))
            (rg_Schema R H typeName))"

text \<open>The fields of a schema in turn: \<open>props ty\<close> is the schema of a type name.\<close>

fun fields_to_props ::
    "(string \<Rightarrow> jsp result option) \<Rightarrow> jsonlib \<Rightarrow> fields \<Rightarrow> string list \<Rightarrow> (string \<times> jsp) list
     \<Rightarrow> (string list \<times> (string \<times> jsp) list) result option" where
  "fields_to_props props E [] req ps = Some (Inr (req, ps))"
| "fields_to_props props E ((name, f) # fs) req ps =
     Option.bind (props (f_Type f)) (\<lambda>r. case r of
       Inl err \<Rightarrow> Some (Inl err)
     | Inr fieldJSP \<Rightarrow>
         (case populateField E (jc fieldJSP) f of
            Inl err \<Rightarrow> Some (Inl err)
          | Inr c \<Rightarrow> fields_to_props props E fs (if f_Required f then req @ [name] else req)
              (AList.update name (JSP c (jp_Properties fieldJSP) (jp_AdditionalProperties fieldJSP)
                 (jp_Items fieldJSP)) ps)))"

fun typeToProps :: "jsonlib \<Rightarrow> registry \<Rightarrow> heap \<Rightarrow> nat \<Rightarrow> string \<Rightarrow> string list \<Rightarrow> jsp result option"
  and schemaToProps :: "jsonlib \<Rightarrow> registry \<Rightarrow> heap \<Rightarrow> nat \<Rightarrow> schema \<Rightarrow> string list \<Rightarrow> jsp result option" where
  "typeToProps E R H 0 typeName inflight = None"
| "typeToProps E R H (Suc n) typeName inflight =
     Option.bind (typeAndSchema R H typeName) (\<lambda>r. case r of
       Inl err \<Rightarrow> Some (Inl err)
     | Inr (t, subType, Some s) \<Rightarrow> schemaToProps E R H n s inflight
     | Inr (t, subType, None) \<Rightarrow>
         if t = ''map'' then
           Option.bind (typeToProps E R H n subType inflight) (\<lambda>r. case r of
             Inl err \<Rightarrow> Some (Inl err)
           | Inr additionalProps \<Rightarrow> Some (Inr
               (if subType \<noteq> ''json''
                then JSP (jsp0\<lparr>jp_Type := ''object'', jp_Nullable := True\<rparr>) None (Some (True, additionalProps)) None
                else JSP (jsp0\<lparr>jp_Type := ''object'', jp_Nullable := True, jp_XPreserveUnknownFields := Some True\<rparr>)
                  None None None)))
         else if t = ''array'' then
           Option.bind (typeToProps E R H n subType inflight) (\<lambda>r. case r of
             Inl err \<Rightarrow> Some (Inl err)
           | Inr items \<Rightarrow> Some (Inr (JSP (jsp0\<lparr>jp_Type := ''array'', jp_Nullable := True\<rparr>) None None (Some items))))
         else if t = ''string'' then
           Some (Inr (JSP (jsp0\<lparr>jp_Type := t, jp_Nullable := True\<rparr>) None None None))
         else if t = ''intOrString'' then
           Some (Inr (JSP (jsp0\<lparr>jp_XIntOrString := True\<rparr>) None None None))
         else Some (Inr (JSP (jsp0\<lparr>jp_Type := t,
             jp_XPreserveUnknownFields := (if t = ''object'' then Some True else None)\<rparr>) None None None)))"
| "schemaToProps E R H 0 s inflight = None"
| "schemaToProps E R H (Suc n) s inflight =
     (let c = jsp0\<lparr>jp_Description := sm_Description (core s), jp_Type := ''object''\<rparr>;
          schemaID = sm_ID (core s) in
      if schemaID \<in> set inflight then Some (Inr (JSP c None None None))
      else
        Option.bind (fields_to_props (\<lambda>ty. typeToProps E R H n ty (schemaID # inflight)) E
            (fields_of (core s)) [] []) (\<lambda>r. case r of
          Inl err \<Rightarrow> Some (Inl err)
        | Inr (req, ps) \<Rightarrow> Some (Inr (JSP (c\<lparr>jp_Required := sort req,
              jp_XPreserveUnknownFields :=
                (if length ps = 0 \<and> HasSuffix (ToLower schemaID) ''map'' then Some True else None)\<rparr>)
            (Some ps) None None))))"

definition without_meta :: "schema \<Rightarrow> schema" where
  "without_meta s = (case s of Schema c i \<Rightarrow> Schema (c\<lparr>sm_ResourceFields := map_option
     (\<lambda>fs. AList.delete ''metadata'' (AList.delete ''apiVersion'' (AList.delete ''kind'' fs)))
     (sm_ResourceFields c)\<rparr>) i)"

definition ToOpenAPI :: "jsonlib \<Rightarrow> registry \<Rightarrow> heap \<Rightarrow> nat \<Rightarrow> string \<Rightarrow> jsp result option" where
  "ToOpenAPI E R H fuel name =
     Option.bind (rg_Schema R H name) (\<lambda>p. case p of
       None \<Rightarrow> Some (Inl (Err (''failed to find schema: '' @ name)))
     | Some p \<Rightarrow>
         (let newSchema = DeepCopy (H ! p);
              newSchema = (case InternalSchema newSchema of Some i \<Rightarrow> DeepCopy i | None \<Rightarrow> newSchema) in
          schemaToProps E R H fuel (without_meta newSchema) []))"

subsection \<open>Generation ends\<close>

definition known_schemas :: "registry \<Rightarrow> heap \<Rightarrow> schema set" where
  "known_schemas R H = (\<lambda>p. H ! p) ` regs R \<union> (\<lambda>p. the (InternalSchema (H ! p))) ` regs R"

definition known_IDs :: "registry \<Rightarrow> heap \<Rightarrow> string set" where
  "known_IDs R H = (\<lambda>s. sm_ID (core s)) ` known_schemas R H"

lemma finite_known_IDs: "finite (known_IDs R H)"
  by (simp add: known_IDs_def known_schemas_def regs_def)

lemma typeAndSchema_known:
  assumes "typeAndSchema R H ty = Some (Inr (t, sub, Some s))"
  shows "s \<in> known_schemas R H"
proof -
  from assms obtain q where q: "rg_Schema R H ty = Some q"
    and r: "(case q of None \<Rightarrow> Inl (Err (''failed to find schema '' @ ty))
            | Some p \<Rightarrow> (case InternalSchema (H ! p) of
                Some i \<Rightarrow> Inr ([], [], Some i)
              | None \<Rightarrow> Inr ([], [], Some (H ! p)))) = Inr (t, sub, Some s)"
    by (auto simp: typeAndSchema_def split: if_splits option.splits)
  then obtain p where p: "q = Some p" by (cases q) auto
  with q r have "rg_Schema R H ty = Some (Some p)"
    and s: "s = (case InternalSchema (H ! p) of Some i \<Rightarrow> i | None \<Rightarrow> H ! p)"
    by (auto split: option.splits)
  then have "p \<in> regs R"
    by (auto simp: rg_Schema_def doSchema_def split: if_splits dest: find_schema_regs)
  then show ?thesis unfolding s known_schemas_def by (force split: option.split)
qed

lemma typeAndSchema_None: "\<not> rg_locked R \<Longrightarrow> typeAndSchema R H ty \<noteq> None"
  by (auto simp: typeAndSchema_def rg_Schema_def doSchema_def split: option.split)

lemma length_SubType: "IsArrayType ty \<or> IsMapType ty \<Longrightarrow> length (SubType ty) < length ty"
proof -
  assume "IsArrayType ty \<or> IsMapType ty"
  then have "\<exists>zs. ty = ''array['' @ zs \<or> ty = ''map['' @ zs" "\<exists>ws. ty = ws @ '']''"
    unfolding IsArrayType_def IsMapType_def prefix_def suffix_def by blast+
  then obtain zs ws where zs: "ty = ''array['' @ zs \<or> ty = ''map['' @ zs" and ws: "ty = ws @ '']''"
    by blast
  from zs have c: "CHR ''['' \<in> set ty" and ne1: "ty \<noteq> []" "hd ty \<noteq> CHR ''[''" by auto
  from ws have ne: "ty \<noteq> []" "hd ty \<noteq> CHR ''[''" "last ty \<noteq> CHR ''[''" using ne1 by simp_all
  obtain i where i: "Index ty ''['' = Some i" using c Index_None_notin[of ty "CHR ''[''"] by auto
  have b: "i + 1 \<le> length ty" using Index_bound[OF i] by simp
  have sp: "ty = take i ty @ ''['' @ drop (i + 1) ty" using Index_split[OF i] by simp
  have "i \<noteq> 0"
  proof
    assume "i = 0"
    with sp have "ty = CHR ''['' # drop 1 ty" by simp
    with ne(2) show False by (metis list.sel(1))
  qed
  moreover have "i + 1 \<noteq> length ty"
  proof
    assume "i + 1 = length ty"
    with sp have "ty = take i ty @ ''[''" by simp
    with ne(3) show False by (metis last_snoc)
  qed
  ultimately show ?thesis using i b by (simp add: SubType_def)
qed

lemma typeAndSchema_sub:
  assumes "typeAndSchema R H ty = Some (Inr (t, sub, None))" "t = ''map'' \<or> t = ''array''"
  shows "length sub < length ty"
proof -
  have st: "simple_type ty \<noteq> Some ''map''" "simple_type ty \<noteq> Some ''array''"
    by (auto simp: simple_type_def split: if_splits)
  have "IsArrayType ty \<or> IsMapType ty"
  proof (rule ccontr)
    assume no: "\<not> (IsArrayType ty \<or> IsMapType ty)"
    then show False
    proof (cases "IsReferenceType ty \<or> simple_type ty \<noteq> None")
      case True
      with assms st no show False by (auto simp: typeAndSchema_def split: if_splits)
    next
      case False
      with assms(1) no obtain z where z: "rg_Schema R H ty = Some z"
        by (cases "rg_Schema R H ty") (auto simp: typeAndSchema_def)
      show False
      proof (cases z)
        case (Some p)
        with assms(1) no False z show False
          by (cases "InternalSchema (H ! p)") (auto simp: typeAndSchema_def)
      qed (use assms(1) no False z in \<open>auto simp: typeAndSchema_def\<close>)
    qed
  qed
  moreover from this assms have "sub = SubType ty"
    by (auto simp: typeAndSchema_def split: if_splits)
  ultimately show ?thesis using length_SubType by simp
qed

definition returns :: "(nat \<Rightarrow> 'a option) \<Rightarrow> bool" where
  "returns f = (\<exists>N. \<forall>n \<ge> N. f n \<noteq> None)"

lemma returnsI: "(\<And>n. n \<ge> N \<Longrightarrow> f n \<noteq> None) \<Longrightarrow> returns f"
  by (auto simp: returns_def)

lemma fields_to_props_returns:
  "(\<And>ty. returns (\<lambda>n. props n ty)) \<Longrightarrow> returns (\<lambda>n. fields_to_props (props n) E fs req ps)"
proof -
  assume r: "\<And>ty. returns (\<lambda>n. props n ty)"
  have "\<exists>N. \<forall>n \<ge> N. \<forall>ty \<in> (f_Type \<circ> snd) ` set fs. props n ty \<noteq> None"
  proof (induction fs)
    case (Cons a fs)
    then obtain N where "\<forall>n \<ge> N. \<forall>ty \<in> (f_Type \<circ> snd) ` set fs. props n ty \<noteq> None" by blast
    moreover obtain M where "\<forall>n \<ge> M. props n (f_Type (snd a)) \<noteq> None"
      using r[of "f_Type (snd a)"] by (auto simp: returns_def)
    ultimately have "\<forall>n \<ge> max N M. \<forall>ty \<in> (f_Type \<circ> snd) ` set (a # fs). props n ty \<noteq> None" by simp
    then show ?case by blast
  qed simp
  then obtain N where N: "\<And>n ty. n \<ge> N \<Longrightarrow> ty \<in> (f_Type \<circ> snd) ` set fs \<Longrightarrow> props n ty \<noteq> None" by blast
  have "fields_to_props (props n) E fs req ps \<noteq> None"
    if "\<And>ty. ty \<in> (f_Type \<circ> snd) ` set fs \<Longrightarrow> props n ty \<noteq> None" for n fs req ps
    using that
  proof (induction fs arbitrary: req ps)
    case (Cons a fs)
    obtain name f where a: "a = (name, f)" by fastforce
    with Cons.prems[of "f_Type f"] obtain r where r: "props n (f_Type f) = Some r" by auto
    have IH: "fields_to_props (props n) E fs req ps \<noteq> None" for req ps
      using Cons.IH Cons.prems by simp
    show ?case
      using IH by (cases r; cases "populateField E (jc (projr r)) f") (auto simp: a r)
  qed simp
  then show ?thesis using N by (intro returnsI[of N]) blast
qed

lemma returns_shift: "returns f \<Longrightarrow> returns (\<lambda>n. case n of 0 \<Rightarrow> None | Suc m \<Rightarrow> f m)"
proof -
  assume "returns f"
  then obtain N where "\<forall>n \<ge> N. f n \<noteq> None" by (auto simp: returns_def)
  then have "\<forall>n \<ge> Suc N. (case n of 0 \<Rightarrow> None | Suc m \<Rightarrow> f m) \<noteq> None" by (auto split: nat.split)
  then show ?thesis by (auto simp: returns_def)
qed

lemma schemaToProps_returns:
  assumes "\<And>ty. returns (\<lambda>n. typeToProps E R H n ty (sm_ID (core s) # inflight))"
  shows "returns (\<lambda>n. schemaToProps E R H n s inflight)"
proof -
  let ?F = "\<lambda>n. fields_to_props (\<lambda>ty. typeToProps E R H n ty (sm_ID (core s) # inflight)) E
            (fields_of (core s)) [] []"
  obtain N where N: "\<forall>n \<ge> N. ?F n \<noteq> None"
    using fields_to_props_returns[of "\<lambda>n ty. typeToProps E R H n ty (sm_ID (core s) # inflight)" E "fields_of (core s)" "[]" "[]"]
      assms by (auto simp: returns_def)
  have "schemaToProps E R H n s inflight \<noteq> None" if n: "n \<ge> Suc N" for n
  proof -
    obtain m where m: "n = Suc m" "m \<ge> N" using n by (cases n) auto
    with N obtain r where "?F m = Some r" by blast
    then show ?thesis by (cases r) (auto simp: m(1) Let_def)
  qed
  then show ?thesis by (rule returnsI)
qed

lemma returns_Suc: "returns f \<Longrightarrow> (\<And>n. f n \<noteq> None \<Longrightarrow> g (Suc n) \<noteq> None) \<Longrightarrow> returns g"
proof -
  assume "returns f" and g: "\<And>n. f n \<noteq> None \<Longrightarrow> g (Suc n) \<noteq> None"
  then obtain N where N: "\<forall>n \<ge> N. f n \<noteq> None" by (auto simp: returns_def)
  show "returns g"
  proof (rule returnsI[of "Suc N"])
    fix n assume "Suc N \<le> n"
    then obtain m where "n = Suc m" "N \<le> m" by (cases n) auto
    with N g show "g n \<noteq> None" by blast
  qed
qed

lemma returns_const: "(\<And>n. f (Suc n) \<noteq> None) \<Longrightarrow> returns f"
  by (rule returns_Suc[of "\<lambda>_. Some ()"]) (simp_all add: returns_def)

lemma typeToProps_returns:
  assumes "\<not> rg_locked R"
  shows "returns (\<lambda>n. typeToProps E R H n ty inflight)"
proof (induction "card (known_IDs R H - set inflight)" arbitrary: inflight ty rule: less_induct)
  case less
  note outer = less.hyps
  show ?case
  proof (induction "length ty" arbitrary: ty rule: less_induct)
    case less
    obtain r where r: "typeAndSchema R H ty = Some r" using typeAndSchema_None[OF assms] by blast
    show ?case
    proof (cases r)
      case (Inl e)
      then show ?thesis by (intro returns_const) (simp add: r)
    next
      case (Inr x)
      obtain t sub so where x: "x = (t, sub, so)" by (cases x)
      show ?thesis
      proof (cases so)
        case (Some s)
        have "s \<in> known_schemas R H" using typeAndSchema_known r Inr x Some by blast
        then have known: "sm_ID (core s) \<in> known_IDs R H" by (simp add: known_IDs_def)
        have "returns (\<lambda>n. schemaToProps E R H n s inflight)"
        proof (cases "sm_ID (core s) \<in> set inflight")
          case True
          then show ?thesis by (intro returns_const) (simp add: Let_def)
        next
          case False
          have "known_IDs R H - set (sm_ID (core s) # inflight) \<subset> known_IDs R H - set inflight"
            using known False by auto
          then have "card (known_IDs R H - set (sm_ID (core s) # inflight)) < card (known_IDs R H - set inflight)"
            by (intro psubset_card_mono) (simp_all add: finite_known_IDs)
          then show ?thesis using outer by (intro schemaToProps_returns) blast
        qed
        then show ?thesis by (rule returns_Suc) (simp add: r Inr x Some)
      next
        case None
        show ?thesis
        proof (cases "t = ''map'' \<or> t = ''array''")
          case True
          with r Inr x None have "length sub < length ty" by (auto intro: typeAndSchema_sub)
          from less.hyps[OF this] show ?thesis
          proof (rule returns_Suc)
            fix n assume "typeToProps E R H n sub inflight \<noteq> None"
            then obtain r' where r': "typeToProps E R H n sub inflight = Some r'" by blast
            from True show "typeToProps E R H (Suc n) ty inflight \<noteq> None"
              by (elim disjE) (cases r'; simp add: r Inr x None r')+
          qed
        next
          case False
          then show ?thesis by (intro returns_const) (simp add: r Inr x None)
        qed
      qed
    qed
  qed
qed

text \<open>C38: Generating the OpenAPI schema of any name ends, with a schema or an error, in every
  registry that is not locked and however its schemas refer to each other, in a circle too: each
  schema is opened once on a path, and a nested type name is shorter than the one around it.\<close>

theorem openapi_generation_ends:
  assumes "\<not> rg_locked R"
  shows "\<exists>N. \<forall>fuel \<ge> N. ToOpenAPI E R H fuel name \<noteq> None"
proof -
  obtain p where p: "rg_Schema R H name = Some p" using assms by (simp add: rg_Schema_def doSchema_def)
  show ?thesis
  proof (cases p)
    case None
    then show ?thesis by (simp add: ToOpenAPI_def p)
  next
    case (Some q)
    have "returns (\<lambda>n. schemaToProps E R H n s [])" for s
      by (rule schemaToProps_returns) (rule typeToProps_returns[OF assms])
    then show ?thesis by (simp add: ToOpenAPI_def p Some Let_def returns_def)
  qed
qed

definition json0 :: jsonlib where
  "json0 = \<lparr>jl_marshal = (\<lambda>v. Inr (Sprint v)), jl_float = (\<lambda>w. Itoa (sint w))\<rparr>"

theorem openapi_generation_ends_witness:
  "(\<exists>fuel. ToOpenAPI json0 (fst (snd (the added_twice))) (snd (snd (the added_twice))) fuel ''node'' \<noteq> None) \<and>
   map_option (map_sum id (\<lambda>j. (jp_Type (jc j), map_option (map (\<lambda>(n, p). (n, jp_Type (jc p), jp_Properties p \<noteq> None))) (jp_Properties j))))
     (ToOpenAPI json0 (fst (snd (the added_twice))) (snd (snd (the added_twice))) 4 ''node'')
     = Some (Inr (''object'', Some [(''next'', ''object'', False)]))"
proof
  have "\<not> rg_locked (fst (snd (the added_twice)))" by code_simp
  from openapi_generation_ends[OF this, of json0 "snd (snd (the added_twice))" "''node''"]
  show "\<exists>fuel. ToOpenAPI json0 (fst (snd (the added_twice))) (snd (snd (the added_twice))) fuel ''node'' \<noteq> None"
    by blast
  show "map_option (map_sum id (\<lambda>j. (jp_Type (jc j), map_option (map (\<lambda>(n, p). (n, jp_Type (jc p), jp_Properties p \<noteq> None))) (jp_Properties j))))
     (ToOpenAPI json0 (fst (snd (the added_twice))) (snd (snd (the added_twice))) 4 ''node'')
     = Some (Inr (''object'', Some [(''next'', ''object'', False)]))"
    by code_simp
qed

end
