(* ===== verification/Schema_Reflect.thy ===== *)
theory Schema_Reflect
  imports Schema_Safety
begin

section \<open>Schemas of Go types: pkg/schemas/reflection.go\<close>

text \<open>
  \<open>pkg/schemas/reflection.go\<close>: the schema of a struct type, read from its fields and their tags.
  Types are entries of a table, the argument \<open>T\<close>, which gives for a \<open>reflect.Type\<close> (a number) its
  name, package, kind, element and fields, as package \<open>reflect\<close> does; recursive types are entries
  that refer to themselves. The recursion over types is written with fuel: \<open>None\<close> is running
  out of it, a registry that is locked, or a panic.
\<close>

datatype kind =
    KBool | KInt | KInt8 | KInt16 | KInt32 | KInt64 | KUint | KUint8 | KUint16 | KUint32 | KUint64
  | KUintptr | KFloat32 | KFloat64 | KString | KInterface | KMap | KSlice | KStruct | KPointer
  | KOther string

record structfield =
  sf_Name :: string
  sf_PkgPath :: string
  sf_Anonymous :: bool
  sf_Type :: nat
  sf_json :: string
  sf_wrangler :: string
  sf_mapper :: string

record gotype =
  ty_Name :: string
  ty_PkgPath :: string
  ty_Kind :: kind
  ty_Elem :: nat
  ty_Fields :: "structfield list"

type_synonym types = "gotype list"

definition skippedNames :: "string list" where
  "skippedNames = [''links'', ''actions'']"

definition TypeName :: "string \<Rightarrow> nat \<Rightarrow> registry \<Rightarrow> registry" where
  "TypeName name t R = R\<lparr>rg_typeNames := AList.update t name (rg_typeNames R)\<rparr>"

definition getTypeName :: "types \<Rightarrow> registry \<Rightarrow> nat \<Rightarrow> string" where
  "getTypeName T R t =
     (case map_of (rg_typeNames R) t of Some name \<Rightarrow> name | None \<Rightarrow> LowerTitle (ty_Name (T ! t)))"

definition SchemaFor :: "types \<Rightarrow> registry \<Rightarrow> heap \<Rightarrow> nat \<Rightarrow> nat option option" where
  "SchemaFor T R H t = rg_Schema R H (getTypeName T R t)"

definition AddMapperForType :: "types \<Rightarrow> nat \<Rightarrow> mapper list \<Rightarrow> registry \<Rightarrow> registry" where
  "AddMapperForType T t ms R =
     (if length ms = 0 then R
      else if length ms = 1 then AddMapper (getTypeName T R t) (ms ! 0) R
      else AddMapper (getTypeName T R t) (Mappers ms) R)"

definition deRef :: "types \<Rightarrow> nat \<Rightarrow> nat" where
  "deRef T t = (if ty_Kind (T ! t) = KPointer then ty_Elem (T ! t) else t)"

subsection \<open>Tags\<close>

definition jsonName :: "structfield \<Rightarrow> string" where
  "jsonName f = hd (SplitN2 (sf_json f) '','')"

definition k8sField :: "string \<Rightarrow> types \<Rightarrow> structfield \<Rightarrow> bool" where
  "k8sField name T f =
     (ty_Name (T ! sf_Type f) = name
      \<and> HasSuffix (ty_PkgPath (T ! sf_Type f)) ''k8s.io/apimachinery/pkg/apis/meta/v1'')"

definition k8sType :: "types \<Rightarrow> structfield \<Rightarrow> bool" where
  "k8sType = k8sField ''TypeMeta''"

definition k8sObject :: "types \<Rightarrow> structfield \<Rightarrow> bool" where
  "k8sObject = k8sField ''ObjectMeta''"

definition getKeyValue :: "string \<Rightarrow> string \<times> string" where
  "getKeyValue input = (case SplitN2 input ''='' of
     [key, v] \<Rightarrow> (key, v) | key # _ \<Rightarrow> (key, '''') | [] \<Rightarrow> ('''', ''''))"

definition split_options :: "string \<Rightarrow> string list" where
  "split_options input =
     filter (\<lambda>part. length part > 0) (map TrimSpace
       (concat (map (\<lambda>i. Split i '' '') (Split input ''|''))))"

definition toInt :: "string \<Rightarrow> structfield \<Rightarrow> 64 word result" where
  "toInt v f = (case parse_int64 v of
     (i, None) \<Rightarrow> Inr i
   | (_, Some err) \<Rightarrow> Inl (Err (''invalid number on field '' @ sf_Name f @ '': '' @ err_text err)))"

definition apply_part :: "structfield \<Rightarrow> string \<Rightarrow> field \<Rightarrow> field result" where
  "apply_part sf part f =
     (case getKeyValue part of (key, v) \<Rightarrow>
        if key = ''type'' then Inr (f\<lparr>f_Type := v\<rparr>)
        else if key = ''codeName'' then Inr (f\<lparr>f_CodeName := v\<rparr>)
        else if key = ''default'' then Inr (f\<lparr>f_Default := VStr v\<rparr>)
        else if key = ''nullable'' then Inr (f\<lparr>f_Nullable := True\<rparr>)
        else if key = ''notnullable'' then Inr (f\<lparr>f_Nullable := False\<rparr>)
        else if key = ''create'' then Inr (f\<lparr>f_Create := True\<rparr>)
        else if key = ''nocreate'' then Inr (f\<lparr>f_Create := False\<rparr>)
        else if key = ''writeOnly'' then Inr (f\<lparr>f_WriteOnly := True\<rparr>)
        else if key = ''required'' then Inr (f\<lparr>f_Required := True\<rparr>)
        else if key = ''update'' then Inr (f\<lparr>f_Update := True\<rparr>)
        else if key = ''noupdate'' then Inr (f\<lparr>f_Update := False\<rparr>)
        else if key = ''minLength'' then map_sum id (\<lambda>i. f\<lparr>f_MinLength := Some i\<rparr>) (toInt v sf)
        else if key = ''maxLength'' then map_sum id (\<lambda>i. f\<lparr>f_MaxLength := Some i\<rparr>) (toInt v sf)
        else if key = ''min'' then map_sum id (\<lambda>i. f\<lparr>f_Min := Some i\<rparr>) (toInt v sf)
        else if key = ''max'' then map_sum id (\<lambda>i. f\<lparr>f_Max := Some i\<rparr>) (toInt v sf)
        else if key = ''options'' then
          Inr (f\<lparr>f_Options := split_options v,
                 f_Type := if f_Type f = '''' then ''enum'' else f_Type f\<rparr>)
        else if key = ''validChars'' then Inr (f\<lparr>f_ValidChars := v\<rparr>)
        else if key = ''invalidChars'' then Inr (f\<lparr>f_InvalidChars := v\<rparr>)
        else Inl (Err (''invalid tag '' @ key @ '' on field '' @ sf_Name sf)))"

fun apply_parts :: "structfield \<Rightarrow> string list \<Rightarrow> field \<Rightarrow> field result" where
  "apply_parts sf [] f = Inr f"
| "apply_parts sf (part # parts) f =
     (if part = '''' then apply_parts sf parts f
      else case apply_part sf part f of Inl err \<Rightarrow> Inl err | Inr f \<Rightarrow> apply_parts sf parts f)"

definition applyTag :: "structfield \<Rightarrow> field \<Rightarrow> field result" where
  "applyTag sf f = apply_parts sf (Split (sf_wrangler sf) '','') f"

fun process_mappers :: "string \<Rightarrow> string \<Rightarrow> string list \<Rightarrow> registry \<Rightarrow> goerr option \<times> registry" where
  "process_mappers schemaID fieldName [] R = (None, R)"
| "process_mappers schemaID fieldName (fieldMapper # fms) R =
     (if fieldMapper = '''' then process_mappers schemaID fieldName fms R
      else
        (let (name, opts) = (case SplitN2 fieldMapper ''='' of
               [n, v] \<Rightarrow> (n, Split v ''|'') | n # _ \<Rightarrow> (n, []) | [] \<Rightarrow> ('''', [])) in
         case map_of (case rg_fieldMappers R of None \<Rightarrow> [] | Some fm \<Rightarrow> fm) name of
           None \<Rightarrow> (Some (Err (''failed to find field mapper ['' @ name @ '']'')), R)
         | Some factory \<Rightarrow>
             process_mappers schemaID fieldName fms (AddMapper schemaID (factory fieldName opts) R)))"

definition processFieldsMappers :: "structfield \<Rightarrow> string \<Rightarrow> string \<Rightarrow> registry \<Rightarrow> goerr option \<times> registry" where
  "processFieldsMappers sf schemaID fieldName R =
     process_mappers schemaID fieldName (Split (sf_mapper sf) '','') R"

definition convert_default :: "floats \<Rightarrow> field \<Rightarrow> field result" where
  "convert_default fl f =
     (if f_Default f = VNil then Inr f
      else if f_Type f = ''int'' then
        (case ToNumber_both fl (f_Default f) of
           (n, None) \<Rightarrow> Inr (f\<lparr>f_Default := VInt64 n\<rparr>) | (_, Some err) \<Rightarrow> Inl err)
      else if f_Type f = ''float'' then
        (case ToFloat fl (f_Default f) of
           (n, None) \<Rightarrow> Inr (f\<lparr>f_Default := VFloat n\<rparr>) | (_, Some err) \<Rightarrow> Inl err)
      else if f_Type f = ''boolean'' then Inr (f\<lparr>f_Default := VBool (ToBool (f_Default f))\<rparr>)
      else Inr f)"

definition field_name :: "structfield \<Rightarrow> string" where
  "field_name sf =
     (if jsonName sf = '''' then
        (let n = LowerTitle (sf_Name sf) in
         if HasSuffix n ''ID'' then TrimSuffix n ''ID'' @ ''Id'' else n)
      else jsonName sf)"

text \<open>Whether a value of the kind can be missing: pointers, and the zero value otherwise.\<close>

definition new_field :: "types \<Rightarrow> structfield \<Rightarrow> field" where
  "new_field T sf = field0\<lparr>f_CodeName := sf_Name sf, f_Create := True, f_Update := True,
     f_Nullable := (ty_Kind (T ! sf_Type sf) = KPointer)\<rparr>"

definition empty_schema :: "types \<Rightarrow> nat \<Rightarrow> string \<Rightarrow> schema" where
  "empty_schema T t typeName = Schema \<lparr>sm_ID = typeName, sm_Description = '''',
     sm_CodeName = ty_Name (T ! t), sm_CodeNamePlural = '''', sm_PkgName = ty_PkgPath (T ! t),
     sm_PluralName = '''', sm_ResourceMethods = [], sm_ResourceFields = Some [],
     sm_ResourceActions = Some [], sm_CollectionMethods = [], sm_CollectionFields = None,
     sm_CollectionActions = Some [], sm_Attributes = Some [], sm_ResourcePermissions = Some [],
     sm_Mapper = None\<rparr> None"

definition k8s_methods :: "nat \<Rightarrow> heap \<Rightarrow> heap" where
  "k8s_methods p H =
     upd_core p (\<lambda>c. c\<lparr>sm_CollectionMethods := [''GET'', ''POST''],
         sm_ResourceMethods := [''GET'', ''PUT'', ''DELETE'']\<rparr>)
       (set_fields p (\<lambda>fs. AList.delete ''metadata'' (AList.delete ''apiVersion'' (AList.delete ''kind'' fs))) H)"

subsection \<open>Reading types\<close>

type_synonym 'a reading = "('a result \<times> registry \<times> heap) option"

text \<open>One field that is not embedded: its tags, the name of its type, its default, its mappers.\<close>

definition read_field ::
    "floats \<Rightarrow> types \<Rightarrow> (nat \<Rightarrow> registry \<Rightarrow> heap \<Rightarrow> string reading) \<Rightarrow> nat \<Rightarrow> structfield \<Rightarrow> registry \<Rightarrow> heap
     \<Rightarrow> unit reading" where
  "read_field fl T ds p sf R H =
     (case applyTag sf (new_field T sf) of
        Inl err \<Rightarrow> Some (Inl err, R, H)
      | Inr f \<Rightarrow>
          Option.bind (if f_Type f = '''' then ds (deRef T (sf_Type sf)) R H
                       else Some (Inr (f_Type f), R, H)) (\<lambda>(r, R, H). case r of
            Inl err \<Rightarrow> Some (Inl (Err (''failed inspecting type, field '' @ field_name sf @ '': '' @ err_text err)), R, H)
          | Inr inferred \<Rightarrow>
              (case convert_default fl (f\<lparr>f_Type := inferred\<rparr>) of
                 Inl err \<Rightarrow> Some (Inl err, R, H)
               | Inr f \<Rightarrow>
                   (case (if rg_fieldMappers R \<noteq> None
                          then processFieldsMappers sf (sm_ID (core (H ! p))) (field_name sf) R else (None, R)) of
                      (Some err, R) \<Rightarrow> Some (Inl err, R, H)
                    | (None, R) \<Rightarrow> map_option (\<lambda>H. (Inr (), R, H)) (put_field p (field_name sf) f H)))))"

text \<open>The loop of \<open>readFields\<close> over the fields of a struct. \<open>rf\<close> reads an embedded struct into the
  same schema and \<open>ds\<close> finds the name of a type; both are the functions below.\<close>

fun read_loop ::
    "floats \<Rightarrow> types \<Rightarrow> (nat \<Rightarrow> registry \<Rightarrow> heap \<Rightarrow> unit reading) \<Rightarrow> (nat \<Rightarrow> registry \<Rightarrow> heap \<Rightarrow> string reading)
     \<Rightarrow> nat \<Rightarrow> structfield list \<Rightarrow> bool \<Rightarrow> bool \<Rightarrow> registry \<Rightarrow> heap \<Rightarrow> unit reading" where
  "read_loop fl T rf ds p [] hasType hasMeta R H =
     Some (Inr (), R, if hasType \<and> hasMeta then k8s_methods p H else H)"
| "read_loop fl T rf ds p (sf # fs) hasType hasMeta R H =
     (if sf_PkgPath sf \<noteq> '''' \<or> jsonName sf = ''-'' then read_loop fl T rf ds p fs hasType hasMeta R H
      else
        (let hasType = (hasType \<or> sf_Anonymous sf \<and> jsonName sf = '''' \<and> k8sType T sf);
             hasMeta = (hasMeta \<or> sf_Anonymous sf \<and> jsonName sf = ''metadata'' \<and> k8sObject T sf) in
         if sf_Anonymous sf \<and> jsonName sf = '''' then
           (if ty_Kind (T ! deRef T (sf_Type sf)) = KStruct then
              Option.bind (rf (deRef T (sf_Type sf)) R H) (\<lambda>(r, R, H). case r of
                Inl err \<Rightarrow> Some (Inl err, R, H)
              | Inr _ \<Rightarrow> read_loop fl T rf ds p fs hasType hasMeta R H)
            else read_loop fl T rf ds p fs hasType hasMeta R H)
         else if field_name sf \<in> set skippedNames then read_loop fl T rf ds p fs hasType hasMeta R H
         else
           Option.bind (read_field fl T ds p sf R H) (\<lambda>(r, R, H). case r of
             Inl err \<Rightarrow> Some (Inl err, R, H)
           | Inr _ \<Rightarrow> read_loop fl T rf ds p fs hasType hasMeta R H)))"

fun overrides_loop ::
    "(nat \<Rightarrow> registry \<Rightarrow> heap \<Rightarrow> unit reading) \<Rightarrow> nat list \<Rightarrow> registry \<Rightarrow> heap \<Rightarrow> unit reading" where
  "overrides_loop rf [] R H = Some (Inr (), R, H)"
| "overrides_loop rf (t # ts) R H =
     Option.bind (rf t R H) (\<lambda>(r, R, H). case r of
       Inl err \<Rightarrow> Some (Inl err, R, H)
     | Inr _ \<Rightarrow> overrides_loop rf ts R H)"

text \<open>The end of \<open>importType\<close>: mappers are assigned, and the schema is added.\<close>

definition register_schema :: "nat \<Rightarrow> registry \<Rightarrow> heap \<Rightarrow> nat reading" where
  "register_schema p R H =
     Option.bind (assignMappers R p H) (\<lambda>(err, H). case err of
       Some e \<Rightarrow> Some (Inl e, R, H)
     | None \<Rightarrow>
         Option.bind (AddSchema (H ! p) R H) (\<lambda>(err, R, H). case err of
           Some e \<Rightarrow> Some (Inl e, R, H)
         | None \<Rightarrow>
             Option.bind (rg_Schema R H (sm_ID (core (H ! p)))) (map_option (\<lambda>q. (Inr q, R, H)))))"

text \<open>\<open>newSchemaFromType\<close> and the overrides: \<open>rf p\<close> reads a struct into the schema \<open>p\<close>.\<close>

definition import_new ::
    "types \<Rightarrow> (nat \<Rightarrow> nat \<Rightarrow> registry \<Rightarrow> heap \<Rightarrow> unit reading) \<Rightarrow> nat \<Rightarrow> nat list \<Rightarrow> registry \<Rightarrow> heap
     \<Rightarrow> nat reading" where
  "import_new T rf t overrides R H =
     (let p = length H in
      Option.bind (rf p t (R\<lparr>rg_processingTypes := AList.update t p (rg_processingTypes R)\<rparr>)
          (H @ [empty_schema T t (getTypeName T R t)])) (\<lambda>(r, R, H).
        let R = R\<lparr>rg_processingTypes := AList.delete t (rg_processingTypes R)\<rparr> in
        case r of
          Inl err \<Rightarrow> Some (Inl err, R, H)
        | Inr _ \<Rightarrow>
            Option.bind (overrides_loop (rf p) overrides R H) (\<lambda>(r, R, H). case r of
              Inl err \<Rightarrow> Some (Inl err, R, H)
            | Inr _ \<Rightarrow> register_schema p R H)))"

definition simple_kind :: "kind \<Rightarrow> string option" where
  "simple_kind k = map_of
     [(KUint8, ''byte''), (KBool, ''boolean''), (KInt, ''int''), (KInt32, ''int''), (KUint, ''int''),
      (KUintptr, ''int''), (KUint32, ''int''), (KUint64, ''int''), (KInt64, ''int''),
      (KFloat32, ''float''), (KFloat64, ''float''), (KInterface, ''json''), (KString, ''string'')] k"

definition simple_struct :: "string \<Rightarrow> string option" where
  "simple_struct name = map_of
     [(''Time'', ''date''), (''IntOrString'', ''intOrString''), (''Quantity'', ''string'')] name"

definition struct_type_name :: "string \<Rightarrow> schema_core \<Rightarrow> string" where
  "struct_type_name name c =
     (if name = ''Duration'' \<and> Contains (sm_PkgName c) ''k8s.io/apimachinery/pkg/apis/meta/v1''
      then ''string'' else sm_ID c)"

fun importType :: "floats \<Rightarrow> types \<Rightarrow> nat \<Rightarrow> nat \<Rightarrow> nat list \<Rightarrow> registry \<Rightarrow> heap \<Rightarrow> nat reading"
  and readFields :: "floats \<Rightarrow> types \<Rightarrow> nat \<Rightarrow> nat \<Rightarrow> nat \<Rightarrow> registry \<Rightarrow> heap \<Rightarrow> unit reading"
  and determineSchemaType :: "floats \<Rightarrow> types \<Rightarrow> nat \<Rightarrow> nat \<Rightarrow> registry \<Rightarrow> heap \<Rightarrow> string reading" where
  "importType fl T 0 t overrides R H = None"
| "importType fl T (Suc n) t overrides R H =
     Option.bind (rg_Schema R H (getTypeName T R t)) (\<lambda>existing. case existing of
       Some p \<Rightarrow> Some (Inr p, R, H)
     | None \<Rightarrow> (case map_of (rg_processingTypes R) t of
         Some p \<Rightarrow> Some (Inr p, R, H)
       | None \<Rightarrow> import_new T (\<lambda>p t R H. readFields fl T n p t R H) t overrides R H))"
| "readFields fl T 0 p t R H = None"
| "readFields fl T (Suc n) p t R H =
     read_loop fl T (\<lambda>t R H. readFields fl T n p t R H) (\<lambda>t R H. determineSchemaType fl T n t R H) p
       (ty_Fields (T ! t)) False False R H"
| "determineSchemaType fl T 0 t R H = None"
| "determineSchemaType fl T (Suc n) t R H =
     (case simple_kind (ty_Kind (T ! t)) of
        Some name \<Rightarrow> Some (Inr name, R, H)
      | None \<Rightarrow>
          if ty_Kind (T ! t) = KMap then
            map_option (\<lambda>(r, s). (map_sum id (\<lambda>subType. ''map['' @ subType @ '']'') r, s))
              (determineSchemaType fl T n (deRef T (ty_Elem (T ! t))) R H)
          else if ty_Kind (T ! t) = KSlice then
            map_option (\<lambda>(r, s). (map_sum id (\<lambda>subType.
                if subType = ''byte'' then ''base64'' else ''array['' @ subType @ '']'') r, s))
              (determineSchemaType fl T n (deRef T (ty_Elem (T ! t))) R H)
          else if ty_Kind (T ! t) = KStruct then
            (case simple_struct (ty_Name (T ! t)) of
               Some name \<Rightarrow> Some (Inr name, R, H)
             | None \<Rightarrow> map_option (\<lambda>(r, R, H).
                 (map_sum id (\<lambda>p. struct_type_name (ty_Name (T ! t)) (core (H ! p))) r, R, H))
                 (importType fl T n t [] R H))
          else Some (Inl (Err ''unknown type kind''), R, H))"

definition Import :: "floats \<Rightarrow> types \<Rightarrow> nat \<Rightarrow> nat \<Rightarrow> nat list \<Rightarrow> registry \<Rightarrow> heap \<Rightarrow> nat reading" where
  "Import fl T fuel t overrides R H = importType fl T fuel (deRef T t) (map (deRef T) overrides) R H"

definition MustImport ::
    "floats \<Rightarrow> types \<Rightarrow> nat \<Rightarrow> nat \<Rightarrow> nat list \<Rightarrow> registry \<Rightarrow> heap \<Rightarrow> (registry \<times> heap) option" where
  "MustImport fl T fuel t overrides R H =
     (if ty_Kind (T ! t) = KPointer then None
      else Option.bind (Import fl T fuel t overrides R H) (\<lambda>(r, s). case r of Inl _ \<Rightarrow> None | Inr _ \<Rightarrow> Some s))"

definition MustCustomizeType ::
    "types \<Rightarrow> nat \<Rightarrow> (schema \<Rightarrow> schema) \<Rightarrow> registry \<Rightarrow> heap \<Rightarrow> heap option" where
  "MustCustomizeType T t f R H =
     Option.bind (rg_Schema R H (getTypeName T R t)) (\<lambda>p. case p of
       None \<Rightarrow> None | Some p \<Rightarrow> Some (H[p := f (H ! p)]))"

subsection \<open>Type names\<close>

lemma SubType_map [simp]: "SubType (''map['' @ s @ '']'') = s"
proof -
  have "Index (''map'' @ CHR ''['' # [] @ (s @ '']'')) (CHR ''['' # []) = Some (length ''map'')"
    by (rule Index_first_char) simp
  then have i: "Index (''map['' @ s @ '']'') ''['' = Some 3" by simp
  show ?thesis unfolding SubType_def i by simp
qed

lemma SubType_array [simp]: "SubType (''array['' @ s @ '']'') = s"
proof -
  have "Index (''array'' @ CHR ''['' # [] @ (s @ '']'')) (CHR ''['' # []) = Some (length ''array'')"
    by (rule Index_first_char) simp
  then have i: "Index (''array['' @ s @ '']'') ''['' = Some 5" by simp
  show ?thesis unfolding SubType_def i by simp
qed

lemma IsMapType_map [simp]: "IsMapType (''map['' @ s @ '']'')"
  by (simp add: IsMapType_def suffix_def)

lemma IsArrayType_array [simp]: "IsArrayType (''array['' @ s @ '']'')"
  by (simp add: IsArrayType_def suffix_def)

text \<open>The name that reflection gives to a map or slice type reads back as one: it is
  recognized as a map or array type and its element name is the name of the element type, at
  every depth of nesting; only a slice of bytes is named \<open>base64\<close>.\<close>

theorem type_names_roundtrip:
  assumes "determineSchemaType fl T (Suc n) t R H = Some (Inr name, R', H')"
  shows "(ty_Kind (T ! t) = KMap \<longrightarrow> IsMapType name \<and>
      determineSchemaType fl T n (deRef T (ty_Elem (T ! t))) R H = Some (Inr (SubType name), R', H')) \<and>
    (ty_Kind (T ! t) = KSlice \<longrightarrow>
      name = ''base64'' \<and> determineSchemaType fl T n (deRef T (ty_Elem (T ! t))) R H = Some (Inr ''byte'', R', H') \<or>
      IsArrayType name \<and>
      determineSchemaType fl T n (deRef T (ty_Elem (T ! t))) R H = Some (Inr (SubType name), R', H'))"
proof (rule conjI; rule impI)
  assume "ty_Kind (T ! t) = KMap"
  then obtain r where r: "determineSchemaType fl T n (deRef T (ty_Elem (T ! t))) R H = Some (r, R', H')"
      "map_sum id (\<lambda>sub. ''map['' @ sub @ '']'') r = Inr name"
    using assms by (cases "determineSchemaType fl T n (deRef T (ty_Elem (T ! t))) R H") (auto simp: simple_kind_def)
  then obtain sub where "determineSchemaType fl T n (deRef T (ty_Elem (T ! t))) R H = Some (Inr sub, R', H')"
      "name = ''map['' @ sub @ '']''" by (cases r) auto
  then show "IsMapType name \<and>
      determineSchemaType fl T n (deRef T (ty_Elem (T ! t))) R H = Some (Inr (SubType name), R', H')"
    using SubType_map[of sub] IsMapType_map[of sub] by simp
next
  assume "ty_Kind (T ! t) = KSlice"
  then obtain r where r: "determineSchemaType fl T n (deRef T (ty_Elem (T ! t))) R H = Some (r, R', H')"
      "map_sum id (\<lambda>sub. if sub = ''byte'' then ''base64'' else ''array['' @ sub @ '']'') r = Inr name"
    using assms by (cases "determineSchemaType fl T n (deRef T (ty_Elem (T ! t))) R H") (auto simp: simple_kind_def)
  then obtain sub where "determineSchemaType fl T n (deRef T (ty_Elem (T ! t))) R H = Some (Inr sub, R', H')"
      "name = (if sub = ''byte'' then ''base64'' else ''array['' @ sub @ '']'')" by (cases r) auto
  then show "name = ''base64'' \<and> determineSchemaType fl T n (deRef T (ty_Elem (T ! t))) R H = Some (Inr ''byte'', R', H') \<or>
      IsArrayType name \<and>
      determineSchemaType fl T n (deRef T (ty_Elem (T ! t))) R H = Some (Inr (SubType name), R', H')"
    using SubType_array[of sub] IsArrayType_array[of sub] by (cases "sub = ''byte''") simp_all
qed

text \<open>A linked node with tags: \<open>type Node struct { Next *Node; Tags map[string][]string }\<close>.\<close>

definition node_types :: types where
  "node_types =
     [\<lparr>ty_Name = ''Node'', ty_PkgPath = ''example'', ty_Kind = KStruct, ty_Elem = 0, ty_Fields =
        [\<lparr>sf_Name = ''Next'', sf_PkgPath = '''', sf_Anonymous = False, sf_Type = 1, sf_json = ''next,omitempty'',
          sf_wrangler = ''nocreate'', sf_mapper = ''''\<rparr>,
         \<lparr>sf_Name = ''Tags'', sf_PkgPath = '''', sf_Anonymous = False, sf_Type = 2, sf_json = '''',
          sf_wrangler = '''', sf_mapper = ''''\<rparr>]\<rparr>,
      \<lparr>ty_Name = '''', ty_PkgPath = '''', ty_Kind = KPointer, ty_Elem = 0, ty_Fields = []\<rparr>,
      \<lparr>ty_Name = '''', ty_PkgPath = '''', ty_Kind = KMap, ty_Elem = 3, ty_Fields = []\<rparr>,
      \<lparr>ty_Name = '''', ty_PkgPath = '''', ty_Kind = KSlice, ty_Elem = 4, ty_Fields = []\<rparr>,
      \<lparr>ty_Name = ''string'', ty_PkgPath = '''', ty_Kind = KString, ty_Elem = 0, ty_Fields = []\<rparr>]"

definition floats0 :: floats where
  "floats0 = \<lparr>fl_trunc = (\<lambda>_. 0), fl_of_int = (\<lambda>w. Itoa (sint w)), fl_parse = (\<lambda>s. (s, None))\<rparr>"

lemma node_import:
  "map_option (\<lambda>(r, R, H). (case r of Inl _ \<Rightarrow> []
      | Inr p \<Rightarrow> map (\<lambda>(n, f). (n, f_Type f, f_Nullable f, f_Create f)) (fields_of (core (H ! p)))))
     (Import floats0 node_types 9 0 [] registry0 [])
   = Some [(''next'', ''node'', True, False), (''tags'', ''map[array[string]]'', False, True)]"
  by code_simp

theorem type_names_roundtrip_witness:
  "map_option fst (determineSchemaType floats0 node_types 4 2 registry0 []) = Some (Inr ''map[array[string]]'') \<and>
   map_option fst (determineSchemaType floats0 node_types 3 3 registry0 []) = Some (Inr (SubType ''map[array[string]]''))"
proof
  show e: "map_option fst (determineSchemaType floats0 node_types 4 2 registry0 []) = Some (Inr ''map[array[string]]'')"
    by code_simp
  then have "map_option fst (determineSchemaType floats0 node_types (Suc 3) 2 registry0 []) = Some (Inr ''map[array[string]]'')"
    by (simp only: Suc_numeral semiring_norm)
  then obtain R' H' where d: "determineSchemaType floats0 node_types (Suc 3) 2 registry0 []
      = Some (Inr ''map[array[string]]'', R', H')"
    unfolding map_option_eq_Some by (metis prod.collapse)
  have "ty_Kind (node_types ! 2) = KMap" "deRef node_types (ty_Elem (node_types ! 2)) = 3" by code_simp+
  with type_names_roundtrip[OF d]
  show "map_option fst (determineSchemaType floats0 node_types 3 3 registry0 [])
      = Some (Inr (SubType ''map[array[string]]''))" by simp
qed

end
