(* ===== verification/Needacert.thy ===== *)
theory Needacert
  imports Objects
begin

section \<open>Certificates for webhooks: pkg/needacert\<close>

text \<open>
  \<open>pkg/needacert/needacert.go\<close>: the secret of a service that asks for a certificate, and the CA
  bundles of the webhook configurations and custom resource definitions that call the service.

  The cluster, its caches and the certificate library are the fields of \<open>capi\<close>: functions of a
  world \<open>'w\<close>, which a write replaces. \<open>nst\<close> holds the world and the requests made, in order. A
  certificate is what the code reads of it, times are nanoseconds, and the two clock readings of
  a run are the arguments \<open>now\<close> (\<open>updateSecret\<close>) and \<open>later\<close> (\<open>scheduleNextCertCheck\<close>). The
  lock of \<open>generateSecret\<close> keeps two runs for one service apart, so a run is one function.
\<close>

subsection \<open>Secrets, services and configurations\<close>

record secret =
  sec_meta :: objmeta
  sec_data :: "(string \<times> string) list option"
  sec_type :: string

record service =
  svc_gvk :: gvk
  svc_meta :: objmeta

record x509 =
  x_DNSNames :: "string list"
  x_NotAfter :: int
  x_Raw :: string

record svcref =
  sr_Namespace :: string
  sr_Name :: string

record clientconfig =
  cc_Service :: "svcref option"
  cc_CABundle :: string

record hookconfig =
  hc_name :: string
  hc_Webhooks :: "(string \<times> clientconfig) list"

text \<open>\<open>Spec.Conversion\<close>, its \<open>Webhook\<close> and the \<open>ClientConfig\<close> of that, each of which may be nil.\<close>

record convcrd =
  cv_name :: string
  cv_Conversion :: "clientconfig option option option"

datatype hookkind = Mutating | Validating

datatype ncall =
    NCreate secret
  | NUpdate secret
  | NUpdateHook hookkind hookconfig
  | NUpdateCRD convcrd
  | NEnqueueAfter string string int
  | NEnqueueHook hookkind string
  | NEnqueueCRD string

record 'w capi =
  ca_cached :: "'w \<Rightarrow> string \<Rightarrow> string \<Rightarrow> secret result"
  ca_get :: "'w \<Rightarrow> string \<Rightarrow> string \<Rightarrow> secret result"
  ca_create :: "secret \<Rightarrow> 'w \<Rightarrow> secret result \<times> 'w"
  ca_update :: "secret \<Rightarrow> 'w \<Rightarrow> secret result \<times> 'w"
  ca_service :: "'w \<Rightarrow> string \<Rightarrow> string \<Rightarrow> service result"
  ca_bySecret :: "'w \<Rightarrow> string \<Rightarrow> service list result"
  ca_hooksByService :: "hookkind \<Rightarrow> 'w \<Rightarrow> string \<Rightarrow> hookconfig list result"
  ca_crdsByService :: "'w \<Rightarrow> string \<Rightarrow> convcrd list result"
  ca_updateHook :: "hookkind \<Rightarrow> hookconfig \<Rightarrow> 'w \<Rightarrow> (hookconfig option \<times> goerr option) \<times> 'w"
  ca_updateCRD :: "convcrd \<Rightarrow> 'w \<Rightarrow> (convcrd option \<times> goerr option) \<times> 'w"
  ca_kinds :: "robj \<Rightarrow> gvk list result"
  ca_generate :: "'w \<Rightarrow> string \<Rightarrow> string list \<Rightarrow> (string \<times> string) result"
  ca_X509KeyPair :: "string \<Rightarrow> string \<Rightarrow> string list result"
  ca_ParseCertificate :: "string \<Rightarrow> x509 result"
  ca_ParseCertsPEM :: "string \<Rightarrow> x509 list result"
  ca_pemEncode :: "string \<Rightarrow> string result"

record 'w nst =
  n_world :: 'w
  n_calls :: "ncall list"

definition send :: "ncall \<Rightarrow> ('w \<Rightarrow> 'r \<times> 'w) \<Rightarrow> 'w nst \<Rightarrow> 'r \<times> 'w nst" where
  "send call f s =
     (case f (n_world s) of (r, w) \<Rightarrow> (r, s\<lparr>n_world := w, n_calls := n_calls s @ [call]\<rparr>))"

definition note_call :: "ncall \<Rightarrow> 'w nst \<Rightarrow> 'w nst" where
  "note_call call s = s\<lparr>n_calls := n_calls s @ [call]\<rparr>"

definition SecretAnnotation :: string where
  "SecretAnnotation = ''need-a-cert.cattle.io/secret-name''"

definition DNSAnnotation :: string where
  "DNSAnnotation = ''need-a-cert.cattle.io/dns-name''"

definition CABundleModeAnnotation :: string where
  "CABundleModeAnnotation = ''need-a-cert.cattle.io/ca-bundle-mode''"

definition CABundleModeCAOnly :: string where
  "CABundleModeCAOnly = ''ca-only''"

definition TLSCertKey :: string where "TLSCertKey = ''tls.crt''"
definition TLSPrivateKeyKey :: string where "TLSPrivateKeyKey = ''tls.key''"

text \<open>Reading a key of \<open>secret.Data\<close>: the empty byte slice when it is not there.\<close>

definition data_get :: "secret \<Rightarrow> string \<Rightarrow> string" where
  "data_get secret k = smap_get (sec_data secret) k"

definition second_ns :: int where "second_ns = 10 ^ 9"
definition minute_ns :: int where "minute_ns = 60 * second_ns"
definition renewBefore :: int where "renewBefore = 24 * 60 * 60 * minute_ns"

subsection \<open>Indexes\<close>

definition serviceSecret :: "service \<Rightarrow> string list" where
  "serviceSecret obj =
     (let secretName = smap_get (m_annotations (svc_meta obj)) SecretAnnotation in
      if secretName = '''' then [] else [m_namespace (svc_meta obj) @ ''/'' @ secretName])"

definition ref_key :: "svcref \<Rightarrow> string" where
  "ref_key r = sr_Namespace r @ ''/'' @ sr_Name r"

definition webhookServices :: "hookconfig \<Rightarrow> string list" where
  "webhookServices obj = List.map_filter (\<lambda>(_, c). map_option ref_key (cc_Service c)) (hc_Webhooks obj)"

definition crdWebhookServices :: "convcrd \<Rightarrow> string list" where
  "crdWebhookServices obj =
     (case cv_Conversion obj of
        Some (Some (Some c)) \<Rightarrow> (case cc_Service c of Some r \<Rightarrow> [ref_key r] | None \<Rightarrow> [])
      | _ \<Rightarrow> [])"

definition resolveServiceFromSecret ::
    "'w capi \<Rightarrow> 'w \<Rightarrow> string \<Rightarrow> string \<Rightarrow> bool \<Rightarrow> (string \<times> string) list result" where
  "resolveServiceFromSecret A w namespace name isSecret =
     (if \<not> isSecret then Inr []
      else case ca_bySecret A w (namespace @ ''/'' @ name) of
        Inl err \<Rightarrow> Inl err
      | Inr services \<Rightarrow> Inr (map (\<lambda>s. (m_namespace (svc_meta s), m_name (svc_meta s))) services))"

subsection \<open>Certificates\<close>

definition parseCert :: "'w capi \<Rightarrow> secret \<Rightarrow> x509 result" where
  "parseCert A secret =
     (if sec_data secret = None then Inl (Err ''secret or secret.Data is nil'')
      else case ca_X509KeyPair A (data_get secret TLSCertKey) (data_get secret TLSPrivateKeyKey) of
        Inl err \<Rightarrow> Inl (Wrap ''failed to load TLS keypair'' err)
      | Inr [] \<Rightarrow> Inl (Err ''failed to load TLS keypair: %!w(<nil>)'')
      | Inr (leaf # _) \<Rightarrow>
          (case ca_ParseCertificate A leaf of
             Inl err \<Rightarrow> Inl (Wrap ''failed to parse X509 certificate'' err)
           | Inr cert \<Rightarrow> Inr cert))"

definition caOnly :: "'w capi \<Rightarrow> string \<Rightarrow> string result" where
  "caOnly A fullChainPEM =
     (case ca_ParseCertsPEM A fullChainPEM of
        Inl err \<Rightarrow> Inl (Wrap ''failed to parse certificate chain'' err)
      | Inr certs \<Rightarrow>
          if length certs = 0 then Inl (Err ''no certificates found in chain'')
          else if length certs = 1 then Inr fullChainPEM
          else
            (case ca_pemEncode A (x_Raw (certs ! (length certs - 1))) of
               Inl err \<Rightarrow> Inl (Wrap ''failed to encode CA certificate'' err)
             | Inr buf \<Rightarrow> Inr buf))"

definition caBundleFor :: "'w capi \<Rightarrow> service option \<Rightarrow> secret \<Rightarrow> string result" where
  "caBundleFor A service secret =
     (let fullChain = data_get secret TLSCertKey in
      case service of
        None \<Rightarrow> Inr fullChain
      | Some svc \<Rightarrow>
          if smap_get (m_annotations (svc_meta svc)) CABundleModeAnnotation \<noteq> CABundleModeCAOnly
          then Inr fullChain else caOnly A fullChain)"

definition service_obj :: "service \<Rightarrow> robj" where
  "service_obj svc = \<lparr>o_gvk = svc_gvk svc, o_meta = Some (svc_meta svc), o_body = []\<rparr>"

definition ToAPIVersionAndKind :: "gvk \<Rightarrow> string \<times> string" where
  "ToAPIVersionAndKind g = (if g = gvk_zero then ('''', '''') else (gv_String g, g_kind g))"

definition empty_objmeta :: objmeta where
  "empty_objmeta = \<lparr>m_namespace = '''', m_name = '''', m_uid = '''', m_resourceVersion = '''',
     m_generation = 0, m_labels = None, m_annotations = None, m_ownerReferences = [],
     m_finalizers = [], m_deletionTimestamp = None\<rparr>"

definition createSecret :: "'w capi \<Rightarrow> 'w \<Rightarrow> service \<Rightarrow> string \<Rightarrow> string \<Rightarrow> string list \<Rightarrow> secret result" where
  "createSecret A w owner ns name dnsNames =
     (case ca_generate A w (ns @ ''-'' @ name) dnsNames of
        Inl err \<Rightarrow> Inl err
      | Inr (cert, key) \<Rightarrow>
          (case gvk_Get (ca_kinds A) (service_obj owner) of
             Inl err \<Rightarrow> Inl err
           | Inr gvk \<Rightarrow>
               (let (apiVersion, kind) = ToAPIVersionAndKind gvk;
                    ref = \<lparr>or_apiVersion = apiVersion, or_kind = kind, or_name = m_name (svc_meta owner),
                           or_uid = m_uid (svc_meta owner), or_controller = None, or_block = None\<rparr> in
                Inr \<lparr>sec_meta = empty_objmeta\<lparr>m_name := name, m_namespace := ns, m_ownerReferences := [ref]\<rparr>,
                     sec_data = Some [(TLSCertKey, cert), (TLSPrivateKeyKey, key)],
                     sec_type = ''kubernetes.io/tls''\<rparr>)))"

definition updateSecret ::
    "'w capi \<Rightarrow> 'w \<Rightarrow> int \<Rightarrow> service \<Rightarrow> secret \<Rightarrow> string list \<Rightarrow> x509 \<Rightarrow> secret option result" where
  "updateSecret A w now owner secret dnsNames cert =
     (if now + renewBefore > x_NotAfter cert
         \<or> length (x_DNSNames cert) = 0
         \<or> \<not> StringsEqual (drop 1 (x_DNSNames cert)) dnsNames
      then
        (case createSecret A w owner (m_namespace (sec_meta secret)) (m_name (sec_meta secret)) dnsNames of
           Inl err \<Rightarrow> Inl err
         | Inr newSecret \<Rightarrow> Inr (Some (secret\<lparr>sec_data := sec_data newSecret\<rparr>)))
      else Inr None)"

text \<open>\<open>time.Until\<close>: the difference saturates at the range of an \<open>int64\<close>.\<close>

definition Until :: "int \<Rightarrow> int \<Rightarrow> int" where
  "Until t now = max (- (2 ^ 63)) (min (2 ^ 63 - 1) (t - now))"

definition scheduleNextCertCheck ::
    "'w capi \<Rightarrow> int \<Rightarrow> service \<Rightarrow> secret \<Rightarrow> 'w nst \<Rightarrow> goerr option \<times> 'w nst" where
  "scheduleNextCertCheck A later obj secret s =
     (case parseCert A secret of
        Inl err \<Rightarrow> (Some (Wrap ''cannot parse certificate'' err), s)
      | Inr cert \<Rightarrow>
          (let nextCheck = Until (x_NotAfter cert - renewBefore) later;
               nextCheck = (if nextCheck < minute_ns then minute_ns else nextCheck) in
           (None, note_call (NEnqueueAfter (m_namespace (svc_meta obj)) (m_name (svc_meta obj)) nextCheck) s)))"

definition dns_names :: "service \<Rightarrow> string list" where
  "dns_names service =
     (let name = m_name (svc_meta service); ns = m_namespace (svc_meta service) in
      sort (remdups
        ([name @ ''.'' @ ns, name @ ''.'' @ ns @ ''.svc'', name @ ''.'' @ ns @ ''.svc.cluster.local''] @
         map snd (filter (\<lambda>(k, v). HasPrefix k DNSAnnotation)
           (case m_annotations (svc_meta service) of None \<Rightarrow> [] | Some a \<Rightarrow> a)))))"

text \<open>The first half of \<open>generateSecret\<close>: the secret that is there, or a new one.\<close>

definition find_or_create ::
    "'w capi \<Rightarrow> service \<Rightarrow> string \<Rightarrow> string list \<Rightarrow> 'w nst \<Rightarrow> secret result \<times> 'w nst" where
  "find_or_create A service secretName dnsNames s =
     (let ns = m_namespace (svc_meta service) in
      case ca_cached A (n_world s) ns secretName of
        Inr secret \<Rightarrow> (Inr secret, s)
      | Inl err \<Rightarrow>
          if \<not> IsNotFound (Some err) then (Inl err, s)
          else (case createSecret A (n_world s) service ns secretName dnsNames of
            Inl err \<Rightarrow> (Inl err, s)
          | Inr newSecret \<Rightarrow>
              (case send (NCreate newSecret) (ca_create A newSecret) s of
                 (Inr secret, s) \<Rightarrow> (Inr secret, s)
               | (Inl err, s) \<Rightarrow>
                   if IsAlreadyExists (Some err) then (ca_get A (n_world s) ns secretName, s)
                   else (Inl err, s))))"

definition generateSecret ::
    "'w capi \<Rightarrow> int \<Rightarrow> int \<Rightarrow> service \<Rightarrow> 'w nst \<Rightarrow> secret option result \<times> 'w nst" where
  "generateSecret A now later service s =
     (let secretName = smap_get (m_annotations (svc_meta service)) SecretAnnotation in
      if secretName = '''' then (Inr None, s)
      else
        (let dnsNames = dns_names service in
         case find_or_create A service secretName dnsNames s of
           (Inl err, s) \<Rightarrow> (Inl err, s)
         | (Inr secret, s) \<Rightarrow>
             (case parseCert A secret of
                Inl err \<Rightarrow> (Inl err, s)
              | Inr cert \<Rightarrow>
                  (case updateSecret A (n_world s) now service secret dnsNames cert of
                     Inl err \<Rightarrow> (Inl err, s)
                   | Inr updated \<Rightarrow>
                       (case (case updated of None \<Rightarrow> (Inr secret, s)
                              | Some u \<Rightarrow> send (NUpdate u) (ca_update A u) s) of
                          (Inl err, s) \<Rightarrow> (Inl err, s)
                        | (Inr secret, s) \<Rightarrow>
                            (case scheduleNextCertCheck A later service secret s of
                               (Some err, s) \<Rightarrow> (Inl (Wrap ''failed to schedule next cert check'' err), s)
                             | (None, s) \<Rightarrow> (Inr (Some secret), s)))))))"

subsection \<open>Handlers\<close>

text \<open>One round of the loop over the webhooks: go on with the configuration and the flag, or return.\<close>

datatype 'a round = Next 'a bool | Return "'a option" "goerr option"

text \<open>The range is over the webhooks of the configuration that the handler was called with;
  \<open>webhook\<close> is the configuration as far as it was changed.\<close>

fun hooks_loop ::
    "'w capi \<Rightarrow> int \<Rightarrow> int \<Rightarrow> (string \<times> clientconfig) list \<Rightarrow> nat \<Rightarrow> hookconfig \<Rightarrow> bool \<Rightarrow> 'w nst
     \<Rightarrow> hookconfig round \<times> 'w nst" where
  "hooks_loop A now later [] i webhook needUpdate s = (Next webhook needUpdate, s)"
| "hooks_loop A now later ((hookName, c) # cs) i webhook needUpdate s =
     (case cc_Service c of
        None \<Rightarrow> hooks_loop A now later cs (Suc i) webhook needUpdate s
      | Some ref \<Rightarrow>
          if sr_Name ref = '''' then hooks_loop A now later cs (Suc i) webhook needUpdate s
          else (case ca_service A (n_world s) (sr_Namespace ref) (sr_Name ref) of
            Inl err \<Rightarrow> if IsNotFound (Some err) then (Return (Some webhook) None, s) else (Return None (Some err), s)
          | Inr service \<Rightarrow>
              (case generateSecret A now later service s of
                 (Inl err, s) \<Rightarrow> (Return None (Some err), s)
               | (Inr None, s) \<Rightarrow> hooks_loop A now later cs (Suc i) webhook needUpdate s
               | (Inr (Some secret), s) \<Rightarrow>
                   (case caBundleFor A (Some service) secret of
                      Inl err \<Rightarrow> (Return None (Some err), s)
                    | Inr caBundle \<Rightarrow>
                        if cc_CABundle c \<noteq> caBundle
                        then hooks_loop A now later cs (Suc i)
                          (webhook\<lparr>hc_Webhooks := (hc_Webhooks webhook)[i :=
                             (fst (hc_Webhooks webhook ! i), snd (hc_Webhooks webhook ! i)\<lparr>cc_CABundle := caBundle\<rparr>)]\<rparr>)
                          True s
                        else hooks_loop A now later cs (Suc i) webhook needUpdate s))))"

text \<open>\<open>OnMutationWebhookChange\<close> and \<open>OnValidatingWebhookChange\<close> differ in the client they update with.
  After the update they return the configuration they sent, because the result is assigned to an
  inner variable.\<close>

definition OnWebhookChange ::
    "hookkind \<Rightarrow> 'w capi \<Rightarrow> int \<Rightarrow> int \<Rightarrow> hookconfig option \<Rightarrow> 'w nst
     \<Rightarrow> hookconfig option \<times> goerr option \<times> 'w nst" where
  "OnWebhookChange kind A now later webhook s =
     (case webhook of
        None \<Rightarrow> (None, None, s)
      | Some webhook \<Rightarrow>
          (case hooks_loop A now later (hc_Webhooks webhook) 0 webhook False s of
             (Return r err, s) \<Rightarrow> (r, err, s)
           | (Next webhook needUpdate, s) \<Rightarrow>
               if \<not> needUpdate then (Some webhook, None, s)
               else (case send (NUpdateHook kind webhook) (ca_updateHook A kind webhook) s of
                   ((r, Some err), s) \<Rightarrow> (r, Some err, s)
                 | ((r, None), s) \<Rightarrow> (Some webhook, None, s))))"

definition OnMutationWebhookChange ::
    "'w capi \<Rightarrow> int \<Rightarrow> int \<Rightarrow> hookconfig option \<Rightarrow> 'w nst \<Rightarrow> hookconfig option \<times> goerr option \<times> 'w nst" where
  "OnMutationWebhookChange = OnWebhookChange Mutating"

definition OnValidatingWebhookChange ::
    "'w capi \<Rightarrow> int \<Rightarrow> int \<Rightarrow> hookconfig option \<Rightarrow> 'w nst \<Rightarrow> hookconfig option \<times> goerr option \<times> 'w nst" where
  "OnValidatingWebhookChange = OnWebhookChange Validating"

definition enqueue_hooks :: "hookkind \<Rightarrow> hookconfig list \<Rightarrow> 'w nst \<Rightarrow> 'w nst" where
  "enqueue_hooks kind hs s = fold (\<lambda>h. note_call (NEnqueueHook kind (hc_name h))) hs s"

definition OnService ::
    "'w capi \<Rightarrow> int \<Rightarrow> int \<Rightarrow> service option \<Rightarrow> 'w nst \<Rightarrow> service option \<times> goerr option \<times> 'w nst" where
  "OnService A now later service s =
     (case service of
        None \<Rightarrow> (None, None, s)
      | Some svc \<Rightarrow>
          (case generateSecret A now later svc s of
             (Inl err, s) \<Rightarrow> (None, Some err, s)
           | (Inr _, s) \<Rightarrow>
               (let indexKey = m_namespace (svc_meta svc) @ ''/'' @ m_name (svc_meta svc) in
                case ca_hooksByService A Mutating (n_world s) indexKey of
                  Inl err \<Rightarrow> (None, Some err, s)
                | Inr mutating \<Rightarrow>
                    (let s = enqueue_hooks Mutating mutating s in
                     case ca_hooksByService A Validating (n_world s) indexKey of
                       Inl err \<Rightarrow> (None, Some err, s)
                     | Inr validating \<Rightarrow>
                         (let s = enqueue_hooks Validating validating s in
                          case ca_crdsByService A (n_world s) indexKey of
                            Inl err \<Rightarrow> (None, Some err, s)
                          | Inr crd \<Rightarrow> (None, None, fold (\<lambda>c. note_call (NEnqueueCRD (cv_name c))) crd s))))))"

text \<open>The client configuration behind the three pointers, when it names a service.\<close>

definition conversion_client :: "convcrd \<Rightarrow> (clientconfig \<times> svcref) option" where
  "conversion_client crd =
     (case cv_Conversion crd of
        Some (Some (Some c)) \<Rightarrow>
          (case cc_Service c of
             Some ref \<Rightarrow> if sr_Name ref = '''' then None else Some (c, ref)
           | None \<Rightarrow> None)
      | _ \<Rightarrow> None)"

definition OnCRDChange ::
    "'w capi \<Rightarrow> int \<Rightarrow> int \<Rightarrow> convcrd option \<Rightarrow> 'w nst \<Rightarrow> convcrd option \<times> goerr option \<times> 'w nst" where
  "OnCRDChange A now later crd s =
     (case crd of
        None \<Rightarrow> (None, None, s)
      | Some crd \<Rightarrow>
          (case conversion_client crd of
             None \<Rightarrow> (Some crd, None, s)
           | Some (c, ref) \<Rightarrow>
               (case ca_service A (n_world s) (sr_Namespace ref) (sr_Name ref) of
                  Inl err \<Rightarrow> if IsNotFound (Some err) then (Some crd, None, s) else (None, Some err, s)
                | Inr service \<Rightarrow>
                    (case generateSecret A now later service s of
                       (Inl _, s) \<Rightarrow> (Some crd, None, s)
                     | (Inr None, s) \<Rightarrow> (Some crd, None, s)
                     | (Inr (Some secret), s) \<Rightarrow>
                         (case caBundleFor A (Some service) secret of
                            Inl err \<Rightarrow> (None, Some err, s)
                          | Inr caBundle \<Rightarrow>
                              if cc_CABundle c \<noteq> caBundle
                              then
                                (let crd = crd\<lparr>cv_Conversion := Some (Some (Some (c\<lparr>cc_CABundle := caBundle\<rparr>)))\<rparr> in
                                 case send (NUpdateCRD crd) (ca_updateCRD A crd) s of
                                   ((r, err), s) \<Rightarrow> (r, err, s))
                              else (Some crd, None, s))))))"

end
