(* ===== verification/Needacert_Spec.thy ===== *)
theory Needacert_Spec
  imports Needacert
begin

section \<open>What the certificate handlers guarantee\<close>

text \<open>
  The abstract view of the secrets is which certificate each holds: the names after the first and
  the end of its life. \<open>ensure\<close> is the abstract step that a run for a service is to be, and
  \<open>generateSecret\<close> refines it. The hypotheses on the cluster (\<open>api_ok\<close>: reads give what was
  stored, by one writer) and on the certificate library (\<open>lib_ok\<close>: a generated certificate carries
  the host and the names and outlives the renewal time) state their documented behaviour.
\<close>

subsection \<open>The abstract step\<close>

datatype certstate = Broken | Holding "string list" int

type_synonym certs = "string \<times> string \<Rightarrow> certstate option"

inductive ensure :: "int \<Rightarrow> string list \<Rightarrow> string \<times> string \<Rightarrow> certs \<Rightarrow> certs \<Rightarrow> bool"
  for now names k where
  kept: "c k = Some (Holding names e) \<Longrightarrow> now + renewBefore \<le> e \<Longrightarrow> ensure now names k c c"
| broken: "c k = Some Broken \<Longrightarrow> ensure now names k c c"
| issued: "c k = None \<or> c k = Some (Holding old e) \<and> (old \<noteq> names \<or> e < now + renewBefore) \<Longrightarrow>
    now + renewBefore \<le> e' \<Longrightarrow> ensure now names k c (c(k \<mapsto> Holding names e'))"

inductive_cases ensureE: "ensure now names k c c'"

lemma ensure_good:
  "ensure now names k c c' \<Longrightarrow> c k \<noteq> Some Broken \<Longrightarrow>
   \<exists>e. c' k = Some (Holding names e) \<and> now + renewBefore \<le> e"
  by (auto elim: ensureE)

lemma ensure_frame: "ensure now names k c c' \<Longrightarrow> k' \<noteq> k \<Longrightarrow> c' k' = c k'"
  by (auto elim: ensureE)

text \<open>Two services that name one secret never come to rest: each step undoes the other's.\<close>

lemma shared_secret_churns:
  assumes "ensure now names1 k c c1" "c k \<noteq> Some Broken" "ensure now names2 k c1 c2" "names1 \<noteq> names2"
  shows "c2 \<noteq> c1"
proof
  assume same: "c2 = c1"
  from ensure_good[OF assms(1,2)] obtain e where 1: "c1 k = Some (Holding names1 e)" by auto
  then have "c1 k \<noteq> Some Broken" by simp
  from ensure_good[OF assms(3) this] same 1 assms(4) show False by auto
qed

subsection \<open>The documented behaviour of the cluster and the library\<close>

definition skey :: "secret \<Rightarrow> string \<times> string" where
  "skey sec = (m_namespace (sec_meta sec), m_name (sec_meta sec))"

definition stored_as :: "('w \<Rightarrow> string \<times> string \<Rightarrow> secret option) \<Rightarrow> secret \<Rightarrow> 'w \<Rightarrow> secret result \<times> 'w \<Rightarrow> bool" where
  "stored_as st sec w r \<longleftrightarrow>
     (\<exists>sec' w'. r = (Inr sec', w') \<and> sec_data sec' = sec_data sec \<and> skey sec' = skey sec
        \<and> st w' = (st w)(skey sec \<mapsto> sec'))"

definition api_ok :: "'w capi \<Rightarrow> ('w \<Rightarrow> string \<times> string \<Rightarrow> secret option) \<Rightarrow> bool" where
  "api_ok A st \<longleftrightarrow>
     (\<forall>w ns n sec. st w (ns, n) = Some sec \<longrightarrow> ca_cached A w ns n = Inr sec \<and> skey sec = (ns, n)) \<and>
     (\<forall>w ns n. st w (ns, n) = None \<longrightarrow> (\<exists>m. ca_cached A w ns n = Inl (NotFound m))) \<and>
     (\<forall>w sec. st w (skey sec) = None \<longrightarrow> stored_as st sec w (ca_create A sec w)) \<and>
     (\<forall>w sec. st w (skey sec) \<noteq> None \<longrightarrow> stored_as st sec w (ca_update A sec w))"

definition lib_ok :: "'w capi \<Rightarrow> int \<Rightarrow> bool" where
  "lib_ok A now \<longleftrightarrow>
     (\<forall>w host names. \<exists>c k leaf rest cert. ca_generate A w host names = Inr (c, k)
        \<and> ca_X509KeyPair A c k = Inr (leaf # rest) \<and> ca_ParseCertificate A leaf = Inr cert
        \<and> x_DNSNames cert = host # names \<and> now + renewBefore \<le> x_NotAfter cert)"

lemma api_okD:
  assumes "api_ok A st"
  shows "st w (ns, n) = Some sec \<Longrightarrow> ca_cached A w ns n = Inr sec"
    and "st w (ns, n) = Some sec \<Longrightarrow> skey sec = (ns, n)"
    and "st w (ns, n) = None \<Longrightarrow> \<exists>m. ca_cached A w ns n = Inl (NotFound m)"
    and "st w (skey sec) = None \<Longrightarrow> stored_as st sec w (ca_create A sec w)"
    and "st w (skey sec) \<noteq> None \<Longrightarrow> stored_as st sec w (ca_update A sec w)"
  using assms unfolding api_ok_def by blast+

subsection \<open>The abstraction\<close>

definition cert_of :: "'w capi \<Rightarrow> secret \<Rightarrow> certstate" where
  "cert_of A sec = (case parseCert A sec of
     Inl _ \<Rightarrow> Broken | Inr c \<Rightarrow> Holding (drop 1 (x_DNSNames c)) (x_NotAfter c))"

definition abs_certs :: "'w capi \<Rightarrow> ('w \<Rightarrow> string \<times> string \<Rightarrow> secret option) \<Rightarrow> 'w \<Rightarrow> certs" where
  "abs_certs A st w k = map_option (cert_of A) (st w k)"

lemma abs_certs_upd: "st w' = (st w)(k \<mapsto> sec) \<Longrightarrow> abs_certs A st w' = (abs_certs A st w)(k \<mapsto> cert_of A sec)"
  by (auto simp: abs_certs_def fun_eq_iff)

lemma parseCert_data: "sec_data a = sec_data b \<Longrightarrow> parseCert A a = parseCert A b"
  by (simp add: parseCert_def data_get_def)

lemma cert_of_data: "sec_data a = sec_data b \<Longrightarrow> cert_of A a = cert_of A b"
  by (simp add: cert_of_def parseCert_data[of a b])

lemma dns_names_ne: "dns_names svc \<noteq> []"
  unfolding dns_names_def Let_def
  by (metis (no_types, lifting) append_Cons list.set_intros(1) empty_iff list.set(1) set_remdups set_sort)

definition fresh :: "'w capi \<Rightarrow> int \<Rightarrow> string list \<Rightarrow> secret \<Rightarrow> bool" where
  "fresh A now names sec \<longleftrightarrow> (\<exists>e. cert_of A sec = Holding names e \<and> now + renewBefore \<le> e)"

lemma createSecret_fresh:
  assumes "lib_ok A now" "gvk_Get (ca_kinds A) (service_obj svc) = Inr g"
  shows "\<exists>sec. createSecret A w svc ns n names = Inr sec \<and> skey sec = (ns, n) \<and> fresh A now names sec"
proof -
  from assms(1) obtain c k leaf rest cert where lib: "ca_generate A w (ns @ ''-'' @ n) names = Inr (c, k)"
      "ca_X509KeyPair A c k = Inr (leaf # rest)" "ca_ParseCertificate A leaf = Inr cert"
      "x_DNSNames cert = (ns @ ''-'' @ n) # names" "now + renewBefore \<le> x_NotAfter cert"
    unfolding lib_ok_def by metis
  obtain apiVersion kind where g: "ToAPIVersionAndKind g = (apiVersion, kind)" by fastforce
  obtain sec where sec: "createSecret A w svc ns n names = Inr sec" "skey sec = (ns, n)"
      "sec_data sec = Some [(TLSCertKey, c), (TLSPrivateKeyKey, k)]"
    using lib(1) assms(2) g by (simp add: createSecret_def skey_def empty_objmeta_def)
  from lib(2-5) sec(3) have "fresh A now names sec"
    by (simp add: fresh_def cert_of_def parseCert_def data_get_def smap_get_def TLSCertKey_def TLSPrivateKeyKey_def)
  with sec(1,2) show ?thesis by blast
qed

text \<open>The secret that \<open>find_or_create\<close> goes on with is the stored one, and was stored before or is fresh.\<close>

lemma find_or_create_spec:
  assumes api: "api_ok A st" and lib: "lib_ok A now" and g: "gvk_Get (ca_kinds A) (service_obj svc) = Inr g"
    and k: "k = (m_namespace (svc_meta svc), n)"
  obtains sec s' where "find_or_create A svc n names s = (Inr sec, s')" "st (n_world s') k = Some sec"
    "s' = s \<or> st (n_world s) k = None \<and> st (n_world s') = (st (n_world s))(k \<mapsto> sec) \<and> fresh A now names sec"
proof (cases "st (n_world s) k")
  case (Some sec)
  with api_okD(1)[OF api] k have "find_or_create A svc n names s = (Inr sec, s)" by (simp add: find_or_create_def)
  with Some that show ?thesis by blast
next
  case None
  with api_okD(3)[OF api, of "n_world s" "fst k" n] k obtain m where m: "ca_cached A (n_world s) (fst k) n = Inl (NotFound m)" by auto
  from createSecret_fresh[OF lib g] k obtain new where new: "createSecret A (n_world s) svc (fst k) n names = Inr new"
      "skey new = k" "fresh A now names new" by fastforce
  with api_okD(4)[OF api, of "n_world s" new] None obtain sec w' where c: "ca_create A new (n_world s) = (Inr sec, w')"
      "sec_data sec = sec_data new" "st w' = (st (n_world s))(k \<mapsto> sec)" by (auto simp: stored_as_def)
  have "find_or_create A svc n names s
      = (Inr sec, s\<lparr>n_world := w', n_calls := n_calls s @ [NCreate new]\<rparr>)"
    using m new(1) c(1) k by (simp add: find_or_create_def send_def IsNotFound_def)
  moreover from c new(3) have "fresh A now names sec" by (simp add: fresh_def cert_of_data[of sec new])
  ultimately show ?thesis using that None c(3) by fastforce
qed

lemma updateSecret_spec:
  assumes lib: "lib_ok A now" and g: "gvk_Get (ca_kinds A) (service_obj svc) = Inr g"
    and cert: "parseCert A sec = Inr cert" and names: "names \<noteq> []"
  shows "fresh A now names sec \<and> updateSecret A w now svc sec names cert = Inr None \<or>
    \<not> fresh A now names sec \<and> (\<exists>u. updateSecret A w now svc sec names cert = Inr (Some u)
       \<and> skey u = skey sec \<and> fresh A now names u)"
proof -
  from cert have co: "cert_of A sec = Holding (drop 1 (x_DNSNames cert)) (x_NotAfter cert)" by (simp add: cert_of_def)
  let ?stale = "now + renewBefore > x_NotAfter cert \<or> length (x_DNSNames cert) = 0 \<or> drop 1 (x_DNSNames cert) \<noteq> names"
  from co names have f: "fresh A now names sec \<longleftrightarrow> \<not> ?stale" by (auto simp: fresh_def)
  from createSecret_fresh[OF lib g] obtain new where new:
      "createSecret A w svc (m_namespace (sec_meta sec)) (m_name (sec_meta sec)) names = Inr new" "fresh A now names new"
    by blast
  let ?u = "sec\<lparr>sec_data := sec_data new\<rparr>"
  have "skey ?u = skey sec" "fresh A now names ?u"
    using new(2) by (auto simp: skey_def fresh_def cert_of_data[of ?u new])
  moreover have "updateSecret A w now svc sec names cert = (if ?stale then Inr (Some ?u) else Inr None)"
    using new(1) by (auto simp: updateSecret_def)
  ultimately show ?thesis using f by auto
qed

lemma schedule_ok: "parseCert A sec = Inr cert \<Longrightarrow>
  \<exists>d. scheduleNextCertCheck A later svc sec s
    = (None, note_call (NEnqueueAfter (m_namespace (svc_meta svc)) (m_name (svc_meta svc)) d) s)"
  by (auto simp: scheduleNextCertCheck_def Let_def)

lemma fresh_parse: "fresh A now names sec \<Longrightarrow> \<exists>cert. parseCert A sec = Inr cert"
  by (cases "parseCert A sec") (auto simp: fresh_def cert_of_def)

lemma note_call_world [simp]: "n_world (note_call c s) = n_world s"
  by (simp add: note_call_def)

lemma abs_certs_Some: "st w k = Some sec \<Longrightarrow> abs_certs A st w k = Some (cert_of A sec)"
  by (simp add: abs_certs_def)

lemma generateSecret_run:
  assumes api: "api_ok A st" and lib: "lib_ok A now" and g: "gvk_Get (ca_kinds A) (service_obj svc) = Inr g"
    and n: "n = smap_get (m_annotations (svc_meta svc)) SecretAnnotation" "n \<noteq> ''''"
    and k: "k = (m_namespace (svc_meta svc), n)"
  obtains (bad) sec err where "st (n_world s) k = Some sec" "parseCert A sec = Inl err"
      "generateSecret A now later svc s = (Inl err, s)"
  | (good) sec s' where "generateSecret A now later svc s = (Inr (Some sec), s')" "fresh A now (dns_names svc) sec"
      "st (n_world s') = (st (n_world s))(k \<mapsto> sec)"
      "st (n_world s) k = Some sec \<or> st (n_world s) k = None
        \<or> (\<exists>old c. st (n_world s) k = Some old \<and> parseCert A old = Inr c \<and> \<not> fresh A now (dns_names svc) old)"
proof -
  let ?N = "dns_names svc"
  obtain sec s1 where f: "find_or_create A svc n ?N s = (Inr sec, s1)" "st (n_world s1) k = Some sec"
      "s1 = s \<or> st (n_world s) k = None \<and> st (n_world s1) = (st (n_world s))(k \<mapsto> sec) \<and> fresh A now ?N sec"
    by (rule find_or_create_spec[OF api lib g k, of ?N s])
  note run = generateSecret_def[of A now later svc s, folded n(1), unfolded Let_def] f(1)
  show ?thesis
  proof (cases "parseCert A sec")
    case (Inl err)
    with f(3) fresh_parse[of A now ?N sec] have "s1 = s" by auto
    moreover from run n(2) Inl have "generateSecret A now later svc s = (Inl err, s1)" by simp
    ultimately show ?thesis using bad f(2) Inl by metis
  next
    case (Inr cert)
    note p = Inr
    show ?thesis
    proof (cases "fresh A now ?N sec")
      case True
      with updateSecret_spec[OF lib g p dns_names_ne, where w = "n_world s1"]
      have u: "updateSecret A (n_world s1) now svc sec ?N cert = Inr None" by blast
      from schedule_ok[OF p, of later svc s1] obtain d where d: "scheduleNextCertCheck A later svc sec s1
        = (None, note_call (NEnqueueAfter (m_namespace (svc_meta svc)) (m_name (svc_meta svc)) d) s1)" by blast
      let ?s2 = "note_call (NEnqueueAfter (m_namespace (svc_meta svc)) (m_name (svc_meta svc)) d) s1"
      from run n(2) p u d have r: "generateSecret A now later svc s = (Inr (Some sec), ?s2)" by simp
      from f(2,3) have "st (n_world ?s2) = (st (n_world s))(k \<mapsto> sec)" by (auto simp: fun_eq_iff)
      moreover from f(2,3) have "st (n_world s) k = Some sec \<or> st (n_world s) k = None" by auto
      ultimately show ?thesis using good[OF r True] by blast
    next
      case False
      with f(3) have s1: "s1 = s" by blast
      from False updateSecret_spec[OF lib g p dns_names_ne, where w = "n_world s1"] obtain u where
          u: "updateSecret A (n_world s1) now svc sec ?N cert = Inr (Some u)" "skey u = skey sec" "fresh A now ?N u" by blast
      have key: "skey sec = k" using api_okD(2)[OF api, where w = "n_world s1" and ns = "fst k" and n = "snd k" and sec = sec] f(2) by simp
      with api_okD(5)[OF api, where w = "n_world s1" and sec = u] u(2) f(2) obtain sec' w' where
          c: "ca_update A u (n_world s1) = (Inr sec', w')" "sec_data sec' = sec_data u"
            "st w' = (st (n_world s1))(k \<mapsto> sec')" by (auto simp: stored_as_def)
      from c(2) u(3) have fr: "fresh A now ?N sec'" by (simp add: fresh_def cert_of_data[of sec' u])
      let ?s2 = "s1\<lparr>n_world := w', n_calls := n_calls s1 @ [NUpdate u]\<rparr>"
      have sd: "send (NUpdate u) (ca_update A u) s1 = (Inr sec', ?s2)" using c(1) by (simp add: send_def)
      from fresh_parse[OF fr] schedule_ok[of A sec' _ later svc ?s2] obtain d where
          d: "scheduleNextCertCheck A later svc sec' ?s2
            = (None, note_call (NEnqueueAfter (m_namespace (svc_meta svc)) (m_name (svc_meta svc)) d) ?s2)" by blast
      from run n(2) p u(1) sd d have r: "generateSecret A now later svc s = (Inr (Some sec'),
          note_call (NEnqueueAfter (m_namespace (svc_meta svc)) (m_name (svc_meta svc)) d) ?s2)" by simp
      show ?thesis by (rule good[OF r fr]) (use c(3) s1 f(2) p False in auto)
    qed
  qed
qed

subsection \<open>Properties\<close>


text \<open>A run settles the service: when it succeeded, another run at the same time returns the same
  secret and makes no request but to be called again later.\<close>

theorem generateSecret_settles:
  assumes api: "api_ok A st" and lib: "lib_ok A now" and g: "gvk_Get (ca_kinds A) (service_obj svc) = Inr g"
    and n: "n = smap_get (m_annotations (svc_meta svc)) SecretAnnotation" "n \<noteq> ''''"
    and run: "generateSecret A now later svc s = (Inr (Some sec), s')"
  shows "\<exists>d. generateSecret A now later svc s' = (Inr (Some sec),
    note_call (NEnqueueAfter (m_namespace (svc_meta svc)) (m_name (svc_meta svc)) d) s')"
proof -
  let ?k = "(m_namespace (svc_meta svc), n)"
  have s': "fresh A now (dns_names svc) sec" "st (n_world s') ?k = Some sec"
    by (rule generateSecret_run[OF api lib g n refl, of s later]; use run in auto)+
  from fresh_parse[OF s'(1)] obtain cert where p: "parseCert A sec = Inr cert" by blast
  from updateSecret_spec[OF lib g p dns_names_ne, where w = "n_world s'"] s'(1)
  have u: "updateSecret A (n_world s') now svc sec (dns_names svc) cert = Inr None" by blast
  from schedule_ok[OF p, of later svc s'] obtain d where d: "scheduleNextCertCheck A later svc sec s'
    = (None, note_call (NEnqueueAfter (m_namespace (svc_meta svc)) (m_name (svc_meta svc)) d) s')" by blast
  from api_okD(1)[OF api s'(2)] have "find_or_create A svc n (dns_names svc) s' = (Inr sec, s')"
    by (simp add: find_or_create_def)
  with n(2) p u d show ?thesis by (intro exI[of _ d]) (simp add: generateSecret_def Let_def n(1)[symmetric])
qed

subsection \<open>A sample cluster\<close>

text \<open>The world is the list of secrets and the library writes the names of a certificate into its
  text, a mark before each character and one after each name.\<close>

fun enc :: "string list \<Rightarrow> string" where
  "enc [] = ''''"
| "enc (x # xs) = concat (map (\<lambda>c. [CHR ''x'', c]) x) @ CHR '';'' # enc xs"

fun dec :: "string \<Rightarrow> string \<Rightarrow> string list" where
  "dec cur (a # s) =
     (if a = CHR '';'' then cur # dec '''' s else (case s of [] \<Rightarrow> [] | c # s \<Rightarrow> dec (cur @ [c]) s))"
| "dec cur [] = []"

lemma dec_word: "dec cur (concat (map (\<lambda>c. [CHR ''x'', c]) x) @ s) = dec (cur @ x) s"
  by (induction x arbitrary: cur) auto

lemma dec_enc: "dec '''' (enc xs) = xs"
  by (induction xs) (auto simp: dec_word)

definition put_secret ::
    "secret \<Rightarrow> ((string \<times> string) \<times> secret) list \<Rightarrow> secret result \<times> ((string \<times> string) \<times> secret) list" where
  "put_secret sec w = (Inr sec, AList.update (skey sec) sec w)"

definition svc_sample :: "string \<Rightarrow> service" where
  "svc_sample name = \<lparr>svc_gvk = mk_gvk '''' ''v1'' ''Service'', svc_meta = empty_objmeta\<lparr>m_name := name, m_namespace := ''ns'',
     m_annotations := Some [(SecretAnnotation, ''tls''), (DNSAnnotation, ''example.org'')]\<rparr>\<rparr>"

definition api_sample :: "((string \<times> string) \<times> secret) list capi" where
  "api_sample = \<lparr>
     ca_cached = (\<lambda>w ns n. case map_of w (ns, n) of
         Some sec \<Rightarrow> if skey sec = (ns, n) then Inr sec else Inl (NotFound n) | None \<Rightarrow> Inl (NotFound n)),
     ca_get = (\<lambda>w ns n. case map_of w (ns, n) of Some sec \<Rightarrow> Inr sec | None \<Rightarrow> Inl (NotFound n)),
     ca_create = put_secret, ca_update = put_secret,
     ca_service = (\<lambda>w ns n. if n = ''gone'' then Inl (NotFound n) else Inr (svc_sample n)),
     ca_bySecret = (\<lambda>w k. Inr []), ca_hooksByService = (\<lambda>k w i. Inr []), ca_crdsByService = (\<lambda>w i. Inr []),
     ca_updateHook = (\<lambda>k h w. ((Some h, None), w)), ca_updateCRD = (\<lambda>c w. ((Some c, None), w)),
     ca_kinds = (\<lambda>ob. Inr []),
     ca_generate = (\<lambda>w host names. Inr (enc (host # names), ''key'')),
     ca_X509KeyPair = (\<lambda>c k. Inr [c]),
     ca_ParseCertificate = (\<lambda>d. Inr \<lparr>x_DNSNames = dec '''' d, x_NotAfter = 365 * 24 * 60 * minute_ns, x_Raw = d\<rparr>),
     ca_ParseCertsPEM = (\<lambda>d. Inr []), ca_pemEncode = Inr\<rparr>"

text \<open>The secrets of a world under their own keys.\<close>

definition secrets_of :: "((string \<times> string) \<times> secret) list \<Rightarrow> string \<times> string \<Rightarrow> secret option" where
  "secrets_of w k = (case map_of w k of Some sec \<Rightarrow> if skey sec = k then Some sec else None | None \<Rightarrow> None)"

lemma secrets_of_update: "secrets_of (AList.update (skey sec) sec w) = (secrets_of w)(skey sec \<mapsto> sec)"
  by (auto simp: secrets_of_def fun_eq_iff update_conv')

lemma api_sample_ok: "api_ok api_sample secrets_of"
  unfolding api_ok_def stored_as_def api_sample_def put_secret_def
  by (auto simp: secrets_of_update secrets_of_def split: option.splits if_splits)

lemma lib_sample_ok: "lib_ok api_sample 0"
  by (auto simp: lib_ok_def api_sample_def dec_word dec_enc renewBefore_def minute_ns_def second_ns_def)

lemma owner_sample: "gvk_Get (ca_kinds api_sample) (service_obj (svc_sample name)) = Inr (mk_gvk '''' ''v1'' ''Service'')"
  by (simp add: gvk_Get_def service_obj_def svc_sample_def mk_gvk_def)

lemma name_sample: "''tls'' = smap_get (m_annotations (svc_meta (svc_sample name))) SecretAnnotation"
  by (simp add: smap_get_def svc_sample_def SecretAnnotation_def)

definition run1 :: "secret option result \<times> ((string \<times> string) \<times> secret) list nst" where
  "run1 = generateSecret api_sample 0 0 (svc_sample ''web'') \<lparr>n_world = [], n_calls = []\<rparr>"


lemma run1_ok: "isl (fst run1) = False" "map_option skey (projr (fst run1)) = Some (''ns'', ''tls'')"
  "length (n_calls (snd run1)) = 2"
  by code_simp+

theorem generateSecret_settles_witness:
  "fst (generateSecret api_sample 0 0 (svc_sample ''web'') (snd run1)) = fst run1 \<and>
   length (n_calls (snd (generateSecret api_sample 0 0 (svc_sample ''web'') (snd run1)))) = 3"
proof -
  from run1_ok(1,2) obtain sec where "fst run1 = Inr (Some sec)" by (cases "fst run1") auto
  then have r: "generateSecret api_sample 0 0 (svc_sample ''web'') \<lparr>n_world = [], n_calls = []\<rparr> = (Inr (Some sec), snd run1)"
    unfolding run1_def by (metis prod.collapse)
  from generateSecret_settles[OF api_sample_ok lib_sample_ok owner_sample name_sample _ r] \<open>fst run1 = _\<close> run1_ok(3)
  show ?thesis by (auto simp: note_call_def)
qed

subsection \<open>CA bundles\<close>

definition hook_update :: "ncall \<Rightarrow> bool" where
  "hook_update call = (case call of NUpdateHook _ _ \<Rightarrow> True | _ \<Rightarrow> False)"

text \<open>The state goes on from the other by requests that update no configuration.\<close>

definition undisturbed :: "'w nst \<Rightarrow> 'w nst \<Rightarrow> bool" where
  "undisturbed s s' \<longleftrightarrow> (\<exists>cs. n_calls s' = n_calls s @ cs \<and> \<not> list_ex hook_update cs)"

lemma quiet_refl [simp]: "undisturbed s s"
  by (simp add: undisturbed_def)

lemma quiet_trans: "undisturbed s s1 \<Longrightarrow> undisturbed s1 s2 \<Longrightarrow> undisturbed s s2"
  by (auto simp: undisturbed_def)

lemma quiet_send: "send call f s = (r, s') \<Longrightarrow> \<not> hook_update call \<Longrightarrow> undisturbed s s'"
  by (auto simp: undisturbed_def send_def split: prod.splits)

lemma quiet_find_or_create: "find_or_create A svc n names s = (r, s') \<Longrightarrow> undisturbed s s'"
  by (auto simp: find_or_create_def Let_def hook_update_def split: sum.splits prod.splits if_splits dest!: quiet_send)

lemma quiet_schedule: "scheduleNextCertCheck A later svc sec s = (r, s') \<Longrightarrow> undisturbed s s'"
  by (auto simp: scheduleNextCertCheck_def Let_def undisturbed_def note_call_def hook_update_def split: sum.splits)

lemma quiet_generateSecret:
  assumes "generateSecret A now later svc s = (r, s')"
  shows "undisturbed s s'"
proof (cases "smap_get (m_annotations (svc_meta svc)) SecretAnnotation = ''''")
  case True
  with assms show ?thesis by (simp add: generateSecret_def Let_def)
next
  case ne: False
  obtain r1 s1 where f: "find_or_create A svc (smap_get (m_annotations (svc_meta svc)) SecretAnnotation) (dns_names svc) s
      = (r1, s1)" by fastforce
  note q1 = quiet_find_or_create[OF f]
  note run = assms[unfolded generateSecret_def Let_def, simplified ne f if_False prod.case]
  show ?thesis
  proof (cases "\<exists>sec cert updated. r1 = Inr sec \<and> parseCert A sec = Inr cert
      \<and> updateSecret A (n_world s1) now svc sec (dns_names svc) cert = Inr updated")
    case False
    then have "s' = s1" using run by (auto split: sum.splits)
    with q1 show ?thesis by simp
  next
    case True
    then obtain sec cert updated where c: "r1 = Inr sec" "parseCert A sec = Inr cert"
        "updateSecret A (n_world s1) now svc sec (dns_names svc) cert = Inr updated" by blast
    obtain r2 s2 where u: "(case updated of None \<Rightarrow> (Inr sec, s1) | Some u \<Rightarrow> send (NUpdate u) (ca_update A u) s1) = (r2, s2)"
      by fastforce
    have q2: "undisturbed s1 s2" using u by (cases updated) (auto simp: hook_update_def dest!: quiet_send)
    show ?thesis
    proof (cases r2)
      case (Inl e)
      with run c u have "s' = s2" by simp
      with q1 q2 show ?thesis by (auto intro: quiet_trans)
    next
      case (Inr sec2)
      obtain e s3 where d: "scheduleNextCertCheck A later svc sec2 s2 = (e, s3)" by fastforce
      with run c u Inr have "s' = s3" by (cases e) auto
      with q1 q2 quiet_schedule[OF d] show ?thesis by (auto intro: quiet_trans)
    qed
  qed
qed

text \<open>What a webhook becomes: the same but for the CA bundle, which is that of the secret of its
  service when the service asks for one.\<close>

definition bundled ::
    "'w capi \<Rightarrow> int \<Rightarrow> int \<Rightarrow> string \<times> clientconfig \<Rightarrow> string \<times> clientconfig \<Rightarrow> bool" where
  "bundled A now later h h' \<longleftrightarrow>
     (case cc_Service (snd h) of
        None \<Rightarrow> h' = h
      | Some ref \<Rightarrow> if sr_Name ref = '''' then h' = h
          else (\<exists>svc s1 s2 res. ca_service A (n_world s1) (sr_Namespace ref) (sr_Name ref) = Inr svc
            \<and> generateSecret A now later svc s1 = (Inr res, s2)
            \<and> (case res of None \<Rightarrow> h' = h
               | Some sec \<Rightarrow> \<exists>b. caBundleFor A (Some svc) sec = Inr b \<and> h' = (fst h, snd h\<lparr>cc_CABundle := b\<rparr>))))"

lemma bundled_skip:
  "cc_Service (snd h) = None \<Longrightarrow> bundled A now later h h"
  "cc_Service (snd h) = Some ref \<Longrightarrow> sr_Name ref = '''' \<Longrightarrow> bundled A now later h h"
  by (auto simp: bundled_def)

lemma bundled_none:
  "cc_Service (snd h) = Some ref \<Longrightarrow> sr_Name ref \<noteq> '''' \<Longrightarrow>
   ca_service A (n_world s1) (sr_Namespace ref) (sr_Name ref) = Inr svc \<Longrightarrow>
   generateSecret A now later svc s1 = (Inr None, s2) \<Longrightarrow> bundled A now later h h"
  unfolding bundled_def by fastforce

lemma bundled_some:
  "cc_Service (snd h) = Some ref \<Longrightarrow> sr_Name ref \<noteq> '''' \<Longrightarrow>
   ca_service A (n_world s1) (sr_Namespace ref) (sr_Name ref) = Inr svc \<Longrightarrow>
   generateSecret A now later svc s1 = (Inr (Some sec), s2) \<Longrightarrow> caBundleFor A (Some svc) sec = Inr b \<Longrightarrow>
   bundled A now later h (fst h, snd h\<lparr>cc_CABundle := b\<rparr>)"
  unfolding bundled_def by fastforce



text \<open>The loop changes one webhook after the other: \<open>front\<close> are those behind it.\<close>

lemma hooks_loop_bundles:
  assumes "hooks_loop A now later cs (length front) wh need s = (Next wh' need', s')"
    and "hc_Webhooks wh = front @ cs"
  shows "\<exists>cs'. wh' = wh\<lparr>hc_Webhooks := front @ cs'\<rparr> \<and> list_all2 (bundled A now later) cs cs'
    \<and> need' = (need \<or> cs' \<noteq> cs) \<and> undisturbed s s'"
  using assms
proof (induction cs arbitrary: front wh need s)
  case Nil
  then show ?case by (cases wh) auto
next
  case (Cons h cs)
  obtain hn c where h: "h = (hn, c)" by fastforce
  have step: "\<exists>cs'. wh' = wh\<lparr>hc_Webhooks := front @ cs'\<rparr> \<and> list_all2 (bundled A now later) (h # cs) cs'
      \<and> need' = (need \<or> cs' \<noteq> h # cs) \<and> undisturbed s s'"
    if "hooks_loop A now later cs (Suc (length front)) (wh\<lparr>hc_Webhooks := front @ h' # cs\<rparr>) (need \<or> h' \<noteq> h) s1
        = (Next wh' need', s')" "bundled A now later h h'" "undisturbed s s1" for h' s1
    using Cons.IH[of "front @ [h']" "wh\<lparr>hc_Webhooks := front @ h' # cs\<rparr>" "need \<or> h' \<noteq> h" s1] that
    by (fastforce intro: quiet_trans)
  have same: "wh\<lparr>hc_Webhooks := front @ h # cs\<rparr> = wh" using Cons.prems(2) by (cases wh) simp
  note stay = step[of h, unfolded same, simplified]
  show ?case
  proof (cases "cc_Service c")
    case None
    with Cons.prems(1) h stay[of s] bundled_skip(1)[of h A now later] show ?thesis by simp
  next
    case (Some ref)
    note ref = Some
    show ?thesis
    proof (cases "sr_Name ref = ''''")
      case True
      with ref Cons.prems(1) h stay[of s] bundled_skip(2)[of h ref A now later] show ?thesis by simp
    next
      case ne: False
      from Cons.prems(1) h ref ne obtain svc where
          svc: "ca_service A (n_world s) (sr_Namespace ref) (sr_Name ref) = Inr svc"
        by (auto split: sum.splits if_splits)
      obtain r s1 where g: "generateSecret A now later svc s = (r, s1)" by fastforce
      note q = quiet_generateSecret[OF g]
      from Cons.prems(1) h ref ne svc g obtain res where r: "r = Inr res" by (cases r) auto
      show ?thesis
      proof (cases res)
        case None
        from bundled_none[of h ref A s svc now later s1] h ref ne svc g r None have "bundled A now later h h" by simp
        with Cons.prems(1) h ref ne svc g r None stay[of s1] q show ?thesis by simp
      next
        case (Some sec)
        from Cons.prems(1) h ref ne svc g r Some obtain b where
            b: "caBundleFor A (Some svc) sec = Inr b" by (auto split: sum.splits)
        let ?h' = "(hn, c\<lparr>cc_CABundle := b\<rparr>)"
        from bundled_some[of h ref A s svc now later sec s1 b] h ref ne svc g r Some b
        have bd: "bundled A now later h ?h'" by simp
        show ?thesis
        proof (cases "cc_CABundle c = b")
          case True
          then have "?h' = h" using h by (cases c) simp
          with Cons.prems(1) h ref ne svc g r Some b True stay[of s1] q bd show ?thesis by simp
        next
          case False
          then have "?h' \<noteq> h" using h by (cases c) auto
          with Cons.prems h ref ne svc g r Some b False step[OF _ bd q] show ?thesis
            by (simp add: nth_append list_update_append)
        qed
      qed
    qed
  qed
qed

text \<open>A webhook names a service that is not there at some time.\<close>

definition missing :: "'w capi \<Rightarrow> (string \<times> clientconfig) list \<Rightarrow> bool" where
  "missing A cs \<longleftrightarrow> (\<exists>h \<in> set cs. \<exists>ref w e. cc_Service (snd h) = Some ref
     \<and> ca_service A w (sr_Namespace ref) (sr_Name ref) = Inl e \<and> IsNotFound (Some e))"

lemma missing_Cons: "missing A cs \<Longrightarrow> missing A (h # cs)"
  by (auto simp: missing_def)

lemma hooks_loop_quiet:
  "hooks_loop A now later cs i wh need s = (Return r err, s') \<Longrightarrow> undisturbed s s' \<and> (err \<noteq> None \<or> missing A cs)"
proof (induction A now later cs i wh need s rule: hooks_loop.induct)
  case (2 A now later hookName c cs i webhook needUpdate s)
  show ?case
  proof (cases "cc_Service c")
    case None
    with 2 show ?thesis by (auto intro: missing_Cons)
  next
    case (Some ref)
    show ?thesis
    proof (cases "sr_Name ref = ''''")
      case True
      with 2 Some show ?thesis by (auto intro: missing_Cons)
    next
      case ne: False
      show ?thesis
      proof (cases "ca_service A (n_world s) (sr_Namespace ref) (sr_Name ref)")
        case (Inl e)
        with 2 Some ne show ?thesis by (auto simp: missing_def split: if_splits)
      next
        case (Inr svc)
        obtain g s1 where g: "generateSecret A now later svc s = (g, s1)" by fastforce
        note q = quiet_generateSecret[OF g]
        show ?thesis
        proof (cases "\<exists>sec b. g = Inr (Some sec) \<and> caBundleFor A (Some svc) sec = Inr b")
          case True
          then obtain sec b where "g = Inr (Some sec)" "caBundleFor A (Some svc) sec = Inr b" by blast
          with 2 Some ne Inr g q show ?thesis
            by (cases "cc_CABundle c = b") (auto intro: quiet_trans missing_Cons)
        next
          case False
          with 2 Some ne Inr g q show ?thesis by (auto split: sum.splits option.splits intro: quiet_trans missing_Cons)
        qed
      qed
    qed
  qed
qed simp

text \<open>C23: What a webhook handler does with a configuration. Either every webhook has become the one
  with the CA bundle of its service's secret, all else kept, and the configuration is updated
  exactly when that changed it, as the last request; or the handler gave up without updating it,
  which it does only with an error or when a service was not found.\<close>

theorem webhook_bundles:
  assumes "OnWebhookChange kind A now later (Some w) s = (r, err, s')"
  shows "(\<exists>ws s1. list_all2 (bundled A now later) (hc_Webhooks w) ws \<and> undisturbed s s1 \<and>
      (if ws = hc_Webhooks w then r = Some w \<and> err = None \<and> s' = s1
       else n_calls s' = n_calls s1 @ [NUpdateHook kind (w\<lparr>hc_Webhooks := ws\<rparr>)]
         \<and> (err = None \<longrightarrow> r = Some (w\<lparr>hc_Webhooks := ws\<rparr>)))) \<or>
    undisturbed s s' \<and> (err \<noteq> None \<or> missing A (hc_Webhooks w))"
proof -
  obtain rd s1 where l: "hooks_loop A now later (hc_Webhooks w) 0 w False s = (rd, s1)" by fastforce
  show ?thesis
  proof (cases rd)
    case (Return r1 e1)
    with assms l have "r = r1" "err = e1" "s' = s1" by (auto simp: OnWebhookChange_def)
    with hooks_loop_quiet[OF l[unfolded Return]] show ?thesis by blast
  next
    case (Next wh need)
    from hooks_loop_bundles[of A now later "hc_Webhooks w" "[]" w False s wh need s1] l Next
    obtain ws where ws: "wh = w\<lparr>hc_Webhooks := ws\<rparr>" "list_all2 (bundled A now later) (hc_Webhooks w) ws"
        "need = (ws \<noteq> hc_Webhooks w)" "undisturbed s s1" by auto
    show ?thesis
    proof (cases need)
      case False
      with assms l Next ws show ?thesis by (intro disjI1 exI[of _ ws] exI[of _ s1]) (auto simp: OnWebhookChange_def)
    next
      case True
      with assms l Next ws have "n_calls s' = n_calls s1 @ [NUpdateHook kind wh] \<and> (err = None \<longrightarrow> r = Some wh)"
        by (auto simp: OnWebhookChange_def send_def split: prod.splits option.splits)
      with True ws show ?thesis by (intro disjI1 exI[of _ ws] exI[of _ s1]) auto
    qed
  qed
qed

definition hook :: "string \<Rightarrow> string \<times> clientconfig" where
  "hook svc = (''h'', \<lparr>cc_Service = Some \<lparr>sr_Namespace = ''ns'', sr_Name = svc\<rparr>, cc_CABundle = ''''\<rparr>)"

definition state0 :: "((string \<times> string) \<times> secret) list nst" where
  "state0 = \<lparr>n_world = [], n_calls = []\<rparr>"

definition one_hook :: "hookconfig option \<times> goerr option \<times> ((string \<times> string) \<times> secret) list nst" where
  "one_hook = OnWebhookChange Mutating api_sample 0 0 (Some \<lparr>hc_name = ''cfg'', hc_Webhooks = [hook ''web'']\<rparr>) state0"

lemma one_hook_eval:
  "map (\<lambda>c. cc_CABundle (snd c)) (hc_Webhooks (the (fst one_hook)))
     = [enc (''ns-tls'' # dns_names (svc_sample ''web''))]"
  "map hook_update (n_calls (snd (snd one_hook))) = [False, False, True]"
  by code_simp+

lemma hook_update_D: "hook_update c \<Longrightarrow> \<exists>k w. c = NUpdateHook k w"
  by (auto simp: hook_update_def split: ncall.splits)

theorem webhook_bundles_witness:
  "\<not> undisturbed state0 (snd (snd one_hook)) \<and>
   (\<exists>ws s1. list_all2 (bundled api_sample 0 0) [hook ''web''] ws \<and> ws \<noteq> [hook ''web''] \<and> undisturbed state0 s1 \<and>
      n_calls (snd (snd one_hook)) = n_calls s1 @ [NUpdateHook Mutating \<lparr>hc_name = ''cfg'', hc_Webhooks = ws\<rparr>])"
proof -
  obtain r err s' where o: "one_hook = (r, err, s')" by (cases one_hook) auto
  have u: "list_ex hook_update (n_calls s')"
  proof -
    have "map hook_update (n_calls s') = [False, False, True]"
      using one_hook_eval(2) unfolding o by (simp only: snd_conv)
    then have "True \<in> set (map hook_update (n_calls s'))" by simp
    then show ?thesis by (auto simp: list_ex_iff)
  qed
  then have nq: "\<not> undisturbed state0 s'" by (auto simp: undisturbed_def state0_def)
  from webhook_bundles[OF o[unfolded one_hook_def]] nq u show ?thesis
    by (auto simp: o undisturbed_def state0_def split: if_splits)
qed



subsection \<open>Where the handlers fall short\<close>

text \<open>The bundle of the first webhook is renewed, the service of the second is not found: the handler
  returns without an error and the renewed bundle is not sent.\<close>

definition half_done :: "hookconfig option \<times> goerr option \<times> ((string \<times> string) \<times> secret) list nst" where
  "half_done = OnWebhookChange Mutating api_sample 0 0
     (Some \<lparr>hc_name = ''cfg'', hc_Webhooks = [hook ''web'', hook ''gone'']\<rparr>) state0"

lemma missing_service_loses_bundle:
  "fst (snd half_done) = None"
  "map (\<lambda>c. cc_CABundle (snd c) = '''') (hc_Webhooks (the (fst half_done))) = [False, True]"
  "list_ex hook_update (n_calls (snd (snd half_done))) = False"
  by code_simp+

text \<open>\<open>OnCRDChange\<close> gives no error when the secret could not be made, so it is not tried again.\<close>

lemma crd_error_swallowed:
  assumes "conversion_client crd = Some (c, ref)"
    and "ca_service A (n_world s) (sr_Namespace ref) (sr_Name ref) = Inr svc"
    and "generateSecret A now later svc s = (Inl err, s')"
  shows "OnCRDChange A now later (Some crd) s = (Some crd, None, s')"
  using assms by (simp add: OnCRDChange_def)

end
