(* ===== verification/Webhook.thy ===== *)
theory Webhook
  imports Objects
begin

section \<open>Routing of admission requests: pkg/webhook\<close>

text \<open>
  \<open>pkg/webhook/router.go\<close> and \<open>match.go\<close>. A router is the list of its routes; the builders of
  \<open>match.go\<close> go through a pointer to one of them, which is its position. A handler is a function
  of the response and the request, and gives the response as it left it with an error. The JSON
  codec, \<open>CreateMergePatch\<close> and a handler's body are arguments. The answer to a request is an HTTP
  error or a review; \<open>None\<close> is a panic.
\<close>

subsection \<open>Requests and responses\<close>

record admission_resource =
  gr_Group :: string
  gr_Version :: string
  gr_Resource :: string

record admission =
  ar_UID :: string
  ar_Kind :: gvk
  ar_RequestKind :: "gvk option"
  ar_RequestResource :: "admission_resource option"
  ar_SubResource :: string
  ar_Name :: string
  ar_Namespace :: string
  ar_Operation :: string
  ar_DryRun :: "bool option"
  ar_Object :: string
  ar_OldObject :: string

record request =
  rq_Admission :: admission
  rq_ObjTemplate :: robj

record response =
  rs_UID :: string
  rs_Allowed :: bool
  rs_Result :: "goerr option"
  rs_Patch :: string
  rs_PatchType :: "string option"

type_synonym admit_handler = "response \<Rightarrow> request \<Rightarrow> response \<times> goerr option"

record review =
  rv_Request :: "admission option"
  rv_Response :: "response option"

datatype answer = HTTPError string nat | Review review

subsection \<open>match.go\<close>

record route =
  rm_handler :: "admit_handler option"
  rm_kind :: string
  rm_resource :: string
  rm_version :: string
  rm_subResource :: string
  rm_dryRun :: "bool option"
  rm_group :: string
  rm_name :: string
  rm_namespace :: string
  rm_operation :: string
  rm_objType :: "robj option"

definition route0 :: route where
  "route0 = \<lparr>rm_handler = None, rm_kind = '''', rm_resource = '''', rm_version = '''', rm_subResource = '''',
     rm_dryRun = None, rm_group = '''', rm_name = '''', rm_namespace = '''', rm_operation = '''', rm_objType = None\<rparr>"

definition defObjType :: robj where
  "defObjType = \<lparr>o_gvk = gvk_zero, o_meta = Some \<lparr>m_namespace = '''', m_name = '''', m_uid = '''', m_resourceVersion = '''',
     m_generation = 0, m_labels = None, m_annotations = None, m_ownerReferences = [], m_finalizers = [],
     m_deletionTimestamp = None\<rparr>, o_body = []\<rparr>"

definition checkString :: "string \<Rightarrow> string \<Rightarrow> bool" where
  "checkString expected actual = (if expected = '''' then True else expected = actual)"

definition checkBool :: "bool option \<Rightarrow> bool option \<Rightarrow> bool" where
  "checkBool expected actual =
     (case expected of
        None \<Rightarrow> True
      | Some e \<Rightarrow> (case actual of None \<Rightarrow> False | Some a \<Rightarrow> e = a))"

text \<open>The group and version of the requested resource win over those of the requested kind.\<close>

definition requested :: "admission \<Rightarrow> string \<times> string \<times> string \<times> string" where
  "requested req =
     (let (grp, version, kind) = (case ar_RequestKind req of
            None \<Rightarrow> ('''', '''', '''') | Some k \<Rightarrow> (g_group k, g_version k, g_kind k)) in
      case ar_RequestResource req of
        None \<Rightarrow> (grp, version, kind, '''')
      | Some s \<Rightarrow> (gr_Group s, gr_Version s, kind, gr_Resource s))"

definition matches :: "route \<Rightarrow> admission \<Rightarrow> bool" where
  "matches r req =
     (case requested req of (grp, version, kind, resource) \<Rightarrow>
      checkString (rm_kind r) kind \<and> checkString (rm_resource r) resource \<and>
      checkString (rm_subResource r) (ar_SubResource req) \<and> checkString (rm_version r) version \<and>
      checkString (rm_group r) grp \<and> checkString (rm_name r) (ar_Name req) \<and>
      checkString (rm_namespace r) (ar_Namespace req) \<and> checkString (rm_operation r) (ar_Operation req) \<and>
      checkBool (rm_dryRun r) (ar_DryRun req))"

definition route_admit :: "route \<Rightarrow> response \<Rightarrow> request \<Rightarrow> response \<times> goerr option" where
  "route_admit r response request =
     (case rm_handler r of Some h \<Rightarrow> h response request | None \<Rightarrow> (response, None))"

definition getObjType :: "route \<Rightarrow> robj" where
  "getObjType r = (case rm_objType r of None \<Rightarrow> defObjType | Some t \<Rightarrow> t)"

subsection \<open>Building a router\<close>

type_synonym router = "route list"

definition next_route :: "router \<Rightarrow> router \<times> nat" where
  "next_route r = (r @ [route0], length r)"

definition set_route :: "(route \<Rightarrow> route) \<Rightarrow> nat \<Rightarrow> router \<Rightarrow> router" where
  "set_route f i r = r[i := f (r ! i)]"

definition rm_DryRun :: "bool \<Rightarrow> nat \<Rightarrow> router \<Rightarrow> router" where
  "rm_DryRun d = set_route (\<lambda>m. m\<lparr>rm_dryRun := Some d\<rparr>)"
definition rm_Group :: "string \<Rightarrow> nat \<Rightarrow> router \<Rightarrow> router" where
  "rm_Group g = set_route (\<lambda>m. m\<lparr>rm_group := g\<rparr>)"
definition rm_Handle :: "admit_handler \<Rightarrow> nat \<Rightarrow> router \<Rightarrow> router" where
  "rm_Handle h = set_route (\<lambda>m. m\<lparr>rm_handler := Some h\<rparr>)"
definition rm_Kind :: "string \<Rightarrow> nat \<Rightarrow> router \<Rightarrow> router" where
  "rm_Kind k = set_route (\<lambda>m. m\<lparr>rm_kind := k\<rparr>)"
definition rm_Name :: "string \<Rightarrow> nat \<Rightarrow> router \<Rightarrow> router" where
  "rm_Name n = set_route (\<lambda>m. m\<lparr>rm_name := n\<rparr>)"
definition rm_Namespace :: "string \<Rightarrow> nat \<Rightarrow> router \<Rightarrow> router" where
  "rm_Namespace n = set_route (\<lambda>m. m\<lparr>rm_namespace := n\<rparr>)"
definition rm_Operation :: "string \<Rightarrow> nat \<Rightarrow> router \<Rightarrow> router" where
  "rm_Operation p = set_route (\<lambda>m. m\<lparr>rm_operation := p\<rparr>)"
definition rm_Resource :: "string \<Rightarrow> nat \<Rightarrow> router \<Rightarrow> router" where
  "rm_Resource x = set_route (\<lambda>m. m\<lparr>rm_resource := x\<rparr>)"
definition rm_SubResource :: "string \<Rightarrow> nat \<Rightarrow> router \<Rightarrow> router" where
  "rm_SubResource x = set_route (\<lambda>m. m\<lparr>rm_subResource := x\<rparr>)"
definition rm_Type :: "robj \<Rightarrow> nat \<Rightarrow> router \<Rightarrow> router" where
  "rm_Type t = set_route (\<lambda>m. m\<lparr>rm_objType := Some t\<rparr>)"
definition rm_Version :: "string \<Rightarrow> nat \<Rightarrow> router \<Rightarrow> router" where
  "rm_Version v = set_route (\<lambda>m. m\<lparr>rm_version := v\<rparr>)"

text \<open>The methods of \<open>Router\<close> with the same names start a new route.\<close>

definition on_new :: "(nat \<Rightarrow> router \<Rightarrow> router) \<Rightarrow> router \<Rightarrow> router \<times> nat" where
  "on_new f r = (case next_route r of (r, i) \<Rightarrow> (f i r, i))"

subsection \<open>router.go\<close>

definition resourceString :: "string \<Rightarrow> string \<Rightarrow> string" where
  "resourceString ns name = (if ns = '''' then name else ns @ ''/'' @ name)"

definition no_match :: "admission \<Rightarrow> goerr" where
  "no_match req = Err (''no route match found for '' @ ar_Operation req @ '' '' @ gvk_String (ar_Kind req) @ '' ''
     @ resourceString (ar_Namespace req) (ar_Name req))"

fun router_admit :: "router \<Rightarrow> response \<Rightarrow> admission \<Rightarrow> response \<times> goerr option" where
  "router_admit [] response req = (response, Some (no_match req))"
| "router_admit (m # ms) response req =
     (if matches m req
      then route_admit m response \<lparr>rq_Admission = req, rq_ObjTemplate = getObjType m\<rparr>
      else router_admit ms response req)"

text \<open>\<open>review.Response.Result\<close> is written without a look at whether there is a response.\<close>

definition sendError :: "review \<Rightarrow> goerr \<Rightarrow> answer option" where
  "sendError review err =
     (case rv_Request review of
        None \<Rightarrow> Some (HTTPError (err_text err) 500)
      | Some _ \<Rightarrow> (case rv_Response review of
          None \<Rightarrow> None
        | Some response \<Rightarrow> Some (Review (review\<lparr>rv_Response := Some (response\<lparr>rs_Result := Some err\<rparr>)\<rparr>))))"

definition new_response :: "admission \<Rightarrow> response" where
  "new_response req = \<lparr>rs_UID = ar_UID req, rs_Allowed = False, rs_Result = None, rs_Patch = '''', rs_PatchType = None\<rparr>"

definition ServeHTTP :: "(string \<Rightarrow> review \<times> goerr option) \<Rightarrow> router \<Rightarrow> string \<Rightarrow> answer option" where
  "ServeHTTP decode r body =
     (case decode body of
        (review, Some err) \<Rightarrow> sendError review err
      | (review, None) \<Rightarrow>
          (case rv_Request review of
             None \<Rightarrow> sendError review (Err ''request is not set'')
           | Some req \<Rightarrow>
               (case router_admit r (new_response req) req of
                  (response, Some err) \<Rightarrow> sendError (review\<lparr>rv_Response := Some response\<rparr>) err
                | (response, None) \<Rightarrow> Some (Review (review\<lparr>rv_Response := Some response\<rparr>)))))"

definition DecodeObject :: "(string \<Rightarrow> robj \<Rightarrow> robj \<times> goerr option) \<Rightarrow> request \<Rightarrow> robj \<times> goerr option" where
  "DecodeObject unmarshal r = unmarshal (ar_Object (rq_Admission r)) (rq_ObjTemplate r)"

definition DecodeOldObject :: "(string \<Rightarrow> robj \<Rightarrow> robj \<times> goerr option) \<Rightarrow> request \<Rightarrow> robj \<times> goerr option" where
  "DecodeOldObject unmarshal r = unmarshal (ar_OldObject (rq_Admission r)) (rq_ObjTemplate r)"

definition CreatePatch ::
    "(robj \<Rightarrow> string result) \<Rightarrow> (string \<Rightarrow> string \<Rightarrow> string result) \<Rightarrow> request \<Rightarrow> robj \<Rightarrow> response
     \<Rightarrow> response \<times> goerr option" where
  "CreatePatch marshal mergePatch request newObj r =
     (if length (rs_Patch r) > 0 then (r, Some (Err ''response patch has already been already been assigned''))
      else case marshal newObj of
        Inl err \<Rightarrow> (r, Some err)
      | Inr newBytes \<Rightarrow>
          (case mergePatch (ar_Object (rq_Admission request)) newBytes of
             Inl err \<Rightarrow> (r, Some err)
           | Inr patch \<Rightarrow> (r\<lparr>rs_Patch := patch, rs_PatchType := Some ''JSONPatch''\<rparr>, None)))"

subsection \<open>Properties\<close>

lemma router_admit_find:
  "router_admit r response req =
     (case List.find (\<lambda>m. matches m req) r of
        None \<Rightarrow> (response, Some (no_match req))
      | Some m \<Rightarrow> route_admit m response \<lparr>rq_Admission = req, rq_ObjTemplate = getObjType m\<rparr>)"
  by (induction r) auto

lemma route_find_append: "List.find P (xs @ ys) = (case List.find P xs of None \<Rightarrow> List.find P ys | Some x \<Rightarrow> Some x)"
  by (induction xs) auto

text \<open>A route asks for no more than another.\<close>

definition covers :: "route \<Rightarrow> route \<Rightarrow> bool" where
  "covers a b \<longleftrightarrow>
     list_all (\<lambda>f. f a = '''' \<or> f a = f b)
       [rm_kind, rm_resource, rm_version, rm_subResource, rm_group, rm_name, rm_namespace, rm_operation]
     \<and> (rm_dryRun a = None \<or> rm_dryRun a = rm_dryRun b)"

lemma checkString_covers: "checkString b x \<Longrightarrow> a = '''' \<or> a = b \<Longrightarrow> checkString a x"
  by (auto simp: checkString_def split: if_splits)

lemma checkBool_covers: "checkBool b x \<Longrightarrow> a = None \<or> a = b \<Longrightarrow> checkBool a x"
  by (auto simp: checkBool_def)

lemma covers_matches:
  assumes "covers a b" "matches b req"
  shows "matches a req"
proof -
  obtain g v k x where q: "requested req = (g, v, k, x)" by (cases "requested req")
  note m = matches_def[of _ req, unfolded q prod.case]
  from assms(1) have c: "rm_kind a = '''' \<or> rm_kind a = rm_kind b" "rm_resource a = '''' \<or> rm_resource a = rm_resource b"
    "rm_version a = '''' \<or> rm_version a = rm_version b" "rm_subResource a = '''' \<or> rm_subResource a = rm_subResource b"
    "rm_group a = '''' \<or> rm_group a = rm_group b" "rm_name a = '''' \<or> rm_name a = rm_name b"
    "rm_namespace a = '''' \<or> rm_namespace a = rm_namespace b" "rm_operation a = '''' \<or> rm_operation a = rm_operation b"
    "rm_dryRun a = None \<or> rm_dryRun a = rm_dryRun b" by (simp_all add: covers_def)
  from assms(2)[unfolded m] show ?thesis
    unfolding m by (elim conjE) (intro conjI; (rule checkString_covers checkBool_covers, assumption, rule c))
qed

text \<open>The first route that matches decides. A route behind one that asks for no more is dead: the
  router answers every request, well formed or not, as it does without the route.\<close>

theorem covered_route_dead:
  assumes "a \<in> set front" "covers a b"
  shows "ServeHTTP decode (front @ b # back) body = ServeHTTP decode (front @ back) body"
proof -
  have "List.find (\<lambda>m. matches m req) (front @ b # back) = List.find (\<lambda>m. matches m req) (front @ back)" for req
  proof (cases "matches b req")
    case True
    with assms have "List.find (\<lambda>m. matches m req) front \<noteq> None"
      by (auto simp: find_None_iff dest: covers_matches)
    then show ?thesis by (auto simp: route_find_append)
  qed (simp add: route_find_append split: option.splits)
  then have same: "router_admit (front @ b # back) = router_admit (front @ back)"
    by (intro ext) (simp add: router_admit_find)
  show ?thesis unfolding ServeHTTP_def same ..
qed


definition kinds_of :: "string \<Rightarrow> gvk" where
  "kinds_of k = mk_gvk ''apps'' ''v1'' k"

definition create_of :: "string \<Rightarrow> admission" where
  "create_of k = \<lparr>ar_UID = ''7'', ar_Kind = kinds_of k, ar_RequestKind = Some (kinds_of k), ar_RequestResource = None,
     ar_SubResource = '''', ar_Name = ''a'', ar_Namespace = ''ns'', ar_Operation = ''CREATE'', ar_DryRun = None,
     ar_Object = ''{}'', ar_OldObject = ''''\<rparr>"

definition allow :: admit_handler where
  "allow response req = (response\<lparr>rs_Allowed := True\<rparr>, None)"

text \<open>Kind \<open>Pod\<close> is handled by the route built first, any operation on it included.\<close>

definition pod_router :: router where
  "pod_router =
     (let (r, i) = on_new (rm_Kind ''Pod'') []; r = rm_Handle allow i r;
          (r, j) = on_new (rm_Kind ''Pod'') r; r = rm_Operation ''CREATE'' j r in r)"

definition review_of :: "string \<Rightarrow> review \<times> goerr option" where
  "review_of body = (\<lparr>rv_Request = Some (create_of body), rv_Response = None\<rparr>, None)"

theorem covered_route_dead_witness:
  "ServeHTTP review_of pod_router ''Pod'' = ServeHTTP review_of [pod_router ! 0] ''Pod''"
proof -
  have r: "pod_router = [pod_router ! 0] @ pod_router ! 1 # []"
    by (simp add: pod_router_def on_new_def next_route_def rm_Kind_def rm_Handle_def rm_Operation_def set_route_def)
  have "covers (pod_router ! 0) (pod_router ! 1)"
    by (simp add: pod_router_def on_new_def next_route_def rm_Kind_def rm_Handle_def rm_Operation_def
        set_route_def covers_def route0_def)
  from covered_route_dead[of "pod_router ! 0" "[pod_router ! 0]" "pod_router ! 1" review_of "[]" "''Pod''", OF _ this]
  show ?thesis unfolding r[symmetric] by simp
qed


subsection \<open>Where the router falls short\<close>

text \<open>A handler that allows the request and then fails: the error goes into the result, and the
  answer still allows the request.\<close>

lemma failed_handler_still_allows:
  assumes "decode body = (\<lparr>rv_Request = Some req, rv_Response = resp0\<rparr>, None)"
    and "matches m req" "rm_handler m = Some (\<lambda>response _. (response\<lparr>rs_Allowed := True\<rparr>, Some err))"
  shows "ServeHTTP decode (m # ms) body = Some (Review \<lparr>rv_Request = Some req,
    rv_Response = Some (new_response req\<lparr>rs_Allowed := True, rs_Result := Some err\<rparr>)\<rparr>)"
  using assms by (simp add: ServeHTTP_def route_admit_def sendError_def new_response_def)

text \<open>A body that sets the request and is broken further on: writing the error panics.\<close>

lemma broken_body_panics:
  assumes "decode body = (\<lparr>rv_Request = Some req, rv_Response = None\<rparr>, Some err)"
  shows "ServeHTTP decode r body = None"
  using assms by (simp add: ServeHTTP_def sendError_def)

end
