(* ===== verification/Crd_Define.thy ===== *)
theory Crd_Define
  imports Objects Schema_OpenAPI Schema_Reflect
begin

section \<open>Definitions of custom resources: pkg/crd/init.go\<close>

text \<open>
  The first part of \<open>pkg/crd/init.go\<close>, and \<open>Objects\<close> of \<open>print.go\<close>: describing a custom resource,
  reading its columns from a struct, and turning the description into an object. The types of the
  program are tables as in \<open>Schema_Reflect\<close>: \<open>T\<close> for the schema of an object, \<open>C\<close> with the column
  tags for \<open>WithColumnsFromStruct\<close>. Encoding the typed object into a map is the argument \<open>encode\<close>.
\<close>

subsection \<open>The description\<close>

record column =
  cd_Name :: string
  cd_Type :: string
  cd_Format :: string
  cd_Description :: string
  cd_Priority :: "32 word"
  cd_JSONPath :: string

record CRD =
  crd_GVK :: gvk
  crd_PluralName :: string
  crd_SingularName :: string
  crd_NonNamespace :: bool
  crd_Schema :: "jsp option"
  crd_SchemaObject :: "nat option"
  crd_Columns :: "column list"
  crd_Status :: bool
  crd_Scale :: bool
  crd_Categories :: "string list"
  crd_ShortNames :: "string list"
  crd_Labels :: "(string \<times> string) list option"
  crd_Annotations :: "(string \<times> string) list option"
  crd_Override :: "robj option"

definition FromGV :: "string \<Rightarrow> string \<Rightarrow> string \<Rightarrow> CRD" where
  "FromGV grp version kind = \<lparr>crd_GVK = mk_gvk grp version kind, crd_PluralName = '''', crd_SingularName = '''',
     crd_NonNamespace = False, crd_Schema = None, crd_SchemaObject = None, crd_Columns = [], crd_Status = False,
     crd_Scale = False, crd_Categories = [], crd_ShortNames = [], crd_Labels = None, crd_Annotations = None,
     crd_Override = None\<rparr>"

definition New :: "string \<Rightarrow> string \<Rightarrow> CRD" where
  "New grp version = FromGV grp version ''''"

definition NamespacedType :: "string \<Rightarrow> CRD" where
  "NamespacedType name =
     (let (kindGroup, version) = kv_Split name ''/'';
          (kind, grp) = kv_Split kindGroup ''.'' in
      FromGV (ToLower grp) version (Capitalize kind))"

definition NonNamespacedType :: "string \<Rightarrow> CRD" where
  "NonNamespacedType name = (NamespacedType name)\<lparr>crd_NonNamespace := True\<rparr>"

definition NamespacedTypes :: "string list \<Rightarrow> CRD list" where
  "NamespacedTypes names = map NamespacedType names"

definition NonNamespacedTypes :: "string list \<Rightarrow> CRD list" where
  "NonNamespacedTypes names = map NonNamespacedType names"

definition WithSchema :: "jsp option \<Rightarrow> CRD \<Rightarrow> CRD" where
  "WithSchema schema c = c\<lparr>crd_Schema := schema\<rparr>"

definition WithSchemaFromStruct :: "nat option \<Rightarrow> CRD \<Rightarrow> CRD" where
  "WithSchemaFromStruct ob c = c\<lparr>crd_SchemaObject := ob\<rparr>"

definition WithColumn :: "string \<Rightarrow> string \<Rightarrow> CRD \<Rightarrow> CRD" where
  "WithColumn name path c = c\<lparr>crd_Columns := crd_Columns c @
     [\<lparr>cd_Name = name, cd_Type = ''string'', cd_Format = '''', cd_Description = '''', cd_Priority = 0, cd_JSONPath = path\<rparr>]\<rparr>"

definition WithCustomColumn :: "column list \<Rightarrow> CRD \<Rightarrow> CRD" where
  "WithCustomColumn columns c = c\<lparr>crd_Columns := crd_Columns c @ columns\<rparr>"

definition WithStatus :: "CRD \<Rightarrow> CRD" where
  "WithStatus c = c\<lparr>crd_Status := True\<rparr>"

definition WithScale :: "CRD \<Rightarrow> CRD" where
  "WithScale c = c\<lparr>crd_Scale := True\<rparr>"

definition WithCategories :: "string list \<Rightarrow> CRD \<Rightarrow> CRD" where
  "WithCategories categories c = c\<lparr>crd_Categories := categories\<rparr>"

definition WithGroup :: "string \<Rightarrow> CRD \<Rightarrow> CRD" where
  "WithGroup grp c = c\<lparr>crd_GVK := (crd_GVK c)\<lparr>g_group := grp\<rparr>\<rparr>"

definition WithShortNames :: "string list \<Rightarrow> CRD \<Rightarrow> CRD" where
  "WithShortNames shortNames c = c\<lparr>crd_ShortNames := shortNames\<rparr>"

subsection \<open>Columns of a struct\<close>

record colfield =
  cf_Name :: string
  cf_Anonymous :: bool
  cf_Type :: nat
  cf_json :: string
  cf_column :: "string option"

record coltype =
  ct_Kind :: kind
  ct_Elem :: nat
  ct_OpenAPI :: "(string list \<times> string) option"
  ct_Fields :: "colfield list"

fun kind_String :: "kind \<Rightarrow> string" where
  "kind_String KBool = ''bool''" | "kind_String KInt = ''int''" | "kind_String KInt8 = ''int8''"
| "kind_String KInt16 = ''int16''" | "kind_String KInt32 = ''int32''" | "kind_String KInt64 = ''int64''"
| "kind_String KUint = ''uint''" | "kind_String KUint8 = ''uint8''" | "kind_String KUint16 = ''uint16''"
| "kind_String KUint32 = ''uint32''" | "kind_String KUint64 = ''uint64''" | "kind_String KUintptr = ''uintptr''"
| "kind_String KFloat32 = ''float32''" | "kind_String KFloat64 = ''float64''" | "kind_String KString = ''string''"
| "kind_String KInterface = ''interface''" | "kind_String KMap = ''map''" | "kind_String KSlice = ''slice''"
| "kind_String KStruct = ''struct''" | "kind_String KPointer = ''ptr''" | "kind_String (KOther s) = s"

definition kindToType :: "kind \<Rightarrow> string" where
  "kindToType k =
     (let s = kind_String k in
      if s \<in> {''bool'', ''*bool''} then ''boolean''
      else if s \<in> {''uint8'', ''*uint8'', ''int'', ''*int'', ''int32'', ''*int32'', ''int64'', ''*int64'',
                    ''uint32'', ''*uint32'', ''uint64'', ''*uint64''} then ''integer''
      else if s \<in> {''float64'', ''*float64'', ''float32'', ''*float32''} then ''number''
      else if s \<in> {''byte'', ''*byte''} then ''string''
      else if s \<in> {''[]string'', ''[]*string''} then ''string''
      else if s \<in> {''[]int32'', ''[]*int32''} then ''integer''
      else s)"

definition customResourceColumnDefinitionFormats :: "string list" where
  "customResourceColumnDefinitionFormats =
     [''int32'', ''int64'', ''float'', ''double'', ''byte'', ''date'', ''date-time'', ''password'']"

definition fieldName :: "colfield \<Rightarrow> string" where
  "fieldName f =
     (if cf_json f = ''-'' then ''''
      else let name = hd (Split (cf_json f) '','') in if name = '''' then cf_Name f else name)"

text \<open>\<open>int32(p)\<close> cuts the number that \<open>strconv.Atoi\<close> gives, the nearest bound when it is out of range.\<close>

definition column_option :: "string \<Rightarrow> string \<Rightarrow> column \<Rightarrow> column" where
  "column_option k v c =
     (if k = ''name'' then c\<lparr>cd_Name := v\<rparr>
      else if k = ''type'' then c\<lparr>cd_Type := v\<rparr>
      else if k = ''format'' then c\<lparr>cd_Format := v\<rparr>
      else if k = ''description'' then c\<lparr>cd_Description := v\<rparr>
      else if k = ''priority'' then c\<lparr>cd_Priority := ucast (fst (parse_int64 v))\<rparr>
      else if k = ''jsonpath'' then c\<lparr>cd_JSONPath := v\<rparr>
      else c)"

definition tagToColumn :: "colfield \<Rightarrow> kind \<Rightarrow> string \<Rightarrow> string \<Rightarrow> column option" where
  "tagToColumn f kind format path =
     (let format = (if ContainsString customResourceColumnDefinitionFormats format then format else '''');
          c = \<lparr>cd_Name = cf_Name f, cd_Type = kindToType kind, cd_Format = format, cd_Description = '''',
               cd_Priority = 0, cd_JSONPath = path\<rparr> in
      map_option (\<lambda>columnDef. fold (\<lambda>(k, v). column_option k v) (kv_SplitMap columnDef '','') c) (cf_column f))"

text \<open>The kind is \<open>None\<close> for \<open>reflect.Invalid\<close>.\<close>

definition openAPISchema :: "coltype list \<Rightarrow> nat \<Rightarrow> kind option \<times> string" where
  "openAPISchema C t =
     (case ct_OpenAPI (C ! t) of
        None \<Rightarrow> (None, '''')
      | Some (st, format) \<Rightarrow>
          if length st > 0 \<and> st ! 0 = ''string'' then (Some KString, format) else (None, format))"

definition opt_list :: "'a option \<Rightarrow> 'a list" where
  "opt_list x = (case x of None \<Rightarrow> [] | Some a \<Rightarrow> [a])"

text \<open>The loop over the fields; \<open>rc\<close> reads an inner struct. \<open>None\<close> is the panic of \<open>NumField\<close> on a
  type that is no struct, or a recursion that did not end within the fuel.\<close>

fun columns_loop ::
    "(nat \<Rightarrow> string \<Rightarrow> column list option) \<Rightarrow> coltype list \<Rightarrow> string \<Rightarrow> colfield list \<Rightarrow> column list option" where
  "columns_loop rc C path [] = Some []"
| "columns_loop rc C path (f # fs) =
     (if fieldName f = '''' then columns_loop rc C path fs
      else
        (let t = (if ct_Kind (C ! cf_Type f) = KPointer then ct_Elem (C ! cf_Type f) else cf_Type f);
             cols = (case openAPISchema C t of
               (Some kind, format) \<Rightarrow> Some (opt_list (tagToColumn f kind format (path @ fieldName f)))
             | (None, _) \<Rightarrow>
                 if ct_Kind (C ! t) = KStruct then
                   (if cf_Anonymous f then rc t path else rc t (path @ fieldName f @ ''.''))
                 else Some (opt_list (tagToColumn f (ct_Kind (C ! t)) '''' (path @ fieldName f)))) in
         Option.bind cols (\<lambda>cs. map_option ((@) cs) (columns_loop rc C path fs))))"

fun readCustomColumns :: "coltype list \<Rightarrow> nat \<Rightarrow> nat \<Rightarrow> string \<Rightarrow> column list option" where
  "readCustomColumns C 0 t path = None"
| "readCustomColumns C (Suc n) t path =
     (if ct_Kind (C ! t) \<noteq> KStruct then None
      else columns_loop (readCustomColumns C n) C path (ct_Fields (C ! t)))"

definition WithColumnsFromStruct :: "coltype list \<Rightarrow> nat \<Rightarrow> nat \<Rightarrow> CRD \<Rightarrow> CRD option" where
  "WithColumnsFromStruct C fuel t c =
     (let t = (if ct_Kind (C ! t) = KPointer then ct_Elem (C ! t) else t) in
      map_option (\<lambda>cols. c\<lparr>crd_Columns := crd_Columns c @ cols\<rparr>) (readCustomColumns C fuel t ''.''))"

subsection \<open>The object\<close>

text \<open>\<open>filepath.Base\<close> and \<open>filepath.Dir\<close> of an import path, which has no empty elements.\<close>

definition path_Base :: "string \<Rightarrow> string" where
  "path_Base p = (if p = '''' then ''.'' else case LastIndex p ''/'' of None \<Rightarrow> p | Some i \<Rightarrow> drop (i + 1) p)"

definition path_Dir :: "string \<Rightarrow> string" where
  "path_Dir p = (case LastIndex p ''/'' of None \<Rightarrow> ''.'' | Some i \<Rightarrow> take i p)"

definition group_of :: "types \<Rightarrow> nat \<Rightarrow> string" where
  "group_of T t = path_Base (path_Dir (ty_PkgPath (T ! t)))"

definition plural_of :: "CRD \<Rightarrow> string \<Rightarrow> string" where
  "plural_of c kind = (if crd_PluralName c = '''' then ToLower (GuessPluralName kind) else crd_PluralName c)"

definition Name :: "types \<Rightarrow> CRD \<Rightarrow> string" where
  "Name T c =
     (case Option.bind (crd_Override c) o_meta of
        Some m \<Rightarrow> m_name m
      | None \<Rightarrow>
          (let kind = g_kind (crd_GVK c);
               kind = (case crd_SchemaObject c of
                 Some t \<Rightarrow> if kind = '''' then ty_Name (T ! deRef T t) else kind | None \<Rightarrow> kind);
               grp = g_group (crd_GVK c);
               grp = (case crd_SchemaObject c of
                 Some t \<Rightarrow> if grp = '''' then group_of T (deRef T t) else grp | None \<Rightarrow> grp) in
           ToLower (plural_of c kind @ ''.'' @ grp)))"

record crdspec =
  cs_Name :: string
  cs_Labels :: "(string \<times> string) list option"
  cs_Annotations :: "(string \<times> string) list option"
  cs_Group :: string
  cs_Scope :: string
  cs_Plural :: string
  cs_Singular :: string
  cs_Kind :: string
  cs_Categories :: "string list"
  cs_ShortNames :: "string list"
  cs_Version :: string
  cs_Columns :: "column list"
  cs_Schema :: jsp
  cs_Status :: bool
  cs_Scale :: "(string \<times> string \<times> string) option"

text \<open>The kind, version and group that are not set come from the type of the schema object.\<close>

definition with_defaults :: "types \<Rightarrow> CRD \<Rightarrow> CRD" where
  "with_defaults T c =
     (case crd_SchemaObject c of
        None \<Rightarrow> c
      | Some t \<Rightarrow>
          (let t = deRef T t; g = crd_GVK c;
               g = (if g_kind g = '''' then g\<lparr>g_kind := ty_Name (T ! t)\<rparr> else g);
               g = (if g_version g = '''' then g\<lparr>g_version := path_Base (ty_PkgPath (T ! t))\<rparr> else g);
               g = (if g_group g = '''' then g\<lparr>g_group := group_of T t\<rparr> else g) in
           c\<lparr>crd_GVK := g\<rparr>))"

definition dummy_schema :: jsp where
  "dummy_schema =
     (let any = JSP (jsp0\<lparr>jp_XPreserveUnknownFields := Some True\<rparr>) None None None in
      JSP (jsp0\<lparr>jp_Type := ''object''\<rparr>) (Some [(''spec'', any), (''status'', any)]) None None)"

definition ToOpenAPIFromStruct :: "floats \<Rightarrow> jsonlib \<Rightarrow> types \<Rightarrow> nat \<Rightarrow> nat \<Rightarrow> jsp result option" where
  "ToOpenAPIFromStruct fl E T fuel ob =
     Option.bind (EmptySchemas []) (\<lambda>(R, H).
     Option.bind (Import fl T fuel ob [] R H) (\<lambda>(r, R, H). case r of
       Inl err \<Rightarrow> Some (Inl err)
     | Inr p \<Rightarrow> ToOpenAPI E R H fuel (sm_ID (core (H ! p)))))"

definition crd_spec :: "floats \<Rightarrow> jsonlib \<Rightarrow> types \<Rightarrow> nat \<Rightarrow> CRD \<Rightarrow> crdspec result option" where
  "crd_spec fl E T fuel c =
     (let c = with_defaults T c;
          plural = plural_of c (g_kind (crd_GVK c));
          singular = (if crd_SingularName c = '''' then ToLower (g_kind (crd_GVK c)) else crd_SingularName c);
          schema = (case crd_SchemaObject c of
            Some ob \<Rightarrow> map_option (map_sum id Some) (ToOpenAPIFromStruct fl E T fuel ob)
          | None \<Rightarrow> Some (Inr (crd_Schema c))) in
      map_option (map_sum id (\<lambda>schema.
        \<lparr>cs_Name = Name T c, cs_Labels = crd_Labels c, cs_Annotations = crd_Annotations c,
         cs_Group = g_group (crd_GVK c),
         cs_Scope = (if crd_NonNamespace c then ''Cluster'' else ''Namespaced''),
         cs_Plural = plural, cs_Singular = singular, cs_Kind = g_kind (crd_GVK c),
         cs_Categories = crd_Categories c, cs_ShortNames = crd_ShortNames c,
         cs_Version = g_version (crd_GVK c), cs_Columns = crd_Columns c,
         cs_Schema = (case schema of None \<Rightarrow> dummy_schema | Some j \<Rightarrow> j),
         cs_Status = crd_Status c,
         cs_Scale = (if crd_Status c \<and> crd_Scale c
           then Some (''Spec.Replicas'', ''Status.Replicas'', ''Spec.Selector'') else None)\<rparr>)) schema)"

text \<open>\<open>unstructured.SetNestedField(m, false, "spec", "preserveUnknownFields")\<close>.\<close>

definition set_preserve :: "gomap \<Rightarrow> gomap result" where
  "set_preserve m =
     (case map_of m ''spec'' of
        None \<Rightarrow> Inr (AList.update ''spec'' (VMap [(''preserveUnknownFields'', VBool False)]) m)
      | Some (VMap spec) \<Rightarrow> Inr (AList.update ''spec'' (VMap (AList.update ''preserveUnknownFields'' (VBool False) spec)) m)
      | Some _ \<Rightarrow> Inl (Err ''value cannot be set because spec is not a map[string]interface{}''))"

datatype crdobject = Overriding robj | Built gomap

definition ToCustomResourceDefinition ::
    "floats \<Rightarrow> jsonlib \<Rightarrow> (crdspec \<Rightarrow> gomap result) \<Rightarrow> types \<Rightarrow> nat \<Rightarrow> CRD \<Rightarrow> crdobject result option" where
  "ToCustomResourceDefinition fl E encode T fuel c =
     (case crd_Override c of
        Some ob \<Rightarrow> Some (Inr (Overriding ob))
      | None \<Rightarrow>
          map_option (\<lambda>r. case r of
              Inl err \<Rightarrow> Inl err
            | Inr spec \<Rightarrow>
                (case encode spec of
                   Inl err \<Rightarrow> Inl err
                 | Inr mapData \<Rightarrow>
                     map_sum id Built (set_preserve
                       (AList.update ''apiVersion'' (VStr ''apiextensions.k8s.io/v1'')
                         (AList.update ''kind'' (VStr ''CustomResourceDefinition'') mapData)))))
            (crd_spec fl E T fuel c))"

fun Objects :: "(CRD \<Rightarrow> crdobject result option) \<Rightarrow> CRD list \<Rightarrow> crdobject list result option" where
  "Objects conv [] = Some (Inr [])"
| "Objects conv (c # cs) =
     (case crd_Override c of
        Some ob \<Rightarrow> map_option (map_sum id ((#) (Overriding ob))) (Objects conv cs)
      | None \<Rightarrow>
          Option.bind (conv c) (\<lambda>r. case r of
            Inl err \<Rightarrow> Some (Inl err)
          | Inr crd \<Rightarrow> map_option (map_sum id ((#) crd)) (Objects conv cs)))"

subsection \<open>Properties\<close>

lemma map_result_iff: "map_option (map_sum id f) x = Some (Inr y) \<longleftrightarrow> (\<exists>z. x = Some (Inr z) \<and> y = f z)"
  by (cases x; cases "the x") auto

lemma Name_defaults: "Name T (with_defaults T c) = Name T c"
proof (cases "crd_SchemaObject c")
  case (Some t)
  then show ?thesis
    by (cases "Option.bind (crd_Override c) o_meta") (auto simp: Name_def with_defaults_def Let_def plural_of_def)
qed (simp add: with_defaults_def)

text \<open>The object is named as \<open>Name\<close> says, the plural of its kind and its group in lower case; for
  a plural and a group in lower case that is the name the API requires of a definition.\<close>

theorem crd_name:
  assumes "crd_Override c = None" "crd_spec fl E T fuel c = Some (Inr spec)"
  shows "cs_Name spec = Name T c \<and> Name T c = ToLower (cs_Plural spec @ ''.'' @ cs_Group spec)"
proof -
  let ?d = "with_defaults T c"
  from assms(2) have s: "cs_Name spec = Name T ?d" "cs_Plural spec = plural_of ?d (g_kind (crd_GVK ?d))"
      "cs_Group spec = g_group (crd_GVK ?d)"
    unfolding crd_spec_def Let_def map_result_iff by (auto simp only: crdspec.select_convs)
  have "crd_Override ?d = None" using assms(1) by (simp add: with_defaults_def Let_def split: option.splits)
  then have "Name T ?d = ToLower (plural_of ?d (g_kind (crd_GVK ?d)) @ ''.'' @ g_group (crd_GVK ?d))"
  proof (cases "crd_SchemaObject c")
    case None
    with assms(1) show ?thesis by (simp add: Name_def with_defaults_def)
  next
    case (Some t)
    with assms(1) show ?thesis
      by (auto simp: Name_def with_defaults_def Let_def plural_of_def)
  qed
  with s show ?thesis by (simp add: Name_defaults)
qed

text \<open>The struct type that reading goes down to for a field, if any, and the path it takes along.\<close>

definition inner_of :: "coltype list \<Rightarrow> colfield \<Rightarrow> nat option" where
  "inner_of C f =
     (let t = (if ct_Kind (C ! cf_Type f) = KPointer then ct_Elem (C ! cf_Type f) else cf_Type f) in
      if fieldName f \<noteq> '''' \<and> fst (openAPISchema C t) = None \<and> ct_Kind (C ! t) = KStruct then Some t else None)"

definition inner_path :: "string \<Rightarrow> colfield \<Rightarrow> string" where
  "inner_path path f = (if cf_Anonymous f then path else path @ fieldName f @ ''.'')"

text \<open>A struct type whose structs nest to a finite depth only.\<close>

inductive col_nested :: "coltype list \<Rightarrow> nat \<Rightarrow> bool" for C where
  "ct_Kind (C ! t) = KStruct \<Longrightarrow> (\<And>f u. f \<in> set (ct_Fields (C ! t)) \<Longrightarrow> inner_of C f = Some u \<Longrightarrow> col_nested C u)
   \<Longrightarrow> col_nested C t"

lemma columns_loop_Cons:
  "columns_loop rc C path (f # fs) =
     Option.bind (case inner_of C f of
        Some u \<Rightarrow> rc u (inner_path path f)
      | None \<Rightarrow> Some (if fieldName f = '''' then [] else
          (let t = (if ct_Kind (C ! cf_Type f) = KPointer then ct_Elem (C ! cf_Type f) else cf_Type f) in
           case openAPISchema C t of
             (Some kind, format) \<Rightarrow> opt_list (tagToColumn f kind format (path @ fieldName f))
           | (None, _) \<Rightarrow> opt_list (tagToColumn f (ct_Kind (C ! t)) '''' (path @ fieldName f)))))
       (\<lambda>cs. map_option ((@) cs) (columns_loop rc C path fs))"
  by (cases "columns_loop rc C path fs")
    (auto simp: inner_of_def inner_path_def Let_def split: prod.splits option.splits)

declare columns_loop.simps(2) [simp del]

lemma columns_loop_defined:
  "columns_loop rc C path fs \<noteq> None \<longleftrightarrow>
   (\<forall>f u. f \<in> set fs \<longrightarrow> inner_of C f = Some u \<longrightarrow> rc u (inner_path path f) \<noteq> None)"
proof (induction fs)
  case (Cons f fs)
  show ?case
  proof (cases "inner_of C f")
    case None
    with Cons show ?thesis by (auto simp: columns_loop_Cons)
  next
    case (Some u)
    with Cons show ?thesis by (cases "rc u (inner_path path f)") (auto simp: columns_loop_Cons)
  qed
qed simp

lemma columns_loop_mono:
  "(\<And>u q r. rc u q = Some r \<Longrightarrow> rc' u q = Some r) \<Longrightarrow> columns_loop rc C path fs = Some r \<Longrightarrow>
   columns_loop rc' C path fs = Some r"
proof (induction fs arbitrary: r)
  case (Cons f fs)
  show ?case
  proof (cases "inner_of C f")
    case None
    with Cons show ?thesis by (auto simp: columns_loop_Cons)
  next
    case (Some u)
    with Cons show ?thesis by (auto simp: columns_loop_Cons bind_eq_Some_conv)
  qed
qed simp

lemma readCustomColumns_mono:
  "readCustomColumns C n t path = Some r \<Longrightarrow> readCustomColumns C (n + m) t path = Some r"
proof (induction n arbitrary: t path r)
  case (Suc n)
  then show ?case by (auto split: if_splits elim!: columns_loop_mono[rotated])
qed simp

lemma nested_reads: "col_nested C t \<Longrightarrow> \<exists>n. readCustomColumns C n t path \<noteq> None"
proof (induction arbitrary: path rule: col_nested.induct)
  case (1 t)
  let ?fs = "ct_Fields (C ! t)"
  have "\<exists>n. columns_loop (readCustomColumns C n) C path fs \<noteq> None" if "set fs \<subseteq> set ?fs" for fs
    using that
  proof (induction fs)
    case (Cons f fs)
    then obtain n where n: "columns_loop (readCustomColumns C n) C path fs \<noteq> None" by auto
    show ?case
    proof (cases "inner_of C f")
      case None
      with n show ?thesis by (intro exI[of _ n]) (simp add: columns_loop_Cons)
    next
      case (Some u)
      with 1(3)[of f u "inner_path path f"] Cons.prems obtain m where
          m: "readCustomColumns C m u (inner_path path f) \<noteq> None" by auto
      have "readCustomColumns C (m + n) u (inner_path path f) \<noteq> None"
        using m readCustomColumns_mono[of C m u "inner_path path f" _ n] by auto
      moreover have "columns_loop (readCustomColumns C (m + n)) C path fs \<noteq> None"
        using n columns_loop_mono[of "readCustomColumns C n" "readCustomColumns C (m + n)" C path fs]
          readCustomColumns_mono[of C n _ _ _ m] by (auto simp: add.commute)
      ultimately show ?thesis using Some by (intro exI[of _ "m + n"]) (auto simp: columns_loop_Cons)
    qed
  qed simp
  then obtain n where "columns_loop (readCustomColumns C n) C path ?fs \<noteq> None" by blast
  with 1(1) show ?case by (intro exI[of _ "Suc n"]) simp
qed

lemma reads_nested: "readCustomColumns C n t path \<noteq> None \<Longrightarrow> col_nested C t"
proof (induction n arbitrary: t path)
  case (Suc n)
  then have s: "ct_Kind (C ! t) = KStruct" "columns_loop (readCustomColumns C n) C path (ct_Fields (C ! t)) \<noteq> None"
    by (simp_all split: if_splits)
  show ?case
  proof (rule col_nested.intros)
    fix f u
    assume "f \<in> set (ct_Fields (C ! t))" "inner_of C f = Some u"
    with s(2) have "readCustomColumns C n u (inner_path path f) \<noteq> None" by (simp only: columns_loop_defined) blast
    then show "col_nested C u" by (rule Suc.IH)
  qed (rule s)
qed simp

text \<open>Reading the columns of a type ends exactly when it is a struct whose structs nest to a
  finite depth: there is a fuel that suffices and more gives the same columns. A type that holds
  a pointer to itself has no such fuel.\<close>

theorem columns_end:
  "(\<exists>n cols. \<forall>m. readCustomColumns C (n + m) t path = Some cols) \<longleftrightarrow> col_nested C t"
proof
  assume "\<exists>n cols. \<forall>m. readCustomColumns C (n + m) t path = Some cols"
  then obtain n cols where "readCustomColumns C (n + 0) t path = Some cols" by blast
  then show "col_nested C t" using reads_nested[of C n t path] by simp
next
  assume "col_nested C t"
  with nested_reads[of C t path] obtain n cols where "readCustomColumns C n t path = Some cols" by auto
  then have "\<forall>m. readCustomColumns C (n + m) t path = Some cols" by (auto intro: readCustomColumns_mono)
  then show "\<exists>n cols. \<forall>m. readCustomColumns C (n + m) t path = Some cols" by blast
qed

text \<open>\<open>type Node struct { Next *Node }\<close>.\<close>

definition self_type :: "coltype list" where
  "self_type =
     [\<lparr>ct_Kind = KStruct, ct_Elem = 0, ct_OpenAPI = None,
       ct_Fields = [\<lparr>cf_Name = ''Next'', cf_Anonymous = False, cf_Type = 1, cf_json = ''next'', cf_column = None\<rparr>]\<rparr>,
      \<lparr>ct_Kind = KPointer, ct_Elem = 0, ct_OpenAPI = None, ct_Fields = []\<rparr>]"

lemma self_type_never_ends: "\<not> col_nested self_type 0"
proof
  assume "col_nested self_type 0"
  moreover have "\<And>t. col_nested self_type t \<Longrightarrow> t \<noteq> 0"
  proof -
    fix t
    assume "col_nested self_type t"
    then show "t \<noteq> 0"
    proof (induction rule: col_nested.induct)
      case (1 t)
      have i: "inner_of self_type (hd (ct_Fields (self_type ! 0))) = Some 0" by code_simp
      have "hd (ct_Fields (self_type ! 0)) \<in> set (ct_Fields (self_type ! 0))" by (simp add: self_type_def)
      with 1(3)[of _ 0] i show ?case by (cases t) (auto simp del: hd_in_set)
    qed
  qed
  ultimately show False by blast
qed

definition plain_word :: "string \<Rightarrow> bool" where
  "plain_word s \<longleftrightarrow> TrimSpace s = s \<and> s \<noteq> '''' \<and> CHR ''.'' \<notin> set s \<and> CHR ''/'' \<notin> set s"

definition widget :: CRD where
  "widget = WithStatus (NamespacedType ''widget.Example.org/v1'')"

theorem crd_name_witness:
  "\<exists>spec. crd_spec floats0 json0 [] 0 widget = Some (Inr spec) \<and> cs_Name spec = ''widgets.example.org'' \<and>
     cs_Plural spec = ''widgets'' \<and> cs_Group spec = ''example.org''"
proof -
  have o: "crd_Override widget = None" by (simp add: widget_def WithStatus_def NamespacedType_def FromGV_def split: prod.splits)
  have "map_option (map_sum id cs_Plural) (crd_spec floats0 json0 [] 0 widget) = Some (Inr ''widgets'')"
    "map_option (map_sum id cs_Group) (crd_spec floats0 json0 [] 0 widget) = Some (Inr ''example.org'')" by code_simp+
  then obtain spec where s: "crd_spec floats0 json0 [] 0 widget = Some (Inr spec)" "cs_Plural spec = ''widgets''"
      "cs_Group spec = ''example.org''"
    by (cases "crd_spec floats0 json0 [] 0 widget"; cases "the (crd_spec floats0 json0 [] 0 widget)") auto
  with crd_name[OF o s(1)] show ?thesis by (simp add: ToLower_def toLowerC_def upperC_def)
qed

end
