(* ===== verification/Crd_Install.thy ===== *)
theory Crd_Install
  imports Crd_Define
begin

section \<open>Installing definitions: pkg/crd\<close>

text \<open>
  \<open>pkg/crd/crd.go\<close> and the factory of \<open>init.go\<close>. The API server is \<open>crdapi\<close>, functions of a world
  that each call and each pause may change; \<open>cst\<close> holds the world and the calls with their answers.
  Waiting (\<open>wait.Poll\<close>, \<open>wait.PollImmediate\<close>) is bounded by \<open>ticks\<close>, the number of intervals that
  fit into the timeout. The loops over lists of definitions pass the objects by value: only the
  resource version is written to them, and read by the update that follows.
\<close>

record crdinst =
  ci_Name :: string
  ci_ResourceVersion :: string
  ci_Conditions :: "(string \<times> string) list"

datatype cobs =
    OList "crdinst list result"
  | OCreate crdinst "crdinst result"
  | OGet string "crdinst result"
  | OUpdate crdinst "crdinst result"
  | OApply crdobject "goerr option"

record 'w crdapi =
  cr_List :: "string option \<Rightarrow> 'w \<Rightarrow> crdinst list result \<times> 'w"
  cr_Create :: "crdinst \<Rightarrow> 'w \<Rightarrow> crdinst result \<times> 'w"
  cr_Get :: "string \<Rightarrow> 'w \<Rightarrow> crdinst result \<times> 'w"
  cr_Update :: "crdinst \<Rightarrow> 'w \<Rightarrow> crdinst result \<times> 'w"
  cr_Apply :: "crdobject \<Rightarrow> 'w \<Rightarrow> goerr option \<times> 'w"
  cr_ctxErr :: "'w \<Rightarrow> goerr option"
  cr_tick :: "'w \<Rightarrow> 'w"

record 'w cst =
  c_world :: 'w
  c_obs :: "cobs list"

definition call_api :: "('r \<Rightarrow> cobs) \<Rightarrow> ('w \<Rightarrow> 'r \<times> 'w) \<Rightarrow> 'w cst \<Rightarrow> 'r \<times> 'w cst" where
  "call_api obs f s =
     (case f (c_world s) of (r, w) \<Rightarrow> (r, s\<lparr>c_world := w, c_obs := c_obs s @ [obs r]\<rparr>))"

text \<open>\<open>PollImmediate\<close> checks, then pauses and checks again; \<open>Poll\<close>, which the factory waits with,
  pauses first.\<close>

fun PollImmediate :: "'w crdapi \<Rightarrow> nat \<Rightarrow> ('w cst \<Rightarrow> bool result \<times> 'w cst) \<Rightarrow> 'w cst \<Rightarrow> goerr option \<times> 'w cst" where
  "PollImmediate A ticks cond s =
     (case cond s of
        (Inl err, s) \<Rightarrow> (Some err, s)
      | (Inr True, s) \<Rightarrow> (None, s)
      | (Inr False, s) \<Rightarrow>
          (case ticks of
             0 \<Rightarrow> (Some (Err ''timed out waiting for the condition''), s)
           | Suc n \<Rightarrow> PollImmediate A n cond (s\<lparr>c_world := cr_tick A (c_world s)\<rparr>)))"

subsection \<open>crd.go\<close>

definition crdIsReady :: "crdinst \<Rightarrow> bool" where
  "crdIsReady crd = list_ex (\<lambda>(ty, status). ty = ''Established'' \<and> status = ''True'') (ci_Conditions crd)"

definition by_name :: "crdinst list \<Rightarrow> (string \<times> crdinst) list" where
  "by_name items = fold (\<lambda>crd m. AList.update (ci_Name crd) crd m) items []"

definition getExistingCRDs ::
    "'w crdapi \<Rightarrow> string option \<Rightarrow> 'w cst \<Rightarrow> (string \<times> crdinst) list result \<times> 'w cst" where
  "getExistingCRDs A labelSelector s =
     (case call_api OList (cr_List A labelSelector) s of
        (Inl err, s) \<Rightarrow> (Inl (Wrap ''failed to list crds'' err), s)
      | (Inr items, s) \<Rightarrow> (Inr (by_name items), s))"

definition update_crd :: "'w crdapi \<Rightarrow> crdinst \<Rightarrow> crdinst \<Rightarrow> 'w cst \<Rightarrow> goerr option \<times> 'w cst" where
  "update_crd A crd existingCRD s =
     (let crd = crd\<lparr>ci_ResourceVersion := ci_ResourceVersion existingCRD\<rparr> in
      case call_api (OUpdate crd) (cr_Update A crd) s of
        (Inl err, s) \<Rightarrow> (Some (Wrap (''failed to update crd '' @ ci_Name crd) err), s)
      | (Inr _, s) \<Rightarrow> (None, s))"

definition ensureCRD ::
    "'w crdapi \<Rightarrow> crdinst \<Rightarrow> (string \<times> crdinst) list \<Rightarrow> 'w cst \<Rightarrow> goerr option \<times> 'w cst" where
  "ensureCRD A crd existingCRDs s =
     (case map_of existingCRDs (ci_Name crd) of
        Some existingCRD \<Rightarrow> update_crd A crd existingCRD s
      | None \<Rightarrow>
          (case call_api (OCreate crd) (cr_Create A crd) s of
             (Inr _, s) \<Rightarrow> (None, s)
           | (Inl err, s) \<Rightarrow>
               if \<not> IsAlreadyExists (Some err) then (Some (Wrap (''failed to create crd '' @ ci_Name crd) err), s)
               else (case call_api (OGet (ci_Name crd)) (cr_Get A (ci_Name crd)) s of
                   (Inl err, s) \<Rightarrow> (Some (Wrap (''failed to get exiting CRD '' @ ci_Name crd) err), s)
                 | (Inr existingCRD, s) \<Rightarrow> update_crd A crd existingCRD s)))"

definition check_ready :: "'w crdapi \<Rightarrow> string \<Rightarrow> 'w cst \<Rightarrow> bool result \<times> 'w cst" where
  "check_ready A crdName s =
     (case call_api (OGet crdName) (cr_Get A crdName) s of
        (Inl err, s) \<Rightarrow> (Inl (Wrap (''failed to get CRD for status checking: '' @ crdName) err), s)
      | (Inr crd, s) \<Rightarrow> (Inr (crdIsReady crd), s))"

definition waitCRD :: "'w crdapi \<Rightarrow> nat \<Rightarrow> string \<Rightarrow> 'w cst \<Rightarrow> goerr option \<times> 'w cst" where
  "waitCRD A ticks crdName s = PollImmediate A ticks (check_ready A crdName) s"

fun ensure_all :: "'w crdapi \<Rightarrow> (string \<times> crdinst) list \<Rightarrow> crdinst list \<Rightarrow> 'w cst \<Rightarrow> goerr option \<times> 'w cst" where
  "ensure_all A existing [] s = (None, s)"
| "ensure_all A existing (crd # crds) s =
     (case ensureCRD A crd existing s of
        (Some err, s) \<Rightarrow> (Some err, s)
      | (None, s) \<Rightarrow> ensure_all A existing crds s)"

fun wait_all :: "'w crdapi \<Rightarrow> nat \<Rightarrow> (string \<times> crdinst) list \<Rightarrow> crdinst list \<Rightarrow> 'w cst \<Rightarrow> goerr option \<times> 'w cst" where
  "wait_all A ticks existing [] s = (None, s)"
| "wait_all A ticks existing (crd # crds) s =
     (if (case map_of existing (ci_Name crd) of Some e \<Rightarrow> crdIsReady e | None \<Rightarrow> False)
      then wait_all A ticks existing crds s
      else (case waitCRD A ticks (ci_Name crd) s of
          (Some err, s) \<Rightarrow> (Some (Wrap (''failed waiting on CRD '' @ ci_Name crd) err), s)
        | (None, s) \<Rightarrow> wait_all A ticks existing crds s))"

text \<open>An error of listing is logged, and the map is then nil.\<close>

definition listed :: "(string \<times> crdinst) list result \<Rightarrow> (string \<times> crdinst) list" where
  "listed r = (case r of Inl _ \<Rightarrow> [] | Inr m \<Rightarrow> m)"

definition BatchCreateCRDs ::
    "'w crdapi \<Rightarrow> string option \<Rightarrow> nat \<Rightarrow> crdinst list \<Rightarrow> 'w cst \<Rightarrow> goerr option \<times> 'w cst" where
  "BatchCreateCRDs A labelSelector ticks crds s =
     (case getExistingCRDs A labelSelector s of (r, s) \<Rightarrow>
      case ensure_all A (listed r) crds s of
        (Some err, s) \<Rightarrow> (Some err, s)
      | (None, s) \<Rightarrow>
          (case getExistingCRDs A labelSelector s of (r, s) \<Rightarrow> wait_all A ticks (listed r) crds s))"

subsection \<open>The factory of init.go\<close>

definition ensureAccess :: "'w crdapi \<Rightarrow> 'w cst \<Rightarrow> (bool \<times> goerr option) \<times> 'w cst" where
  "ensureAccess A s =
     (case call_api OList (cr_List A None) s of
        (Inl err, s) \<Rightarrow> if IsForbidden (Some err) then ((False, None), s) else ((True, Some err), s)
      | (Inr _, s) \<Rightarrow> ((True, None), s))"

definition getReadyCRDs :: "'w crdapi \<Rightarrow> 'w cst \<Rightarrow> (string \<times> crdinst) list result \<times> 'w cst" where
  "getReadyCRDs A s =
     (case call_api OList (cr_List A None) s of
        (Inl err, s) \<Rightarrow> (Inl err, s)
      | (Inr items, s) \<Rightarrow> (Inr (by_name (filter crdIsReady items)), s))"

definition crd_object_name :: "crdobject \<Rightarrow> string result" where
  "crd_object_name ob =
     (case ob of
        Overriding r \<Rightarrow> map_sum id m_name (Accessor r)
      | Built m \<Rightarrow> Inr (Object_String (Some m) [''metadata'', ''name'']))"

definition createCRD ::
    "'w crdapi \<Rightarrow> (CRD \<Rightarrow> crdobject result option) \<Rightarrow> CRD \<Rightarrow> 'w cst \<Rightarrow> (crdinst result \<times> 'w cst) option" where
  "createCRD A conv crdDef s =
     map_option (\<lambda>r. case r of
         Inl err \<Rightarrow> (Inl err, s)
       | Inr crd \<Rightarrow>
           (case crd_object_name crd of
              Inl err \<Rightarrow> (Inl err, s)
            | Inr name \<Rightarrow>
                (case call_api (OApply crd) (cr_Apply A crd) s of
                   (Some err, s) \<Rightarrow> (Inl err, s)
                 | (None, s) \<Rightarrow> call_api (OGet name) (cr_Get A name) s)))
       (conv crdDef)"

text \<open>The condition of the factory's \<open>waitCRD\<close>, which keeps what it last got.\<close>

definition check_established :: "'w crdapi \<Rightarrow> string \<Rightarrow> 'w cst \<Rightarrow> crdinst option result \<times> 'w cst" where
  "check_established A crdName s =
     (case call_api (OGet crdName) (cr_Get A crdName) s of
        (Inl err, s) \<Rightarrow> (Inl err, s)
      | (Inr crd, s) \<Rightarrow>
          if crdIsReady crd then (Inr (Some crd), s)
          else (case cr_ctxErr A (c_world s) of Some err \<Rightarrow> (Inl err, s) | None \<Rightarrow> (Inr None, s)))"

fun factory_waitCRD :: "'w crdapi \<Rightarrow> nat \<Rightarrow> string \<Rightarrow> 'w cst \<Rightarrow> crdinst result \<times> 'w cst" where
  "factory_waitCRD A 0 crdName s = (Inl (Err ''timed out waiting for the condition''), s)"
| "factory_waitCRD A (Suc n) crdName s =
     (case check_established A crdName (s\<lparr>c_world := cr_tick A (c_world s)\<rparr>) of
        (Inl err, s) \<Rightarrow> (Inl err, s)
      | (Inr (Some crd), s) \<Rightarrow> (Inr crd, s)
      | (Inr None, s) \<Rightarrow> factory_waitCRD A n crdName s)"

fun create_all ::
    "'w crdapi \<Rightarrow> (CRD \<Rightarrow> crdobject result option) \<Rightarrow> CRD list \<Rightarrow> (gvk \<times> crdinst) list \<Rightarrow> 'w cst
     \<Rightarrow> ((gvk \<times> crdinst) list result \<times> 'w cst) option" where
  "create_all A conv [] crdStatus s = Some (Inr crdStatus, s)"
| "create_all A conv (c # cs) crdStatus s =
     Option.bind (createCRD A conv c s) (\<lambda>(r, s). case r of
       Inl err \<Rightarrow> Some (Inl err, s)
     | Inr crd \<Rightarrow> create_all A conv cs (AList.update (crd_GVK c) crd crdStatus) s)"

text \<open>The range over \<open>crdStatus\<close>, which writes to the entries it is at.\<close>

fun await_all ::
    "'w crdapi \<Rightarrow> nat \<Rightarrow> (string \<times> crdinst) list \<Rightarrow> (gvk \<times> crdinst) list \<Rightarrow> (gvk \<times> crdinst) list \<Rightarrow> 'w cst
     \<Rightarrow> (gvk \<times> crdinst) list result \<times> 'w cst" where
  "await_all A ticks ready [] crdStatus s = (Inr crdStatus, s)"
| "await_all A ticks ready ((gvk, crd) # rest) crdStatus s =
     (case map_of ready (ci_Name crd) of
        Some readyCrd \<Rightarrow> await_all A ticks ready rest (AList.update gvk readyCrd crdStatus) s
      | None \<Rightarrow>
          (case factory_waitCRD A ticks (ci_Name crd) s of
             (Inl err, s) \<Rightarrow> (Inl err, s)
           | (Inr crd, s) \<Rightarrow> await_all A ticks ready rest (AList.update gvk crd crdStatus) s))"

definition CreateCRDs ::
    "'w crdapi \<Rightarrow> (CRD \<Rightarrow> crdobject result option) \<Rightarrow> nat \<Rightarrow> CRD list \<Rightarrow> 'w cst
     \<Rightarrow> ((gvk \<times> crdinst) list result \<times> 'w cst) option" where
  "CreateCRDs A conv ticks crds s =
     (if length crds = 0 then Some (Inr [], s)
      else case ensureAccess A s of
        ((_, Some err), s) \<Rightarrow> Some (Inl err, s)
      | ((False, None), s) \<Rightarrow> Some (Inr [], s)
      | ((True, None), s) \<Rightarrow>
          (case getReadyCRDs A s of
             (Inl err, s) \<Rightarrow> Some (Inl err, s)
           | (Inr _, s) \<Rightarrow>
               Option.bind (create_all A conv crds [] s) (\<lambda>(r, s). case r of
                 Inl err \<Rightarrow> Some (Inl err, s)
               | Inr crdStatus \<Rightarrow>
                   (case getReadyCRDs A s of
                      (Inl err, s) \<Rightarrow> Some (Inl err, s)
                    | (Inr ready, s) \<Rightarrow> Some (await_all A ticks ready crdStatus crdStatus s)))))"

text \<open>The group of goroutines that \<open>BatchCreateCRDs\<close> starts keeps the first error that is stored.\<close>

definition batch_done :: "goerr option \<Rightarrow> goerr option \<Rightarrow> goerr option" where
  "batch_done f_err err = (if err \<noteq> None \<and> f_err = None then err else f_err)"

subsection \<open>Properties\<close>

text \<open>The calls made between two states.\<close>

definition made :: "'w cst \<Rightarrow> cobs list \<Rightarrow> 'w cst \<Rightarrow> bool" where
  "made s obs s' \<longleftrightarrow> c_obs s' = c_obs s @ obs"

lemma made_refl: "made s [] s"
  by (simp add: made_def)

lemma made_trans: "made s o1 s1 \<Longrightarrow> made s1 o2 s2 \<Longrightarrow> made s (o1 @ o2) s2"
  by (simp add: made_def)

lemma made_tick [simp]: "made (s\<lparr>c_world := w\<rparr>) obs s' = made s obs s'"
  by (simp add: made_def)

lemma made_call: "call_api f g s = (r, s') \<Longrightarrow> made s [f r] s'"
  by (auto simp: call_api_def made_def split: prod.splits)

text \<open>The object was created, or updated with the resource version of the one that was there.\<close>

definition written :: "cobs list \<Rightarrow> crdinst \<Rightarrow> bool" where
  "written obs crd \<longleftrightarrow> (\<exists>r. OCreate crd (Inr r) \<in> set obs) \<or>
     (\<exists>v r. OUpdate (crd\<lparr>ci_ResourceVersion := v\<rparr>) (Inr r) \<in> set obs)"

definition established :: "cobs list \<Rightarrow> string \<Rightarrow> bool" where
  "established obs name \<longleftrightarrow> (\<exists>x. OGet name (Inr x) \<in> set obs \<and> crdIsReady x) \<or>
     (\<exists>xs x. OList (Inr xs) \<in> set obs \<and> x \<in> set xs \<and> ci_Name x = name \<and> crdIsReady x)"

lemma written_mono: "written o1 crd \<Longrightarrow> written (o1 @ o2) crd" "written o2 crd \<Longrightarrow> written (o1 @ o2) crd"
  by (auto simp: written_def)

lemma established_mono: "established o1 n \<Longrightarrow> established (o1 @ o2) n" "established o2 n \<Longrightarrow> established (o1 @ o2) n"
  by (auto simp: established_def)

lemma by_name_in: "map_of (by_name items) n = Some x \<Longrightarrow> x \<in> set items \<and> ci_Name x = n"
proof -
  have "map_of (fold (\<lambda>crd m. AList.update (ci_Name crd) crd m) items m0) n = Some x \<Longrightarrow>
      x \<in> set items \<and> ci_Name x = n \<or> map_of m0 n = Some x" for m0
    by (induction items arbitrary: m0) (fastforce simp: update_conv' split: if_splits)+
  from this[of "[]"] show "map_of (by_name items) n = Some x \<Longrightarrow> x \<in> set items \<and> ci_Name x = n"
    by (simp add: by_name_def)
qed

lemma update_crd_written: "update_crd A crd e s = (None, s') \<Longrightarrow> \<exists>obs. made s obs s' \<and> written obs crd"
  by (fastforce simp: update_crd_def Let_def written_def split: prod.splits sum.splits dest!: made_call)

lemma ensureCRD_written:
  assumes "ensureCRD A crd existing s = (None, s')"
  shows "\<exists>obs. made s obs s' \<and> written obs crd"
proof (cases "map_of existing (ci_Name crd)")
  case (Some e)
  with assms update_crd_written show ?thesis by (simp add: ensureCRD_def)
next
  case None
  obtain r s1 where c: "call_api (OCreate crd) (cr_Create A crd) s = (r, s1)" by fastforce
  show ?thesis
  proof (cases r)
    case (Inr x)
    with assms None c made_call[OF c] show ?thesis by (auto simp: ensureCRD_def written_def)
  next
    case (Inl err)
    with assms None c obtain x s2 where g: "call_api (OGet (ci_Name crd)) (cr_Get A (ci_Name crd)) s1 = (Inr x, s2)"
        "update_crd A crd x s2 = (None, s')"
      by (auto simp: ensureCRD_def split: if_splits prod.splits sum.splits)
    from update_crd_written[OF g(2)] obtain obs where o: "made s2 obs s'" "written obs crd" by blast
    have "made s ([OCreate crd r] @ [OGet (ci_Name crd) (Inr x)] @ obs) s'"
      by (rule made_trans[OF made_call[OF c] made_trans[OF made_call[OF g(1)] o(1)]])
    with o(2) show ?thesis by (blast intro: written_mono)
  qed
qed

lemma ensure_all_written:
  "ensure_all A existing crds s = (None, s') \<Longrightarrow> \<exists>obs. made s obs s' \<and> (\<forall>c \<in> set crds. written obs c)"
proof (induction A existing crds s rule: ensure_all.induct)
  case (2 A existing crd crds s)
  then obtain s1 where e: "ensureCRD A crd existing s = (None, s1)" "ensure_all A existing crds s1 = (None, s')"
    by (auto split: prod.splits option.splits)
  from ensureCRD_written[OF e(1)] 2(1)[OF e(1)[symmetric] refl e(2)] obtain o1 o2 where
    "made s o1 s1" "written o1 crd" "made s1 o2 s'" "\<forall>c \<in> set crds. written o2 c" by blast
  then show ?case by (intro exI[of _ "o1 @ o2"]) (auto intro: made_trans written_mono)
qed (auto intro: made_refl)

lemma PollImmediate_ready:
  "PollImmediate A ticks (check_ready A n) s = (None, s') \<Longrightarrow> \<exists>obs. made s obs s' \<and> established obs n"
proof (induction ticks arbitrary: s)
  case (Suc ticks)
  obtain r s1 where c: "call_api (OGet n) (cr_Get A n) s = (r, s1)" by fastforce
  from Suc.prems c obtain x where x: "r = Inr x" by (cases r) (auto simp: check_ready_def)
  show ?case
  proof (cases "crdIsReady x")
    case True
    with Suc.prems c x made_call[OF c] show ?thesis by (auto simp: check_ready_def established_def)
  next
    case False
    with Suc.prems c x Suc.IH[of "s1\<lparr>c_world := cr_tick A (c_world s1)\<rparr>"] obtain obs where
      "made s1 obs s'" "established obs n" by (auto simp: check_ready_def)
    with made_trans[OF made_call[OF c]] show ?thesis by (blast intro: established_mono)
  qed
next
  case 0
  obtain r s1 where c: "call_api (OGet n) (cr_Get A n) s = (r, s1)" by fastforce
  with 0 made_call[OF c] show ?case
    by (cases r) (auto simp: check_ready_def established_def split: bool.splits if_splits)
qed

lemma wait_all_ready:
  assumes "\<And>n e. map_of existing n = Some e \<Longrightarrow> crdIsReady e \<Longrightarrow> established o0 n"
  shows "wait_all A ticks existing crds s = (None, s') \<Longrightarrow>
    \<exists>obs. made s obs s' \<and> (\<forall>c \<in> set crds. established (o0 @ obs) (ci_Name c))"
proof (induction crds arbitrary: s)
  case (Cons crd crds)
  show ?case
  proof (cases "case map_of existing (ci_Name crd) of Some e \<Rightarrow> crdIsReady e | None \<Rightarrow> False")
    case True
    with Cons obtain obs where "made s obs s'" "\<forall>c \<in> set crds. established (o0 @ obs) (ci_Name c)" by auto
    with True assms[of "ci_Name crd"] show ?thesis by (fastforce split: option.splits intro: established_mono)
  next
    case False
    with Cons.prems obtain s1 where w: "waitCRD A ticks (ci_Name crd) s = (None, s1)"
        "wait_all A ticks existing crds s1 = (None, s')"
      by (auto split: prod.splits option.splits)
    from PollImmediate_ready[OF w(1)[unfolded waitCRD_def]] Cons.IH[OF w(2)] obtain o1 o2 where
      o: "made s o1 s1" "established o1 (ci_Name crd)" "made s1 o2 s'"
        "\<forall>c \<in> set crds. established (o0 @ o2) (ci_Name c)" by blast
    have "established (o0 @ o1 @ o2) (ci_Name c)" if "established (o0 @ o2) (ci_Name c)" for c
      using that by (auto simp: established_def)
    with o show ?thesis
      by (intro exI[of _ "o1 @ o2"]) (auto intro: made_trans established_mono)
  qed
qed (auto intro: made_refl)

text \<open>C26: When \<open>BatchCreateCRDs\<close> gives no error, every definition was created, or updated with the
  resource version of the one that was there, and after all writes every definition was seen
  established, in the list or by its own request.\<close>

theorem batch_established:
  assumes "BatchCreateCRDs A sel ticks crds s = (None, s')"
  shows "\<exists>o1 o2. c_obs s' = c_obs s @ o1 @ o2 \<and> list_all (written o1) crds \<and>
    list_all (\<lambda>c. established o2 (ci_Name c)) crds"
proof -
  obtain l1 s1 where l1: "getExistingCRDs A sel s = (l1, s1)" by fastforce
  with assms obtain s2 where e: "ensure_all A (listed l1) crds s1 = (None, s2)"
    by (auto simp: BatchCreateCRDs_def split: prod.splits option.splits)
  obtain l2 s3 where l2: "getExistingCRDs A sel s2 = (l2, s3)" by fastforce
  with assms l1 e have w: "wait_all A ticks (listed l2) crds s3 = (None, s')" by (simp add: BatchCreateCRDs_def)
  have list: "\<exists>items. made s [OList items] s' \<and> l = map_sum (Wrap ''failed to list crds'') by_name items"
    if "getExistingCRDs A sel s = (l, s')" for s l s'
    using that by (auto simp: getExistingCRDs_def split: prod.splits sum.splits dest!: made_call)
  from list[OF l1] list[OF l2] obtain i1 i2 where i: "made s [OList i1] s1" "made s2 [OList i2] s3"
      "l2 = map_sum (Wrap ''failed to list crds'') by_name i2" by blast
  have known: "\<And>n e. map_of (listed l2) n = Some e \<Longrightarrow> crdIsReady e \<Longrightarrow> established [OList i2] n"
    using i(3) by (cases i2) (auto simp: listed_def established_def dest: by_name_in)
  have "\<exists>obs. made s3 obs s' \<and> (\<forall>c \<in> set crds. established ([OList i2] @ obs) (ci_Name c))"
    by (rule wait_all_ready[OF _ w]) (rule known)
  with ensure_all_written[OF e] obtain oe ow where o:
      "made s1 oe s2" "\<forall>c \<in> set crds. written oe c"
      "made s3 ow s'" "\<forall>c \<in> set crds. established ([OList i2] @ ow) (ci_Name c)" by blast
  from made_trans[OF i(1) o(1)] made_trans[OF i(2) o(3)]
  have "c_obs s' = c_obs s @ ([OList i1] @ oe) @ ([OList i2] @ ow)" by (simp add: made_def)
  moreover from o(2) have "\<forall>c \<in> set crds. written ([OList i1] @ oe) c" using written_mono(2)[of oe _ "[OList i1]"] by blast
  ultimately show ?thesis using o(4) by (intro exI conjI) (auto simp: list_all_iff)
qed

lemma factory_waitCRD_ready: "factory_waitCRD A n name s = (Inr crd, s') \<Longrightarrow> crdIsReady crd"
proof (induction n arbitrary: s)
  case (Suc n)
  obtain r s1 where "check_established A name (s\<lparr>c_world := cr_tick A (c_world s)\<rparr>) = (r, s1)" by fastforce
  with Suc show ?case
    by (cases r) (auto simp: check_established_def split: prod.splits sum.splits option.splits if_splits)
qed simp

lemma create_all_keys:
  "create_all A conv cs st s = Some (Inr st', s') \<Longrightarrow> distinct (map fst st) \<Longrightarrow>
   distinct (map fst st') \<and> set (map fst st') = set (map fst st) \<union> crd_GVK ` set cs"
proof (induction cs arbitrary: st s)
  case (Cons c cs)
  from Cons.prems(1) obtain r s1 where c: "createCRD A conv c s = Some (r, s1)" by (auto simp: bind_eq_Some_conv)
  with Cons.prems(1) obtain crd where crd: "r = Inr crd"
      "create_all A conv cs (AList.update (crd_GVK c) crd st) s1 = Some (Inr st', s')" by (cases r) auto
  from Cons.IH[OF crd(2)] Cons.prems(2) show ?case
    by (auto simp: distinct_update update_keys split: if_splits)
qed simp

lemma await_all_ready:
  assumes "\<And>n x. map_of ready n = Some x \<Longrightarrow> crdIsReady x"
  shows "await_all A ticks ready rest st s = (Inr st', s') \<Longrightarrow> distinct (map fst st) \<Longrightarrow>
    set (map fst rest) \<subseteq> set (map fst st) \<Longrightarrow>
    distinct (map fst st') \<and> set (map fst st') = set (map fst st) \<and>
    (\<forall>g. map_of st' g = map_of st g \<and> g \<notin> set (map fst rest) \<or> (\<exists>x. map_of st' g = Some x \<and> crdIsReady x))"
proof (induction rest arbitrary: st s)
  case (Cons e rest)
  obtain g crd where e: "e = (g, crd)" by fastforce
  obtain x s1 where x: "crdIsReady x" "await_all A ticks ready rest (AList.update g x st) s1 = (Inr st', s')"
  proof (cases "map_of ready (ci_Name crd)")
    case (Some y)
    with Cons.prems(1) e assms that show ?thesis by auto
  next
    case None
    obtain r s2 where w: "factory_waitCRD A ticks (ci_Name crd) s = (r, s2)" by fastforce
    with Cons.prems(1) e None that factory_waitCRD_ready show ?thesis by (cases r) fastforce+
  qed
  have k: "set (map fst (AList.update g x st)) = set (map fst st)" "distinct (map fst (AList.update g x st))"
    using Cons.prems(2,3) e by (auto simp: update_keys distinct_update)
  have sub: "set (map fst rest) \<subseteq> set (map fst (AList.update g x st))" using Cons.prems(3) k(1) by auto
  note ih0 = Cons.IH[OF x(2) k(2) sub]
  have ih: "distinct (map fst st')" "set (map fst st') = set (map fst st)" using ih0 k(1) by auto
  have ih3: "map_of st' h = ((map_of st)(g \<mapsto> x)) h \<and> h \<notin> set (map fst rest)
      \<or> (\<exists>x. map_of st' h = Some x \<and> crdIsReady x)" for h
    using ih0 unfolding update_conv'[symmetric] by blast
  have "map_of st' h = map_of st h \<and> h \<notin> set (map fst (e # rest)) \<or> (\<exists>x. map_of st' h = Some x \<and> crdIsReady x)" for h
    using ih3[of h] e x(1) by (cases "h = g") auto
  with ih(1,2) show ?case by blast
qed auto

text \<open>When the factory's \<open>CreateCRDs\<close> gives no error and had access, the result has an entry for
  the kind of every description and no other, and every entry was seen established.\<close>

theorem factory_established:
  assumes run: "CreateCRDs A conv ticks crds s = Some (Inr status, s')" and ne: "crds \<noteq> []"
    and access: "fst (fst (ensureAccess A s))"
  shows "set (map fst status) = crd_GVK ` set crds \<and> list_all (\<lambda>(g, x). crdIsReady x) status"
proof -
  obtain e s1 where a: "ensureAccess A s = ((True, e), s1)" using access by (cases "ensureAccess A s") auto
  with run ne have "e = None" by (cases e) (auto simp: CreateCRDs_def)
  obtain r s2 where r: "getReadyCRDs A s1 = (r, s2)" by fastforce
  with run ne a \<open>e = None\<close> obtain st s3 where c: "create_all A conv crds [] s2 = Some (Inr st, s3)"
    by (cases r; cases "create_all A conv crds [] s2"; cases "fst (the (create_all A conv crds [] s2))")
      (auto simp: CreateCRDs_def)
  obtain r2 s4 where r2: "getReadyCRDs A s3 = (r2, s4)" by fastforce
  with run ne a \<open>e = None\<close> r c obtain ready where ready: "r2 = Inr ready"
      "await_all A ticks ready st st s4 = (Inr status, s')"
    by (cases r; cases r2) (auto simp: CreateCRDs_def)
  have known: "crdIsReady x" if "map_of ready n = Some x" for n x
  proof -
    from r2 ready(1) obtain items where "ready = by_name (filter crdIsReady items)"
      by (auto simp: getReadyCRDs_def split: prod.splits sum.splits)
    with that by_name_in[of "filter crdIsReady items" n x] show ?thesis by simp
  qed
  from create_all_keys[OF c] have k: "distinct (map fst st)" "set (map fst st) = crd_GVK ` set crds" by simp_all
  have "distinct (map fst status) \<and> set (map fst status) = set (map fst st) \<and>
      (\<forall>g. map_of status g = map_of st g \<and> g \<notin> set (map fst st) \<or> (\<exists>x. map_of status g = Some x \<and> crdIsReady x))"
    by (rule await_all_ready[OF _ ready(2) k(1) order_refl]) (rule known)
  then have d: "distinct (map fst status)" "set (map fst status) = set (map fst st)"
      "\<And>g. g \<in> set (map fst st) \<Longrightarrow> \<exists>x. map_of status g = Some x \<and> crdIsReady x" by blast+
  have "crdIsReady x" if "(g, x) \<in> set status" for g x
  proof -
    have "map_of status g = Some x" using that d(1) by simp
    moreover have "g \<in> set (map fst st)" using that d(2) by force
    ultimately show ?thesis using d(3)[of g] by auto
  qed
  with d(2) k(2) show ?thesis by (auto simp: list_all_iff)
qed

subsection \<open>A sample server\<close>

text \<open>The world is the list of the definitions that the server has; a pause establishes those whose
  name is not in \<open>slow\<close>.\<close>

definition lookup_crd :: "string \<Rightarrow> crdinst list \<Rightarrow> crdinst result" where
  "lookup_crd n w = (case List.find (\<lambda>c. ci_Name c = n) w of Some c \<Rightarrow> Inr c | None \<Rightarrow> Inl (NotFound n))"

definition put_crd :: "crdinst \<Rightarrow> crdinst list \<Rightarrow> crdinst list" where
  "put_crd c w = filter (\<lambda>d. ci_Name d \<noteq> ci_Name c) w @ [c]"

definition server :: "string list \<Rightarrow> crdinst list crdapi" where
  "server slow = \<lparr>
     cr_List = (\<lambda>sel w. (Inr w, w)),
     cr_Create = (\<lambda>c w. if isl (lookup_crd (ci_Name c) w) then (Inr c, put_crd c w) else (Inl (AlreadyExists (ci_Name c)), w)),
     cr_Get = (\<lambda>n w. (lookup_crd n w, w)),
     cr_Update = (\<lambda>c w. (Inr c, put_crd c w)),
     cr_Apply = (\<lambda>ob w. (None, case crd_object_name ob of
        Inl _ \<Rightarrow> w | Inr n \<Rightarrow> put_crd \<lparr>ci_Name = n, ci_ResourceVersion = ''1'', ci_Conditions = []\<rparr> w)),
     cr_ctxErr = (\<lambda>w. None),
     cr_tick = map (\<lambda>c. if ci_Name c \<in> set slow then c else c\<lparr>ci_Conditions := [(''Established'', ''True'')]\<rparr>)\<rparr>"

definition inst :: "string \<Rightarrow> crdinst" where
  "inst n = \<lparr>ci_Name = n, ci_ResourceVersion = ''7'', ci_Conditions = []\<rparr>"

definition batch_run :: "goerr option \<times> crdinst list cst" where
  "batch_run = BatchCreateCRDs (server []) None 3 [inst ''a.g'', inst ''b.g''] \<lparr>c_world = [inst ''b.g''], c_obs = []\<rparr>"

theorem batch_established_witness:
  "\<exists>o1 o2. c_obs (snd batch_run) = o1 @ o2 \<and> written o1 (inst ''b.g'') \<and> established o2 ''a.g''"
proof -
  have "fst batch_run = None" by code_simp
  then obtain s' where r: "batch_run = (None, s')" by (metis prod.collapse)
  from batch_established[OF r[unfolded batch_run_def]] show ?thesis by (auto simp: r inst_def)
qed

definition encode0 :: "crdspec \<Rightarrow> gomap result" where
  "encode0 spec = Inr [(''metadata'', VMap [(''name'', VStr (cs_Name spec))]), (''spec'', VMap [])]"

definition foo_bar :: types where
  "foo_bar =
     [\<lparr>ty_Name = ''Foo'', ty_PkgPath = ''ex/g/v1'', ty_Kind = KStruct, ty_Elem = 0, ty_Fields = []\<rparr>,
      \<lparr>ty_Name = ''Bar'', ty_PkgPath = ''ex/g/v1'', ty_Kind = KStruct, ty_Elem = 0, ty_Fields = []\<rparr>]"

definition from_struct :: "nat \<Rightarrow> CRD" where
  "from_struct t = WithSchemaFromStruct (Some t) (New '''' '''')"

definition factory_run :: "string list \<Rightarrow> CRD list \<Rightarrow> ((gvk \<times> crdinst) list result \<times> crdinst list cst) option" where
  "factory_run slow crds = CreateCRDs (server slow) (ToCustomResourceDefinition floats0 json0 encode0 foo_bar 9) 2 crds
     \<lparr>c_world = [], c_obs = []\<rparr>"

theorem factory_established_witness:
  "map_option (\<lambda>r. map_sum id (map fst) (fst r)) (factory_run [] [widget])
    = Some (Inr [mk_gvk ''example.org'' ''v1'' ''Widget'']) \<and>
   list_all (\<lambda>(g, x). crdIsReady x) (projr (fst (the (factory_run [] [widget]))))"
proof
  show e: "map_option (\<lambda>r. map_sum id (map fst) (fst r)) (factory_run [] [widget])
    = Some (Inr [mk_gvk ''example.org'' ''v1'' ''Widget''])" by code_simp
  then obtain status s' where r: "factory_run [] [widget] = Some (Inr status, s')"
    by (cases "factory_run [] [widget]"; cases "fst (the (factory_run [] [widget]))") auto
  have "fst (fst (ensureAccess (server []) \<lparr>c_world = [], c_obs = []\<rparr>))" by code_simp
  with factory_established[OF r[unfolded factory_run_def]] r
  show "list_all (\<lambda>(g, x). crdIsReady x) (projr (fst (the (factory_run [] [widget]))))" by simp
qed

subsection \<open>Where the factory falls short\<close>

text \<open>Two descriptions that take their kinds from a struct have the same empty kind when the result is
  filled: the first is forgotten, and not waited for.\<close>

lemma factory_forgets:
  "map_option (\<lambda>r. map_sum id (map (\<lambda>(g, x). (g_kind g, ci_Name x))) (fst r)) (factory_run [''foos.g''] [from_struct 0, from_struct 1])
     = Some (Inr [('''', ''bars.g'')])"
  "map_option (\<lambda>r. map (\<lambda>c. (ci_Name c, crdIsReady c)) (c_world (snd r))) (factory_run [''foos.g''] [from_struct 0, from_struct 1])
     = Some [(''foos.g'', False), (''bars.g'', True)]"
  by code_simp+

end
