(* ===== verification/Related.thy ===== *)
theory Related
  imports Needacert
begin

section \<open>Related resources and triggers: pkg/relatedresource, pkg/trigger\<close>

text \<open>
  \<open>pkg/relatedresource\<close> queues the objects that depend on a changed one, \<open>pkg/trigger/evalall.go\<close>
  queues a key that stands for no object. A resolver and a handler are functions; what is queued is
  the list of keys they return, in order.

  The queue is that of a shared controller of lasso: \<open>keyf\<close> is the text of a key in it, which the
  code relies on being \<open>namespace/name\<close>, or the name alone without a namespace (\<open>slash_keys\<close>).
  \<open>drain\<close> works a queue off the way a controller does: a key that already waits is not queued again.
\<close>

subsection \<open>Keys\<close>

record rkey =
  rk_Namespace :: string
  rk_Name :: string

definition NewKey :: "string \<Rightarrow> string \<Rightarrow> rkey" where
  "NewKey namespace name = \<lparr>rk_Namespace = namespace, rk_Name = name\<rparr>"

definition FromString :: "string \<Rightarrow> rkey" where
  "FromString key = (case kv_RSplit key ''/'' of (ns, name) \<Rightarrow> NewKey ns name)"

subsection \<open>Resolvers\<close>

type_synonym resolver = "string \<Rightarrow> string \<Rightarrow> robj option \<Rightarrow> rkey list result"

definition AllKey :: string where
  "AllKey = ''_all_''"

definition TriggerAllKey :: resolver where
  "TriggerAllKey namespace name obj = Inr (if name \<noteq> AllKey then [NewKey '''' AllKey] else [])"

definition OwnerResolver :: "bool \<Rightarrow> string \<Rightarrow> string \<Rightarrow> resolver" where
  "OwnerResolver namespaced apiVersion kind namespace name obj =
     (case obj of
        None \<Rightarrow> Inr []
      | Some obj \<Rightarrow>
          (case Accessor obj of
             Inl err \<Rightarrow> Inr []
           | Inr meta \<Rightarrow> Inr (List.map_filter (\<lambda>owner.
               if or_kind owner = kind \<and> or_apiVersion owner = apiVersion
               then Some (NewKey (if namespaced then m_namespace meta else '''') (or_name owner))
               else None) (m_ownerReferences meta))))"

subsection \<open>Watching\<close>

text \<open>The error of the resolver, and the keys that are queued.\<close>

definition runResolve :: "resolver \<Rightarrow> string \<Rightarrow> string \<Rightarrow> robj option \<Rightarrow> goerr option \<times> rkey list" where
  "runResolve resolve ns name obj =
     (case resolve ns name obj of
        Inl err \<Rightarrow> (Some err, [])
      | Inr keys \<Rightarrow> (None, filter (\<lambda>key. rk_Name key \<noteq> '''') keys))"

text \<open>An informer tells of a deletion with the object, or, when it missed the event, with a
  \<open>cache.DeletedFinalStateUnknown\<close>, which holds the key and the last known object and is not a
  \<open>runtime.Object\<close>.\<close>

datatype deletion = Deleted robj | DeletedFinalStateUnknown string robj

definition on_delete :: "resolver \<Rightarrow> deletion \<Rightarrow> rkey list" where
  "on_delete resolve d =
     (case d of
        DeletedFinalStateUnknown _ _ \<Rightarrow> []
      | Deleted ro \<Rightarrow>
          (case Accessor ro of
             Inl err \<Rightarrow> []
           | Inr meta \<Rightarrow> snd (runResolve resolve (m_namespace meta) (m_name meta) (Some ro))))"

definition on_sync :: "resolver \<Rightarrow> string \<Rightarrow> robj option \<Rightarrow> (robj option \<times> goerr option) \<times> rkey list" where
  "on_sync resolve key obj =
     (case kv_RSplit key ''/'' of (ns, name) \<Rightarrow>
        (case runResolve resolve ns name obj of (err, keys) \<Rightarrow> ((obj, err), keys)))"

text \<open>The enqueuer of a cluster-scoped controller drops the namespace.\<close>

definition wrapper_Enqueue :: "rkey \<Rightarrow> rkey" where
  "wrapper_Enqueue key = NewKey '''' (rk_Name key)"

text \<open>Watching several controllers: the handlers are registered with each, in order.\<close>

record watcher =
  w_delete :: "deletion \<Rightarrow> rkey list"
  w_sync :: "string \<Rightarrow> robj option \<Rightarrow> (robj option \<times> goerr option) \<times> rkey list"

definition watch :: "(rkey \<Rightarrow> rkey) \<Rightarrow> resolver \<Rightarrow> watcher" where
  "watch enq resolve =
     \<lparr>w_delete = (\<lambda>d. map enq (on_delete resolve d)),
      w_sync = (\<lambda>key obj. case on_sync resolve key obj of (r, keys) \<Rightarrow> (r, map enq keys))\<rparr>"

definition Watch :: "(rkey \<Rightarrow> rkey) \<Rightarrow> resolver \<Rightarrow> watcher list list \<Rightarrow> watcher list list" where
  "Watch enq resolve watching = map (\<lambda>c. c @ [watch enq resolve]) watching"

definition WatchClusterScoped :: "resolver \<Rightarrow> watcher list list \<Rightarrow> watcher list list" where
  "WatchClusterScoped resolve watching = Watch wrapper_Enqueue resolve watching"

subsection \<open>The registration with the informer\<close>

text \<open>\<open>addResourceEventHandler\<close> registers, and a goroutine takes the registration back when the
  context ends; a registration that failed leaves no goroutine. An informer is the list of its
  registrations \<open>(id, handler)\<close> with the next id; \<open>waiting\<close> are the ids whose goroutines wait.\<close>

record 'h informer =
  inf_next :: nat
  inf_handlers :: "(nat \<times> 'h) list"
  inf_waiting :: "nat list"

definition addResourceEventHandler :: "goerr option \<Rightarrow> 'h \<Rightarrow> 'h informer \<Rightarrow> 'h informer" where
  "addResourceEventHandler failed handler i =
     (case failed of
        Some err \<Rightarrow> i
      | None \<Rightarrow> i\<lparr>inf_next := Suc (inf_next i), inf_handlers := inf_handlers i @ [(inf_next i, handler)],
                  inf_waiting := inf_waiting i @ [inf_next i]\<rparr>)"

definition ctx_done :: "nat \<Rightarrow> 'h informer \<Rightarrow> 'h informer" where
  "ctx_done handlerReg i =
     (if handlerReg \<in> set (inf_waiting i)
      then i\<lparr>inf_handlers := filter (\<lambda>(r, _). r \<noteq> handlerReg) (inf_handlers i),
             inf_waiting := remove1 handlerReg (inf_waiting i)\<rparr>
      else i)"

subsection \<open>Triggers: evalall.go\<close>

record trigger =
  tr_key :: string

definition trigger_New :: "64 word \<Rightarrow> trigger \<times> 64 word" where
  "trigger_New counter =
     (let counter = counter + 1 in (\<lparr>tr_key = ''__trigger__'' @ Itoa (sint counter) @ ''__''\<rparr>, counter))"

definition trigger_Key :: "trigger \<Rightarrow> rkey" where
  "trigger_Key e = \<lparr>rk_Namespace = ''__trigger__'', rk_Name = tr_key e\<rparr>"

text \<open>\<open>Trigger\<close> queues the key of the trigger.\<close>

definition Trigger :: "trigger \<Rightarrow> rkey" where
  "Trigger e = NewKey ''__trigger__'' (tr_key e)"

text \<open>The handler that \<open>OnTrigger\<close> registers, and the key it queues at once: the handler of the
  caller runs, or nothing does.\<close>

definition trigger_runs :: "trigger \<Rightarrow> string \<Rightarrow> bool" where
  "trigger_runs e queueKey = (queueKey = ''__trigger__/'' @ tr_key e)"

definition OnTrigger :: "trigger \<Rightarrow> goerr option \<Rightarrow> (string \<Rightarrow> (robj option \<times> goerr option)) \<times> rkey" where
  "OnTrigger e handler =
     ((\<lambda>queueKey. if trigger_runs e queueKey then (None, handler) else (None, None)), Trigger e)"

subsection \<open>The queue\<close>

definition slash_keys :: "(rkey \<Rightarrow> string) \<Rightarrow> bool" where
  "slash_keys keyf \<longleftrightarrow> (\<forall>ns n. keyf (NewKey ns n) = (if ns = '''' then n else ns @ ''/'' @ n))"

text \<open>\<open>handle k\<close> are the keys that the handlers queue for \<open>k\<close>; the result is the log of the keys
  that were worked off, or \<open>None\<close> when \<open>n\<close> steps do not suffice.\<close>

definition enqueue_all :: "string list \<Rightarrow> string list \<Rightarrow> string list" where
  "enqueue_all ks q = fold (\<lambda>k q. if k \<in> set q then q else q @ [k]) ks q"

fun drain :: "(string \<Rightarrow> string list) \<Rightarrow> nat \<Rightarrow> string list \<Rightarrow> string list option" where
  "drain handle n [] = Some []"
| "drain handle 0 (k # q) = None"
| "drain handle (Suc n) (k # q) = map_option (Cons k) (drain handle n (enqueue_all (handle k) q))"

lemma set_enqueue_all: "set (enqueue_all ks q) = set ks \<union> set q"
  unfolding enqueue_all_def by (induction ks arbitrary: q) auto

lemma distinct_enqueue_all: "distinct q \<Longrightarrow> distinct (enqueue_all ks q)"
  unfolding enqueue_all_def by (induction ks arbitrary: q) auto

lemma drain_covers: "drain handle n q = Some log \<Longrightarrow> set q \<subseteq> set log"
proof (induction handle n q arbitrary: log rule: drain.induct)
  case (3 handle n k q)
  then show ?case by (auto simp: set_enqueue_all)
qed auto

lemma drain_follows:
  "drain handle n q = Some log \<Longrightarrow> log = a @ k # b \<Longrightarrow> set (handle k) \<subseteq> set b"
proof (induction handle n q arbitrary: log a rule: drain.induct)
  case (3 handle n x q)
  from "3.prems" obtain log' where l: "drain handle n (enqueue_all (handle x) q) = Some log'" "log = x # log'"
    by auto
  show ?case
  proof (cases a)
    case Nil
    with l "3.prems" drain_covers[OF l(1)] show ?thesis by (auto simp: set_enqueue_all)
  next
    case (Cons y a')
    with l "3.prems" have "log' = a' @ k # b" by simp
    from "3.IH"[OF l(1) this] show ?thesis .
  qed
qed auto

lemma drain_mono: "drain handle n q = Some log \<Longrightarrow> drain handle (n + m) q = Some log"
  by (induction handle n q arbitrary: log rule: drain.induct) auto

subsection \<open>What keys stand for\<close>

text \<open>Different numbers print differently.\<close>

lemma digit_value: "n < 10 \<Longrightarrow> of_char (hexDigit n) = 48 + n"
  by (auto simp: hexDigit_def less_Suc_eq numeral_eq_Suc)

lemma digits_value: "fold (\<lambda>c n. 10 * n + (of_char c - 48)) (digits_of n) 0 = n"
proof (induction n rule: digits_of.induct)
  case (1 n)
  then show ?case
    by (cases "n < 10") (simp_all add: digits_of.simps[of n] digit_value)
qed

lemma digits_no_sign: "digits_of n \<noteq> ''-'' @ s"
proof (induction n arbitrary: s rule: digits_of.induct)
  case (1 n)
  show ?case
  proof (cases "n < 10")
    case True
    then have "of_char (hexDigit n) \<noteq> (of_char (CHR ''-'') :: nat)" by (simp add: digit_value)
    then have "hexDigit n \<noteq> CHR ''-''" by metis
    with True show ?thesis by (simp add: digits_of.simps[of n])
  next
    case False
    have "digits_of (n div 10) \<noteq> []" by (subst digits_of.simps) simp
    with 1[OF False, of "tl (digits_of (n div 10))"] False show ?thesis
      by (auto simp: digits_of.simps[of n] append_eq_Cons_conv)
  qed
qed

lemma digits_of_inj: "digits_of m = digits_of n \<Longrightarrow> m = n"
  by (metis digits_value)

lemma Itoa_inj:
  assumes "Itoa i = Itoa j"
  shows "i = j"
proof -
  have "(i < 0) = (j < 0)" using assms digits_no_sign by (auto simp: Itoa_def split: if_splits) (metis append_Cons append_Nil)
  with assms have "nat \<bar>i\<bar> = nat \<bar>j\<bar>" by (auto simp: Itoa_def split: if_splits dest!: digits_of_inj)
  with \<open>(i < 0) = (j < 0)\<close> show ?thesis by linarith
qed


subsection \<open>Triggers run their own handlers\<close>

text \<open>\<open>n\<close> triggers, one after the other.\<close>

fun triggers_from :: "nat \<Rightarrow> 64 word \<Rightarrow> trigger list" where
  "triggers_from 0 counter = []"
| "triggers_from (Suc n) counter =
     (case trigger_New counter of (e, counter) \<Rightarrow> e # triggers_from n counter)"

lemma triggers_from_nth:
  "i < n \<Longrightarrow> triggers_from n c ! i = \<lparr>tr_key = ''__trigger__'' @ Itoa (sint (c + 1 + of_nat i)) @ ''__''\<rparr>"
proof (induction n arbitrary: c i)
  case (Suc n)
  then show ?case by (cases i) (simp_all add: trigger_New_def Let_def algebra_simps)
qed simp

lemma trigger_keys_differ:
  assumes "n \<le> 2 ^ 64" "i < n" "j < n" "tr_key (triggers_from n c ! i) = tr_key (triggers_from n c ! j)"
  shows "i = j"
proof -
  from assms have "sint (c + 1 + of_nat i) = sint (c + 1 + of_nat j)"
    by (simp add: triggers_from_nth Itoa_inj)
  then have "(of_nat i :: 64 word) = of_nat j" using signed_word_eqI by force
  then have "unat (of_nat i :: 64 word) = unat (of_nat j :: 64 word)" by simp
  with assms(1-3) show ?thesis by (simp add: unat_of_nat take_bit_eq_mod)
qed

text \<open>Of the triggers made one after the other, up to as many as the counter tells apart, the
  handler registered with one runs for the key that this one queues, also when it is registered,
  and for no key of another.\<close>

theorem trigger_runs_own:
  assumes "slash_keys keyf" "n \<le> 2 ^ 64" "i < n" "j < n"
  shows "fst (OnTrigger (triggers_from n c ! i) h) (keyf (snd (OnTrigger (triggers_from n c ! j) h')))
    = (None, if i = j then h else None)"
proof -
  have "keyf (Trigger e) = ''__trigger__/'' @ tr_key e" for e
    using assms(1) by (simp add: slash_keys_def Trigger_def)
  then show ?thesis using trigger_keys_differ[OF assms(2-4), of c] by (auto simp: OnTrigger_def trigger_runs_def)
qed

definition slashed :: "rkey \<Rightarrow> string" where
  "slashed k = (if rk_Namespace k = '''' then rk_Name k else rk_Namespace k @ ''/'' @ rk_Name k)"

lemma slashed_keys: "slash_keys slashed"
  by (simp add: slash_keys_def slashed_def NewKey_def)

theorem trigger_runs_own_witness:
  "fst (OnTrigger (triggers_from 3 (- 2) ! 1) (Some ErrSkip))
     (slashed (snd (OnTrigger (triggers_from 3 (- 2) ! 1) None))) = (None, Some ErrSkip) \<and>
   fst (OnTrigger (triggers_from 3 (- 2) ! 1) (Some ErrSkip))
     (slashed (snd (OnTrigger (triggers_from 3 (- 2) ! 2) None))) = (None, None)"
  using trigger_runs_own[OF slashed_keys, of 3 1 1 "- 2" "Some ErrSkip" None]
    trigger_runs_own[OF slashed_keys, of 3 1 2 "- 2" "Some ErrSkip" None] by simp

subsection \<open>One run for all\<close>

text \<open>What a controller queues that is watched with \<open>TriggerAllKey\<close>, for itself.\<close>

definition all_key_handle :: "(rkey \<Rightarrow> string) \<Rightarrow> (string \<Rightarrow> robj option) \<Rightarrow> string \<Rightarrow> string list" where
  "all_key_handle keyf store k = map keyf (snd (w_sync (watch id TriggerAllKey) k (store k)))"

abbreviation (input) key_name :: "string \<Rightarrow> string" where
  "key_name k \<equiv> snd (kv_RSplit k ''/'')"

lemma all_key_handle_eq:
  "slash_keys keyf \<Longrightarrow> all_key_handle keyf store k = (if key_name k = AllKey then [] else [AllKey])"
  by (auto simp: all_key_handle_def watch_def on_sync_def runResolve_def TriggerAllKey_def slash_keys_def
      NewKey_def AllKey_def split: prod.splits)

lemma AllKey_name: "key_name AllKey = AllKey"
proof -
  have "TrimSpace AllKey = AllKey" by code_simp
  then show ?thesis using kv_RSplit_absent[of "CHR ''/''" AllKey "[]"] by (simp add: AllKey_def)
qed

definition all_weight :: "string list \<Rightarrow> nat" where
  "all_weight q = sum_list (map (\<lambda>k. if key_name k = AllKey then 1 else 2) q)"

lemma drain_all_key:
  assumes "slash_keys keyf"
  shows "all_weight q \<le> n \<Longrightarrow> \<exists>log. drain (all_key_handle keyf store) n q = Some log"
proof (induction n arbitrary: q)
  case 0
  then show ?case by (cases q) (auto simp: all_weight_def split: if_splits)
next
  case (Suc n)
  show ?case
  proof (cases q)
    case (Cons k q')
    let ?q = "enqueue_all (all_key_handle keyf store k) q'"
    have "all_weight ?q \<le> n"
      using Suc.prems Cons AllKey_name
      by (auto simp: all_key_handle_eq[OF assms] all_weight_def enqueue_all_def split: if_splits)
    from Suc.IH[OF this] Cons show ?thesis by auto
  qed simp
qed

lemma all_weight_bound: "all_weight q \<le> 2 * length q"
  by (induction q) (auto simp: all_weight_def)

text \<open>C29: With \<open>TriggerAllKey\<close> on a controller's own objects, the queue comes to rest within two steps
  for each key that waits, and every change is followed by a run for all.\<close>

theorem all_key_settles:
  assumes "slash_keys keyf"
  shows "\<exists>log. drain (all_key_handle keyf store) (2 * length q) q = Some log \<and> set q \<subseteq> set log \<and>
    (\<forall>a k b. log = a @ k # b \<and> key_name k \<noteq> AllKey \<longrightarrow> AllKey \<in> set b)"
proof -
  from drain_all_key[OF assms all_weight_bound] obtain log where
    l: "drain (all_key_handle keyf store) (2 * length q) q = Some log" by blast
  have "AllKey \<in> set b" if "log = a @ k # b" "key_name k \<noteq> AllKey" for a k b
    using drain_follows[OF l that(1)] that(2) by (simp add: all_key_handle_eq[OF assms])
  with l drain_covers[OF l] show ?thesis by blast
qed

theorem all_key_settles_witness:
  "\<exists>log. drain (all_key_handle slashed (\<lambda>_. None)) 4 [''ns/a'', ''ns/b''] = Some log \<and> AllKey \<in> set log"
proof -
  have "key_name ''ns/a'' \<noteq> AllKey" by code_simp
  moreover from all_key_settles[OF slashed_keys, of "\<lambda>_. None" "[''ns/a'', ''ns/b'']"] obtain log where
    l: "drain (all_key_handle slashed (\<lambda>_. None)) 4 [''ns/a'', ''ns/b''] = Some log" "''ns/a'' \<in> set log"
      "\<forall>a k b. log = a @ k # b \<and> key_name k \<noteq> AllKey \<longrightarrow> AllKey \<in> set b" by auto
  moreover from l(2) obtain a b where "log = a @ ''ns/a'' # b" by (meson split_list)
  ultimately show ?thesis by auto
qed


subsection \<open>Owners\<close>

definition refers_to :: "string \<Rightarrow> string \<Rightarrow> ownerref \<Rightarrow> bool" where
  "refers_to apiVersion kind owner \<longleftrightarrow> or_kind owner = kind \<and> or_apiVersion owner = apiVersion"

lemma OwnerResolver_keys:
  "snd (runResolve (OwnerResolver namespaced apiVersion kind) ns name (Some obj)) =
    (case o_meta obj of None \<Rightarrow> [] | Some m \<Rightarrow>
      map (\<lambda>owner. NewKey (if namespaced then m_namespace m else '''') (or_name owner))
        (filter (\<lambda>owner. refers_to apiVersion kind owner \<and> or_name owner \<noteq> '''') (m_ownerReferences m)))"
proof -
  have "filter (\<lambda>key. rk_Name key \<noteq> '''') (List.map_filter (\<lambda>owner.
      if or_kind owner = kind \<and> or_apiVersion owner = apiVersion then Some (NewKey nsx (or_name owner)) else None) os) =
    map (\<lambda>owner. NewKey nsx (or_name owner)) (filter (\<lambda>owner. refers_to apiVersion kind owner \<and> or_name owner \<noteq> '''') os)"
    for nsx os by (induction os) (auto simp: refers_to_def NewKey_def List.map_filter_simps)
  then show ?thesis by (simp add: runResolve_def OwnerResolver_def Accessor_def split: option.split)
qed

text \<open>The keys of the owners do not depend on the key under which the change came, so that a change
  and a deletion that the informer saw queue the same ones.\<close>

lemma owners_on_change_and_deletion:
  "snd (on_sync (OwnerResolver namespaced apiVersion kind) key (Some obj))
    = on_delete (OwnerResolver namespaced apiVersion kind) (Deleted obj)"
  by (simp add: on_sync_def on_delete_def OwnerResolver_keys Accessor_def case_prod_beta split: option.split)

text \<open>A deletion that the informer missed is lost: no owner is queued, although the last state of the
  object is at hand.\<close>

definition owned_pod :: robj where
  "owned_pod = \<lparr>o_gvk = mk_gvk '''' ''v1'' ''Pod'',
     o_meta = Some (empty_objmeta\<lparr>m_namespace := ''ns'', m_name := ''pod'', m_ownerReferences :=
       [\<lparr>or_apiVersion = ''v1'', or_kind = ''App'', or_name = ''app'', or_uid = '''', or_controller = None, or_block = None\<rparr>]\<rparr>),
     o_body = []\<rparr>"

lemma missed_deletion_lost:
  "on_delete (OwnerResolver True ''v1'' ''App'') (Deleted owned_pod) = [NewKey ''ns'' ''app'']"
  "on_delete (OwnerResolver True ''v1'' ''App'') (DeletedFinalStateUnknown ''ns/pod'' owned_pod) = []"
  by code_simp+

subsection \<open>Services whose secret changed\<close>

text \<open>\<open>Register\<close> of \<open>pkg/needacert\<close> watches the secrets with \<open>resolveServiceFromSecret\<close>;
  \<open>isSecret\<close> is its type assertion.\<close>

definition secret_resolver :: "'w capi \<Rightarrow> 'w \<Rightarrow> (robj \<Rightarrow> bool) \<Rightarrow> resolver" where
  "secret_resolver A w isSecret namespace name obj =
     map_sum id (map (\<lambda>(ns, n). NewKey ns n))
       (resolveServiceFromSecret A w namespace name (case obj of None \<Rightarrow> False | Some ob \<Rightarrow> isSecret ob))"

text \<open>What the index function \<open>serviceSecret\<close> makes of a cache.\<close>

definition indexed_by_secret :: "service list \<Rightarrow> string \<Rightarrow> service list" where
  "indexed_by_secret services k = filter (\<lambda>s. k \<in> set (serviceSecret s)) services"

definition asks_for :: "string \<Rightarrow> string \<Rightarrow> service \<Rightarrow> bool" where
  "asks_for ns name s \<longleftrightarrow>
     m_namespace (svc_meta s) = ns \<and> smap_get (m_annotations (svc_meta s)) SecretAnnotation = name"

lemma serviceSecret_key:
  assumes "name \<noteq> ''''" "CHR ''/'' \<notin> set ns" "CHR ''/'' \<notin> set (m_namespace (svc_meta s))"
  shows "ns @ ''/'' @ name \<in> set (serviceSecret s) \<longleftrightarrow> asks_for ns name s"
  using assms first_sep_unique[of "CHR ''/''" ns "m_namespace (svc_meta s)"]
  by (auto simp: serviceSecret_def asks_for_def Let_def)

text \<open>C28: When a secret changes, exactly the services of its namespace are queued whose annotation asks
  for it. The cache answers with what its index function gives.\<close>

theorem secret_requeues_services:
  assumes index: "ca_bySecret A w = (\<lambda>k. Inr (indexed_by_secret services k))"
    and key: "key = ns @ ''/'' @ name" "TrimSpace ns = ns" "TrimSpace name = name" "CHR ''/'' \<notin> set ns" "name \<noteq> ''''"
    and cached: "list_all (\<lambda>s. CHR ''/'' \<notin> set (m_namespace (svc_meta s)) \<and> m_name (svc_meta s) \<noteq> '''') services"
    and secret: "isSecret ob"
  shows "w_sync (watch id (secret_resolver A w isSecret)) key (Some ob) =
    ((Some ob, None), map (\<lambda>s. NewKey ns (m_name (svc_meta s))) (filter (asks_for ns name) services))"
proof -
  have i: "indexed_by_secret services key = filter (asks_for ns name) services"
    unfolding indexed_by_secret_def key(1)
    by (rule filter_cong[OF refl]) (use key cached serviceSecret_key in \<open>auto simp: list_all_iff\<close>)
  have s: "kv_RSplit key ''/'' = (ns, name)"
    using kv_RSplit_found[OF key(4), of "[]" name] key(1-3) by simp
  have "filter (\<lambda>k. rk_Name k \<noteq> '''') (map (\<lambda>s. NewKey (m_namespace (svc_meta s)) (m_name (svc_meta s)))
      (filter (asks_for ns name) services)) = map (\<lambda>s. NewKey ns (m_name (svc_meta s))) (filter (asks_for ns name) services)"
    using cached by (induction services) (auto simp: asks_for_def NewKey_def)
  then show ?thesis
    using secret index i s by (simp add: key(1) watch_def on_sync_def runResolve_def secret_resolver_def
        resolveServiceFromSecret_def comp_def case_prod_beta)
qed

definition app_service :: "string \<Rightarrow> string \<Rightarrow> service" where
  "app_service name secretName = \<lparr>svc_gvk = mk_gvk '''' ''v1'' ''Service'',
     svc_meta = empty_objmeta\<lparr>m_namespace := ''ns'', m_name := name, m_annotations := Some [(SecretAnnotation, secretName)]\<rparr>\<rparr>"

definition services0 :: "service list" where
  "services0 = [app_service ''a'' ''tls'', app_service ''b'' ''other'', app_service ''c'' ''tls'']"

theorem secret_requeues_services_witness:
  "w_sync (watch id (secret_resolver (undefined\<lparr>ca_bySecret := \<lambda>w k. Inr (indexed_by_secret services0 k)\<rparr>) () (\<lambda>_. True)))
     ''ns/tls'' (Some owned_pod) = ((Some owned_pod, None), [NewKey ''ns'' ''a'', NewKey ''ns'' ''c''])"
proof -
  have "TrimSpace ''ns'' = ''ns''" "TrimSpace ''tls'' = ''tls''" by code_simp+
  moreover have "list_all (\<lambda>s. CHR ''/'' \<notin> set (m_namespace (svc_meta s)) \<and> m_name (svc_meta s) \<noteq> '''') services0"
    by code_simp
  moreover have "filter (asks_for ''ns'' ''tls'') services0 = [app_service ''a'' ''tls'', app_service ''c'' ''tls'']"
    by code_simp
  ultimately show ?thesis
    using secret_requeues_services[of "undefined\<lparr>ca_bySecret := \<lambda>w k. Inr (indexed_by_secret services0 k)\<rparr>" "()" services0
        "''ns/tls''" "''ns''" "''tls''" "\<lambda>_. True" owned_pod]
    by (simp add: app_service_def)
qed

end
