(* ===== verification/Apply_Reconcilers.thy ===== *)
theory Apply_Reconcilers
  imports Apply_Owner
begin

section \<open>apply: the default reconcilers\<close>

text \<open>
  \<open>pkg/apply/reconcilers.go\<close>: for five kinds with fields that cannot change, the reconcilers compare
  what was applied last with the desired object and ask for a replacement. A reconciler of an apply
  is a number whose answers are a field of \<open>env\<close>; \<open>default_reconcilers\<close> are the numbers of the
  five, and \<open>answers_by_default\<close> says that the surroundings answer with the functions of this theory.

  The Go type of a kind is \<open>gotype\<close>: the type assertion, \<open>json.Unmarshal\<close> into a new value, the field
  that is read and its comparison by \<open>equality.Semantic.DeepEqual\<close>.
\<close>

subsection \<open>Typed objects\<close>

record 'f gotype =
  gt_is :: "robj \<Rightarrow> bool"
  gt_Unmarshal :: "string \<Rightarrow> robj result"
  gt_field :: "robj \<Rightarrow> 'f"
  gt_same :: "'f \<Rightarrow> 'f \<Rightarrow> bool"

record ('s, 't) gotypes =
  go_unstructured :: "robj \<Rightarrow> bool"
  go_TypeOf :: "robj \<Rightarrow> string"
  go_DaemonSet :: "'s gotype"
  go_Deployment :: "'s gotype"
  go_Secret :: "string gotype"
  go_Service :: "string gotype"
  go_Job :: "'t gotype"

definition convertObj :: "env \<Rightarrow> ('s, 't) gotypes \<Rightarrow> robj option \<Rightarrow> 'f gotype \<Rightarrow> robj result" where
  "convertObj env G src obj =
     (case src of
        None \<Rightarrow> Inl (Err ''expected unstructured but got <nil>'')
      | Some src \<Rightarrow>
          if \<not> go_unstructured G src then Inl (Err (''expected unstructured but got '' @ go_TypeOf G src))
          else case e_marshalObj env src of
            Inl err \<Rightarrow> Inl err
          | Inr bytes \<Rightarrow> gt_Unmarshal obj bytes)"

definition as_type :: "env \<Rightarrow> ('s, 't) gotypes \<Rightarrow> 'f gotype \<Rightarrow> robj \<Rightarrow> robj result" where
  "as_type env G T obj = (if gt_is T obj then Inr obj else convertObj env G (Some obj) T)"

subsection \<open>The reconcilers\<close>

definition reconcileDaemonSet :: "env \<Rightarrow> ('s, 't) gotypes \<Rightarrow> robj \<Rightarrow> robj \<Rightarrow> bool result" where
  "reconcileDaemonSet env G oldObj newObj =
     (let T = go_DaemonSet G in
      case as_type env G T oldObj of
        Inl err \<Rightarrow> Inl err
      | Inr oldSvc \<Rightarrow>
          (case as_type env G T newObj of
             Inl err \<Rightarrow> Inl err
           | Inr newSvc \<Rightarrow>
               if \<not> gt_same T (gt_field T oldSvc) (gt_field T newSvc) then Inl ErrReplace else Inr False))"

definition reconcileDeployment :: "env \<Rightarrow> ('s, 't) gotypes \<Rightarrow> robj \<Rightarrow> robj \<Rightarrow> bool result" where
  "reconcileDeployment env G oldObj newObj =
     (let T = go_Deployment G in
      case as_type env G T oldObj of
        Inl err \<Rightarrow> Inl err
      | Inr oldSvc \<Rightarrow>
          (case as_type env G T newObj of
             Inl err \<Rightarrow> Inl err
           | Inr newSvc \<Rightarrow>
               if \<not> gt_same T (gt_field T oldSvc) (gt_field T newSvc) then Inl ErrReplace else Inr False))"

text \<open>The type of a secret, and that of a service: an empty type asks for nothing.\<close>

definition reconcileSecret :: "env \<Rightarrow> ('s, 't) gotypes \<Rightarrow> robj \<Rightarrow> robj \<Rightarrow> bool result" where
  "reconcileSecret env G oldObj newObj =
     (let T = go_Secret G in
      case as_type env G T oldObj of
        Inl err \<Rightarrow> Inl err
      | Inr oldSvc \<Rightarrow>
          (case as_type env G T newObj of
             Inl err \<Rightarrow> Inl err
           | Inr newSvc \<Rightarrow>
               if gt_field T newSvc \<noteq> '''' \<and> gt_field T oldSvc \<noteq> gt_field T newSvc
               then Inl ErrReplace else Inr False))"

definition reconcileService :: "env \<Rightarrow> ('s, 't) gotypes \<Rightarrow> robj \<Rightarrow> robj \<Rightarrow> bool result" where
  "reconcileService env G oldObj newObj =
     (let T = go_Service G in
      case as_type env G T oldObj of
        Inl err \<Rightarrow> Inl err
      | Inr oldSvc \<Rightarrow>
          (case as_type env G T newObj of
             Inl err \<Rightarrow> Inl err
           | Inr newSvc \<Rightarrow>
               if gt_field T newSvc \<noteq> '''' \<and> gt_field T oldSvc \<noteq> gt_field T newSvc
               then Inl ErrReplace else Inr False))"

text \<open>A job is compared with what its own applied annotation gives back, because the annotation cuts
  long values. A typed object always has metadata, if only the zero value.\<close>

definition meta_of :: "robj \<Rightarrow> objmeta" where
  "meta_of obj = (case o_meta obj of None \<Rightarrow> meta0 '''' '''' | Some m \<Rightarrow> m)"

definition reconcileJob :: "env \<Rightarrow> ('s, 't) gotypes \<Rightarrow> robj \<Rightarrow> robj \<Rightarrow> bool result" where
  "reconcileJob env G oldObj newObj =
     (let T = go_Job G in
      case as_type env G T oldObj of
        Inl err \<Rightarrow> Inl err
      | Inr oldJob \<Rightarrow>
     (case as_type env G T newObj of
        Inl err \<Rightarrow> Inl err
      | Inr newJob \<Rightarrow>
     (case getOriginalObject env (o_gvk newJob) (meta_of newJob) of
        Inl err \<Rightarrow> Inl err
      | Inr prunedJob \<Rightarrow>
     (case convertObj env G prunedJob T of
        Inl err \<Rightarrow> Inl err
      | Inr newPrunedJob \<Rightarrow>
          if \<not> gt_same T (gt_field T oldJob) (gt_field T newPrunedJob) then Inl ErrReplace else Inr False))))"

definition default_reconcilers :: "(gvk \<times> nat) list" where
  "default_reconcilers =
     [(mk_gvk '''' ''v1'' ''Secret'', 0), (mk_gvk '''' ''v1'' ''Service'', 1),
      (mk_gvk ''batch'' ''v1'' ''Job'', 2), (mk_gvk ''apps'' ''v1'' ''Deployment'', 3),
      (mk_gvk ''apps'' ''v1'' ''DaemonSet'', 4)]"

definition default_reconciler :: "env \<Rightarrow> ('s, 't) gotypes \<Rightarrow> nat \<Rightarrow> robj \<Rightarrow> robj \<Rightarrow> bool result" where
  "default_reconciler env G n =
     [reconcileSecret env G, reconcileService env G, reconcileJob env G, reconcileDeployment env G,
      reconcileDaemonSet env G] ! n"

definition answers_by_default :: "env \<Rightarrow> ('s, 't) gotypes \<Rightarrow> bool" where
  "answers_by_default env G \<longleftrightarrow> (\<forall>cs n oldObj newObj. n < 5 \<longrightarrow>
     a_reconcile env (cs @ [CReconcile n oldObj newObj]) = default_reconciler env G n oldObj newObj)"


subsection \<open>apply.go: the methods of an apply\<close>

text \<open>An apply is its informers and which of them are indexed; each method works on a new desired set.\<close>

record applier =
  ap_informers :: "(gvk \<times> nat option) list"
  ap_indexed :: "nat list"

definition apply_New :: "(gvk \<times> nat) list \<Rightarrow> applier" where
  "apply_New igs = \<lparr>ap_informers = fold (\<lambda>(gvk, i) m. AList.update gvk (Some i) m) igs [], ap_indexed = []\<rparr>"

definition apply_newDesiredSet :: "applier \<Rightarrow> desiredset" where
  "apply_newDesiredSet a = newDesiredSet (ap_informers a) default_reconcilers (ap_indexed a)"

text \<open>\<open>WithSetID\<close> to \<open>WithIgnorePreviousApplied\<close>, each with the option of its name.\<close>

definition apply_With :: "applier \<Rightarrow> (desiredset \<Rightarrow> desiredset) \<Rightarrow> desiredset" where
  "apply_With a opt = opt (apply_newDesiredSet a)"

definition apply_DryRun :: "env \<Rightarrow> applier \<Rightarrow> robj option list \<Rightarrow> st \<Rightarrow> plan \<times> goerr option \<times> st" where
  "apply_DryRun env a objs s = ds_DryRun env (apply_newDesiredSet a) objs s"

definition apply_Apply :: "env \<Rightarrow> applier \<Rightarrow> objectset option \<Rightarrow> st \<Rightarrow> goerr option \<times> st" where
  "apply_Apply env a os s = ds_Apply env (apply_newDesiredSet a) os s"

definition apply_ApplyObjects :: "env \<Rightarrow> applier \<Rightarrow> robj option list \<Rightarrow> st \<Rightarrow> goerr option \<times> st" where
  "apply_ApplyObjects env a objs s = ds_Apply env (apply_newDesiredSet a) (Some (os_Add (e_kinds env) objs os_new)) s"

definition apply_FindOwner :: "env \<Rightarrow> applier \<Rightarrow> robj option \<Rightarrow> st \<Rightarrow> robj result \<times> st" where
  "apply_FindOwner env a obj s = FindOwner env (apply_newDesiredSet a) obj s"

definition apply_PurgeOrphan :: "env \<Rightarrow> applier \<Rightarrow> robj option \<Rightarrow> st \<Rightarrow> goerr option \<times> st" where
  "apply_PurgeOrphan env a obj s = PurgeOrphan env (apply_newDesiredSet a) obj s"

lemma apply_reconciles: "ds_reconcilers (apply_newDesiredSet a) = default_reconcilers"
  by (simp add: apply_newDesiredSet_def newDesiredSet_def)

subsection \<open>What cannot change\<close>

text \<open>The two objects are read as the type, and the field is the same.\<close>

definition keeps_selector :: "env \<Rightarrow> ('s, 't) gotypes \<Rightarrow> 's gotype \<Rightarrow> robj \<Rightarrow> robj \<Rightarrow> bool" where
  "keeps_selector env G T oldObj newObj \<longleftrightarrow>
     (\<exists>a b. as_type env G T oldObj = Inr a \<and> as_type env G T newObj = Inr b \<and> gt_same T (gt_field T a) (gt_field T b))"

definition keeps_objtype :: "env \<Rightarrow> ('s, 't) gotypes \<Rightarrow> string gotype \<Rightarrow> robj \<Rightarrow> robj \<Rightarrow> bool" where
  "keeps_objtype env G T oldObj newObj \<longleftrightarrow>
     (\<exists>a b. as_type env G T oldObj = Inr a \<and> as_type env G T newObj = Inr b \<and>
        (gt_field T b = '''' \<or> gt_field T a = gt_field T b))"

definition keeps_template :: "env \<Rightarrow> ('s, 't) gotypes \<Rightarrow> 't gotype \<Rightarrow> robj \<Rightarrow> robj \<Rightarrow> bool" where
  "keeps_template env G T oldObj newObj \<longleftrightarrow>
     (\<exists>a b c d. as_type env G T oldObj = Inr a \<and> as_type env G T newObj = Inr b \<and>
        getOriginalObject env (o_gvk b) (meta_of b) = Inr (Some c) \<and> convertObj env G (Some c) T = Inr d \<and>
        gt_same T (gt_field T a) (gt_field T d))"

definition keeps :: "env \<Rightarrow> ('s, 't) gotypes \<Rightarrow> string \<Rightarrow> robj \<Rightarrow> robj \<Rightarrow> bool" where
  "keeps env G kind =
     (if kind = ''Secret'' then keeps_objtype env G (go_Secret G)
      else if kind = ''Service'' then keeps_objtype env G (go_Service G)
      else if kind = ''Job'' then keeps_template env G (go_Job G)
      else if kind = ''Deployment'' then keeps_selector env G (go_Deployment G)
      else keeps_selector env G (go_DaemonSet G))"

lemmas reconcile_defs = reconcileSecret_def reconcileService_def reconcileJob_def reconcileDeployment_def
  reconcileDaemonSet_def

lemma reconcilers_keep:
  "reconcileSecret env G a b = Inr h \<Longrightarrow> \<not> h \<and> keeps_objtype env G (go_Secret G) a b"
  "reconcileService env G a b = Inr h \<Longrightarrow> \<not> h \<and> keeps_objtype env G (go_Service G) a b"
  "reconcileDeployment env G a b = Inr h \<Longrightarrow> \<not> h \<and> keeps_selector env G (go_Deployment G) a b"
  "reconcileDaemonSet env G a b = Inr h \<Longrightarrow> \<not> h \<and> keeps_selector env G (go_DaemonSet G) a b"
  by (auto simp: reconcile_defs Let_def keeps_objtype_def keeps_selector_def split: sum.splits if_splits)

lemma reconcileJob_keeps:
  "reconcileJob env G a b = Inr h \<Longrightarrow> \<not> h \<and> keeps_template env G (go_Job G) a b"
proof -
  assume j: "reconcileJob env G a b = Inr h"
  have "convertObj env G None (go_Job G) \<noteq> Inr d" for d by (simp add: convertObj_def)
  with j show ?thesis
    by (auto simp: reconcileJob_def Let_def keeps_template_def not_None_eq split: sum.splits if_splits)
      (metis option.exhaust)+
qed

lemma default_keeps:
  assumes "map_of default_reconcilers gvk = Some r" "default_reconciler env G r a b = Inr h"
  shows "r < 5" "\<not> h" "keeps env G (g_kind gvk) a b"
  using assms reconcilers_keep[of env G a b h] reconcileJob_keeps[of env G a b h]
  by (auto simp: default_reconcilers_def default_reconciler_def keeps_def mk_gvk_def split: if_splits)

lemma default_number: "map_of default_reconcilers gvk = Some r \<Longrightarrow> r < 5"
  by (auto simp: default_reconcilers_def split: if_splits)

subsection \<open>Every patch is behind a check\<close>

fun is_patch :: "call \<Rightarrow> bool" where
  "is_patch (CPatch _ _ _ _ _) = True" | "is_patch (CUserPatch _ _ _ _ _) = True" | "is_patch _ = False"

definition checked_calls :: "(robj \<Rightarrow> robj \<Rightarrow> bool) \<Rightarrow> call list \<Rightarrow> bool" where
  "checked_calls K cs \<longleftrightarrow> (\<forall>a c b. cs = a @ c # b \<and> is_patch c \<longrightarrow>
     (\<exists>a' r x y. a = a' @ [CReconcile r x y] \<and> K x y))"

lemma checked_nopatch: "list_all (\<lambda>c. \<not> is_patch c) cs \<Longrightarrow> checked_calls K cs"
  by (auto simp: checked_calls_def)

lemma checked_append:
  assumes "checked_calls K cs" "checked_calls K ds"
  shows "checked_calls K (cs @ ds)"
  unfolding checked_calls_def
proof (intro allI impI, elim conjE)
  fix a c b
  assume e: "cs @ ds = a @ c # b" and p: "is_patch c"
  from append_split[OF e] show "\<exists>a' r x y. a = a' @ [CReconcile r x y] \<and> K x y"
  proof (elim disjE exE conjE)
    fix b'
    assume "cs = a @ c # b'"
    with assms(1) p show ?thesis unfolding checked_calls_def by blast
  next
    fix a'
    assume a: "a = cs @ a'" "ds = a' @ c # b"
    with assms(2) p obtain a2 r x y where "a' = a2 @ [CReconcile r x y]" "K x y" unfolding checked_calls_def by blast
    with a(1) have "a = (cs @ a2) @ [CReconcile r x y] \<and> K x y" by simp
    then show ?thesis by blast
  qed
qed

lemma checked_pair: "K x y \<Longrightarrow> length cs \<le> 1 \<Longrightarrow> checked_calls K (CReconcile r x y # cs)"
  by (cases cs) (auto simp: checked_calls_def Cons_eq_append_conv)

definition guards :: "(robj \<Rightarrow> robj \<Rightarrow> bool) \<Rightarrow> st \<Rightarrow> st \<Rightarrow> bool" where
  "guards K s s' \<longleftrightarrow> (\<exists>cs. s_calls s' = s_calls s @ cs \<and> checked_calls K cs)"

lemma guards_trans: "guards K s s1 \<Longrightarrow> guards K s1 s2 \<Longrightarrow> guards K s s2"
  unfolding guards_def using checked_append by fastforce

lemma guards_emits: "emits P s s' \<Longrightarrow> (\<And>c. P c \<Longrightarrow> \<not> is_patch c) \<Longrightarrow> guards K s s'"
  unfolding emits_def guards_def using checked_nopatch by (metis (mono_tags, lifting) list_all_iff)

lemma guards_same: "s_calls s' = s_calls s \<Longrightarrow> guards K s s'"
  by (rule guards_emits[OF emits_same_calls[where P = "\<lambda>_. False"]]) auto

lemma guards_fold: "(\<And>x s. x \<in> set xs \<Longrightarrow> guards K s (f x s)) \<Longrightarrow> guards K s (fold f xs s)"
proof (induction xs arbitrary: s)
  case (Cons x xs)
  then show ?case by (auto intro: guards_trans)
qed (simp add: guards_same)

lemma run_patcher_calls:
  "\<exists>cs. s_calls (snd (run_patcher env p ns name pt data s)) = s_calls s @ cs \<and> length cs \<le> 1"
  by (cases p) (auto simp: run_patcher_def Let_def split: sum.split)

lemma send_patch_calls:
  "\<exists>cs. s_calls (snd (send_patch env p m pt patch s)) = s_calls s @ cs \<and> length cs \<le> 1"
  using run_patcher_calls[of env p "m_namespace m" "m_name m" pt patch s]
  by (auto simp: send_patch_def split: prod.splits option.splits)

lemma applyPatch_guards:
  assumes conf: "answers_by_default env G" and r: "map_of default_reconcilers gvk = Some r"
  shows "guards (keeps env G (g_kind gvk)) s (snd (applyPatch env gvk (Some r) p ign old new diffs s))"
proof -
  let ?K = "keeps env G (g_kind gvk)"
  have rec: "guards ?K s (snd (case run_reconciler env r a b s of
      (Inl e, s) \<Rightarrow> (Inl e, s)
    | (Inr handled, s) \<Rightarrow> if handled then (Inr True, s) else send_patch env p m pt data s))" for a b m pt data
  proof (cases "default_reconciler env G r a b")
    case (Inl e)
    then show ?thesis
      using conf default_number[OF r]
      by (auto simp: run_reconciler_def Let_def answers_by_default_def intro!: guards_emits[OF emits_api[where P = "\<lambda>c. \<not> is_patch c"]])
  next
    case (Inr h)
    let ?s = "api (CReconcile r a b) s"
    obtain cs where cs: "s_calls (snd (send_patch env p m pt data ?s)) = s_calls ?s @ cs" "length cs \<le> 1"
      using send_patch_calls by blast
    from Inr conf default_number[OF r] default_keeps(2)[OF r Inr]
    have "run_reconciler env r a b s = (Inr False, ?s)"
      by (simp add: run_reconciler_def Let_def answers_by_default_def)
    then show ?thesis
      using cs checked_pair[of ?K a b cs r, OF default_keeps(3)[OF r Inr]] by (auto simp: guards_def)
  qed
  show ?thesis
    unfolding applyPatch_def by (auto simp: rec guards_same split: sum.split option.split)
qed


lemma compareObjects_guards:
  assumes "answers_by_default env G" "map_of default_reconcilers gvk = Some r"
  shows "guards (keeps env G (g_kind gvk)) s (snd (compareObjects env ds gvk (Some r) p old new s))"
proof -
  have k: "snd (case q of (Inl e, s) \<Rightarrow> (Some e, s) | (Inr x, s) \<Rightarrow> (None, s)) = snd q" for q :: "bool result \<times> st"
    by (cases q; cases "fst q") auto
  have "guards (keeps env G (g_kind gvk)) s (s\<lparr>s_plan := x\<rparr>)" for x by (rule guards_same) simp
  note g = guards_trans[OF this applyPatch_guards[OF assms]] applyPatch_guards[OF assms]
  show ?thesis unfolding compareObjects_def Let_def by (auto split: sum.split simp: k g guards_same)
qed

lemma deleteF_guards: "guards K s (deleteF env ds nsed client gvk force k s)"
  by (rule guards_emits[where P = "\<lambda>c. \<not> is_patch c"]) (auto simp: emits_def deleteF_calls delete_call_def)

lemma updateF_guards:
  assumes "answers_by_default env G" "map_of default_reconcilers gvk = Some r"
  shows "guards (keeps env G (g_kind gvk)) s (updateF env ds nsed client gvk (Some r) p existing objs k s)"
proof -
  let ?K = "keeps env G (g_kind gvk)"
  obtain err s1 where c: "compareObjects env ds gvk (Some r) p (the (map_of existing k)) (the (map_of objs k)) s
      = (err, s1)" by fastforce
  have 1: "guards ?K s s1"
    using compareObjects_guards[OF assms, of s ds p "the (map_of existing k)" "the (map_of objs k)"] c by simp
  have a: "guards ?K s' (add_err e s')" for e s' by (rule guards_same) simp
  have 2: "guards ?K s1 (add_err e (deleteF env ds nsed client gvk True k s1))" for e
    by (rule guards_trans[OF deleteF_guards a])
  show ?thesis
    using 1 guards_trans[OF 1 a] guards_trans[OF 1 2] by (auto simp: updateF_def c split: option.split)
qed

lemma create_step_nopatch: "create_step env nsed client gvk objs k c \<Longrightarrow> \<not> is_patch c"
  by (auto simp: create_step_def create_call_def split: sum.splits)

lemma process_guards:
  assumes "answers_by_default env G" "map_of default_reconcilers gvk = Some r"
    "map_of (ds_reconcilers ds) gvk = Some r" "\<not> ds_createPlan ds"
  shows "guards (keeps env G (g_kind gvk)) s (process env ds sel gvk objs s)"
proof -
  let ?K = "keeps env G (g_kind gvk)"
  obtain q s1 where o: "observe env ds sel gvk objs s = (q, s1)" by fastforce
  have 1: "guards ?K s s1"
    using observe_emits[of s env ds sel gvk objs] by (intro guards_emits[of is_read]) (auto simp: o elim: is_patch.elims)
  show ?thesis
  proof (cases q)
    case (Inl e)
    then show ?thesis using 1 by (simp add: process_def o guards_def)
  next
    case (Inr x)
    obtain nsed client objs' existing where x: "x = (nsed, client, objs', existing)" by (cases x)
    obtain cr de up where cmp: "compareSets existing objs' = (cr, de, up)" by (cases "compareSets existing objs'")
    define p where "p = (case map_of (ds_patchers ds) gvk of Some n \<Rightarrow> PUser n | None \<Rightarrow> PClient client)"
    obtain w s2 where f: "fold (createF env ds nsed client gvk objs') cr (\<lparr>w_toUpdate = up, w_existing = existing\<rparr>, s1)
      = (w, s2)" by fastforce
    let ?upd = "updateF env ds nsed client gvk (Some r) p (w_existing w) objs'"
    from fold_createF_calls[OF f] have
      e: "emits (\<lambda>c. \<exists>k \<in> set cr. create_step env nsed client gvk objs' k c) s1 s2" by blast
    have 2: "guards ?K s1 s2" by (rule guards_emits[OF e]) (auto dest: create_step_nopatch)
    have 3: "guards ?K s2 (fold ?upd (w_toUpdate w) s2)"
      by (rule guards_fold) (rule updateF_guards[OF assms(1,2)])
    have 4: "guards ?K s' (fold (deleteF env ds nsed client gvk False) ks s')" for ks s'
      by (rule guards_fold) (rule deleteF_guards)
    have "process env ds sel gvk objs s = fold (deleteF env ds nsed client gvk False)
        (filterCrossVersion ds gvk de) (fold ?upd (w_toUpdate w) s2)"
      by (simp add: process_def o Inr x cmp assms(3,4) run_work_def f p_def)
    with guards_trans[OF guards_trans[OF guards_trans[OF 1 2] 3] 4] show ?thesis by simp
  qed
qed

text \<open>C10: With the default reconcilers, each patch that apply sends for an object of the five kinds comes
  right after a reconciliation that found the immutable field unchanged.\<close>

theorem patches_keep_immutable:
  assumes "answers_by_default env G" "ds_reconcilers ds = default_reconcilers" "\<not> ds_createPlan ds"
    and kind: "gvk \<in> set (map fst default_reconcilers)"
    and calls: "new_calls s (process env ds sel gvk objs s) = a @ c # b" "is_patch c"
  shows "\<exists>a' r oldObj newObj. a = a' @ [CReconcile r oldObj newObj] \<and> keeps env G (g_kind gvk) oldObj newObj"
proof -
  from kind obtain r where r: "map_of default_reconcilers gvk = Some r"
    by (metis list.set_map map_of_eq_None_iff option.exhaust)
  with assms(2) have "map_of (ds_reconcilers ds) gvk = Some r" by simp
  from process_guards[OF assms(1) r this assms(3), of s sel objs] obtain cs where
    "s_calls (process env ds sel gvk objs s) = s_calls s @ cs" "checked_calls (keeps env G (g_kind gvk)) cs"
    unfolding guards_def by blast
  with calls show ?thesis by (auto simp: new_calls_def checked_calls_def)
qed

subsection \<open>Replacement\<close>

text \<open>When the field changed, the object is deleted, whatever is protected from deletion, and the
  run ends with an error, so that the object is made anew when apply is called again.\<close>

lemma changed_is_replaced:
  assumes "answers_by_default env G" "r < 5" "o_meta old = Some m" "map_of existing k = Some old" "map_of objs k = Some new"
    and no_plan: "\<not> ds_createPlan ds" and no_diff: "ds_diffPatches ds = []"
    and patch: "compute_patch env gvk (ds_ignorePreviousApplied ds) old new [] = Inr (m, Some (pt, patch))"
    and args: "reconciler_args env gvk m old new = Inr (x, y)"
    and changed: "default_reconciler env G r x y = Inl ErrReplace"
  shows "s_calls (updateF env ds nsed client gvk (Some r) p existing objs k s)
      = s_calls s @ [CReconcile r x y, delete_call client nsed k] \<and>
    last (s_errs (updateF env ds nsed client gvk (Some r) p existing objs k s))
      = Some (Err ''DesiredSet - Replace Wait'')"
proof -
  have "run_reconciler env r x y s = (Inl ErrReplace, api (CReconcile r x y) s)" for s
    using assms(1,2) changed by (simp add: run_reconciler_def Let_def answers_by_default_def)
  then have "compareObjects env ds gvk (Some r) p old new s = (Some ErrReplace, api (CReconcile r x y) s)"
    using assms(3) no_plan no_diff patch args by (simp add: compareObjects_def Accessor_def applyPatch_def)
  then show ?thesis using assms(4,5) by (simp add: updateF_def deleteF_calls) (simp add: add_err_def)
qed


subsection \<open>A concrete run\<close>

text \<open>A secret whose data changed, in a world whose objects are all of the Go types but jobs.\<close>

definition type_field :: "robj \<Rightarrow> string" where
  "type_field obj = (case map_of (o_body obj) ''type'' of Some (VStr t) \<Rightarrow> t | _ \<Rightarrow> '''')"

definition typed_as :: "bool \<Rightarrow> (robj \<Rightarrow> string) \<Rightarrow> string gotype" where
  "typed_as is f = \<lparr>gt_is = (\<lambda>_. is), gt_Unmarshal = (\<lambda>_. Inl (Err ''json'')), gt_field = f, gt_same = (=)\<rparr>"

definition types0 :: "(string, string) gotypes" where
  "types0 = \<lparr>go_unstructured = (\<lambda>_. False), go_TypeOf = (\<lambda>_. ''*v1.Job''),
     go_DaemonSet = typed_as True type_field, go_Deployment = typed_as True type_field,
     go_Secret = typed_as True type_field, go_Service = typed_as True type_field, go_Job = typed_as False type_field\<rparr>"

definition secret_gvk :: gvk where
  "secret_gvk = mk_gvk '''' ''v1'' ''Secret''"

definition secret_obj :: "string \<Rightarrow> robj" where
  "secret_obj d = \<lparr>o_gvk = secret_gvk, o_meta = Some (meta0 ''ns'' ''a''),
     o_body = [(''type'', VStr ''Opaque''), (''data'', VStr d)]\<rparr>"

definition env_secrets :: env where
  "env_secrets = env0\<lparr>a_discover := (\<lambda>_. Inr [\<lparr>ar_name = ''secrets'', ar_kind = ''Secret'', ar_namespaced = True\<rparr>]),
     a_list := (\<lambda>_. Inr [secret_obj ''old'']), e_jsonmerge := (\<lambda>_ _ _. Inr ''{data}''),
     e_marshal := (\<lambda>_. Inr ''{}''), e_unmarshal := (\<lambda>_. Inr [(''data'', VStr ''new'')])\<rparr>"

definition env_default :: env where
  "env_default = env_secrets\<lparr>a_reconcile := (\<lambda>cs. case last cs of
     CReconcile n oldObj newObj \<Rightarrow> default_reconciler env_secrets types0 n oldObj newObj | _ \<Rightarrow> Inr False)\<rparr>"

definition ds_default :: desiredset where
  "ds_default = WithSetID ''set'' (WithDynamicLookup (newDesiredSet [] default_reconcilers []))"

definition secret_calls :: "call list" where
  "secret_calls = new_calls st0 (process env_default (ds_default\<lparr>ds_listerNamespace := ''ns''\<rparr>) ''h'' secret_gvk
     [(ObjectKey ''a'' ''ns'', secret_obj ''new'')] st0)"

lemma default_answers: "answers_by_default env_default types0"
proof -
  have n: "n < 5 \<Longrightarrow> n \<in> {0, 1, 2, 3, 4}" for n :: nat by auto
  have "default_reconciler env_default types0 n = default_reconciler env_secrets types0 n" if "n < 5" for n
    using n[OF that] by (auto simp: default_reconciler_def reconcile_defs as_type_def convertObj_def types0_def typed_as_def fun_eq_iff)
  then show ?thesis by (simp add: answers_by_default_def) (simp add: env_default_def)
qed

lemma secret_calls_last: "length secret_calls = 4" "is_patch (secret_calls ! 3)"
  by code_simp+

theorem patches_keep_immutable_witness:
  "\<exists>r oldObj newObj. secret_calls ! 2 = CReconcile r oldObj newObj \<and> keeps env_default types0 ''Secret'' oldObj newObj"
proof -
  let ?ds = "ds_default\<lparr>ds_listerNamespace := ''ns''\<rparr>"
  have "secret_calls = take 3 secret_calls @ secret_calls ! 3 # drop 4 secret_calls"
    using id_take_nth_drop[of 3 secret_calls] secret_calls_last(1) by simp
  moreover have "ds_reconcilers ?ds = default_reconcilers" "\<not> ds_createPlan ?ds"
    by (simp_all add: ds_default_def WithSetID_def WithDynamicLookup_def newDesiredSet_def)
  moreover have "secret_gvk \<in> set (map fst default_reconcilers)"
    by (simp add: secret_gvk_def default_reconcilers_def)
  ultimately obtain a r x y where "take 3 secret_calls = a @ [CReconcile r x y]"
      "keeps env_default types0 (g_kind secret_gvk) x y"
    using patches_keep_immutable[OF default_answers _ _ _ _ secret_calls_last(2), of ?ds secret_gvk st0 "''h''"
        "[(ObjectKey ''a'' ''ns'', secret_obj ''new'')]" "take 3 secret_calls" "drop 4 secret_calls"]
    unfolding secret_calls_def by blast
  moreover from this(1) have "secret_calls ! 2 = CReconcile r x y"
  proof -
    assume a: "take 3 secret_calls = a @ [CReconcile r x y]"
    then have "length (take 3 secret_calls) = length a + 1" by simp
    then have "length a = 2" using secret_calls_last(1) by simp
    with a have "take 3 secret_calls ! 2 = CReconcile r x y" by (metis nth_append_length)
    then show ?thesis by simp
  qed
  ultimately show ?thesis by (auto simp: secret_gvk_def mk_gvk_def)
qed

end
