(* ===== verification/Patch.thy ===== *)
theory Patch
  imports Apply_Env
begin

section \<open>Patches: pkg/patch, pkg/gvk/detect.go, pkg/apply/injectors\<close>

text \<open>
  \<open>pkg/patch\<close> decides how a patch is applied, and remembers the decision for each kind in a map
  behind a lock; \<open>pkg/apply\<close> asks it through \<open>e_mergeStyle\<close>. JSON, the scheme and the libraries that
  apply patches are the fields of \<open>plib\<close>. Also here: the registry of injectors by name.
\<close>

subsection \<open>The style of a patch\<close>

record ('o, 'm) plib =
  pl_Partial :: "string \<Rightarrow> gvk result"
  pl_New :: "gvk \<Rightarrow> 'o result"
  pl_IsNotRegistered :: "goerr \<Rightarrow> bool"
  pl_NewPatchMeta :: "'o \<Rightarrow> 'm result"
  pl_Unmarshal :: "string \<Rightarrow> gomap result"
  pl_Marshal :: "gomap \<Rightarrow> string result"
  pl_StrategicMerge :: "gomap \<Rightarrow> gomap \<Rightarrow> 'm option \<Rightarrow> gomap result"
  pl_MergePatch :: "string \<Rightarrow> string \<Rightarrow> string result"
  pl_DecodePatch :: "string \<Rightarrow> (string \<Rightarrow> string result) result"

type_synonym 'm style = "patchtype \<times> 'm option"
type_synonym 'm patchcache = "(gvk \<times> 'm style) list"

definition Detect :: "('o, 'm) plib \<Rightarrow> string \<Rightarrow> (gvk \<times> bool) result" where
  "Detect L obj =
     (case pl_Partial L obj of
        Inl err \<Rightarrow> Inl err
      | Inr g \<Rightarrow> Inr (g, g_kind g \<noteq> '''' \<and> g_version g \<noteq> ''''))"

definition isJSONPatch :: "string \<Rightarrow> bool" where
  "isJSONPatch patch = (length patch > 0 \<and> patch ! 0 = CHR ''['')"

text \<open>What is worked out for a kind that the cache does not have, between the two locked sections.\<close>

definition work_out :: "('o, 'm) plib \<Rightarrow> gvk \<Rightarrow> 'm style result" where
  "work_out L gvk =
     (case pl_New L gvk of
        Inl err \<Rightarrow>
          if pl_IsNotRegistered L err \<or> g_kind gvk = ''CustomResourceDefinition'' then Inr (MergePatchType, None)
          else Inl err
      | Inr versionedObject \<Rightarrow>
          if g_kind gvk = ''CustomResourceDefinition'' then Inr (MergePatchType, None)
          else case pl_NewPatchMeta L versionedObject of
            Inl err \<Rightarrow> Inl err
          | Inr lookupPatchMeta \<Rightarrow> Inr (StrategicMergePatchType, Some lookupPatchMeta))"

definition GetMergeStyle :: "('o, 'm) plib \<Rightarrow> gvk \<Rightarrow> 'm patchcache \<Rightarrow> 'm style result \<times> 'm patchcache" where
  "GetMergeStyle L gvk patchCache =
     (case map_of patchCache gvk of
        Some entry \<Rightarrow> (Inr entry, patchCache)
      | None \<Rightarrow>
          (case work_out L gvk of
             Inl err \<Rightarrow> (Inl err, patchCache)
           | Inr entry \<Rightarrow> (Inr entry, AList.update gvk entry patchCache)))"

definition GetPatchStyle :: "('o, 'm) plib \<Rightarrow> string \<Rightarrow> string \<Rightarrow> 'm patchcache \<Rightarrow> 'm style result \<times> 'm patchcache" where
  "GetPatchStyle L original patch patchCache =
     (if isJSONPatch patch then (Inr (JSONPatchType, None), patchCache)
      else case Detect L original of
        Inl err \<Rightarrow> (Inl err, patchCache)
      | Inr (gvk, ok) \<Rightarrow>
          if \<not> ok then (Inr (MergePatchType, None), patchCache) else GetMergeStyle L gvk patchCache)"

subsection \<open>Applying a patch\<close>

definition applyStrategicMergePatch :: "('o, 'm) plib \<Rightarrow> string \<Rightarrow> string \<Rightarrow> 'm option \<Rightarrow> string result" where
  "applyStrategicMergePatch L original patch lookup =
     (case pl_Unmarshal L original of
        Inl err \<Rightarrow> Inl err
      | Inr originalMap \<Rightarrow>
          (case pl_Unmarshal L patch of
             Inl err \<Rightarrow> Inl err
           | Inr patchMap \<Rightarrow>
               (case pl_StrategicMerge L originalMap patchMap lookup of
                  Inl err \<Rightarrow> Inl err
                | Inr patchedMap \<Rightarrow> pl_Marshal L patchedMap)))"

definition applyMergePatch :: "('o, 'm) plib \<Rightarrow> string \<Rightarrow> string \<Rightarrow> string result" where
  "applyMergePatch L original patch = pl_MergePatch L original patch"

definition applyJSONPatch :: "('o, 'm) plib \<Rightarrow> string \<Rightarrow> string \<Rightarrow> string result" where
  "applyJSONPatch L original patch =
     (case pl_DecodePatch L patch of Inl err \<Rightarrow> Inl err | Inr jsonPatch \<Rightarrow> jsonPatch original)"

definition patch_Apply :: "('o, 'm) plib \<Rightarrow> string \<Rightarrow> string \<Rightarrow> 'm patchcache \<Rightarrow> string result \<times> 'm patchcache" where
  "patch_Apply L original patch patchCache =
     (case GetPatchStyle L original patch patchCache of
        (Inl err, patchCache) \<Rightarrow> (Inl err, patchCache)
      | (Inr (style, metadata), patchCache) \<Rightarrow>
          ((case style of
              JSONPatchType \<Rightarrow> applyJSONPatch L original patch
            | MergePatchType \<Rightarrow> applyMergePatch L original patch
            | StrategicMergePatchType \<Rightarrow> applyStrategicMergePatch L original patch metadata), patchCache))"

text \<open>A patch that is indented is not taken for a JSON patch.\<close>

lemma indented_json_patch:
  "isJSONPatch ''[]''" "\<not> isJSONPatch ('' '' @ ''[]'')"
  by (simp_all add: isJSONPatch_def)

subsection \<open>Calls that run at the same time\<close>

text \<open>\<open>GetMergeStyle\<close> takes the lock to look and again to store, so calls interleave between the two.
  A call is the kind it asks for and how far it is.\<close>

datatype 'm phase = Asked | Missed | Answered "'m style result"

inductive style_step :: "('o, 'm) plib \<Rightarrow> (gvk \<times> 'm phase) list \<times> 'm patchcache
    \<Rightarrow> (gvk \<times> 'm phase) list \<times> 'm patchcache \<Rightarrow> bool" for L where
  hit: "i < length ts \<Longrightarrow> ts ! i = (g, Asked) \<Longrightarrow> map_of c g = Some e \<Longrightarrow>
    style_step L (ts, c) (ts[i := (g, Answered (Inr e))], c)"
| miss: "i < length ts \<Longrightarrow> ts ! i = (g, Asked) \<Longrightarrow> map_of c g = None \<Longrightarrow>
    style_step L (ts, c) (ts[i := (g, Missed)], c)"
| store: "i < length ts \<Longrightarrow> ts ! i = (g, Missed) \<Longrightarrow> work_out L g = Inr e \<Longrightarrow>
    style_step L (ts, c) (ts[i := (g, Answered (Inr e))], AList.update g e c)"
| fail: "i < length ts \<Longrightarrow> ts ! i = (g, Missed) \<Longrightarrow> work_out L g = Inl err \<Longrightarrow>
    style_step L (ts, c) (ts[i := (g, Answered (Inl err))], c)"

definition cache_true :: "('o, 'm) plib \<Rightarrow> 'm patchcache \<Rightarrow> bool" where
  "cache_true L c \<longleftrightarrow> (\<forall>g e. map_of c g = Some e \<longrightarrow> work_out L g = Inr e)"

definition answers_true :: "('o, 'm) plib \<Rightarrow> (gvk \<times> 'm phase) list \<Rightarrow> bool" where
  "answers_true L ts \<longleftrightarrow> (\<forall>(g, p) \<in> set ts. \<forall>r. p = Answered r \<longrightarrow> r = work_out L g)"

lemma cache_true_update: "cache_true L c \<Longrightarrow> work_out L g = Inr e \<Longrightarrow> cache_true L (AList.update g e c)"
  by (simp add: cache_true_def update_conv)

lemma answers_true_update:
  "answers_true L ts \<Longrightarrow> (\<And>r. p = Answered r \<Longrightarrow> r = work_out L g) \<Longrightarrow> answers_true L (ts[i := (g, p)])"
  using set_update_subset_insert[of ts i "(g, p)"] by (fastforce simp: answers_true_def)

lemma style_step_true:
  "style_step L s s' \<Longrightarrow> cache_true L (snd s) \<and> answers_true L (fst s)
    \<Longrightarrow> cache_true L (snd s') \<and> answers_true L (fst s')"
proof (induction rule: style_step.induct)
  case (hit i ts g c e)
  then have "cache_true L c" by simp
  with hit(3) have "work_out L g = Inr e" unfolding cache_true_def by blast
  with hit show ?case by (auto intro: answers_true_update)
qed (auto intro: cache_true_update answers_true_update)

lemma style_steps_true:
  "(style_step L)\<^sup>*\<^sup>* s s' \<Longrightarrow> cache_true L (snd s) \<and> answers_true L (fst s)
    \<Longrightarrow> cache_true L (snd s') \<and> answers_true L (fst s')"
  by (induction rule: rtranclp_induct) (auto dest: style_step_true)

text \<open>C30: However the calls interleave, each that is answered has the answer that was worked out for its
  kind alone: the cache never mixes kinds up and remembers no failure.\<close>

theorem merge_style_cached:
  assumes "(style_step L)\<^sup>*\<^sup>* (map (\<lambda>g. (g, Asked)) gs, []) (ts, c)" "ts ! i = (g, Answered r)" "i < length ts"
  shows "r = work_out L g \<and> fst (GetMergeStyle L g c) = r"
proof -
  have "cache_true L []" "answers_true L (map (\<lambda>g. (g, Asked)) gs)"
    by (auto simp: cache_true_def answers_true_def)
  with style_steps_true[OF assms(1)] have c: "cache_true L c" and t: "answers_true L ts" by auto
  from t assms(2,3) have r: "r = work_out L g" by (auto simp: answers_true_def dest!: nth_mem)
  moreover have "fst (GetMergeStyle L g c) = work_out L g"
    using c by (auto simp: GetMergeStyle_def cache_true_def split: option.split sum.split)
  ultimately show ?thesis by simp
qed

definition plib0 :: "(gvk, string) plib" where
  "plib0 = \<lparr>pl_Partial = (\<lambda>_. Inr gvk_zero),
     pl_New = (\<lambda>g. if g_group g = ''apps'' then Inr g else Inl (NotFound (gvk_String g))),
     pl_IsNotRegistered = (\<lambda>e. True), pl_NewPatchMeta = (\<lambda>g. Inr (g_kind g)),
     pl_Unmarshal = (\<lambda>_. Inr []), pl_Marshal = (\<lambda>_. Inr ''{}''), pl_StrategicMerge = (\<lambda>a b m. Inr a),
     pl_MergePatch = (\<lambda>a b. Inr a), pl_DecodePatch = (\<lambda>_. Inr Inr)\<rparr>"

definition deployment :: gvk where
  "deployment = mk_gvk ''apps'' ''v1'' ''Deployment''"

text \<open>Two calls for one kind that both miss.\<close>

theorem merge_style_cached_witness:
  "\<exists>c. (style_step plib0)\<^sup>*\<^sup>* ([(deployment, Asked), (deployment, Asked)], [])
        ([(deployment, Missed), (deployment, Answered (Inr (StrategicMergePatchType, Some ''Deployment'')))], c) \<and>
     fst (GetMergeStyle plib0 deployment c) = Inr (StrategicMergePatchType, Some ''Deployment'')"
proof -
  let ?r = "(StrategicMergePatchType, Some ''Deployment'')"
  have w: "work_out plib0 deployment = Inr ?r" by code_simp
  have 1: "style_step plib0 ([(deployment, Asked), (deployment, Asked)], []) ([(deployment, Missed), (deployment, Asked)], [])"
    using style_step.miss[of 0 "[(deployment, Asked), (deployment, Asked)]" deployment "[]" plib0] by simp
  have 2: "style_step plib0 ([(deployment, Missed), (deployment, Asked)], []) ([(deployment, Missed), (deployment, Missed)], [])"
    using style_step.miss[of 1 "[(deployment, Missed), (deployment, Asked)]" deployment "[]" plib0] by simp
  have 3: "style_step plib0 ([(deployment, Missed), (deployment, Missed)], [])
      ([(deployment, Missed), (deployment, Answered (Inr ?r))], AList.update deployment ?r [])"
    using style_step.store[of 1 "[(deployment, Missed), (deployment, Missed)]" deployment plib0 ?r "[]"] w by simp
  note r = rtranclp.rtrancl_into_rtrancl[where r = "style_step plib0"]
  have "(style_step plib0)\<^sup>*\<^sup>* ([(deployment, Asked), (deployment, Asked)], [])
      ([(deployment, Missed), (deployment, Missed)], [])"
    by (rule r[OF _ 2], rule r[OF _ 1], rule rtranclp.rtrancl_refl)
  from this 3 have "(style_step plib0)\<^sup>*\<^sup>* ([(deployment, Asked), (deployment, Asked)], [])
      ([(deployment, Missed), (deployment, Answered (Inr ?r))], AList.update deployment ?r [])"
    by (rule r)
  then have "(style_step plib0)\<^sup>*\<^sup>* (map (\<lambda>g. (g, Asked)) [deployment, deployment], [])
      ([(deployment, Missed), (deployment, Answered (Inr ?r))], AList.update deployment ?r [])"
    unfolding list.map .
  from merge_style_cached[OF this, of 1 deployment "Inr ?r"] this show ?thesis by auto
qed

subsection \<open>Injectors by name\<close>

definition injectors_Register :: "string \<Rightarrow> 'i \<Rightarrow> (string \<times> 'i) list \<times> string list \<Rightarrow> (string \<times> 'i) list \<times> string list" where
  "injectors_Register name injector st =
     (case st of (injectors, ordered) \<Rightarrow>
        (AList.update name injector injectors,
         if map_of injectors name = None then ordered @ [name] else ordered))"

definition injectors_Get :: "string \<Rightarrow> (string \<times> 'i) list \<times> string list \<Rightarrow> 'i option" where
  "injectors_Get name st = map_of (fst st) name"

end
