(* ===== verification/Yaml_Export.thy ===== *)
theory Yaml_Export
  imports Objects
begin

section \<open>Exporting and reading YAML: pkg/yaml\<close>

text \<open>
  \<open>pkg/yaml/yaml.go\<close>. The codecs of \<open>k8s.io/apimachinery\<close> and \<open>sigs.k8s.io/yaml\<close>, the reader that
  cuts a stream into documents and the accessors of \<open>unstructured.Unstructured\<close> are the fields of
  \<open>ylib\<close>. A stream is the list of what the reader returns before the end of the file.

  The metadata that an export writes is a map whose values are strings and maps of strings; the
  latter are of another Go type than the maps of an unstructured object, so they have a type here.
\<close>

subsection \<open>What is exported\<close>

datatype mdval = MStr string | MStrMap "(string \<times> string) list"

record exported =
  x_metadata :: "(string \<times> mdval) list"
  x_rest :: gomap

datatype decoded = DObject gomap | DList "gomap list"

record ylib =
  yl_kinds :: "robj \<Rightarrow> gvk list result"
  yl_docs :: "string \<Rightarrow> string result list"
  yl_ToJSON :: "string \<Rightarrow> string result"
  yl_Unmarshal :: "string \<Rightarrow> gomap result"
  yl_Decode :: "string \<Rightarrow> decoded result"
  yl_EncodeToMap :: "robj \<Rightarrow> gomap result"
  yl_Marshal :: "exported \<Rightarrow> string result"
  yl_MarshalObj :: "robj \<Rightarrow> string result"
  yl_GetName :: "gomap \<Rightarrow> string"
  yl_GetGenerateName :: "gomap \<Rightarrow> string"
  yl_GetNamespace :: "gomap \<Rightarrow> string"
  yl_GetAnnotations :: "gomap \<Rightarrow> (string \<times> string) list"
  yl_GetLabels :: "gomap \<Rightarrow> (string \<times> string) list"

definition cleanPrefix :: "string list" where
  "cleanPrefix = [''kubectl.kubernetes.io/'']"

definition cleanContains :: "string list" where
  "cleanContains = [''cattle.io/'']"

definition cleanMap :: "(string \<times> string) list \<Rightarrow> (string \<times> string) list" where
  "cleanMap annoLabels = filter (\<lambda>(k, _). \<not> list_ex (\<lambda>prefix. HasPrefix k prefix) cleanPrefix) annoLabels"

definition CleanAnnotationsForExport :: "(string \<times> string) list \<Rightarrow> (string \<times> string) list" where
  "CleanAnnotationsForExport annotations =
     filter (\<lambda>(k, _). \<not> list_ex (\<lambda>prefix. HasPrefix k prefix) cleanPrefix
        \<and> \<not> list_ex (\<lambda>contains. Contains k contains) cleanContains) annotations"

text \<open>A map of strings under its key, when something is left of it.\<close>

definition put_clean :: "string \<Rightarrow> (string \<times> string) list \<Rightarrow> (string \<times> mdval) list \<Rightarrow> (string \<times> mdval) list" where
  "put_clean key m metadata =
     (if length m > 0 then
        (let m = cleanMap m in
         if length m > 0 then AList.update key (MStrMap m) metadata else AList.delete key metadata)
      else metadata)"

definition clean_metadata :: "ylib \<Rightarrow> gomap \<Rightarrow> (string \<times> mdval) list result" where
  "clean_metadata L data =
     (if length (yl_GetName L data) > 0 then Inr [(''name'', MStr (yl_GetName L data))]
      else if length (yl_GetGenerateName L data) > 0 then Inr [(''generateName'', MStr (yl_GetGenerateName L data))]
      else Inl (Err ''either name or generateName must be set on obj''))"

definition without_empty_spec :: "gomap \<Rightarrow> gomap" where
  "without_empty_spec data =
     (case map_of data ''spec'' of
        Some VNil \<Rightarrow> AList.delete ''spec'' data
      | Some (VMap m) \<Rightarrow> if length m = 0 then AList.delete ''spec'' data else data
      | _ \<Rightarrow> data)"

definition clean_data :: "ylib \<Rightarrow> gomap \<Rightarrow> exported result" where
  "clean_data L data =
     (case clean_metadata L data of
        Inl err \<Rightarrow> Inl err
      | Inr metadata \<Rightarrow>
          (let metadata = (if yl_GetNamespace L data \<noteq> ''''
                 then AList.update ''namespace'' (MStr (yl_GetNamespace L data)) metadata else metadata);
               metadata = put_clean ''annotations'' (yl_GetAnnotations L data) metadata;
               metadata = put_clean ''labels'' (yl_GetLabels L data) metadata;
               data = without_empty_spec data in
           Inr \<lparr>x_metadata = metadata, x_rest = AList.delete ''status'' (AList.delete ''metadata'' data)\<rparr>))"

definition CleanObjectForExport :: "ylib \<Rightarrow> robj \<Rightarrow> exported result" where
  "CleanObjectForExport L obj =
     (case (if g_kind (o_gvk obj) = '''' then
              (case gvk_Get (yl_kinds L) obj of
                 Inr gvk \<Rightarrow> Inr (obj\<lparr>o_gvk := gvk\<rparr>)
               | Inl err \<Rightarrow> Inl (Wrap ''kind and/or apiVersion is not set on input object'' err))
            else Inr obj) of
        Inl err \<Rightarrow> Inl err
      | Inr obj \<Rightarrow>
          (case yl_EncodeToMap L obj of Inl err \<Rightarrow> Inl err | Inr data \<Rightarrow> clean_data L data))"

text \<open>Writing: the documents with a separator between them.\<close>

definition separator :: string where
  "separator = CHR 0x0A # ''---'' @ [CHR 0x0A]"

fun write_docs :: "('a \<Rightarrow> string result) \<Rightarrow> 'a list \<Rightarrow> nat \<Rightarrow> string \<Rightarrow> string result" where
  "write_docs render [] i buffer = Inr buffer"
| "write_docs render (obj # objs) i buffer =
     (let buffer = (if i > 0 then buffer @ separator else buffer) in
      case render obj of
        Inl err \<Rightarrow> Inl err
      | Inr bytes \<Rightarrow> write_docs render objs (Suc i) (buffer @ bytes))"

definition Export :: "ylib \<Rightarrow> robj list \<Rightarrow> string result" where
  "Export L objects =
     write_docs (\<lambda>obj. case CleanObjectForExport L obj of
         Inl err \<Rightarrow> Inl err
       | Inr x \<Rightarrow> (case yl_Marshal L x of Inl err \<Rightarrow> Inl (Wrap ''failed to encode'' err) | Inr b \<Rightarrow> Inr b))
       objects 0 ''''"

definition ToBytes :: "ylib \<Rightarrow> robj list \<Rightarrow> string result" where
  "ToBytes L objects =
     write_docs (\<lambda>obj. case yl_MarshalObj L obj of Inl err \<Rightarrow> Inl (Wrap ''failed to encode'' err) | Inr b \<Rightarrow> Inr b)
       objects 0 ''''"

subsection \<open>Reading\<close>

definition toObjects :: "ylib \<Rightarrow> string \<Rightarrow> gomap list result" where
  "toObjects L bytes =
     (case yl_ToJSON L bytes of
        Inl err \<Rightarrow> Inl err
      | Inr bytes \<Rightarrow>
          (case yl_Unmarshal L bytes of
             Inl err \<Rightarrow> Inl err
           | Inr check \<Rightarrow>
               if length check = 0 then Inr []
               else case yl_Decode L bytes of
                 Inl err \<Rightarrow> Inl err
               | Inr (DList items) \<Rightarrow> Inr items
               | Inr (DObject obj) \<Rightarrow> Inr [obj]))"

fun read_docs :: "(string \<Rightarrow> 'a list result) \<Rightarrow> string result list \<Rightarrow> 'a list \<Rightarrow> 'a list result" where
  "read_docs f [] acc = Inr acc"
| "read_docs f (Inl err # docs) acc = Inl err"
| "read_docs f (Inr raw # docs) acc =
     (case f raw of Inl err \<Rightarrow> Inl err | Inr objs \<Rightarrow> read_docs f docs (acc @ objs))"

definition ToObjects :: "ylib \<Rightarrow> string \<Rightarrow> gomap list result" where
  "ToObjects L text = read_docs (toObjects L) (yl_docs L text) []"

text \<open>\<open>None\<close> is the panic for a type that is no pointer; \<open>decode\<close> is \<open>json.Unmarshal\<close> into a new value.\<close>

definition UnmarshalWithJSONDecoder :: "ylib \<Rightarrow> bool \<Rightarrow> (string \<Rightarrow> 'a result) \<Rightarrow> string \<Rightarrow> 'a list result option" where
  "UnmarshalWithJSONDecoder L isPointer decode text =
     (if \<not> isPointer then None
      else Some (read_docs
        (\<lambda>rawYAML. case yl_ToJSON L rawYAML of
            Inl err \<Rightarrow> Inl (Wrap ''failed to convert YAML to JSON'' err)
          | Inr rawJSON \<Rightarrow>
              (case decode rawJSON of
                 Inl err \<Rightarrow> Inl (Wrap ''failed to unmarshal converted JSON'' err)
               | Inr newObj \<Rightarrow> Inr [newObj]))
        (map (\<lambda>d. case d of Inl err \<Rightarrow> Inl (Wrap ''failed to read yaml'' err) | Inr b \<Rightarrow> Inr b) (yl_docs L text)) []))"


subsection \<open>What an export holds\<close>

definition empty_value :: "val option \<Rightarrow> bool" where
  "empty_value v \<longleftrightarrow> v = Some VNil \<or> v = Some (VMap [])"

lemma put_clean_lookup:
  "map_of (put_clean key m md) k = (if k = key \<and> cleanMap m \<noteq> [] then Some (MStrMap (cleanMap m))
     else if k = key \<and> m \<noteq> [] then None else map_of md k)"
  by (auto simp: put_clean_def Let_def update_conv delete_conv cleanMap_def)

lemma without_empty_spec_lookup:
  "map_of (without_empty_spec data) k
     = (if k = ''spec'' \<and> empty_value (map_of data ''spec'') then None else map_of data k)"
  by (auto simp: without_empty_spec_def empty_value_def delete_conv split: option.splits val.splits)

text \<open>An export has the name, or the prefix to generate one from, the namespace, and the annotations
  and labels that are not kubectl's, no other metadata; it has every other part of the object but
  the status and an empty spec.\<close>

theorem exported_parts:
  assumes x: "CleanObjectForExport L obj = Inr x" and kind: "g_kind (o_gvk obj) \<noteq> ''''"
    and data: "yl_EncodeToMap L obj = Inr data"
  shows "(map_of (x_metadata x) k =
      (if k = ''name'' \<and> yl_GetName L data \<noteq> '''' then Some (MStr (yl_GetName L data))
       else if k = ''generateName'' \<and> yl_GetName L data = '''' then Some (MStr (yl_GetGenerateName L data))
       else if k = ''namespace'' \<and> yl_GetNamespace L data \<noteq> '''' then Some (MStr (yl_GetNamespace L data))
       else if k = ''annotations'' \<and> cleanMap (yl_GetAnnotations L data) \<noteq> []
         then Some (MStrMap (cleanMap (yl_GetAnnotations L data)))
       else if k = ''labels'' \<and> cleanMap (yl_GetLabels L data) \<noteq> []
         then Some (MStrMap (cleanMap (yl_GetLabels L data)))
       else None)) \<and>
     (map_of (x_rest x) k =
      (if k \<in> {''metadata'', ''status''} \<or> k = ''spec'' \<and> empty_value (map_of data ''spec'') then None
       else map_of data k))"
proof (rule conjI)
  from x kind data have c: "clean_data L data = Inr x" by (simp add: CleanObjectForExport_def)
  then obtain md where md: "clean_metadata L data = Inr md" by (auto simp: clean_data_def split: sum.splits)
  have n: "map_of md q = (if q = ''name'' \<and> yl_GetName L data \<noteq> '''' then Some (MStr (yl_GetName L data))
       else if q = ''generateName'' \<and> yl_GetName L data = '''' then Some (MStr (yl_GetGenerateName L data)) else None)" for q
    using md by (auto simp: clean_metadata_def split: if_splits)
  have x': "x_metadata x = put_clean ''labels'' (yl_GetLabels L data) (put_clean ''annotations'' (yl_GetAnnotations L data)
      (if yl_GetNamespace L data \<noteq> '''' then AList.update ''namespace'' (MStr (yl_GetNamespace L data)) md else md))"
    "x_rest x = AList.delete ''status'' (AList.delete ''metadata'' (without_empty_spec data))"
    using c md by (auto simp: clean_data_def Let_def)
  show "map_of (x_metadata x) k = (if k = ''name'' \<and> yl_GetName L data \<noteq> '''' then Some (MStr (yl_GetName L data))
       else if k = ''generateName'' \<and> yl_GetName L data = '''' then Some (MStr (yl_GetGenerateName L data))
       else if k = ''namespace'' \<and> yl_GetNamespace L data \<noteq> '''' then Some (MStr (yl_GetNamespace L data))
       else if k = ''annotations'' \<and> cleanMap (yl_GetAnnotations L data) \<noteq> []
         then Some (MStrMap (cleanMap (yl_GetAnnotations L data)))
       else if k = ''labels'' \<and> cleanMap (yl_GetLabels L data) \<noteq> []
         then Some (MStrMap (cleanMap (yl_GetLabels L data)))
       else None)"
  proof -
    consider "k = ''name''" | "k = ''generateName''" | "k = ''namespace''" | "k = ''annotations''" | "k = ''labels''"
      | "k \<notin> {''name'', ''generateName'', ''namespace'', ''annotations'', ''labels''}" by blast
    then show ?thesis
      by cases (simp_all add: x'(1) put_clean_lookup n update_conv)
  qed
  show "map_of (x_rest x) k =
      (if k \<in> {''metadata'', ''status''} \<or> k = ''spec'' \<and> empty_value (map_of data ''spec'') then None
       else map_of data k)"
    unfolding x' by (auto simp: delete_conv without_empty_spec_lookup)
qed

text \<open>The two cleaners differ: an export keeps the annotations of cattle.io, which
  \<open>CleanAnnotationsForExport\<close> drops.\<close>

lemma cleaners_differ:
  "cleanMap [(''field.cattle.io/a'', ''1'')] = [(''field.cattle.io/a'', ''1'')]"
  "CleanAnnotationsForExport [(''field.cattle.io/a'', ''1'')] = []"
  by code_simp+

subsection \<open>Reading an export back\<close>

text \<open>The exported object as a plain map, which is what a decoder makes of it.\<close>

definition plain_md :: "mdval \<Rightarrow> val" where
  "plain_md v = (case v of MStr s \<Rightarrow> VStr s | MStrMap m \<Rightarrow> VMap (map (\<lambda>(k, s). (k, VStr s)) m))"

definition plain_map :: "exported \<Rightarrow> gomap" where
  "plain_map x = x_rest x @ [(''metadata'', VMap (map (\<lambda>(k, v). (k, plain_md v)) (x_metadata x)))]"

fun join_docs :: "string list \<Rightarrow> string" where
  "join_docs [] = ''''"
| "join_docs [t] = t"
| "join_docs (t # ts) = t @ separator @ join_docs ts"

lemma join_docs_Cons: "join_docs (t # ts) = t @ concat (map (\<lambda>t. separator @ t) ts)"
  by (induction ts arbitrary: t) auto

lemma write_docs_rest:
  "write_docs render xs (Suc i) b = Inr text \<Longrightarrow>
    \<exists>ts. map render xs = map Inr ts \<and> text = b @ concat (map (\<lambda>t. separator @ t) ts)"
proof (induction xs arbitrary: i b)
  case (Cons x xs)
  from Cons.prems obtain t where t: "render x = Inr t" "write_docs render xs (Suc (Suc i)) (b @ separator @ t) = Inr text"
    by (auto simp: Let_def split: sum.splits)
  from Cons.IH[OF t(2)] obtain ts where "map render xs = map Inr ts"
    "text = b @ separator @ t @ concat (map (\<lambda>t. separator @ t) ts)" by auto
  with t(1) show ?case by (intro exI[of _ "t # ts"]) simp
qed simp

lemma write_docs_join:
  assumes "write_docs render xs 0 '''' = Inr text"
  shows "\<exists>ts. map render xs = map Inr ts \<and> text = join_docs ts"
proof (cases xs)
  case (Cons x xs')
  with assms obtain t where t: "render x = Inr t" "write_docs render xs' (Suc 0) t = Inr text"
    by (auto split: sum.splits)
  from write_docs_rest[OF t(2)] t(1) Cons show ?thesis by (metis join_docs_Cons list.simps(9))
qed (use assms in auto)

lemma read_docs_each:
  "list_all2 (\<lambda>d o'. f d = Inr [o']) ds os \<Longrightarrow> read_docs f (map Inr ds) acc = Inr (acc @ os)"
  by (induction ds os arbitrary: acc rule: list_all2_induct) auto

text \<open>What the codecs promise: the reader finds the documents that were written with separators
  between them, and a document that encodes an exported object decodes to its plain map.\<close>

definition yaml_ok :: "ylib \<Rightarrow> bool" where
  "yaml_ok L \<longleftrightarrow>
     (\<forall>ts. (\<forall>t \<in> set ts. \<exists>x. yl_Marshal L x = Inr t) \<longrightarrow> yl_docs L (join_docs ts) = map Inr ts) \<and>
     (\<forall>x t. yl_Marshal L x = Inr t \<longrightarrow> (\<exists>j. yl_ToJSON L t = Inr j \<and>
        yl_Unmarshal L j = Inr (plain_map x) \<and> yl_Decode L j = Inr (DObject (plain_map x))))"



subsection \<open>A concrete export\<close>

definition pod_data :: gomap where
  "pod_data =
     [(''apiVersion'', VStr ''v1''), (''kind'', VStr ''Pod''),
      (''metadata'', VMap [(''name'', VStr ''a''), (''uid'', VStr ''17''), (''labels'', VMap [(''app'', VStr ''x'')]),
         (''annotations'', VMap [(''kubectl.kubernetes.io/last-applied-configuration'', VStr ''{}'')])]),
      (''spec'', VMap []), (''status'', VMap [(''phase'', VStr ''Running'')])]"

definition pod_export :: exported where
  "pod_export = \<lparr>x_metadata = [(''name'', MStr ''a''), (''labels'', MStrMap [(''app'', ''x'')])],
     x_rest = [(''apiVersion'', VStr ''v1''), (''kind'', VStr ''Pod'')]\<rparr>"

definition pod_obj :: robj where
  "pod_obj = \<lparr>o_gvk = mk_gvk '''' ''v1'' ''Pod'', o_meta = None, o_body = pod_data\<rparr>"

definition meta_string :: "string \<Rightarrow> gomap \<Rightarrow> string" where
  "meta_string k data = (case map_of data ''metadata'' of
     Some (VMap m) \<Rightarrow> (case map_of m k of Some (VStr s) \<Rightarrow> s | _ \<Rightarrow> '''') | _ \<Rightarrow> '''')"

definition meta_strings :: "string \<Rightarrow> gomap \<Rightarrow> (string \<times> string) list" where
  "meta_strings k data = (case map_of data ''metadata'' of
     Some (VMap m) \<Rightarrow> (case map_of m k of
        Some (VMap a) \<Rightarrow> List.map_filter (\<lambda>(k, v). case v of VStr s \<Rightarrow> Some (k, s) | _ \<Rightarrow> None) a | _ \<Rightarrow> []) | _ \<Rightarrow> [])"

text \<open>A codec that knows one object.\<close>

definition ylib0 :: ylib where
  "ylib0 = \<lparr>yl_kinds = (\<lambda>_. Inr []), yl_docs = (\<lambda>s. if s = '''' then [] else map Inr (Split s separator)),
     yl_ToJSON = Inr, yl_Unmarshal = (\<lambda>_. Inr (plain_map pod_export)), yl_Decode = (\<lambda>_. Inr (DObject (plain_map pod_export))),
     yl_EncodeToMap = (\<lambda>obj. Inr (o_body obj)),
     yl_Marshal = (\<lambda>x. if x = pod_export then Inr ''pod'' else Inl (Err ''yaml'')),
     yl_MarshalObj = (\<lambda>_. Inl (Err ''yaml'')), yl_GetName = meta_string ''name'',
     yl_GetGenerateName = meta_string ''generateName'', yl_GetNamespace = meta_string ''namespace'',
     yl_GetAnnotations = meta_strings ''annotations'', yl_GetLabels = meta_strings ''labels''\<rparr>"

lemma pod_exported: "CleanObjectForExport ylib0 pod_obj = Inr pod_export"
proof -
  have "clean_data ylib0 pod_data = Inr pod_export"
    by (simp add: clean_data_def clean_metadata_def ylib0_def meta_string_def meta_strings_def pod_data_def
        put_clean_def cleanMap_def cleanPrefix_def without_empty_spec_def pod_export_def List.map_filter_simps)
  then show ?thesis by (simp add: CleanObjectForExport_def pod_obj_def mk_gvk_def) (simp add: ylib0_def)
qed

theorem exported_parts_witness:
  "map_of (x_metadata pod_export) ''name'' = Some (MStr ''a'') \<and> map_of (x_metadata pod_export) ''uid'' = None \<and>
   map_of (x_metadata pod_export) ''annotations'' = None \<and> map_of (x_rest pod_export) ''kind'' = Some (VStr ''Pod'') \<and>
   map_of (x_rest pod_export) ''spec'' = None"
proof -
  have d: "yl_EncodeToMap ylib0 pod_obj = Inr pod_data" "g_kind (o_gvk pod_obj) \<noteq> ''''"
    by (simp_all add: ylib0_def pod_obj_def mk_gvk_def)
  have v: "yl_GetName ylib0 pod_data = ''a''" "cleanMap (yl_GetAnnotations ylib0 pod_data) = []"
    "map_of pod_data ''kind'' = Some (VStr ''Pod'')" "empty_value (map_of pod_data ''spec'')"
    by (simp_all add: ylib0_def meta_string_def meta_strings_def pod_data_def List.map_filter_simps cleanMap_def
        cleanPrefix_def empty_value_def)
  note e = exported_parts[OF pod_exported d(2,1)]
  show ?thesis by (simp add: e v)
qed

lemma ylib0_ok: "yaml_ok ylib0"
proof -
  have sep: "separator = CHR 0x0A # ''---'' @ [CHR 0x0A]" by (simp add: separator_def)
  have "Split (join_docs ts) separator = ts" if "set ts \<subseteq> {''pod''}" "ts \<noteq> []" for ts
    using that
  proof (induction ts rule: join_docs.induct)
    case (2 t)
    then show ?case by (simp add: sep Split_char_None)
  next
    case (3 t t' ts)
    then have "CHR 0x0A \<notin> set t" by auto
    with 3 show ?case using Split_first_char[of "CHR 0x0A" t "''---'' @ [CHR 0x0A]" "join_docs (t' # ts)"]
      by (simp add: sep)
  qed simp
  moreover have "join_docs ts \<noteq> ''''" if "set ts \<subseteq> {''pod''}" "ts \<noteq> []" for ts
    using that by (cases ts) (auto simp: join_docs_Cons)
  moreover have "join_docs ts = ''''" if "ts = []" for ts using that by simp
  ultimately have "yl_docs ylib0 (join_docs ts) = map Inr ts" if "set ts \<subseteq> {''pod''}" for ts
    using that by (cases "ts = []") (simp_all add: ylib0_def)
  moreover have "yl_Marshal ylib0 x = Inr t \<longleftrightarrow> x = pod_export \<and> t = ''pod''" for x t
    by (auto simp: ylib0_def)
  ultimately show ?thesis unfolding yaml_ok_def by (auto simp: ylib0_def subset_iff)
qed


end
