(* ===== verification/Summary_Access.thy ===== *)
theory Summary_Access
  imports Summary_CAPI Apply_Env
begin

section \<open>Summaries of a cluster's objects: pkg/summary/client, lister and informer\<close>

text \<open>
  The clients that summarize what a dynamic client returns (\<open>client/simple.go\<close>), the listers over an
  indexer (\<open>lister/lister.go\<close>, \<open>shim.go\<close>) and the shared factory of informers
  (\<open>informer/informer.go\<close>). The dynamic client and the indexer are arguments; a watch is the list of
  events that arrive.
\<close>

subsection \<open>client/simple.go\<close>

record uobjlist =
  ul_kind :: string
  ul_apiVersion :: string
  ul_resourceVersion :: string
  ul_continue :: string
  ul_remaining :: "64 word option"
  ul_Items :: "gomap list"

record summarizedlist =
  sl_kind :: string
  sl_apiVersion :: string
  sl_resourceVersion :: string
  sl_continue :: string
  sl_remaining :: "64 word option"
  sl_Items :: "summarized list"

text \<open>The schema of the options is the attributes that the code reads of it.\<close>

record resclient =
  rc_namespace :: string
  rc_resource :: gvr
  rc_Schema :: "object option"

definition generateSummarizeOpts :: "object option \<Rightarrow> bool" where
  "generateSummarizeOpts schema =
     (case schema of
        Some (Some attributes) \<Rightarrow>
          (case map_of attributes ''hasObservedGeneration'' of Some (VBool b) \<Rightarrow> b | _ \<Rightarrow> False)
      | _ \<Rightarrow> False)"

definition ResourceWithOptions :: "gvr \<Rightarrow> object option option \<Rightarrow> resclient" where
  "ResourceWithOptions resource opts =
     \<lparr>rc_namespace = '''', rc_resource = resource, rc_Schema = (case opts of None \<Rightarrow> None | Some schema \<Rightarrow> schema)\<rparr>"

definition client_Resource :: "gvr \<Rightarrow> resclient" where
  "client_Resource resource = ResourceWithOptions resource None"

definition client_Namespace :: "string \<Rightarrow> resclient \<Rightarrow> resclient" where
  "client_Namespace ns c = c\<lparr>rc_namespace := ns\<rparr>"

text \<open>The dynamic client for the resource, narrowed to a namespace or not.\<close>

definition narrowed :: "resclient \<Rightarrow> gvr \<times> string option" where
  "narrowed c = (rc_resource c, if rc_namespace c = '''' then None else Some (rc_namespace c))"

definition client_List :: "senv \<Rightarrow> (gvr \<times> string option \<Rightarrow> uobjlist result) \<Rightarrow> resclient \<Rightarrow> summarizedlist result" where
  "client_List E dynList c =
     (case dynList (narrowed c) of
        Inl err \<Rightarrow> Inl err
      | Inr u \<Rightarrow> Inr \<lparr>sl_kind = ul_kind u, sl_apiVersion = ul_apiVersion u, sl_resourceVersion = ul_resourceVersion u,
          sl_continue = ul_continue u, sl_remaining = ul_remaining u,
          sl_Items = map (\<lambda>ob. SummarizedWithOptions E (ROUnstructured (Some (Some ob)))
            (Some (generateSummarizeOpts (rc_Schema c)))) (ul_Items u)\<rparr>)"

text \<open>An event carries a \<open>Status\<close>, which goes on as it is, or an object.\<close>

datatype 's eventobj = EStatus 's | EObject runtimeobj

text \<open>The goroutine of a watch. \<open>taken\<close> is how many events the reader takes before the context ends:
  the goroutine waits with the next one and returns. The channel is closed when it returns.\<close>

definition watch_event :: "senv \<Rightarrow> resclient \<Rightarrow> string \<times> 's eventobj \<Rightarrow> string \<times> 's eventobj" where
  "watch_event E c ev =
     (case ev of
        (t, EStatus s) \<Rightarrow> (t, EStatus s)
      | (t, EObject u) \<Rightarrow> (t, EObject (ROSummarized
          (SummarizedWithOptions E u (Some (generateSummarizeOpts (rc_Schema c)))))))"

fun watch_loop :: "senv \<Rightarrow> resclient \<Rightarrow> nat \<Rightarrow> (string \<times> 's eventobj) list \<Rightarrow> (string \<times> 's eventobj) list" where
  "watch_loop E c taken [] = []"
| "watch_loop E c 0 (ev # evs) = []"
| "watch_loop E c (Suc n) (ev # evs) = watch_event E c ev # watch_loop E c n evs"

definition client_Watch :: "senv \<Rightarrow> (gvr \<times> string option \<Rightarrow> (string \<times> 's eventobj) list result) \<Rightarrow> resclient \<Rightarrow> nat
    \<Rightarrow> (string \<times> 's eventobj) list result" where
  "client_Watch E dynWatch c taken =
     (case dynWatch (narrowed c) of Inl err \<Rightarrow> Inl err | Inr evs \<Rightarrow> Inr (watch_loop E c taken evs))"

lemma watch_loop_map: "watch_loop E c taken evs = map (watch_event E c) (take taken evs)"
  by (induction E c taken evs rule: watch_loop.induct) auto

subsection \<open>lister.go and shim.go\<close>

text \<open>\<open>listAll\<close> are \<open>cache.ListAll\<close> and \<open>cache.ListAllByNamespace\<close>: the objects that were visited, and
  the error.\<close>

record lister =
  li_GetByKey :: "string \<Rightarrow> summarized option result"
  li_listAll :: "string option \<Rightarrow> string \<Rightarrow> summarized list \<times> goerr option"

definition lister_Get :: "lister \<Rightarrow> string \<Rightarrow> summarized result" where
  "lister_Get l name =
     (case li_GetByKey l name of
        Inl err \<Rightarrow> Inl err
      | Inr None \<Rightarrow> Inl (NotFound name)
      | Inr (Some obj) \<Rightarrow> Inr obj)"

definition lister_ns_Get :: "lister \<Rightarrow> string \<Rightarrow> string \<Rightarrow> summarized result" where
  "lister_ns_Get l namespace name =
     (case li_GetByKey l (namespace @ ''/'' @ name) of
        Inl err \<Rightarrow> Inl err
      | Inr None \<Rightarrow> Inl (NotFound name)
      | Inr (Some obj) \<Rightarrow> Inr obj)"

definition lister_List :: "lister \<Rightarrow> string \<Rightarrow> summarized list \<times> goerr option" where
  "lister_List l selector = li_listAll l None selector"

definition lister_ns_List :: "lister \<Rightarrow> string \<Rightarrow> string \<Rightarrow> summarized list \<times> goerr option" where
  "lister_ns_List l namespace selector = li_listAll l (Some namespace) selector"

text \<open>The shim drops what was listed before an error.\<close>

definition shim_List :: "lister \<Rightarrow> string \<Rightarrow> runtimeobj list result" where
  "shim_List l selector =
     (case lister_List l selector of
        (objs, Some err) \<Rightarrow> Inl err
      | (objs, None) \<Rightarrow> Inr (map ROSummarized objs))"

definition shim_ns_List :: "lister \<Rightarrow> string \<Rightarrow> string \<Rightarrow> runtimeobj list result" where
  "shim_ns_List l namespace selector =
     (case lister_ns_List l namespace selector of
        (objs, Some err) \<Rightarrow> Inl err
      | (objs, None) \<Rightarrow> Inr (map ROSummarized objs))"

subsection \<open>informer.go\<close>

text \<open>The factory: its informers, numbered as they are made, and which resources were started;
  \<open>if_runs\<close> are the informers whose \<open>Run\<close> was begun, in order.\<close>

record ifactory =
  if_informers :: "(gvr \<times> nat) list"
  if_next :: nat
  if_started :: "(gvr \<times> bool) list"
  if_runs :: "nat list"

definition NewFilteredSummarySharedInformerFactory :: ifactory where
  "NewFilteredSummarySharedInformerFactory = \<lparr>if_informers = [], if_next = 0, if_started = [], if_runs = []\<rparr>"

definition ForResource :: "gvr \<Rightarrow> ifactory \<Rightarrow> nat \<times> ifactory" where
  "ForResource gvr f =
     (case map_of (if_informers f) gvr of
        Some informer \<Rightarrow> (informer, f)
      | None \<Rightarrow> (if_next f, f\<lparr>if_informers := AList.update gvr (if_next f) (if_informers f), if_next := Suc (if_next f)\<rparr>))"

definition is_started :: "ifactory \<Rightarrow> gvr \<Rightarrow> bool" where
  "is_started f g = (map_of (if_started f) g = Some True)"

definition start_one :: "gvr \<times> nat \<Rightarrow> ifactory \<Rightarrow> ifactory" where
  "start_one gi f =
     (case gi of (informerType, informer) \<Rightarrow>
        if \<not> is_started f informerType
        then f\<lparr>if_runs := if_runs f @ [informer], if_started := AList.update informerType True (if_started f)\<rparr>
        else f)"

definition factory_Start :: "ifactory \<Rightarrow> ifactory" where
  "factory_Start f = fold start_one (if_informers f) f"

definition WaitForCacheSync :: "(nat \<Rightarrow> bool) \<Rightarrow> ifactory \<Rightarrow> (gvr \<times> bool) list" where
  "WaitForCacheSync waitSync f =
     map (\<lambda>(g, i). (g, waitSync i)) (filter (\<lambda>(g, i). is_started f g) (if_informers f))"

subsection \<open>Informers run once\<close>

datatype fop = FForResource gvr | FStart

fun factory_op :: "fop \<Rightarrow> ifactory \<Rightarrow> ifactory" where
  "factory_op (FForResource g) f = snd (ForResource g f)"
| "factory_op FStart f = factory_Start f"

definition factory_wf :: "ifactory \<Rightarrow> bool" where
  "factory_wf f \<longleftrightarrow> distinct (map fst (if_informers f)) \<and> distinct (map snd (if_informers f)) \<and>
     (\<forall>(g, i) \<in> set (if_informers f). i < if_next f) \<and> distinct (if_runs f) \<and>
     set (if_runs f) = {i. \<exists>g. (g, i) \<in> set (if_informers f) \<and> is_started f g} \<and>
     (\<forall>g. is_started f g \<longrightarrow> g \<in> fst ` set (if_informers f))"

lemma same_key: "distinct (map snd xs) \<Longrightarrow> (a, i) \<in> set xs \<Longrightarrow> (b, i) \<in> set xs \<Longrightarrow> a = b"
  by (induction xs) force+

lemma start_one_wf:
  assumes wf: "factory_wf f" and gi: "(g, i) \<in> set (if_informers f)"
  shows "factory_wf (start_one (g, i) f) \<and> if_informers (start_one (g, i) f) = if_informers f \<and>
    is_started (start_one (g, i) f) = (is_started f)(g := True)"
proof (cases "is_started f g")
  case True
  then have "(is_started f)(g := True) = is_started f" by (simp add: fun_upd_idem)
  with True wf show ?thesis by (simp add: start_one_def)
next
  case False
  let ?f = "start_one (g, i) f"
  from False have f: "if_informers ?f = if_informers f" "if_next ?f = if_next f" "if_runs ?f = if_runs f @ [i]"
    and s: "is_started ?f = (is_started f)(g := True)"
    by (auto simp: start_one_def is_started_def update_conv fun_eq_iff)
  have one: "g' = g" if "(g', i) \<in> set (if_informers f)" for g'
    using wf gi that unfolding factory_wf_def by (blast intro: same_key)
  have other: "i' = i" if "(g, i') \<in> set (if_informers f)" for i'
    using eq_key_imp_eq_value[OF _ that gi] wf unfolding factory_wf_def by blast
  have new: "i \<notin> set (if_runs f)" using wf one False unfolding factory_wf_def by blast
  have "set (if_runs ?f) = {i. \<exists>g. (g, i) \<in> set (if_informers ?f) \<and> is_started ?f g}"
  proof (rule set_eqI)
    fix x
    have "x \<in> set (if_runs f) \<longleftrightarrow> (\<exists>q. (q, x) \<in> set (if_informers f) \<and> is_started f q)"
      using wf unfolding factory_wf_def by blast
    moreover have "(\<exists>q. (q, x) \<in> set (if_informers f) \<and> ((is_started f)(g := True)) q) \<longleftrightarrow>
        x = i \<or> (\<exists>q. (q, x) \<in> set (if_informers f) \<and> is_started f q)" (is "?l \<longleftrightarrow> ?r")
    proof
      assume ?l
      then obtain q where q: "(q, x) \<in> set (if_informers f)" "q = g \<or> is_started f q" by (auto split: if_splits)
      then show ?r using other by blast
    next
      assume ?r
      then show ?l using gi by fastforce
    qed
    ultimately show "x \<in> set (if_runs ?f) \<longleftrightarrow> x \<in> {i. \<exists>q. (q, i) \<in> set (if_informers ?f) \<and> is_started ?f q}"
      unfolding f s by simp
  qed
  moreover have "\<forall>q. is_started ?f q \<longrightarrow> q \<in> fst ` set (if_informers ?f)"
  proof (intro allI impI)
    fix q assume "is_started ?f q"
    then have "q = g \<or> is_started f q" unfolding s by (simp split: if_splits)
    with wf gi show "q \<in> fst ` set (if_informers ?f)" unfolding f factory_wf_def by force
  qed
  ultimately show ?thesis using wf new f s unfolding factory_wf_def by simp
qed

lemma starts_wf:
  "factory_wf f \<Longrightarrow> set gis \<subseteq> set (if_informers f) \<Longrightarrow>
   factory_wf (fold start_one gis f) \<and> if_informers (fold start_one gis f) = if_informers f \<and>
   (\<forall>g. is_started (fold start_one gis f) g \<longleftrightarrow> is_started f g \<or> g \<in> fst ` set gis)"
proof (induction gis arbitrary: f)
  case (Cons gi gis)
  obtain g i where gi: "gi = (g, i)" by (cases gi)
  from Cons.prems gi start_one_wf[of f g i] have 1: "factory_wf (start_one gi f)"
    "if_informers (start_one gi f) = if_informers f" "is_started (start_one gi f) = (is_started f)(g := True)" by auto
  with Cons.IH[OF 1(1)] Cons.prems gi show ?case by auto
qed simp

lemma update_absent: "g \<notin> fst ` set m \<Longrightarrow> AList.update g n m = m @ [(g, n)]"
  by (induction m) auto

lemma ForResource_wf:
  assumes "factory_wf f"
  shows "factory_wf (snd (ForResource g f))"
proof (cases "map_of (if_informers f) g")
  case None
  then have g: "g \<notin> fst ` set (if_informers f)" by (simp add: map_of_eq_None_iff)
  then have u: "AList.update g n (if_informers f) = if_informers f @ [(g, n)]" for n
    by (rule update_absent)
  have "\<not> is_started f g" using assms g unfolding factory_wf_def by blast
  with None assms g u show ?thesis
    by (auto simp: ForResource_def factory_wf_def is_started_def)
qed (use assms in \<open>simp add: ForResource_def\<close>)


lemma factory_ops_wf: "factory_wf f \<Longrightarrow> factory_wf (fold factory_op ops f)"
proof (induction ops arbitrary: f)
  case (Cons op ops)
  have "factory_wf (factory_op op f)"
    using Cons.prems starts_wf[of f "if_informers f"]
    by (cases op) (simp_all add: ForResource_wf factory_Start_def)
  with Cons.IH show ?case by simp
qed simp

lemma factory_keeps: "map_of (if_informers f) g = Some i \<Longrightarrow> factory_wf f \<Longrightarrow>
    map_of (if_informers (fold factory_op ops f)) g = Some i"
proof (induction ops arbitrary: f)
  case (Cons op ops)
  have "map_of (if_informers (factory_op op f)) g = Some i"
    using Cons.prems starts_wf[of f "if_informers f"]
    by (cases op) (auto simp: ForResource_def factory_Start_def update_conv split: option.split)
  moreover have "factory_wf (factory_op op f)" using factory_ops_wf[OF Cons.prems(2), of "[op]"] by simp
  ultimately show ?case using Cons.IH by simp
qed simp

lemma factory_wf_new: "factory_wf NewFilteredSummarySharedInformerFactory"
  by (simp add: factory_wf_def NewFilteredSummarySharedInformerFactory_def is_started_def)

definition factory_after :: "fop list \<Rightarrow> ifactory" where
  "factory_after ops = fold factory_op ops NewFilteredSummarySharedInformerFactory"

text \<open>However a factory is used, no informer is run twice; a resource keeps its informer; and once
  \<open>Start\<close> was called every informer asked for so far runs, and those are the ones that
  \<open>WaitForCacheSync\<close> waits for.\<close>

theorem informers_run_once:
  "distinct (if_runs (factory_after ops)) \<and>
   map_of (if_informers (fold factory_op ops' (snd (ForResource g (factory_after ops))))) g
     = Some (fst (ForResource g (factory_after ops))) \<and>
   set (if_runs (factory_Start (factory_after ops))) = snd ` set (if_informers (factory_after ops)) \<and>
   WaitForCacheSync waitSync (factory_Start (factory_after ops))
     = map (\<lambda>(g, i). (g, waitSync i)) (if_informers (factory_after ops))"
proof (intro conjI)
  let ?f = "factory_after ops"
  have wf: "factory_wf ?f" unfolding factory_after_def by (rule factory_ops_wf[OF factory_wf_new])
  then show "distinct (if_runs ?f)" by (simp add: factory_wf_def)
  have "map_of (if_informers (snd (ForResource g ?f))) g = Some (fst (ForResource g ?f))"
    by (auto simp: ForResource_def update_conv split: option.split)
  from factory_keeps[OF this ForResource_wf[OF wf]]
  show "map_of (if_informers (fold factory_op ops' (snd (ForResource g ?f)))) g = Some (fst (ForResource g ?f))" .
  from starts_wf[OF wf, of "if_informers ?f"] have s: "factory_wf (factory_Start ?f)"
    "if_informers (factory_Start ?f) = if_informers ?f"
    "\<forall>g \<in> fst ` set (if_informers ?f). is_started (factory_Start ?f) g" by (auto simp: factory_Start_def)
  from s(1) have "set (if_runs (factory_Start ?f)) =
      {i. \<exists>g. (g, i) \<in> set (if_informers ?f) \<and> is_started (factory_Start ?f) g}"
    unfolding factory_wf_def s(2) by blast
  also have "\<dots> = {i. \<exists>g. (g, i) \<in> set (if_informers ?f)}" using s(3) by fastforce
  also have "\<dots> = snd ` set (if_informers ?f)" by force
  finally show "set (if_runs (factory_Start ?f)) = snd ` set (if_informers ?f)" .
  have "filter (\<lambda>(g, i). is_started (factory_Start ?f) g) (if_informers ?f) = if_informers ?f"
    using s(3) by (auto simp: filter_id_conv)
  then show "WaitForCacheSync waitSync (factory_Start ?f) = map (\<lambda>(g, i). (g, waitSync i)) (if_informers ?f)"
    by (simp add: WaitForCacheSync_def s(2))
qed

end
