(* ===== verification/Generic_Factory.thy ===== *)
theory Generic_Factory
  imports Generic_Handlers
begin

section \<open>Controllers, caches and their factory: pkg/generic\<close>

text \<open>
  \<open>pkg/generic/factory.go\<close>, the typed controllers of \<open>controller.go\<close> with their variants for kinds
  without namespaces, and the caches of \<open>cache.go\<close>. What lasso does is an argument: the client as
  functions of a world, the caches and controllers as numbers and events.
\<close>

subsection \<open>factory.go\<close>

datatype fevent =
    NewClient
  | NewCache nat
  | NewControllers nat nat
  | CacheStart nat
  | CacheWait nat "(gvk \<times> bool) list"
  | ControllersStart nat nat

record factory =
  fc_cacheFactory :: "nat option"
  fc_controllerFactory :: "nat option"
  fc_threadiness :: "(gvk \<times> nat) list"
  fc_next :: nat
  fc_log :: "fevent list"

text \<open>\<open>cacheOf\<close> is \<open>SharedCacheFactory()\<close> of a controller factory. The two options are numbers below
  \<open>n\<close>; what is made later is numbered from there.\<close>

definition NewFactory :: "(nat \<Rightarrow> nat) \<Rightarrow> (nat option \<times> nat option) option \<Rightarrow> nat \<Rightarrow> factory" where
  "NewFactory cacheOf opts n =
     (let (c, k) = (case opts of None \<Rightarrow> (None, None) | Some ck \<Rightarrow> ck) in
      \<lparr>fc_cacheFactory = (case (c, k) of (None, Some k) \<Rightarrow> Some (cacheOf k) | _ \<Rightarrow> c),
       fc_controllerFactory = k, fc_threadiness = [], fc_next = n, fc_log = []\<rparr>)"

definition SetThreadiness :: "gvk \<Rightarrow> nat \<Rightarrow> factory \<Rightarrow> factory" where
  "SetThreadiness gvk threadiness c = c\<lparr>fc_threadiness := AList.update gvk threadiness (fc_threadiness c)\<rparr>"

definition log_event :: "fevent \<Rightarrow> factory \<Rightarrow> factory" where
  "log_event e c = c\<lparr>fc_log := fc_log c @ [e]\<rparr>"

definition setControllerFactoryWithLock :: "goerr option \<Rightarrow> factory \<Rightarrow> goerr option \<times> factory" where
  "setControllerFactoryWithLock clientErr c =
     (if fc_controllerFactory c \<noteq> None then (None, c)
      else case (case fc_cacheFactory c of
            Some cacheFactory \<Rightarrow> Inr (cacheFactory, c)
          | None \<Rightarrow>
              (case clientErr of
                 Some err \<Rightarrow> Inl err
               | None \<Rightarrow> Inr (fc_next c, log_event (NewCache (fc_next c)) (log_event NewClient (c\<lparr>fc_next := Suc (fc_next c)\<rparr>))))) of
        Inl err \<Rightarrow> (Some err, c)
      | Inr (cacheFactory, c) \<Rightarrow>
          (let k = fc_next c;
               c = c\<lparr>fc_cacheFactory := Some cacheFactory, fc_controllerFactory := Some k, fc_next := Suc k\<rparr> in
           (None, log_event (NewControllers k cacheFactory) c)))"

text \<open>\<open>utilruntime.Must\<close> panics on an error: \<open>None\<close>.\<close>

definition ControllerFactory :: "goerr option \<Rightarrow> factory \<Rightarrow> (nat option \<times> factory) option" where
  "ControllerFactory clientErr c =
     (case setControllerFactoryWithLock clientErr c of
        (Some err, c) \<Rightarrow> None
      | (None, c) \<Rightarrow> Some (fc_controllerFactory c, c))"

text \<open>\<open>startErr\<close> and \<open>syncStatus\<close> are what the cache factory answers.\<close>

definition Sync :: "goerr option \<Rightarrow> (gvk \<times> bool) list \<Rightarrow> factory \<Rightarrow> goerr option \<times> factory" where
  "Sync startErr syncStatus c =
     (case fc_cacheFactory c of
        None \<Rightarrow> (None, c)
      | Some cacheFactory \<Rightarrow>
          (let c = log_event (CacheStart cacheFactory) c in
           case startErr of
             Some err \<Rightarrow> (Some err, c)
           | None \<Rightarrow>
               (let c = log_event (CacheWait cacheFactory syncStatus) c in
                case List.find (\<lambda>(g, synced). \<not> synced) syncStatus of
                  Some (informerType, _) \<Rightarrow> (Some (Err (''cache sync failed for informer '' @ g_kind informerType)), c)
                | None \<Rightarrow> (None, c))))"

definition gf_Start :: "goerr option \<Rightarrow> (gvk \<times> bool) list \<Rightarrow> goerr option \<Rightarrow> nat \<Rightarrow> factory \<Rightarrow> goerr option \<times> factory" where
  "gf_Start startErr syncStatus controllersErr defaultThreadiness c =
     (case Sync startErr syncStatus c of
        (Some err, c) \<Rightarrow> (Some err, c)
      | (None, c) \<Rightarrow>
          (case fc_controllerFactory c of
             Some k \<Rightarrow> (controllersErr, log_event (ControllersStart k defaultThreadiness) c)
           | None \<Rightarrow> (None, c)))"

subsection \<open>controller.go\<close>

text \<open>The client of lasso decodes what the server sends into \<open>result\<close>, a new object, which it may leave
  as it was when it fails.\<close>

record ('w, 't, 'l) embeddedClient =
  ec_Create :: "string \<Rightarrow> 't \<Rightarrow> 't \<Rightarrow> 'w \<Rightarrow> ('t \<times> goerr option) \<times> 'w"
  ec_Update :: "string \<Rightarrow> 't \<Rightarrow> 't \<Rightarrow> 'w \<Rightarrow> ('t \<times> goerr option) \<times> 'w"
  ec_UpdateStatus :: "string \<Rightarrow> 't \<Rightarrow> 't \<Rightarrow> 'w \<Rightarrow> ('t \<times> goerr option) \<times> 'w"
  ec_Delete :: "string \<Rightarrow> string \<Rightarrow> string \<Rightarrow> 'w \<Rightarrow> goerr option \<times> 'w"
  ec_Get :: "string \<Rightarrow> string \<Rightarrow> 't \<Rightarrow> string \<Rightarrow> 'w \<Rightarrow> 't \<times> goerr option"
  ec_List :: "string \<Rightarrow> 'l \<Rightarrow> string \<Rightarrow> 'w \<Rightarrow> 'l \<times> goerr option"
  ec_Patch :: "string \<Rightarrow> string \<Rightarrow> patchtype \<Rightarrow> string \<Rightarrow> 't \<Rightarrow> string list \<Rightarrow> 'w \<Rightarrow> ('t \<times> goerr option) \<times> 'w"
  ec_DeleteCollection :: "string \<Rightarrow> string \<Rightarrow> string \<Rightarrow> 'w \<Rightarrow> goerr option \<times> 'w"

text \<open>\<open>ct_new\<close> and \<open>ct_newList\<close> are \<open>reflect.New\<close> of the two types; \<open>ct_namespace\<close> is \<open>GetNamespace\<close>.\<close>

record ('w, 't, 'l) ctrl =
  ct_client :: "('w, 't, 'l) embeddedClient"
  ct_gvk :: gvk
  ct_resource :: string
  ct_new :: 't
  ct_newList :: 'l
  ct_namespace :: "'t \<Rightarrow> string"

text \<open>A controller for types that are no pointers is a panic.\<close>

definition NewController :: "bool \<Rightarrow> bool \<Rightarrow> gvk \<Rightarrow> string \<Rightarrow> ('w, 't, 'l) embeddedClient \<Rightarrow> 't \<Rightarrow> 'l \<Rightarrow> ('t \<Rightarrow> string)
    \<Rightarrow> ('w, 't, 'l) ctrl option" where
  "NewController objPointer listPointer gvk resource client zero zeroList ns =
     (if \<not> objPointer \<or> \<not> listPointer then None
      else Some \<lparr>ct_client = client, ct_gvk = gvk, ct_resource = resource, ct_new = zero, ct_newList = zeroList,
        ct_namespace = ns\<rparr>)"

definition ctrl_Create :: "('w, 't, 'l) ctrl \<Rightarrow> 't \<Rightarrow> 'w \<Rightarrow> ('t \<times> goerr option) \<times> 'w" where
  "ctrl_Create c obj = ec_Create (ct_client c) (ct_namespace c obj) obj (ct_new c)"

definition ctrl_Update :: "('w, 't, 'l) ctrl \<Rightarrow> 't \<Rightarrow> 'w \<Rightarrow> ('t \<times> goerr option) \<times> 'w" where
  "ctrl_Update c obj = ec_Update (ct_client c) (ct_namespace c obj) obj (ct_new c)"

definition ctrl_UpdateStatus :: "('w, 't, 'l) ctrl \<Rightarrow> 't \<Rightarrow> 'w \<Rightarrow> ('t \<times> goerr option) \<times> 'w" where
  "ctrl_UpdateStatus c obj = ec_UpdateStatus (ct_client c) (ct_namespace c obj) obj (ct_new c)"

definition ctrl_Delete :: "('w, 't, 'l) ctrl \<Rightarrow> string \<Rightarrow> string \<Rightarrow> string option \<Rightarrow> 'w \<Rightarrow> goerr option \<times> 'w" where
  "ctrl_Delete c namespace name options =
     ec_Delete (ct_client c) namespace name (case options of None \<Rightarrow> '''' | Some x \<Rightarrow> x)"

definition ctrl_Get :: "('w, 't, 'l) ctrl \<Rightarrow> string \<Rightarrow> string \<Rightarrow> string \<Rightarrow> 'w \<Rightarrow> 't \<times> goerr option" where
  "ctrl_Get c namespace name options = ec_Get (ct_client c) namespace name (ct_new c) options"

definition ctrl_List :: "('w, 't, 'l) ctrl \<Rightarrow> string \<Rightarrow> string \<Rightarrow> 'w \<Rightarrow> 'l \<times> goerr option" where
  "ctrl_List c namespace opts = ec_List (ct_client c) namespace (ct_newList c) opts"

definition ctrl_Patch :: "('w, 't, 'l) ctrl \<Rightarrow> string \<Rightarrow> string \<Rightarrow> patchtype \<Rightarrow> string \<Rightarrow> string list \<Rightarrow> 'w
    \<Rightarrow> ('t \<times> goerr option) \<times> 'w" where
  "ctrl_Patch c namespace name pt data subresources =
     ec_Patch (ct_client c) namespace name pt data (ct_new c) subresources"

definition ctrl_DeleteCollection :: "('w, 't, 'l) ctrl \<Rightarrow> string \<Rightarrow> string \<Rightarrow> string \<Rightarrow> 'w \<Rightarrow> goerr option \<times> 'w" where
  "ctrl_DeleteCollection c namespace deleteOpts listOpts =
     ec_DeleteCollection (ct_client c) namespace deleteOpts listOpts"

text \<open>A copy of the controller whose client impersonates.\<close>

definition ctrl_WithImpersonation :: "('w, 't, 'l) embeddedClient result \<Rightarrow> ('w, 't, 'l) ctrl \<Rightarrow> ('w, 't, 'l) ctrl result" where
  "ctrl_WithImpersonation newClient c =
     (case newClient of
        Inl err \<Rightarrow> Inl (Wrap ''failed to make new client'' err)
      | Inr newClient \<Rightarrow> Inr (c\<lparr>ct_client := newClient\<rparr>))"

text \<open>\<open>Updater\<close>: the result is a new object, never the nil pointer of the type.\<close>

definition ctrl_Updater :: "('w, 't, 'l) ctrl \<Rightarrow> (robj \<Rightarrow> 't option) \<Rightarrow> robj \<Rightarrow> 'w \<Rightarrow> (('t option \<times> goerr option) \<times> 'w) option" where
  "ctrl_Updater c conv obj w =
     map_option (\<lambda>t. case ctrl_Update c t w of ((newObj, err), w) \<Rightarrow> ((Some newObj, err), w)) (conv obj)"

subsection \<open>Kinds without namespaces\<close>

definition NamespaceAll :: string where
  "NamespaceAll = ''''"

definition nn_Delete :: "('w, 't, 'l) ctrl \<Rightarrow> string \<Rightarrow> string option \<Rightarrow> 'w \<Rightarrow> goerr option \<times> 'w" where
  "nn_Delete c name options = ctrl_Delete c NamespaceAll name options"

definition nn_Get :: "('w, 't, 'l) ctrl \<Rightarrow> string \<Rightarrow> string \<Rightarrow> 'w \<Rightarrow> 't \<times> goerr option" where
  "nn_Get c name options = ctrl_Get c NamespaceAll name options"

definition nn_List :: "('w, 't, 'l) ctrl \<Rightarrow> string \<Rightarrow> 'w \<Rightarrow> 'l \<times> goerr option" where
  "nn_List c opts = ctrl_List c NamespaceAll opts"

definition nn_Patch :: "('w, 't, 'l) ctrl \<Rightarrow> string \<Rightarrow> patchtype \<Rightarrow> string \<Rightarrow> string list \<Rightarrow> 'w
    \<Rightarrow> ('t \<times> goerr option) \<times> 'w" where
  "nn_Patch c name pt data subresources = ctrl_Patch c NamespaceAll name pt data subresources"

definition nn_DeleteCollection :: "('w, 't, 'l) ctrl \<Rightarrow> string \<Rightarrow> string \<Rightarrow> 'w \<Rightarrow> goerr option \<times> 'w" where
  "nn_DeleteCollection c deleteOpts listOpts = ctrl_DeleteCollection c NamespaceAll deleteOpts listOpts"

text \<open>The caches: a listing converts with an unchecked assertion, which panics.\<close>

definition Cache_List :: "(string \<Rightarrow> string \<Rightarrow> robj list \<times> goerr option) \<Rightarrow> (robj \<Rightarrow> 't option) \<Rightarrow> string \<Rightarrow> string
    \<Rightarrow> ('t list \<times> goerr option) option" where
  "Cache_List listAll conv namespace selector =
     (case listAll namespace selector of (objs, err) \<Rightarrow>
        if list_ex (\<lambda>m. conv m = None) objs then None else Some (List.map_filter conv objs, err))"

definition nn_Cache_Get :: "(string \<Rightarrow> robj option result) \<Rightarrow> (robj \<Rightarrow> 't option) \<Rightarrow> string \<Rightarrow> 't result" where
  "nn_Cache_Get GetByKey conv name = Cache_Get GetByKey conv NamespaceAll name"

definition nn_Cache_List :: "(string \<Rightarrow> string \<Rightarrow> robj list \<times> goerr option) \<Rightarrow> (robj \<Rightarrow> 't option) \<Rightarrow> string
    \<Rightarrow> ('t list \<times> goerr option) option" where
  "nn_Cache_List listAll conv selector = Cache_List listAll conv NamespaceAll selector"


subsection \<open>Controllers start on synced caches\<close>

datatype gop =
    OSetThreadiness gvk nat
  | OControllerFactory "goerr option"
  | OSync "goerr option" "(gvk \<times> bool) list"
  | OStart "goerr option" "(gvk \<times> bool) list" "goerr option" nat

fun gop_run :: "gop \<Rightarrow> factory \<Rightarrow> factory" where
  "gop_run (OSetThreadiness gvk n) c = SetThreadiness gvk n c"
| "gop_run (OControllerFactory clientErr) c = snd (setControllerFactoryWithLock clientErr c)"
| "gop_run (OSync startErr syncStatus) c = snd (Sync startErr syncStatus c)"
| "gop_run (OStart startErr syncStatus controllersErr n) c = snd (gf_Start startErr syncStatus controllersErr n c)"

definition starts_synced :: "fevent list \<Rightarrow> bool" where
  "starts_synced l \<longleftrightarrow> (\<forall>a k n b. l = a @ ControllersStart k n # b \<longrightarrow>
     (\<exists>a' c syncStatus. a = a' @ [CacheStart c, CacheWait c syncStatus] \<and> list_all snd syncStatus))"

lemma starts_synced_append:
  assumes "starts_synced l" "starts_synced m"
  shows "starts_synced (l @ m)"
  unfolding starts_synced_def
proof (intro allI impI)
  fix a k n b
  assume e: "l @ m = a @ ControllersStart k n # b"
  from append_split[OF e] show "\<exists>a' c st. a = a' @ [CacheStart c, CacheWait c st] \<and> list_all snd st"
  proof (elim disjE exE conjE)
    fix b'
    assume "l = a @ ControllersStart k n # b'"
    with assms(1) show ?thesis unfolding starts_synced_def by blast
  next
    fix a'
    assume a: "a = l @ a'" "m = a' @ ControllersStart k n # b"
    with assms(2) obtain a2 c st where "a' = a2 @ [CacheStart c, CacheWait c st]" "list_all snd st"
      unfolding starts_synced_def by blast
    with a(1) have "a = (l @ a2) @ [CacheStart c, CacheWait c st] \<and> list_all snd st" by simp
    then show ?thesis by blast
  qed
qed

lemma starts_synced_none: "list_all (\<lambda>e. \<forall>k n. e \<noteq> ControllersStart k n) l \<Longrightarrow> starts_synced l"
  by (auto simp: starts_synced_def)

lemma starts_synced_start:
  "list_all snd st \<Longrightarrow> starts_synced [CacheStart c, CacheWait c st, ControllersStart k n]"
  by (auto simp: starts_synced_def Cons_eq_append_conv)

fun is_new_controllers :: "fevent \<Rightarrow> bool" where
  "is_new_controllers (NewControllers _ _) = True" | "is_new_controllers _ = False"

text \<open>What a use of the factory keeps: once there are controllers, they stay and there is a cache; and
  what it adds to the log.\<close>

definition factory_step :: "factory \<Rightarrow> factory \<Rightarrow> bool" where
  "factory_step c c' \<longleftrightarrow> (\<exists>l. fc_log c' = fc_log c @ l \<and> starts_synced l \<and>
     (if fc_controllerFactory c = None
      then length (filter is_new_controllers l) \<le> (if fc_controllerFactory c' = None then 0 else 1)
      else filter is_new_controllers l = [] \<and> fc_controllerFactory c' = fc_controllerFactory c)) \<and>
     (fc_controllerFactory c' \<noteq> None \<longrightarrow> fc_cacheFactory c' \<noteq> None)"

lemma find_synced: "List.find (\<lambda>(g, synced). \<not> synced) st = None \<Longrightarrow> list_all snd st"
  by (induction st) (auto split: if_splits)

lemma gop_run_step:
  assumes "fc_controllerFactory c \<noteq> None \<longrightarrow> fc_cacheFactory c \<noteq> None"
  shows "factory_step c (gop_run op c)"
proof (cases op)
  case (OSetThreadiness gvk n)
  with assms show ?thesis by (simp add: factory_step_def SetThreadiness_def starts_synced_none)
next
  case (OControllerFactory clientErr)
  with assms show ?thesis
    by (cases "fc_controllerFactory c"; cases "fc_cacheFactory c"; cases clientErr)
      (auto simp: factory_step_def setControllerFactoryWithLock_def log_event_def Let_def starts_synced_none)
next
  case (OSync startErr st)
  with assms show ?thesis
    by (cases "fc_cacheFactory c"; cases startErr)
      (auto simp: factory_step_def Sync_def log_event_def Let_def starts_synced_none split: option.split)
next
  case (OStart startErr st ctlErr n)
  show ?thesis
  proof (cases "fc_cacheFactory c")
    case None
    with OStart assms show ?thesis by (simp add: factory_step_def gf_Start_def Sync_def starts_synced_none)
  next
    case (Some cf)
    show ?thesis
    proof (cases startErr)
      case None
      show ?thesis
      proof (cases "List.find (\<lambda>(g, synced). \<not> synced) st")
        case n: None
        from starts_synced_start[OF find_synced[OF n]] show ?thesis
          using OStart Some None n
          by (cases "fc_controllerFactory c")
            (auto simp: factory_step_def gf_Start_def Sync_def log_event_def Let_def starts_synced_none)
      qed (use OStart Some None in \<open>auto simp: factory_step_def gf_Start_def Sync_def log_event_def Let_def starts_synced_none\<close>)
    qed (use OStart Some in \<open>simp add: factory_step_def gf_Start_def Sync_def log_event_def Let_def starts_synced_none\<close>)
  qed
qed

lemma gop_runs_step:
  "fc_controllerFactory c \<noteq> None \<longrightarrow> fc_cacheFactory c \<noteq> None \<Longrightarrow> factory_step c (fold gop_run ops c)"
proof (induction ops arbitrary: c)
  case Nil
  then show ?case by (simp add: factory_step_def starts_synced_none)
next
  case (Cons op ops)
  have 1: "factory_step c (gop_run op c)" by (rule gop_run_step[OF Cons.prems])
  then have "factory_step (gop_run op c) (fold gop_run ops (gop_run op c))"
    by (intro Cons.IH) (simp add: factory_step_def)
  with 1 show ?case
    unfolding factory_step_def by (auto intro: starts_synced_append split: if_splits)
qed


text \<open>However a factory is used, controllers are made at most once and not at all when they were given;
  they are started only right after the caches were started and all of them synced; and every
  caller gets the same controllers.\<close>

theorem controllers_start_synced:
  assumes "c = fold gop_run ops (NewFactory cacheOf opts n)"
  shows "starts_synced (fc_log c) \<and> length (filter is_new_controllers (fc_log c)) \<le> 1 \<and>
    (\<forall>k. opts = Some (x, Some k) \<longrightarrow> filter is_new_controllers (fc_log c) = [] \<and> fc_controllerFactory c = Some k) \<and>
    (\<forall>k. fc_controllerFactory c = Some k \<longrightarrow> fc_controllerFactory (fold gop_run ops' c) = Some k)"
proof -
  let ?c0 = "NewFactory cacheOf opts n"
  have 0: "fc_controllerFactory ?c0 \<noteq> None \<longrightarrow> fc_cacheFactory ?c0 \<noteq> None"
    by (auto simp: NewFactory_def Let_def split: option.splits prod.splits)
  have l: "fc_log ?c0 = []" "opts = Some (x, Some k) \<Longrightarrow> fc_controllerFactory ?c0 = Some k" for k
    by (auto simp: NewFactory_def Let_def split: option.splits)
  from gop_runs_step[OF 0, of ops] assms have 1: "factory_step ?c0 c" by simp
  then have "factory_step c (fold gop_run ops' c)" by (intro gop_runs_step) (simp add: factory_step_def)
  then have k: "\<forall>k. fc_controllerFactory c = Some k \<longrightarrow> fc_controllerFactory (fold gop_run ops' c) = Some k"
    by (auto simp: factory_step_def)
  have s: "starts_synced (fc_log c)" using 1 l(1) by (auto simp: factory_step_def)
  have n: "length (filter is_new_controllers (fc_log c)) \<le> 1"
    using 1 l(1) by (auto simp: factory_step_def split: if_splits)
  have o: "\<forall>k. opts = Some (x, Some k) \<longrightarrow> filter is_new_controllers (fc_log c) = [] \<and> fc_controllerFactory c = Some k"
    using 1 l by (auto simp: factory_step_def split: if_splits)
  from s n o k show ?thesis by blast
qed

definition factory_ops :: "gop list" where
  "factory_ops = [OControllerFactory None, OStart None [(gvk_zero, True)] None 5, OStart None [(gvk_zero, False)] None 5,
     OControllerFactory None]"

theorem controllers_start_synced_witness:
  "fc_log (fold gop_run factory_ops (NewFactory id None 0))
    = [NewClient, NewCache 0, NewControllers 1 0, CacheStart 0, CacheWait 0 [(gvk_zero, True)], ControllersStart 1 5,
       CacheStart 0, CacheWait 0 [(gvk_zero, False)]] \<and>
   starts_synced (fc_log (fold gop_run factory_ops (NewFactory id None 0)))"
proof
  show "fc_log (fold gop_run factory_ops (NewFactory id None 0))
    = [NewClient, NewCache 0, NewControllers 1 0, CacheStart 0, CacheWait 0 [(gvk_zero, True)], ControllersStart 1 5,
       CacheStart 0, CacheWait 0 [(gvk_zero, False)]]" by code_simp
  show "starts_synced (fc_log (fold gop_run factory_ops (NewFactory id None 0)))"
    using controllers_start_synced[OF refl, of factory_ops id None 0 None factory_ops] by blast
qed

subsection \<open>A failed update\<close>

text \<open>The update of a typed controller returns a new object together with the error, not nil: where the
  client leaves it alone, an empty one.\<close>

lemma failed_update_returns_empty:
  assumes "conv obj = Some t" "ec_Update (ct_client c) (ct_namespace c t) t (ct_new c) w = ((ct_new c, Some err), w)"
  shows "ctrl_Updater c conv obj w = Some ((Some (ct_new c), Some err), w)"
  using assms by (simp add: ctrl_Updater_def ctrl_Update_def)

end
