(* ===== verification/Startup.thy ===== *)
theory Startup
  imports Generic_Factory
begin

section \<open>Starting and stopping a controller: pkg/start, pkg/clients, pkg/schemes, pkg/k8scheck, pkg/signals, pkg/ticker\<close>

text \<open>
  What a program does around its controllers: wait for the API server, sync and start every factory, cancel
  the work on a signal and pass on the ticks of a clock. The factories are those of \<open>Generic_Factory\<close>.
\<close>

subsection \<open>start/all.go\<close>

record 'w starter =
  st_Sync :: "'w \<Rightarrow> goerr option \<times> 'w"
  st_Start :: "nat \<Rightarrow> 'w \<Rightarrow> goerr option \<times> 'w"

text \<open>An error group runs the calls at the same time and keeps the first error; \<open>finished\<close> is the order in
  which the calls end, and \<open>Wait\<close> returns when all did.\<close>

fun sync_all :: "'w starter list \<Rightarrow> goerr option \<Rightarrow> 'w \<Rightarrow> goerr option \<times> 'w" where
  "sync_all [] e w = (e, w)"
| "sync_all (starter # finished) e w =
     (case st_Sync starter w of (e', w) \<Rightarrow> sync_all finished (case e of Some _ \<Rightarrow> e | None \<Rightarrow> e') w)"

definition start_Sync :: "'w starter list \<Rightarrow> 'w \<Rightarrow> goerr option \<times> 'w" where
  "start_Sync finished w = sync_all finished None w"

fun start_Start :: "nat \<Rightarrow> 'w starter list \<Rightarrow> 'w \<Rightarrow> goerr option \<times> 'w" where
  "start_Start threadiness [] w = (None, w)"
| "start_Start threadiness (starter # starters) w =
     (case st_Start starter threadiness w of
        (Some err, w) \<Rightarrow> (Some err, w)
      | (None, w) \<Rightarrow> start_Start threadiness starters w)"

definition start_All :: "'w starter list \<Rightarrow> nat \<Rightarrow> 'w starter list \<Rightarrow> 'w \<Rightarrow> goerr option \<times> 'w" where
  "start_All finished threadiness starters w =
     (case start_Sync finished w of
        (Some err, w) \<Rightarrow> (Some err, w)
      | (None, w) \<Rightarrow> start_Start threadiness starters w)"

subsection \<open>clients.go: one controller factory for all clients\<close>

text \<open>The options of a factory are the pair of its shared cache factory and controller factory. The new options
  name the controller factory of a factory made with the given ones, and its cache.\<close>

definition ensureSharedFactory ::
    "(nat \<Rightarrow> nat) \<Rightarrow> goerr option \<Rightarrow> (nat option \<times> nat option) option \<Rightarrow> nat \<Rightarrow> ((nat option \<times> nat option) \<times> factory) option" where
  "ensureSharedFactory cacheOf clientErr opts n =
     (let f = NewFactory cacheOf opts n in
      case ControllerFactory clientErr f of
        None \<Rightarrow> None
      | Some (k, f) \<Rightarrow> Some ((map_option cacheOf k, k), f))"

lemma ControllerFactory_Some: "ControllerFactory e f = Some (k, f') \<Longrightarrow> k = fc_controllerFactory f' \<and> k \<noteq> None"
  by (auto simp: ControllerFactory_def setControllerFactoryWithLock_def Let_def log_event_def
      split: option.splits prod.splits sum.splits if_splits)

text \<open>Every factory that is made with these options works with the same controllers, and makes none of its own.\<close>

lemma ensured_factory_shared:
  assumes "ensureSharedFactory cacheOf clientErr opts n = Some (opts', f)"
  shows "\<exists>k. opts' = (Some (cacheOf k), Some k) \<and>
    ControllerFactory e (NewFactory cacheOf (Some opts') m) = Some (Some k, NewFactory cacheOf (Some opts') m)"
proof -
  from assms obtain k where c: "ControllerFactory clientErr (NewFactory cacheOf opts n) = Some (k, f)"
    and o: "opts' = (map_option cacheOf k, k)"
    by (auto simp: ensureSharedFactory_def Let_def split: option.splits)
  from ControllerFactory_Some[OF c] obtain k' where "k = Some k'" by auto
  with o show ?thesis by (simp add: ControllerFactory_def setControllerFactoryWithLock_def NewFactory_def)
qed

subsection \<open>schemes/all.go\<close>

text \<open>A scheme builder is the list of the functions that add types to a scheme.\<close>

fun builder_AddToScheme :: "('s \<Rightarrow> goerr option \<times> 's) list \<Rightarrow> 's \<Rightarrow> goerr option \<times> 's" where
  "builder_AddToScheme [] s = (None, s)"
| "builder_AddToScheme (f # fs) s =
     (case f s of (Some err, s) \<Rightarrow> (Some err, s) | (None, s) \<Rightarrow> builder_AddToScheme fs s)"

definition schemes_Register ::
    "('s \<Rightarrow> goerr option \<times> 's) \<Rightarrow> ('s \<Rightarrow> goerr option \<times> 's) list \<Rightarrow> 's
     \<Rightarrow> goerr option \<times> ('s \<Rightarrow> goerr option \<times> 's) list \<times> 's" where
  "schemes_Register addToScheme builder all =
     (let builder = builder @ [addToScheme] in
      case addToScheme all of (e, all) \<Rightarrow> (e, builder, all))"

definition schemes_AddToScheme :: "('s \<Rightarrow> goerr option \<times> 's) list \<Rightarrow> 's \<Rightarrow> goerr option \<times> 's" where
  "schemes_AddToScheme builder s = builder_AddToScheme builder s"

lemma builder_append:
  "builder_AddToScheme (fs @ gs) s =
     (case builder_AddToScheme fs s of (Some err, s) \<Rightarrow> (Some err, s) | (None, s) \<Rightarrow> builder_AddToScheme gs s)"
  by (induction fs arbitrary: s) (auto split: prod.splits option.splits)

text \<open>A scheme of one's own gets what the registrations gave the shared one, while they succeed.\<close>

lemma AddToScheme_repeats_registrations:
  assumes "schemes_AddToScheme builder empty = (None, all)" "schemes_Register f builder all = (None, builder', all')"
  shows "schemes_AddToScheme builder' empty = (None, all')"
  using assms by (auto simp: schemes_AddToScheme_def schemes_Register_def builder_append Let_def split: prod.splits)

subsection \<open>k8scheck: waiting for the server\<close>

text \<open>\<open>ready i\<close> is the answer of the server to the \<open>i\<close>-th question, \<open>cancelled i\<close> whether the context is
  done while the code waits after it. The loop may run for ever.\<close>

partial_function (option) wait_server :: "(nat \<Rightarrow> bool) \<Rightarrow> (nat \<Rightarrow> bool) \<Rightarrow> nat \<Rightarrow> goerr option option" where
  "wait_server ready cancelled i =
     (if ready i then Some None
      else if cancelled i then Some (Some (Err ''startup canceled''))
      else wait_server ready cancelled (Suc i))"

definition k8s_Wait :: "goerr option \<Rightarrow> (nat \<Rightarrow> bool) \<Rightarrow> (nat \<Rightarrow> bool) \<Rightarrow> goerr option option" where
  "k8s_Wait clientErr ready cancelled =
     (case clientErr of Some err \<Rightarrow> Some (Some err) | None \<Rightarrow> wait_server ready cancelled 0)"

lemma wait_server_first:
  assumes "ready (i + d) \<or> cancelled (i + d)" "\<forall>j < d. \<not> ready (i + j) \<and> \<not> cancelled (i + j)"
  shows "wait_server ready cancelled i = Some (if ready (i + d) then None else Some (Err ''startup canceled''))"
  using assms
proof (induction d arbitrary: i)
  case 0
  then show ?case by (subst wait_server.simps) auto
next
  case (Suc d)
  from Suc.prems(2)[rule_format, of 0] have "\<not> ready i" "\<not> cancelled i" by auto
  moreover have "wait_server ready cancelled (Suc i)
      = Some (if ready (Suc i + d) then None else Some (Err ''startup canceled''))"
    using Suc.IH[of "Suc i"] Suc.prems(1) Suc.prems(2)[rule_format, of "Suc _"] by simp
  ultimately show ?case by (subst wait_server.simps) simp
qed

lemma wait_server_returns:
  assumes "ready n \<or> cancelled n"
  shows "\<exists>r. k8s_Wait None ready cancelled = Some r \<and> (r = None \<longrightarrow> (\<exists>m \<le> n. ready m))"
proof -
  from assms obtain d where "d \<le> n" "ready d \<or> cancelled d" "\<forall>j < d. \<not> (ready j \<or> cancelled j)"
    using ex_least_nat_le[of "\<lambda>d. ready d \<or> cancelled d" n] by blast
  with wait_server_first[of ready 0 d cancelled] show ?thesis by (auto simp: k8s_Wait_def)
qed

subsection \<open>signals/signal.go\<close>

text \<open>The goroutine of the handler waits for a first signal, cancels the context, waits for a second one and
  exits. \<open>sg_closed\<close>: whether the channel \<open>onlyOneSignalHandler\<close> is closed; \<open>sg_chan\<close>: the channel of the
  signals, which is nil before the set-up and holds two.\<close>

datatype sigphase = NoHandler | AwaitFirst | AwaitSecond | Exited

record sigst =
  sg_closed :: bool
  sg_chan :: "string list option"
  sg_cancelled :: bool
  sg_phase :: sigphase

definition sigst0 :: sigst where
  "sigst0 = \<lparr>sg_closed = False, sg_chan = None, sg_cancelled = False, sg_phase = NoHandler\<rparr>"

text \<open>Closing a closed channel panics: \<open>None\<close>.\<close>

definition SetupSignalContext :: "sigst \<Rightarrow> sigst option" where
  "SetupSignalContext s =
     (if sg_closed s then None
      else Some (s\<lparr>sg_closed := True, sg_chan := Some [], sg_phase := AwaitFirst\<rparr>))"

text \<open>A send that does not block, as the runtime delivers a signal and as the code sends one itself.\<close>

definition try_send :: "string \<Rightarrow> sigst \<Rightarrow> bool \<times> sigst" where
  "try_send sig s =
     (case sg_chan s of
        None \<Rightarrow> (False, s)
      | Some q \<Rightarrow> if length q < 2 then (True, s\<lparr>sg_chan := Some (q @ [sig])\<rparr>) else (False, s))"

definition RequestShutdown :: "sigst \<Rightarrow> bool \<times> sigst" where
  "RequestShutdown s = try_send ''interrupt'' s"

text \<open>The goroutine goes on when there is a signal; \<open>None\<close>: it waits.\<close>

definition signal_handler :: "sigst \<Rightarrow> sigst option" where
  "signal_handler s =
     (case (sg_phase s, sg_chan s) of
        (AwaitFirst, Some (sig # q)) \<Rightarrow> Some (s\<lparr>sg_chan := Some q, sg_cancelled := True, sg_phase := AwaitSecond\<rparr>)
      | (AwaitSecond, Some (sig # q)) \<Rightarrow> Some (s\<lparr>sg_chan := Some q, sg_phase := Exited\<rparr>)
      | _ \<Rightarrow> None)"

text \<open>A run of the process, with the number of signals that were accepted.\<close>

inductive sig_step :: "sigst \<times> nat \<Rightarrow> sigst \<times> nat \<Rightarrow> bool" where
  set_up: "sg_phase s \<noteq> Exited \<Longrightarrow> SetupSignalContext s = Some s' \<Longrightarrow> sig_step (s, n) (s', n)"
| signal: "sg_phase s \<noteq> Exited \<Longrightarrow> try_send sig s = (ok, s') \<Longrightarrow> sig_step (s, n) (s', if ok then Suc n else n)"
| request: "sg_phase s \<noteq> Exited \<Longrightarrow> RequestShutdown s = (ok, s') \<Longrightarrow> sig_step (s, n) (s', if ok then Suc n else n)"
| handle: "signal_handler s = Some s' \<Longrightarrow> sig_step (s, n) (s', n)"

fun received :: "sigphase \<Rightarrow> nat" where
  "received NoHandler = 0"
| "received AwaitFirst = 0"
| "received AwaitSecond = 1"
| "received Exited = 2"

definition sig_inv :: "sigst \<times> nat \<Rightarrow> bool" where
  "sig_inv = (\<lambda>(s, n).
     (sg_closed s \<longleftrightarrow> sg_phase s \<noteq> NoHandler) \<and> (sg_chan s = None \<longleftrightarrow> sg_phase s = NoHandler) \<and>
     (sg_cancelled s \<longleftrightarrow> sg_phase s \<in> {AwaitSecond, Exited}) \<and>
     n = received (sg_phase s) + length (case sg_chan s of None \<Rightarrow> [] | Some q \<Rightarrow> q))"

lemma sig_step_inv: "sig_step x y \<Longrightarrow> sig_inv x \<Longrightarrow> sig_inv y"
  by (induction rule: sig_step.induct)
    (auto simp: sig_inv_def SetupSignalContext_def RequestShutdown_def try_send_def signal_handler_def
      split: if_splits option.splits sigphase.splits list.splits)

lemma sig_steps_inv: "sig_step\<^sup>*\<^sup>* (sigst0, 0) y \<Longrightarrow> sig_inv y"
  by (induction rule: rtranclp_induct) (auto simp: sig_inv_def sigst0_def dest: sig_step_inv)

text \<open>The process exits only on a second signal, with the context cancelled on the first; and as long as a
  signal that was accepted did not cancel the context, the handler can go on and cancel it.\<close>

theorem signals_safe:
  assumes "sig_step\<^sup>*\<^sup>* (sigst0, 0) (s, n)"
  shows "(sg_phase s = Exited \<longrightarrow> n \<ge> 2 \<and> sg_cancelled s) \<and> (sg_cancelled s \<longrightarrow> n \<ge> 1) \<and>
    (n \<ge> 1 \<and> \<not> sg_cancelled s \<longrightarrow> (\<exists>s'. signal_handler s = Some s' \<and> sg_cancelled s')) \<and>
    (sg_phase s \<noteq> NoHandler \<longrightarrow> SetupSignalContext s = None)"
  using sig_steps_inv[OF assms]
  by (cases "sg_phase s")
    (auto simp: sig_inv_def signal_handler_def SetupSignalContext_def split: option.splits list.splits)

theorem signals_safe_witness:
  "\<exists>s. sig_step\<^sup>*\<^sup>* (sigst0, 0) (s, 1) \<and> \<not> sg_cancelled s \<and> (\<exists>s'. signal_handler s = Some s' \<and> sg_cancelled s')"
proof -
  let ?a = "sigst0\<lparr>sg_closed := True, sg_chan := Some [], sg_phase := AwaitFirst\<rparr>"
  let ?b = "?a\<lparr>sg_chan := Some [''interrupt'']\<rparr>"
  have 1: "sig_step (sigst0, 0) (?a, 0)"
    by (rule set_up) (simp_all add: SetupSignalContext_def sigst0_def)
  have 2: "sig_step (?a, 0) (?b, 1)"
    using request[of ?a True ?b 0] by (simp add: RequestShutdown_def try_send_def sigst0_def)
  from 1 2 have s: "sig_step\<^sup>*\<^sup>* (sigst0, 0) (?b, 1)" by (meson converse_rtranclp_into_rtranclp rtranclp.rtrancl_refl)
  moreover have "\<not> sg_cancelled ?b" by (simp add: sigst0_def)
  ultimately show ?thesis using signals_safe[OF s] by blast
qed

subsection \<open>ticker/ticker.go\<close>

text \<open>The goroutine waits for a tick or the end of the context, and sends a tick on to a reader; the send
  blocks until the tick is read. \<open>tk_C\<close>: the channel of the clock, which holds one tick and drops others.\<close>

datatype tphase = TSelect | TSend nat | TDone

record tickst =
  tk_C :: "nat option"
  tk_phase :: tphase
  tk_ctx_done :: bool
  tk_closed :: bool
  tk_stopped :: bool
  tk_read :: "nat list"

definition tickst0 :: tickst where
  "tickst0 = \<lparr>tk_C = None, tk_phase = TSelect, tk_ctx_done = False, tk_closed = False, tk_stopped = False, tk_read = []\<rparr>"

inductive tick_step :: "bool \<Rightarrow> tickst \<Rightarrow> tickst \<Rightarrow> bool" where
  clock: "\<not> tk_stopped s \<Longrightarrow> tick_step r s (s\<lparr>tk_C := Some (case tk_C s of None \<Rightarrow> t | Some u \<Rightarrow> u)\<rparr>)"
| cancel: "tick_step r s (s\<lparr>tk_ctx_done := True\<rparr>)"
| take_tick: "tk_phase s = TSelect \<Longrightarrow> tk_C s = Some t \<Longrightarrow> tick_step r s (s\<lparr>tk_C := None, tk_phase := TSend t\<rparr>)"
| read_tick: "tk_phase s = TSend t \<Longrightarrow> tick_step True s (s\<lparr>tk_phase := TSelect, tk_read := tk_read s @ [t]\<rparr>)"
| finish: "tk_phase s = TSelect \<Longrightarrow> tk_ctx_done s \<Longrightarrow>
    tick_step r s (s\<lparr>tk_phase := TDone, tk_closed := True, tk_stopped := True\<rparr>)"

inductive_cases tick_stepE: "tick_step r s s'"

definition tick_inv :: "tickst \<Rightarrow> bool" where
  "tick_inv s \<longleftrightarrow> (tk_closed s \<longleftrightarrow> tk_phase s = TDone) \<and> (tk_stopped s \<longleftrightarrow> tk_closed s) \<and>
     (tk_closed s \<longrightarrow> tk_ctx_done s)"

lemma tick_step_inv: "tick_step r s s' \<Longrightarrow> tick_inv s \<Longrightarrow> tick_inv s'"
  by (erule tick_stepE) (auto simp: tick_inv_def)

lemma ticker_closes_after_cancel:
  "(tick_step r)\<^sup>*\<^sup>* tickst0 s \<Longrightarrow> tk_closed s \<Longrightarrow> tk_ctx_done s \<and> tk_stopped s"
proof -
  assume "(tick_step r)\<^sup>*\<^sup>* tickst0 s" "tk_closed s"
  from this(1) have "tick_inv s"
    by (induction rule: rtranclp_induct) (auto simp: tick_inv_def tickst0_def dest: tick_step_inv[unfolded tick_inv_def])
  with \<open>tk_closed s\<close> show ?thesis by (auto simp: tick_inv_def)
qed

text \<open>A reader that leaves when the context ends can leave a tick behind: then the channel is never closed and
  the clock never stopped, because the send does not look at the context.\<close>

lemma abandoned_ticker_never_stops:
  "(tick_step False)\<^sup>*\<^sup>* s s' \<Longrightarrow> tk_phase s = TSend t \<Longrightarrow> tick_inv s
    \<Longrightarrow> tk_phase s' = TSend t \<and> \<not> tk_closed s' \<and> \<not> tk_stopped s'"
proof (induction rule: rtranclp_induct)
  case base
  then show ?case by (auto simp: tick_inv_def)
next
  case (step y z)
  from step.hyps(2) show ?case using step.IH[OF step.prems] by (auto elim!: tick_stepE)
qed

subsection \<open>Starting several factories\<close>

text \<open>The factories of a program and the events of all of them in one log, each with its factory.\<close>

record fleet =
  fl_factories :: "factory list"
  fl_log :: "(nat \<times> fevent) list"

definition on_factory :: "nat \<Rightarrow> (factory \<Rightarrow> goerr option \<times> factory) \<Rightarrow> fleet \<Rightarrow> goerr option \<times> fleet" where
  "on_factory i f w =
     (let c = fl_factories w ! i in
      case f c of (e, c') \<Rightarrow>
        (e, \<lparr>fl_factories = (fl_factories w)[i := c'],
             fl_log = fl_log w @ map (Pair i) (drop (length (fc_log c)) (fc_log c'))\<rparr>))"

text \<open>\<open>ans i\<close> is what the cluster answers to factory \<open>i\<close>: to its first synchronisation, to the one that
  \<open>Start\<close> repeats, and to the start of its controllers.\<close>

type_synonym sync_answer = "goerr option \<times> (gvk \<times> bool) list"

definition factory_starter :: "(nat \<Rightarrow> sync_answer \<times> sync_answer \<times> goerr option) \<Rightarrow> nat \<Rightarrow> fleet starter" where
  "factory_starter ans i =
     (case ans i of (first, again, controllersErr) \<Rightarrow>
       \<lparr>st_Sync = on_factory i (Sync (fst first) (snd first)),
        st_Start = (\<lambda>n. on_factory i (gf_Start (fst again) (snd again) controllersErr n))\<rparr>)"

definition extends :: "factory \<Rightarrow> fevent list \<Rightarrow> factory \<Rightarrow> bool" where
  "extends c evs c' \<longleftrightarrow> fc_log c' = fc_log c @ evs \<and> fc_cacheFactory c' = fc_cacheFactory c \<and>
     fc_controllerFactory c' = fc_controllerFactory c"

lemma Sync_extends:
  assumes "Sync a b c = (e, c')"
  shows "\<exists>evs. extends c evs c' \<and> (\<forall>k n. ControllersStart k n \<notin> set evs) \<and>
    (e = None \<longrightarrow> (\<forall>cf. fc_cacheFactory c = Some cf \<longrightarrow> CacheWait cf b \<in> set evs \<and> list_all snd b))"
  using assms
  by (cases a; cases "fc_cacheFactory c"; cases "List.find (\<lambda>(g, synced). \<not> synced) b")
    (fastforce simp: Sync_def extends_def log_event_def find_None_iff list_all_iff)+

lemma gf_Start_extends:
  assumes "gf_Start a b k n c = (e, c')"
  shows "\<exists>evs. extends c evs c' \<and>
    (e = None \<longrightarrow> (\<forall>j. fc_controllerFactory c = Some j \<longrightarrow> ControllersStart j n \<in> set evs))"
proof (cases "Sync a b c")
  case (Pair r d)
  from Sync_extends[OF this] obtain evs where e: "extends c evs d" by blast
  show ?thesis
  proof (cases "r = None \<and> fc_controllerFactory d \<noteq> None")
    case True
    with assms Pair e show ?thesis
      by (intro exI[of _ "evs @ [ControllersStart (the (fc_controllerFactory d)) n]"])
        (auto simp: gf_Start_def extends_def log_event_def)
  next
    case False
    with assms Pair e show ?thesis
      by (intro exI[of _ evs]) (auto simp: gf_Start_def extends_def split: option.splits)
  qed
qed

text \<open>What a call on one factory does to the fleet.\<close>

definition fleet_extends :: "fleet \<Rightarrow> (nat \<times> fevent) list \<Rightarrow> fleet \<Rightarrow> bool" where
  "fleet_extends w evs w' \<longleftrightarrow> fl_log w' = fl_log w @ evs \<and> length (fl_factories w') = length (fl_factories w) \<and>
     (\<forall>i < length (fl_factories w). fc_cacheFactory (fl_factories w' ! i) = fc_cacheFactory (fl_factories w ! i) \<and>
        fc_controllerFactory (fl_factories w' ! i) = fc_controllerFactory (fl_factories w ! i))"

lemma fleet_extends_refl: "fleet_extends w [] w"
  by (simp add: fleet_extends_def)

lemma fleet_extends_trans: "fleet_extends u a v \<Longrightarrow> fleet_extends v b w \<Longrightarrow> fleet_extends u (a @ b) w"
  by (simp add: fleet_extends_def)

lemma nth_update_if: "j < length xs \<Longrightarrow> xs[i := x] ! j = (if j = i then x else xs ! j)"
  by (cases "j = i") auto

lemma on_factory_extends:
  assumes "on_factory i f w = (e, w')" "f (fl_factories w ! i) = (e', c')" "extends (fl_factories w ! i) evs c'"
  shows "e = e' \<and> fleet_extends w (map (Pair i) evs) w'"
  using assms by (auto simp: on_factory_def Let_def fleet_extends_def extends_def nth_update_if)

lemma starter_Sync:
  assumes "st_Sync (factory_starter ans i) w = (e, w')"
  shows "\<exists>evs. fleet_extends w evs w' \<and> (\<forall>j k n. (j, ControllersStart k n) \<notin> set evs) \<and>
    (e = None \<longrightarrow> (\<forall>cf. fc_cacheFactory (fl_factories w ! i) = Some cf
        \<longrightarrow> (\<exists>b. (i, CacheWait cf b) \<in> set evs \<and> list_all snd b)))"
proof -
  obtain a b r k where ans: "ans i = ((a, b), r, k)" by (metis prod_cases3 surj_pair)
  obtain e' c' where s: "Sync a b (fl_factories w ! i) = (e', c')" by fastforce
  from assms ans have o: "on_factory i (Sync a b) w = (e, w')" by (simp add: factory_starter_def)
  from Sync_extends[OF s] obtain evs where evs: "extends (fl_factories w ! i) evs c'"
    "\<forall>k n. ControllersStart k n \<notin> set evs"
    "e' = None \<longrightarrow> (\<forall>cf. fc_cacheFactory (fl_factories w ! i) = Some cf \<longrightarrow> CacheWait cf b \<in> set evs \<and> list_all snd b)"
    by blast
  from on_factory_extends[OF o s evs(1)] evs(2,3) show ?thesis
    by (intro exI[of _ "map (Pair i) evs"]) (auto simp: image_iff)
qed

lemma starter_Start:
  assumes "st_Start (factory_starter ans i) n w = (e, w')"
  shows "\<exists>evs. fleet_extends w evs w' \<and>
    (e = None \<longrightarrow> (\<forall>k. fc_controllerFactory (fl_factories w ! i) = Some k \<longrightarrow> (i, ControllersStart k n) \<in> set evs))"
proof -
  obtain r a b k where ans: "ans i = (r, (a, b), k)" by (metis prod_cases3 surj_pair)
  obtain e' c' where s: "gf_Start a b k n (fl_factories w ! i) = (e', c')" by fastforce
  from assms ans have o: "on_factory i (gf_Start a b k n) w = (e, w')" by (cases r) (simp add: factory_starter_def)
  from gf_Start_extends[OF s] obtain evs where evs: "extends (fl_factories w ! i) evs c'"
    "e' = None \<longrightarrow> (\<forall>j. fc_controllerFactory (fl_factories w ! i) = Some j \<longrightarrow> ControllersStart j n \<in> set evs)"
    by blast
  from on_factory_extends[OF o s evs(1)] evs(2) show ?thesis
    by (intro exI[of _ "map (Pair i) evs"]) auto
qed

lemma sync_all_error: "sync_all sts (Some err) w = (r, w') \<Longrightarrow> r = Some err"
  by (induction sts arbitrary: w) (auto split: prod.splits)

lemma sync_all_fleet:
  assumes "sync_all (map (factory_starter ans) is) e w = (r, w')"
  shows "\<exists>evs. fleet_extends w evs w' \<and> (\<forall>j k n. (j, ControllersStart k n) \<notin> set evs) \<and>
    (r = None \<longrightarrow> (\<forall>i \<in> set is. i < length (fl_factories w) \<longrightarrow> (\<forall>cf. fc_cacheFactory (fl_factories w ! i) = Some cf
        \<longrightarrow> (\<exists>b. (i, CacheWait cf b) \<in> set evs \<and> list_all snd b))))"
  using assms
proof (induction "is" arbitrary: e w)
  case Nil
  then show ?case by (auto intro!: exI[of _ "[]"] simp: fleet_extends_refl)
next
  case (Cons i "is")
  obtain e' v where s: "st_Sync (factory_starter ans i) w = (e', v)" by fastforce
  let ?e = "case e of Some _ \<Rightarrow> e | None \<Rightarrow> e'"
  from Cons.prems s have t: "sync_all (map (factory_starter ans) is) ?e v = (r, w')" by simp
  from starter_Sync[OF s] obtain a where a: "fleet_extends w a v" "\<forall>j k n. (j, ControllersStart k n) \<notin> set a"
    "e' = None \<longrightarrow> (\<forall>cf. fc_cacheFactory (fl_factories w ! i) = Some cf
        \<longrightarrow> (\<exists>b. (i, CacheWait cf b) \<in> set a \<and> list_all snd b))" by blast
  from Cons.IH[OF t] obtain b where b: "fleet_extends v b w'" "\<forall>j k n. (j, ControllersStart k n) \<notin> set b"
    "r = None \<longrightarrow> (\<forall>i \<in> set is. i < length (fl_factories v) \<longrightarrow> (\<forall>cf. fc_cacheFactory (fl_factories v ! i) = Some cf
        \<longrightarrow> (\<exists>l. (i, CacheWait cf l) \<in> set b \<and> list_all snd l)))" by blast
  have n: "r = None \<Longrightarrow> e' = None"
    using t by (cases e; cases e') (auto dest: sync_all_error)
  from fleet_extends_trans[OF a(1) b(1)] a(1) a(2,3) b(2,3) n show ?case
    by (intro exI[of _ "a @ b"]) (auto simp: fleet_extends_def; blast)
qed

lemma start_Start_fleet:
  assumes "start_Start n (map (factory_starter ans) is) w = (r, w')"
  shows "\<exists>evs. fleet_extends w evs w' \<and>
    (r = None \<longrightarrow> (\<forall>i \<in> set is. i < length (fl_factories w) \<longrightarrow> (\<forall>k. fc_controllerFactory (fl_factories w ! i) = Some k
        \<longrightarrow> (i, ControllersStart k n) \<in> set evs)))"
  using assms
proof (induction "is" arbitrary: w)
  case Nil
  then show ?case by (auto intro!: exI[of _ "[]"] simp: fleet_extends_refl)
next
  case (Cons i "is")
  obtain e v where s: "st_Start (factory_starter ans i) n w = (e, v)" by fastforce
  from starter_Start[OF s] obtain a where a: "fleet_extends w a v"
    "e = None \<longrightarrow> (\<forall>k. fc_controllerFactory (fl_factories w ! i) = Some k \<longrightarrow> (i, ControllersStart k n) \<in> set a)"
    by blast
  show ?case
  proof (cases e)
    case None
    with Cons.prems s have "start_Start n (map (factory_starter ans) is) v = (r, w')" by simp
    from Cons.IH[OF this] obtain b where b: "fleet_extends v b w'"
      "r = None \<longrightarrow> (\<forall>i \<in> set is. i < length (fl_factories v) \<longrightarrow> (\<forall>k. fc_controllerFactory (fl_factories v ! i) = Some k
        \<longrightarrow> (i, ControllersStart k n) \<in> set b))" by blast
    from fleet_extends_trans[OF a(1) b(1)] a b None show ?thesis
      by (intro exI[of _ "a @ b"]) (auto simp: fleet_extends_def)
  next
    case (Some err)
    with Cons.prems s a show ?thesis by auto
  qed
qed

text \<open>C27: In whatever order the synchronisations end: no controller of any factory starts before the caches of
  every factory were seen synced, and when \<open>All\<close> succeeds the controllers of every factory were started.\<close>

theorem all_start_synced:
  assumes "set finished = {0..<length (fl_factories w)}" "fl_log w = []"
    "start_All (map (factory_starter ans) finished) n (map (factory_starter ans) [0..<length (fl_factories w)]) w = (r, w')"
  shows "(\<forall>p i k m j cf. p < length (fl_log w') \<and> fl_log w' ! p = (i, ControllersStart k m) \<and>
      j < length (fl_factories w) \<and> fc_cacheFactory (fl_factories w ! j) = Some cf
        \<longrightarrow> (\<exists>q < p. \<exists>status. fl_log w' ! q = (j, CacheWait cf status) \<and> list_all snd status)) \<and>
    (r = None \<longrightarrow> (\<forall>i < length (fl_factories w). \<forall>k. fc_controllerFactory (fl_factories w ! i) = Some k
        \<longrightarrow> (i, ControllersStart k n) \<in> set (fl_log w')))"
proof -
  obtain e v where s: "sync_all (map (factory_starter ans) finished) None w = (e, v)" by fastforce
  from sync_all_fleet[OF s] obtain a where a: "fleet_extends w a v" "\<forall>j k n. (j, ControllersStart k n) \<notin> set a"
    "e = None \<longrightarrow> (\<forall>i \<in> set finished. i < length (fl_factories w) \<longrightarrow> (\<forall>cf. fc_cacheFactory (fl_factories w ! i) = Some cf
        \<longrightarrow> (\<exists>b. (i, CacheWait cf b) \<in> set a \<and> list_all snd b)))" by blast
  show ?thesis
  proof (cases e)
    case (Some err)
    with assms(3) s have "r = Some err" "w' = v" by (auto simp: start_All_def start_Sync_def)
    moreover have "fl_log v = a" using a(1) assms(2) by (simp add: fleet_extends_def)
    ultimately show ?thesis using a(2) nth_mem by fastforce
  next
    case None
    with assms(3) s have "start_Start n (map (factory_starter ans) [0..<length (fl_factories w)]) v = (r, w')"
      by (simp add: start_All_def start_Sync_def)
    from start_Start_fleet[OF this] obtain b where b: "fleet_extends v b w'"
      "r = None \<longrightarrow> (\<forall>i < length (fl_factories w). i < length (fl_factories v) \<longrightarrow>
        (\<forall>k. fc_controllerFactory (fl_factories v ! i) = Some k \<longrightarrow> (i, ControllersStart k n) \<in> set b))" by auto
    have l: "fl_log w' = a @ b" using a(1) b(1) assms(2) by (simp add: fleet_extends_def)
    have "\<exists>q < p. \<exists>status. fl_log w' ! q = (j, CacheWait cf status) \<and> list_all snd status"
      if p: "p < length (fl_log w')" "fl_log w' ! p = (i, ControllersStart k m)" "j < length (fl_factories w)"
        "fc_cacheFactory (fl_factories w ! j) = Some cf" for p i k m j cf
    proof -
      from p(2) a(2) l have "\<not> p < length a" by (metis nth_append nth_mem)
      moreover from a(3) None assms(1) p(3,4) obtain status where "(j, CacheWait cf status) \<in> set a" "list_all snd status"
        by fastforce
      then obtain q where "q < length a" "a ! q = (j, CacheWait cf status)" by (metis in_set_conv_nth)
      ultimately show ?thesis using l \<open>list_all snd status\<close> by (intro exI[of _ q]) (auto simp: nth_append)
    qed
    moreover have "r = None \<Longrightarrow> i < length (fl_factories w) \<Longrightarrow> fc_controllerFactory (fl_factories w ! i) = Some k
        \<Longrightarrow> (i, ControllersStart k n) \<in> set (fl_log w')" for i k
      using a(1) b(2) l by (simp add: fleet_extends_def)
    ultimately show ?thesis by blast
  qed
qed

text \<open>Two factories that share a cache, synchronised in the other order.\<close>

definition fleet0 :: fleet where
  "fleet0 = (let c = \<lparr>fc_cacheFactory = Some 0, fc_controllerFactory = Some 1, fc_threadiness = [], fc_next = 2, fc_log = []\<rparr> in
     \<lparr>fl_factories = [c, c], fl_log = []\<rparr>)"

definition answers0 :: "nat \<Rightarrow> sync_answer \<times> sync_answer \<times> goerr option" where
  "answers0 i = ((None, [(gvk_zero, True)]), (None, [(gvk_zero, True)]), None)"

theorem all_start_synced_witness:
  "(1, ControllersStart 1 5) \<in> set (fl_log (snd (start_All (map (factory_starter answers0) [1, 0]) 5
     (map (factory_starter answers0) [0..<2]) fleet0)))"
proof -
  let ?a = "start_All (map (factory_starter answers0) [1, 0]) 5 (map (factory_starter answers0) [0..<2]) fleet0"
  have f: "set [1, 0] = {0..<length (fl_factories fleet0)}" "fl_log fleet0 = []" "length (fl_factories fleet0) = 2"
    by (auto simp: fleet0_def Let_def)
  have r: "fst ?a = None" by code_simp
  obtain r w where a: "?a = (r, w)" by fastforce
  with r have "r = None" by simp
  moreover have "fc_controllerFactory (fl_factories fleet0 ! 1) = Some 1" by code_simp
  ultimately show ?thesis using all_start_synced[OF f(1,2), of answers0 5 r w] a f(3) by simp
qed

end
