(* ===== verification/Files.thy ===== *)
theory Files
  imports Go_Error
begin

section \<open>Files and tokens: pkg/cleanup, pkg/resolvehome, pkg/kubeconfig, pkg/randomtoken\<close>

text \<open>
  The clean-up of generated files with the walk of Go's \<open>path/filepath\<close> it rests on, home directories in
  paths, the files a kubeconfig is read from, and random tokens. The file system is a tree, and the answers
  of the operating system are arguments.
\<close>

subsection \<open>Walking a tree, as path/filepath does\<close>

text \<open>A directory with an error could not be listed, and \<open>Bad\<close> is an entry whose \<open>lstat\<close> failed. A function
  of a walk gets the path, the name, whether it is a directory and the error, and answers nothing, \<open>SkipDir\<close>
  or an error.\<close>

datatype ftree = File string | Dir "goerr option" "(string \<times> ftree) list" | Bad goerr

datatype walkerr = SkipDir | WalkErr goerr

type_synonym 's walkfn = "string \<Rightarrow> string \<Rightarrow> bool \<Rightarrow> goerr option \<Rightarrow> 's \<Rightarrow> walkerr option \<times> 's"

fun isDir :: "ftree \<Rightarrow> bool" where
  "isDir (Dir e es) = True"
| "isDir t = False"

text \<open>\<open>filepath.Join\<close> of a clean path, not the root directory, and a name.\<close>

definition under :: "string \<Rightarrow> string \<Rightarrow> string" where
  "under path name = (if path = ''.'' then name else path @ ''/'' @ name)"

fun walk :: "'s walkfn \<Rightarrow> string \<Rightarrow> string \<Rightarrow> ftree \<Rightarrow> 's \<Rightarrow> walkerr option \<times> 's"
  and walk_names :: "'s walkfn \<Rightarrow> string \<Rightarrow> (string \<times> ftree) list \<Rightarrow> 's \<Rightarrow> walkerr option \<times> 's" where
  "walk fn path name (File content) s = fn path name False None s"
| "walk fn path name (Bad err) s = (case fn path name False (Some err) s of
       (Some SkipDir, s) \<Rightarrow> (None, s) | r \<Rightarrow> r)"
| "walk fn path name (Dir err es) s =
     (case fn path name True err s of
        (Some e, s) \<Rightarrow> (Some e, s)
      | (None, s) \<Rightarrow> if err \<noteq> None then (None, s) else walk_names fn path es s)"
| "walk_names fn path [] s = (None, s)"
| "walk_names fn path ((name, t) # es) s =
     (case walk fn (under path name) name t s of
        (Some e, s) \<Rightarrow> if isDir t \<and> e = SkipDir then walk_names fn path es s else (Some e, s)
      | (None, s) \<Rightarrow> walk_names fn path es s)"

definition Walk :: "'s walkfn \<Rightarrow> string \<Rightarrow> string \<Rightarrow> ftree \<Rightarrow> 's \<Rightarrow> goerr option \<times> 's" where
  "Walk fn root name t s =
     (case walk fn root name t s of
        (Some (WalkErr err), s) \<Rightarrow> (Some err, s)
      | (_, s) \<Rightarrow> (None, s))"

subsection \<open>cleanup/cleanup.go\<close>

text \<open>\<open>rm\<close> is \<open>os.Remove\<close>; the state is the list of the removed paths.\<close>

definition cleanup_visit :: "(string \<Rightarrow> goerr option) \<Rightarrow> string list walkfn" where
  "cleanup_visit rm path name dir err removed =
     (case err of
        Some err \<Rightarrow> (Some (WalkErr err), removed)
      | None \<Rightarrow>
          if Contains path ''vendor'' then (Some SkipDir, removed)
          else if HasPrefix name ''zz_generated'' then
            (case rm path of Some err \<Rightarrow> (Some (WalkErr err), removed) | None \<Rightarrow> (None, removed @ [path]))
          else (None, removed))"

definition Cleanup :: "(string \<Rightarrow> goerr option) \<Rightarrow> string \<Rightarrow> string \<Rightarrow> ftree \<Rightarrow> goerr option \<times> string list" where
  "Cleanup rm path name t = Walk (cleanup_visit rm) path name t []"

text \<open>Every node of a tree with its path and name, in the order of the walk.\<close>

fun nodes :: "string \<Rightarrow> string \<Rightarrow> ftree \<Rightarrow> (string \<times> string) list"
  and nodes_of :: "string \<Rightarrow> (string \<times> ftree) list \<Rightarrow> (string \<times> string) list" where
  "nodes path name (File content) = [(path, name)]"
| "nodes path name (Bad err) = [(path, name)]"
| "nodes path name (Dir err es) = (path, name) # nodes_of path es"
| "nodes_of path [] = []"
| "nodes_of path ((name, t) # es) = nodes (under path name) name t @ nodes_of path es"

fun listable :: "ftree \<Rightarrow> bool" and listables :: "(string \<times> ftree) list \<Rightarrow> bool" where
  "listable (File content) = True"
| "listable (Bad err) = False"
| "listable (Dir err es) = (err = None \<and> listables es)"
| "listables [] = True"
| "listables ((name, t) # es) = (listable t \<and> listables es)"

text \<open>Only directories are vendored: no file has \<open>vendor\<close> in its own name.\<close>

fun vendor_dirs :: "string \<Rightarrow> ftree \<Rightarrow> bool" and vendor_dirs_of :: "string \<Rightarrow> (string \<times> ftree) list \<Rightarrow> bool" where
  "vendor_dirs path (File content) = True"
| "vendor_dirs path (Bad err) = True"
| "vendor_dirs path (Dir err es) = vendor_dirs_of path es"
| "vendor_dirs_of path [] = True"
| "vendor_dirs_of path ((name, t) # es) =
     ((Contains (under path name) ''vendor'' \<longrightarrow> isDir t \<or> Contains path ''vendor'') \<and>
      vendor_dirs (under path name) t \<and> vendor_dirs_of path es)"

definition generated :: "string \<times> string \<Rightarrow> bool" where
  "generated = (\<lambda>(p, n). \<not> Contains p ''vendor'' \<and> HasPrefix n ''zz_generated'')"

lemma Contains_under: "Contains path ''vendor'' \<Longrightarrow> Contains (under path name) ''vendor''"
proof -
  have "\<not> Contains ''.'' ''vendor''" by code_simp
  then show "Contains path ''vendor'' \<Longrightarrow> Contains (under path name) ''vendor''"
    by (auto simp: Contains_iff under_def) (metis append.assoc)
qed

lemma vendored_nodes:
  "Contains path ''vendor'' \<Longrightarrow> filter generated (nodes path name t) = []"
  "Contains path ''vendor'' \<Longrightarrow> filter generated (nodes_of path es) = []"
  by (induction path name t and path es rule: nodes_nodes_of.induct)
    (auto simp: generated_def Contains_under)

lemma walk_vendored:
  "Contains path ''vendor'' \<Longrightarrow> listable t \<Longrightarrow> walk (cleanup_visit rm) path name t s = (Some SkipDir, s)"
  by (cases t) (auto simp: cleanup_visit_def)

lemma walk_cleans:
  "\<not> Contains path ''vendor'' \<Longrightarrow> listable t \<Longrightarrow> vendor_dirs path t \<Longrightarrow> (\<And>p. rm p = None) \<Longrightarrow>
     walk (cleanup_visit rm) path name t s = (None, s @ map fst (filter generated (nodes path name t)))"
  "\<not> Contains path ''vendor'' \<Longrightarrow> listables es \<Longrightarrow> vendor_dirs_of path es \<Longrightarrow> (\<And>p. rm p = None) \<Longrightarrow>
     walk_names (cleanup_visit rm) path es s = (None, s @ map fst (filter generated (nodes_of path es)))"
proof (induction "cleanup_visit rm" path name t s and "cleanup_visit rm" path es s rule: walk_walk_names.induct)
  case (5 path name t es s)
  show ?case
  proof (cases "Contains (under path name) ''vendor''")
    case True
    with 5 show ?thesis by (auto simp: walk_vendored vendored_nodes)
  next
    case False
    with 5 show ?thesis by (auto split: prod.splits)
  qed
qed (auto simp: cleanup_visit_def generated_def)


definition tree0 :: ftree where
  "tree0 = Dir None [(''pkg'', Dir None [(''a.go'', File ''a''), (''zz_generated.go'', File ''b'')]),
     (''vendor'', Dir None [(''zz_generated.go'', File ''c'')]), (''zz_generated_all.go'', File ''d'')]"


text \<open>\<open>SkipDir\<close> for a file skips the rest of its directory, so a file that is only named after \<open>vendor\<close> protects the
  generated files behind it.\<close>

lemma vendor_file_stops_cleanup:
  "Cleanup (\<lambda>_. None) ''.'' ''.'' (Dir None [(''vendor_test.go'', File ''a''), (''zz_generated.go'', File ''b'')]) = (None, [])"
  by code_simp

subsection \<open>resolvehome/main.go\<close>

definition ReplaceAll :: "string \<Rightarrow> string \<Rightarrow> string \<Rightarrow> string" where
  "ReplaceAll s old new = Join (Split s old) new"

definition homes :: "string list" where
  "homes = [''$HOME'', ''${HOME}'', ''~'']"

fun resolve_homes :: "string result \<Rightarrow> string list \<Rightarrow> string \<Rightarrow> string result" where
  "resolve_homes UserHomeDir [] s = Inr s"
| "resolve_homes UserHomeDir (home # hs) s =
     (if Contains s home
      then (case UserHomeDir of
          Inl err \<Rightarrow> Inl (Wrap ''determining current user'' err)
        | Inr homeDir \<Rightarrow> resolve_homes UserHomeDir hs (ReplaceAll s home homeDir))
      else resolve_homes UserHomeDir hs s)"

definition Resolve :: "string result \<Rightarrow> string \<Rightarrow> string result" where
  "Resolve UserHomeDir s = resolve_homes UserHomeDir homes s"

lemma resolve_homes_plain: "\<forall>h \<in> set hs. \<not> Contains s h \<Longrightarrow> resolve_homes H hs s = Inr s"
  by (induction hs) auto

lemma Resolve_plain: "\<forall>h \<in> set homes. \<not> Contains s h \<Longrightarrow> Resolve H s = Inr s"
  by (simp add: Resolve_def resolve_homes_plain)

lemma Index_char_before: "Index s [c] = Some i \<Longrightarrow> c \<notin> set (take i s)"
  by (induction s arbitrary: i) (auto split: if_splits)

lemma Contains_ReplaceAll_char:
  "c \<notin> set new \<Longrightarrow> \<not> Contains (ReplaceAll s [c] new) [c]"
proof -
  assume c: "c \<notin> set new"
  have j: "c \<notin> set (Join xs new)" if "\<forall>x \<in> set xs. c \<notin> set x" for xs
    using that c by (induction xs new rule: Join.induct) auto
  have "\<forall>x \<in> set (Split s [c]). c \<notin> set x"
    by (induction s "[c]" rule: Split.induct)
      (subst Split.simps, auto split: option.splits dest: Index_None_notin[THEN iffD1] Index_char_before)
  from j[OF this] show ?thesis by (auto simp: ReplaceAll_def Contains_iff in_set_conv_decomp)
qed

text \<open>When the home directory has no tilde, a resolved path has none.\<close>

lemma Resolve_no_tilde:
  assumes "Resolve (Inr dir) s = Inr r" "CHR 0x7E \<notin> set dir"
  shows "\<not> Contains r ''~''"
  using assms Contains_ReplaceAll_char[of "CHR 0x7E" dir]
  by (auto simp: Resolve_def homes_def split: if_splits)

text \<open>A tilde inside a name, as in that of a backup file, is replaced like one in front.\<close>

lemma inner_tilde_replaced: "Resolve (Inr ''/root'') ''/data/state.db~'' = Inr ''/data/state.db/root''"
  by code_simp

subsection \<open>kubeconfig/loader.go\<close>

record loadingrules =
  lr_ExplicitPath :: string
  lr_Precedence :: "string list"

definition canRead :: "(string \<Rightarrow> bool) \<Rightarrow> string list \<Rightarrow> string list" where
  "canRead readable files = filter readable files"

text \<open>\<open>defaults\<close> are the rules of client-go, and \<open>filepath.Join\<close> is written out for a clean home directory.\<close>

definition GetLoadingRules :: "string list \<Rightarrow> (string \<Rightarrow> bool) \<Rightarrow> string result \<Rightarrow> string \<Rightarrow> loadingrules" where
  "GetLoadingRules defaults readable UserHomeDir kubeConfig =
     (let otherFiles = (case UserHomeDir of Inl _ \<Rightarrow> [] | Inr homeDir \<Rightarrow> [homeDir @ ''/.kube/k3s.yaml''])
                         @ [''/etc/rancher/k3s/k3s.yaml''] in
      \<lparr>lr_ExplicitPath = kubeConfig, lr_Precedence = defaults @ canRead readable otherFiles\<rparr>)"

lemma loaded_files_readable:
  "f \<in> set (lr_Precedence (GetLoadingRules defaults readable H k)) \<Longrightarrow> f \<in> set defaults \<or> readable f"
  by (auto simp: GetLoadingRules_def canRead_def Let_def split: sum.splits if_splits)

subsection \<open>randomtoken/token.go\<close>

definition characters :: string where
  "characters = ''bcdfghjklmnpqrstvwxz2456789''"

definition tokenLength :: nat where
  "tokenLength = 54"

text \<open>\<open>rand i\<close> is the \<open>i\<close>-th answer of \<open>rand.Int\<close>, below the number of characters.\<close>

fun token_chars :: "(nat \<Rightarrow> nat result) \<Rightarrow> nat list \<Rightarrow> string result" where
  "token_chars rand [] = Inr []"
| "token_chars rand (i # is) =
     (case rand i of
        Inl err \<Rightarrow> Inl err
      | Inr r \<Rightarrow> (case token_chars rand is of Inl err \<Rightarrow> Inl err | Inr cs \<Rightarrow> Inr (characters ! r # cs)))"

definition Generate :: "(nat \<Rightarrow> nat result) \<Rightarrow> string result" where
  "Generate rand = token_chars rand [0..<tokenLength]"

lemma token_chars_spec:
  "token_chars rand is = Inr cs \<Longrightarrow>
    length cs = length is \<and> (\<forall>k < length is. \<exists>r. rand (is ! k) = Inr r \<and> cs ! k = characters ! r)"
proof (induction "is" arbitrary: cs)
  case (Cons i "is")
  then show ?case by (auto simp: nth_Cons split: sum.splits nat.split)
qed simp

lemma Generate_chars:
  "Generate rand = Inr token \<Longrightarrow>
    length token = tokenLength \<and> (\<forall>k < tokenLength. \<exists>r. rand k = Inr r \<and> token ! k = characters ! r)"
  unfolding Generate_def by (drule token_chars_spec) simp

lemma Generate_spec:
  assumes "Generate rand = Inr token" "\<And>i r. rand i = Inr r \<Longrightarrow> r < length characters"
  shows "length token = tokenLength \<and> set token \<subseteq> set characters"
  using Generate_chars[OF assms(1)] assms(2) by (fastforce simp: in_set_conv_nth)

text \<open>Different answers of the random source give different tokens: no two characters are the same.\<close>

lemma Generate_inj:
  assumes "Generate rand = Inr token" "Generate rand' = Inr token"
    "\<And>i r. rand i = Inr r \<or> rand' i = Inr r \<Longrightarrow> r < length characters" "i < tokenLength"
  shows "rand i = rand' i"
proof -
  have d: "distinct characters" by code_simp
  from Generate_chars[OF assms(1)] Generate_chars[OF assms(2)] assms(4)
  obtain r r' where r: "rand i = Inr r" "rand' i = Inr r'" "characters ! r = characters ! r'" by metis
  with nth_eq_iff_index_eq[OF d, of r r'] assms(3)[of i] show ?thesis by auto
qed

end
