(* ===== verification/Codegen.thy ===== *)
theory Codegen
  imports Files
begin

section \<open>The code generator: pkg/controller-gen\<close>

text \<open>
  What the generator decides before it writes files: which types belong to which group and version, which
  packages each of the generators of Kubernetes reads, the tags it adds to kubebuilder types, the packages
  it writes, and the copy of the result. Loading Go packages, parsing tags and writing files are arguments.
\<close>

subsection \<open>args: the types of a group\<close>

record gtype =
  t_Version :: string
  t_Package :: string
  t_Name :: string

record typename =
  n_Package :: string
  n_Name :: string

type_synonym groupversion = "string \<times> string"
type_synonym typesbygroup = "(groupversion \<times> typename list) list"

text \<open>An entry of \<open>Group.Types\<close>: a directory, a description, or a value whose Go type is used.\<close>

datatype genobj = ODirectory string | ODescribed gtype | OInstance string string

definition versionFromPackage :: "string \<Rightarrow> string" where
  "versionFromPackage pkg = last (Split pkg ''/'')"

text \<open>A type definition of a loaded package: its name and, when it is a struct, whether each field is embedded
  and the name of its type.\<close>

type_synonym typedefn = "string \<times> (bool \<times> string) list option"

text \<open>The loader of Go packages: the package at a path with its definitions in some order, and the path of a
  package without a vendor directory.\<close>

record loader =
  ld_Load :: "string \<Rightarrow> (string \<times> typedefn list) result"
  ld_Vendorless :: "string \<Rightarrow> string"

definition ObjectMetaType :: string where
  "ObjectMetaType = ''k8s.io/apimachinery/pkg/apis/meta/v1.ObjectMeta''"

definition scan_defn :: "loader \<Rightarrow> string \<Rightarrow> typedefn \<Rightarrow> gtype list" where
  "scan_defn L pkg = (\<lambda>(name, fields).
     let pkgPath = ld_Vendorless L pkg in
     map (\<lambda>_. \<lparr>t_Version = versionFromPackage pkgPath, t_Package = pkgPath, t_Name = name\<rparr>)
       (filter (\<lambda>(embedded, ty). embedded \<and> ty = ObjectMetaType) (case fields of None \<Rightarrow> [] | Some fs \<Rightarrow> fs)))"

definition ScanDirectory :: "loader \<Rightarrow> string \<Rightarrow> gtype list result" where
  "ScanDirectory L pkgPath =
     (case ld_Load L pkgPath of
        Inl err \<Rightarrow> Inl err
      | Inr (pkg, defs) \<Rightarrow> Inr (sort_key t_Name (concat (map (scan_defn L pkg) defs))))"

definition toVersionType :: "loader \<Rightarrow> genobj \<Rightarrow> string \<times> typename" where
  "toVersionType L obj =
     (case obj of
        ODescribed v \<Rightarrow> (t_Version v, \<lparr>n_Package = t_Package v, n_Name = t_Name v\<rparr>)
      | OInstance pkgPath name \<Rightarrow>
          (let pkg = ld_Vendorless L pkgPath in (versionFromPackage pkg, \<lparr>n_Package = pkg, n_Name = name\<rparr>))
      | ODirectory s \<Rightarrow> ('''', \<lparr>n_Package = '''', n_Name = s\<rparr>))"

definition add_type :: "string \<Rightarrow> string \<times> typename \<Rightarrow> typesbygroup \<Rightarrow> typesbygroup" where
  "add_type grp = (\<lambda>(version, t) ret.
     AList.update (grp, version) ((case map_of ret (grp, version) of None \<Rightarrow> [] | Some ts \<Rightarrow> ts) @ [t]) ret)"

text \<open>The types found in a directory are added by a recursive call, in which there is no directory left.\<close>

fun ObjectsToGroupVersion :: "loader \<Rightarrow> string \<Rightarrow> genobj list \<Rightarrow> typesbygroup \<Rightarrow> goerr option \<times> typesbygroup" where
  "ObjectsToGroupVersion L grp [] ret = (None, ret)"
| "ObjectsToGroupVersion L grp (ODirectory s # objs) ret =
     (case ScanDirectory L s of
        Inl err \<Rightarrow> (Some err, ret)
      | Inr types \<Rightarrow>
          ObjectsToGroupVersion L grp objs (fold (\<lambda>t. add_type grp (toVersionType L (ODescribed t))) types ret))"
| "ObjectsToGroupVersion L grp (obj # objs) ret =
     ObjectsToGroupVersion L grp objs (add_type grp (toVersionType L obj) ret)"

text \<open>Specification: the objects with each directory replaced by the types found in it.\<close>

fun expand :: "loader \<Rightarrow> genobj list \<Rightarrow> genobj list option" where
  "expand L [] = Some []"
| "expand L (ODirectory s # objs) =
     (case ScanDirectory L s of Inl _ \<Rightarrow> None
      | Inr types \<Rightarrow> map_option ((@) (map ODescribed types)) (expand L objs))"
| "expand L (obj # objs) = map_option ((#) obj) (expand L objs)"

definition types_at :: "typesbygroup \<Rightarrow> groupversion \<Rightarrow> typename list" where
  "types_at ret gv = (case map_of ret gv of None \<Rightarrow> [] | Some ts \<Rightarrow> ts)"

definition of_version :: "string \<Rightarrow> (string \<times> typename) list \<Rightarrow> typename list" where
  "of_version v xs = map snd (filter (\<lambda>x. fst x = v) xs)"

lemma types_at_add:
  "types_at (add_type grp x ret) gv = types_at ret gv @ (if gv = (grp, fst x) then [snd x] else [])"
  by (cases x) (auto simp: add_type_def types_at_def update_conv split: option.splits)

lemma types_at_fold:
  "types_at (fold (\<lambda>t. add_type grp (f t)) ts ret) (g, v)
    = types_at ret (g, v) @ (if g = grp then of_version v (map f ts) else [])"
  by (induction ts arbitrary: ret) (auto simp: types_at_add of_version_def)

lemma of_version_append: "of_version v (xs @ ys) = of_version v xs @ of_version v ys"
  by (simp add: of_version_def)

lemma ObjectsToGroupVersion_expand:
  "(case ObjectsToGroupVersion L grp objs ret of (e, ret') \<Rightarrow>
     (e = None \<longleftrightarrow> expand L objs \<noteq> None) \<and>
     (\<forall>xs. expand L objs = Some xs \<longrightarrow> (\<forall>g v. types_at ret' (g, v)
        = types_at ret (g, v) @ (if g = grp then of_version v (map (toVersionType L) xs) else []))))"
proof (induction objs arbitrary: ret)
  case (Cons obj objs)
  show ?case
  proof (cases obj)
    case (ODirectory s)
    show ?thesis
    proof (cases "ScanDirectory L s")
      case (Inr types)
      with ODirectory Cons.IH[of "fold (\<lambda>t. add_type grp (toVersionType L (ODescribed t))) types ret"] show ?thesis
        by (auto simp: types_at_fold of_version_append comp_def split: prod.splits)
    qed (simp add: ODirectory)
  qed (use Cons.IH[of "add_type grp (toVersionType L obj) ret"]
      in \<open>auto simp: types_at_add of_version_def split: prod.splits\<close>)
qed (simp add: of_version_def)

text \<open>C40: Collecting the types of a group succeeds when every directory can be loaded, and then each version of the group
  gets exactly the types that have it, in order, after what was there, and no other group changes.\<close>

theorem types_grouped:
  assumes "expand L objs = Some xs" "ObjectsToGroupVersion L grp objs ret = (e, ret')"
  shows "e = None \<and> types_at ret' (g, v)
    = types_at ret (g, v) @ (if g = grp then of_version v (map (toVersionType L) xs) else [])"
  using ObjectsToGroupVersion_expand[where grp = grp and ret = ret and L = L and objs = objs] assms by auto

definition loader0 :: loader where
  "loader0 = \<lparr>ld_Load = (\<lambda>p. Inr (''x.io/api/v1'', [(''B'', Some [(True, ObjectMetaType)]), (''Opts'', Some [(True, ''x'')]),
        (''A'', Some [(False, ''int''), (True, ObjectMetaType)]), (''F'', None)])),
     ld_Vendorless = id\<rparr>"

theorem types_grouped_witness:
  "types_at (snd (ObjectsToGroupVersion loader0 ''x'' [OInstance ''x.io/api/v1'' ''C'', ODirectory ''./v1''] [])) (''x'', ''v1'')
    = map (\<lambda>n. \<lparr>n_Package = ''x.io/api/v1'', n_Name = n\<rparr>) [''C'', ''A'', ''B'']"
proof -
  let ?objs = "[OInstance ''x.io/api/v1'' ''C'', ODirectory ''./v1'']"
  let ?t = "\<lambda>n. ODescribed \<lparr>t_Version = ''v1'', t_Package = ''x.io/api/v1'', t_Name = n\<rparr>"
  have e: "expand loader0 ?objs = Some [OInstance ''x.io/api/v1'' ''C'', ?t ''A'', ?t ''B'']" by code_simp
  obtain e ret where o: "ObjectsToGroupVersion loader0 ''x'' ?objs [] = (e, ret)" by fastforce
  have "of_version ''v1'' (map (toVersionType loader0) [OInstance ''x.io/api/v1'' ''C'', ?t ''A'', ?t ''B''])
      = map (\<lambda>n. \<lparr>n_Package = ''x.io/api/v1'', n_Name = n\<rparr>) [''C'', ''A'', ''B'']" by code_simp
  with types_grouped[OF e o, of "''x''" "''v1''"] show ?thesis unfolding o by (simp add: types_at_def)
qed

subsection \<open>main.go: options and stages\<close>

record ggroup =
  gg_Types :: "genobj list"
  gg_GenerateTypes :: bool
  gg_GenerateClients :: bool
  gg_OutputControllerPackageName :: string
  gg_GenerateListers :: bool
  gg_GenerateInformers :: bool
  gg_GenerateOpenAPI :: bool
  gg_OpenAPIModelPackageName :: string
  gg_OpenAPIDependencies :: "string list"
  gg_PackageName :: string

type_synonym ggroups = "(string \<times> ggroup) list"

definition ggroup0 :: ggroup where
  "ggroup0 = \<lparr>gg_Types = [], gg_GenerateTypes = False, gg_GenerateClients = False, gg_OutputControllerPackageName = '''',
     gg_GenerateListers = False, gg_GenerateInformers = False, gg_GenerateOpenAPI = False, gg_OpenAPIModelPackageName = '''',
     gg_OpenAPIDependencies = [], gg_PackageName = ''''\<rparr>"

text \<open>Reading a missing key of the map of groups gives the zero value.\<close>

definition group_at :: "ggroups \<Rightarrow> string \<Rightarrow> ggroup" where
  "group_at gs g = (case map_of gs g of None \<Rightarrow> ggroup0 | Some x \<Rightarrow> x)"

definition selected :: "(ggroup \<Rightarrow> bool) \<Rightarrow> ggroups \<Rightarrow> string list" where
  "selected P gs = map fst (filter (\<lambda>(g, x). P x) gs)"

text \<open>\<open>parseTypes\<close> panics when the types of a group cannot be collected: \<open>None\<close>.\<close>

fun collect_groups :: "loader \<Rightarrow> ggroups \<Rightarrow> typesbygroup \<Rightarrow> typesbygroup option" where
  "collect_groups L [] ret = Some ret"
| "collect_groups L ((g, x) # gs) ret =
     (case ObjectsToGroupVersion L g (gg_Types x) ret of
        (Some err, ret) \<Rightarrow> None
      | (None, ret) \<Rightarrow> collect_groups L gs ret)"

definition parseTypes :: "loader \<Rightarrow> ggroups \<Rightarrow> (typesbygroup \<times> string list) option" where
  "parseTypes L gs =
     map_option (\<lambda>ret. (ret, map (\<lambda>(gv, names). n_Package (hd names)) ret)) (collect_groups L gs [])"

text \<open>The input of deepcopy, listers and informers: the package of the first type of each selected version.\<close>

definition input_dirs :: "string list \<Rightarrow> typesbygroup \<Rightarrow> string list" where
  "input_dirs groups tbg = map (\<lambda>(gv, names). n_Package (hd names)) (filter (\<lambda>(gv, names). fst gv \<in> set groups) tbg)"

definition clientset_groups :: "string list \<Rightarrow> ggroups \<Rightarrow> typesbygroup \<Rightarrow> (string \<times> groupversion \<times> string) list" where
  "clientset_groups groups gs tbg =
     map (\<lambda>gv. ((let packageName = gg_PackageName (group_at gs (fst gv)) in if packageName = '''' then fst gv else packageName),
                 gv, n_Package (hd (types_at tbg gv))))
       (sort_key fst (filter (\<lambda>gv. fst gv \<in> set groups) (map fst tbg)))"

text \<open>The stages that follow the controllers. Each of the generators returns at once when no group selects it, and an
  error ends the program.\<close>

datatype stage = CopyModules | Deepcopy "string list" | Clientset "string list" | Listers "string list"
  | Informers "string list" | OpenAPI "string list"

fun stage_groups :: "stage \<Rightarrow> string list option" where
  "stage_groups CopyModules = None"
| "stage_groups (Deepcopy gs) = Some gs"
| "stage_groups (Clientset gs) = Some gs"
| "stage_groups (Listers gs) = Some gs"
| "stage_groups (Informers gs) = Some gs"
| "stage_groups (OpenAPI gs) = Some gs"

fun run_stages :: "(stage \<Rightarrow> goerr option) \<Rightarrow> stage list \<Rightarrow> stage list \<times> goerr option" where
  "run_stages execute [] = ([], None)"
| "run_stages execute (s # ss) =
     (if stage_groups s = Some [] then run_stages execute ss
      else case execute s of
          Some err \<Rightarrow> ([s], Some err)
        | None \<Rightarrow> (case run_stages execute ss of (executed, e) \<Rightarrow> (s # executed, e)))"

definition generation_stages :: "ggroups \<Rightarrow> stage list" where
  "generation_stages gs =
     (let deepCopygroups = selected gg_GenerateTypes gs; groups = selected gg_GenerateClients gs;
          listerGroups = selected gg_GenerateListers gs; informerGroups = selected gg_GenerateInformers gs;
          openAPIGroups = selected gg_GenerateOpenAPI gs in
      if deepCopygroups = [] \<and> groups = [] \<and> listerGroups = [] \<and> informerGroups = [] \<and> openAPIGroups = []
      then [CopyModules]
      else [CopyModules, Deepcopy deepCopygroups, Clientset groups, Listers listerGroups, Informers informerGroups,
            OpenAPI openAPIGroups, CopyModules])"

definition Run_stages :: "(stage \<Rightarrow> goerr option) \<Rightarrow> ggroups \<Rightarrow> stage list \<times> goerr option" where
  "Run_stages execute gs = run_stages execute (generation_stages gs)"

lemma run_stages_all:
  "run_stages execute ss = (executed, None) \<Longrightarrow> executed = filter (\<lambda>s. stage_groups s \<noteq> Some []) ss"
proof (induction ss arbitrary: executed)
  case (Cons s ss)
  then show ?case
    by (cases "run_stages execute ss") (auto split: if_splits option.splits)
qed simp

lemma Run_stages_ends_with_copy:
  assumes "Run_stages execute gs = (executed, None)"
  shows "hd executed = CopyModules \<and> last executed = CopyModules"
  using run_stages_all[OF assms[unfolded Run_stages_def]] by (simp add: generation_stages_def Let_def split: if_splits)

subsection \<open>main.go: the directories of the OpenAPI generator\<close>

definition add_dir :: "string \<Rightarrow> string list \<Rightarrow> string list" where
  "add_dir d dirs = (if d \<in> set dirs then dirs else dirs @ [d])"

definition openapi_visit ::
    "string list \<Rightarrow> ggroups \<Rightarrow> groupversion \<times> typename list \<Rightarrow> string list \<times> string list \<Rightarrow> string list \<times> string list" where
  "openapi_visit groups gs = (\<lambda>((g, v), names) (dirs, models).
     if g \<notin> set groups then (dirs, models)
     else let x = group_at gs g; pkg = n_Package (hd names) in
       (fold add_dir (gg_OpenAPIDependencies x) (add_dir pkg dirs),
        if pkg \<notin> set dirs \<and> gg_OpenAPIModelPackageName x \<noteq> '''' then models @ [pkg] else models))"

definition openapi_dirs :: "string list \<Rightarrow> ggroups \<Rightarrow> typesbygroup \<Rightarrow> string list \<times> string list" where
  "openapi_dirs groups gs tbg = fold (openapi_visit groups gs) tbg ([], [])"

lemma set_add_dir [simp]: "set (add_dir d dirs) = insert d (set dirs)"
  by (auto simp: add_dir_def)

lemma distinct_add_dir [simp]: "distinct dirs \<Longrightarrow> distinct (add_dir d dirs)"
  by (simp add: add_dir_def)

lemma fold_add_dir: "set (fold add_dir ds dirs) = set ds \<union> set dirs" "distinct dirs \<Longrightarrow> distinct (fold add_dir ds dirs)"
  by (induction ds arbitrary: dirs) auto

definition openapi_input :: "string list \<Rightarrow> ggroups \<Rightarrow> groupversion \<times> typename list \<Rightarrow> string set" where
  "openapi_input groups gs = (\<lambda>((g, v), names).
     if g \<in> set groups then insert (n_Package (hd names)) (set (gg_OpenAPIDependencies (group_at gs g))) else {})"

lemma openapi_visit_spec:
  assumes "distinct (fst acc)" "set (snd acc) \<subseteq> set (fst acc)"
  shows "distinct (fst (openapi_visit groups gs x acc)) \<and>
    set (fst (openapi_visit groups gs x acc)) = set (fst acc) \<union> openapi_input groups gs x \<and>
    set (snd (openapi_visit groups gs x acc)) \<subseteq> set (fst (openapi_visit groups gs x acc))"
  using assms by (cases acc; cases x) (auto simp: openapi_visit_def openapi_input_def Let_def fold_add_dir split: if_splits)

lemma openapi_fold_spec:
  assumes "distinct (fst acc)" "set (snd acc) \<subseteq> set (fst acc)"
  shows "distinct (fst (fold (openapi_visit groups gs) tbg acc)) \<and>
    set (fst (fold (openapi_visit groups gs) tbg acc)) = set (fst acc) \<union> \<Union> (openapi_input groups gs ` set tbg) \<and>
    set (snd (fold (openapi_visit groups gs) tbg acc)) \<subseteq> set (fst (fold (openapi_visit groups gs) tbg acc))"
  using assms
proof (induction tbg arbitrary: acc)
  case (Cons x tbg)
  from openapi_visit_spec[OF Cons.prems, of groups gs x]
    Cons.IH[of "openapi_visit groups gs x acc"] show ?case by auto
qed simp

text \<open>The generator reads each package once, exactly those of the selected versions and their dependencies,
  and writes model names only for packages it reads.\<close>

theorem openapi_dirs_spec:
  "distinct (fst (openapi_dirs groups gs tbg)) \<and>
   set (fst (openapi_dirs groups gs tbg)) = \<Union> (openapi_input groups gs ` set tbg) \<and>
   set (snd (openapi_dirs groups gs tbg)) \<subseteq> set (fst (openapi_dirs groups gs tbg))"
  using openapi_fold_spec[of "([], [])" groups gs tbg] by (auto simp: openapi_dirs_def)

text \<open>But a package that came in as the dependency of another group gets no model names, so which
  files are written depends on the order of the groups.\<close>

definition groups_dep :: ggroups where
  "groups_dep = [(''a'', ggroup0\<lparr>gg_GenerateOpenAPI := True, gg_OpenAPIDependencies := [''x.io/b/v1'']\<rparr>),
     (''b'', ggroup0\<lparr>gg_GenerateOpenAPI := True, gg_OpenAPIModelPackageName := ''io.x.b''\<rparr>)]"

lemma model_dirs_depend_on_order:
  "snd (openapi_dirs [''a'', ''b''] groups_dep
      [((''b'', ''v1''), [\<lparr>n_Package = ''x.io/b/v1'', n_Name = ''B''\<rparr>]), ((''a'', ''v1''), [\<lparr>n_Package = ''x.io/a/v1'', n_Name = ''A''\<rparr>])])
    = [''x.io/b/v1'']"
  "snd (openapi_dirs [''a'', ''b''] groups_dep
      [((''a'', ''v1''), [\<lparr>n_Package = ''x.io/a/v1'', n_Name = ''A''\<rparr>]), ((''b'', ''v1''), [\<lparr>n_Package = ''x.io/b/v1'', n_Name = ''B''\<rparr>])])
    = []"
  by code_simp+

subsection \<open>Tags of kubebuilder types: setGenClient\<close>

record typeinfo =
  ti_Second :: "string list"
  ti_Comments :: "string list"

record pkginfo =
  pi_DocComments :: "string list"
  pi_Comments :: "string list"
  pi_Types :: "(string \<times> typeinfo) list"

type_synonym universe = "(string \<times> pkginfo) list"

text \<open>What the lines of a type say: whether it is a kubebuilder root, has a status, and is namespaced; and the tags
  added on the way.\<close>

record scanned =
  sc_kubebuilder :: bool
  sc_status :: bool
  sc_nsed :: bool
  sc_tags :: "string list"

definition scan_line :: "string \<Rightarrow> scanned \<Rightarrow> scanned" where
  "scan_line line s =
     (if Contains line ''+kubebuilder:object:root=true'' then s\<lparr>sc_kubebuilder := True, sc_tags := sc_tags s @ [''+genclient'']\<rparr>
      else if Contains line ''+kubebuilder:subresource:status'' then s\<lparr>sc_status := True\<rparr>
      else if Contains line ''+kubebuilder:resource:'' \<and> Contains line ''scope=Namespaced'' then s\<lparr>sc_nsed := True\<rparr>
      else s)"

definition tag_type :: "typeinfo \<Rightarrow> bool \<times> typeinfo" where
  "tag_type t =
     (let s = fold scan_line (ti_Second t @ ti_Comments t)
            \<lparr>sc_kubebuilder = False, sc_status = False, sc_nsed = False, sc_tags = ti_Second t\<rparr> in
      (sc_kubebuilder s,
       t\<lparr>ti_Second := sc_tags s @
          (if sc_kubebuilder s
           then (if sc_nsed s then [] else [''+genclient:nonNamespaced'']) @ (if sc_status s then [] else [''+genclient:noStatus''])
           else [])\<rparr>))"

definition tag_group :: "string \<Rightarrow> pkginfo \<Rightarrow> pkginfo" where
  "tag_group g p =
     (if list_ex (\<lambda>comment. Contains comment ''+groupName='') (pi_DocComments p) then p
      else p\<lparr>pi_DocComments := pi_DocComments p @ [''+groupName='' @ g], pi_Comments := pi_Comments p @ [''+groupName='' @ g]\<rparr>)"

text \<open>A package or type that the universe does not know is made when it is asked for.\<close>

definition package_at :: "universe \<Rightarrow> string \<Rightarrow> pkginfo" where
  "package_at U pkg = (case map_of U pkg of None \<Rightarrow> \<lparr>pi_DocComments = [], pi_Comments = [], pi_Types = []\<rparr> | Some p \<Rightarrow> p)"

definition tag_name :: "string \<Rightarrow> typename \<Rightarrow> universe \<Rightarrow> universe" where
  "tag_name g name U =
     (let p = package_at U (n_Package name);
          t = (case map_of (pi_Types p) (n_Name name) of None \<Rightarrow> \<lparr>ti_Second = [], ti_Comments = []\<rparr> | Some t \<Rightarrow> t) in
      case tag_type t of
        (kubebuilder, t) \<Rightarrow>
          (let p = p\<lparr>pi_Types := AList.update (n_Name name) t (pi_Types p)\<rparr> in
           AList.update (n_Package name) (if kubebuilder then tag_group g p else p) U))"

definition setGenClient :: "string list \<Rightarrow> typesbygroup \<Rightarrow> universe \<Rightarrow> universe" where
  "setGenClient groups tbg U =
     fold (\<lambda>((g, v), names). if g \<notin> set groups then id else fold (tag_name g) names) tbg U"

lemma scan_lines:
  "sc_kubebuilder (fold scan_line ls s) = (sc_kubebuilder s \<or> (\<exists>l \<in> set ls. Contains l ''+kubebuilder:object:root=true''))"
  "set (sc_tags (fold scan_line ls s)) \<subseteq> insert ''+genclient'' (set (sc_tags s))"
  "set (sc_tags s) \<subseteq> set (sc_tags (fold scan_line ls s))"
  "(\<exists>l \<in> set ls. Contains l ''+kubebuilder:object:root=true'') \<Longrightarrow> ''+genclient'' \<in> set (sc_tags (fold scan_line ls s))"
proof (induction ls arbitrary: s)
  case (Cons l ls)
  {
    case 1
    then show ?case using Cons.IH(1)[of "scan_line l s"] by (auto simp: scan_line_def)
  next
    case 2
    then show ?case using Cons.IH(2)[of "scan_line l s"] by (auto simp: scan_line_def split: if_splits)
  next
    case 3
    then show ?case using Cons.IH(3)[of "scan_line l s"] by (auto simp: scan_line_def split: if_splits)
  next
    case 4
    then show ?case using Cons.IH(3,4)[of "scan_line l s"] by (auto simp: scan_line_def split: if_splits)
  }
qed auto

text \<open>A kubebuilder root gets \<open>+genclient\<close>, and any other type keeps its lines as they are.\<close>

lemma tag_type_spec:
  assumes "tag_type t = (k, t')"
  shows "k \<longleftrightarrow> (\<exists>l \<in> set (ti_Second t @ ti_Comments t). Contains l ''+kubebuilder:object:root=true'')"
    and "k \<Longrightarrow> ''+genclient'' \<in> set (ti_Second t')"
    and "set (ti_Second t) \<subseteq> set (ti_Second t')" and "ti_Comments t' = ti_Comments t"
proof -
  define s where "s = fold scan_line (ti_Second t @ ti_Comments t)
    \<lparr>sc_kubebuilder = False, sc_status = False, sc_nsed = False, sc_tags = ti_Second t\<rparr>"
  from assms obtain more where t: "k = sc_kubebuilder s" "ti_Second t' = sc_tags s @ more" "ti_Comments t' = ti_Comments t"
    unfolding tag_type_def s_def[symmetric] Let_def by auto
  note l = scan_lines[where ls = "ti_Second t @ ti_Comments t" and
    s = "\<lparr>sc_kubebuilder = False, sc_status = False, sc_nsed = False, sc_tags = ti_Second t\<rparr>", folded s_def]
  show k: "k \<longleftrightarrow> (\<exists>l \<in> set (ti_Second t @ ti_Comments t). Contains l ''+kubebuilder:object:root=true'')"
    unfolding t(1) using l(1) by simp
  show "''+genclient'' \<in> set (ti_Second t')" if k
    using l(4) k that unfolding t(2) by (metis UnI1 set_append)
  show "set (ti_Second t) \<subseteq> set (ti_Second t')" using l(3) unfolding t(2) by auto
  show "ti_Comments t' = ti_Comments t" by (rule t(3))
qed

subsection \<open>generators/util.go, generators/type_go.go\<close>

text \<open>\<open>nonNamespaced\<close> is the parser of the client tags: whether the lines have \<open>+genclient:nonNamespaced\<close>.\<close>

fun builder_scope :: "bool \<Rightarrow> string list \<Rightarrow> bool" where
  "builder_scope kubeBuilder [] = (\<not> kubeBuilder)"
| "builder_scope kubeBuilder (line # ls) =
     (if HasPrefix line ''+kubebuilder:resource:path=''
      then if Contains line ''scope=Namespaced'' then True else builder_scope True ls
      else builder_scope kubeBuilder ls)"

definition namespaced :: "(string list \<Rightarrow> bool) \<Rightarrow> string list \<Rightarrow> bool" where
  "namespaced nonNamespaced second = (if nonNamespaced second then False else builder_scope False second)"

definition groupPackageName :: "string \<Rightarrow> string \<Rightarrow> string" where
  "groupPackageName g packageName = (if packageName \<noteq> '''' then packageName else if g = '''' then ''core'' else g)"

definition groupPath :: "string \<Rightarrow> string" where
  "groupPath g = groupPackageName (ReplaceAll (hd (Split g ''.'')) ''-'' '''') ''''"

text \<open>\<open>IC\<close> is the naming function of gengo that starts a name in upper case.\<close>

definition upperLowercase :: "(string \<Rightarrow> string) \<Rightarrow> string \<Rightarrow> string" where
  "upperLowercase IC name = IC (ToLower (groupPath name))"

lemma groupPath_nonempty: "groupPath g \<noteq> ''''"
  by (simp add: groupPath_def groupPackageName_def)

text \<open>A member of a struct is its name, the package of its type and the name of its type.\<close>

definition statusType :: "(string \<times> string \<times> string) list \<Rightarrow> string" where
  "statusType members = (case List.find (\<lambda>m. fst m = ''Status'') members of None \<Rightarrow> '''' | Some (_, _, t) \<Rightarrow> t)"

definition hasStatus :: "string \<Rightarrow> (string \<times> string \<times> string) list \<Rightarrow> bool" where
  "hasStatus pkg members = list_ex (\<lambda>(n, p, t). n = ''Status'' \<and> p = pkg) members"

text \<open>The two ways to find the scope of a kubebuilder type disagree: without a scope the controllers are made
  namespaced and the client set is not; and when the path is not the first argument of the marker, the
  controllers ignore that the type is cluster-scoped.\<close>

lemma scopes_disagree:
  "namespaced (\<lambda>ls. ''+genclient:nonNamespaced'' \<in> set ls) [''+kubebuilder:object:root=true'']"
  "''+genclient:nonNamespaced'' \<in> set (ti_Second (snd (tag_type \<lparr>ti_Second = [''+kubebuilder:object:root=true''], ti_Comments = []\<rparr>)))"
  "namespaced (\<lambda>ls. ''+genclient:nonNamespaced'' \<in> set ls)
     [''+kubebuilder:object:root=true'', ''+kubebuilder:resource:scope=Cluster,path=nodes'']"
  by code_simp+

subsection \<open>generators/client_generator.go and target.go\<close>

text \<open>The generators of a target by what they write.\<close>

datatype gen = FactoryGo string | GroupInterfaceGo string | RegisterGroupGo string | GroupVersionInterfaceGo groupversion
  | TypeGo groupversion typename | RegisterGroupVersionGo groupversion | ListTypesGo groupversion | DocGo

record gentarget =
  tg_PkgName :: string
  tg_PkgPath :: string
  tg_Generators :: "gen list"

definition Target :: "string \<Rightarrow> gen list \<Rightarrow> gentarget" where
  "Target name generators = \<lparr>tg_PkgName = groupPath (last (Split name ''/'')), tg_PkgPath = name, tg_Generators = generators\<rparr>"

text \<open>\<open>pkg\<close> is the output package; \<open>filepath.Join\<close> of clean names puts slashes between them.\<close>

definition groupPackage :: "string \<Rightarrow> ggroups \<Rightarrow> string \<Rightarrow> gentarget" where
  "groupPackage pkg gs g =
     Target (pkg @ ''/controllers/'' @ groupPackageName g (gg_OutputControllerPackageName (group_at gs g)))
       [FactoryGo g, GroupInterfaceGo g]"

definition groupVersionPackage :: "string \<Rightarrow> ggroups \<Rightarrow> typesbygroup \<Rightarrow> groupversion \<Rightarrow> gentarget" where
  "groupVersionPackage pkg gs tbg gv =
     Target (pkg @ ''/controllers/'' @ groupPackageName (fst gv) (gg_OutputControllerPackageName (group_at gs (fst gv))) @ ''/'' @ snd gv)
       (GroupVersionInterfaceGo gv # map (TypeGo gv) (types_at tbg gv))"

definition typesGroupPackage :: "typename \<Rightarrow> groupversion \<Rightarrow> gentarget" where
  "typesGroupPackage name gv = Target (TrimSuffix (n_Package name) (''/'' @ snd gv)) [RegisterGroupGo (fst gv)]"

definition typesGroupVersionPackage :: "typename \<Rightarrow> groupversion \<Rightarrow> gentarget" where
  "typesGroupVersionPackage name gv = Target (n_Package name) [RegisterGroupVersionGo gv, ListTypesGo gv]"

definition typesGroupVersionDocPackage :: "typename \<Rightarrow> groupversion \<Rightarrow> gentarget" where
  "typesGroupVersionDocPackage name gv = Target (n_Package name) [DocGo, RegisterGroupVersionGo gv, ListTypesGo gv]"

text \<open>\<open>groups\<close> are the groups whose package was added before.\<close>

fun targets_loop :: "string \<Rightarrow> ggroups \<Rightarrow> typesbygroup \<Rightarrow> typesbygroup \<Rightarrow> string list \<Rightarrow> gentarget list" where
  "targets_loop pkg gs tbg [] groups = []"
| "targets_loop pkg gs tbg ((gv, names) # rest) groups =
     (let types = gg_GenerateTypes (group_at gs (fst gv)) in
      (if fst gv \<in> set groups then []
       else groupPackage pkg gs (fst gv) # (if types then [typesGroupPackage (hd names) gv] else []))
      @ groupVersionPackage pkg gs tbg gv
      # (if types then [typesGroupVersionPackage (hd names) gv, typesGroupVersionDocPackage (hd names) gv] else [])
      @ targets_loop pkg gs tbg rest (fst gv # groups))"

definition GetTargets :: "string \<Rightarrow> ggroups \<Rightarrow> typesbygroup \<Rightarrow> gentarget list" where
  "GetTargets pkg gs tbg = targets_loop pkg gs tbg tbg []"

definition generators_of :: "gentarget list \<Rightarrow> gen list" where
  "generators_of ts = concat (map tg_Generators ts)"

lemmas target_defs = Target_def groupPackage_def groupVersionPackage_def typesGroupPackage_def
  typesGroupVersionPackage_def typesGroupVersionDocPackage_def generators_of_def

text \<open>Each group gets one factory and each type one controller, for every order of the versions.\<close>

lemma targets_loop_factories:
  "filter (\<lambda>x. x = FactoryGo g) (generators_of (targets_loop pkg gs tbg rest groups))
    = (if g \<notin> set groups \<and> (\<exists>v. (g, v) \<in> fst ` set rest) then [FactoryGo g] else [])"
proof (induction rest arbitrary: groups)
  case (Cons x rest)
  obtain h v names where x: "x = ((h, v), names)" by (metis surj_pair)
  show ?case using Cons.IH[of "h # groups"]
    by (auto simp: x target_defs Let_def filter_empty_conv image_iff)
qed (simp add: generators_of_def)

lemma targets_loop_types:
  "distinct (map fst rest) \<Longrightarrow> filter (\<lambda>x. x = TypeGo gv t) (generators_of (targets_loop pkg gs tbg rest groups))
    = (if gv \<in> fst ` set rest then map (TypeGo gv) (filter (\<lambda>s. s = t) (types_at tbg gv)) else [])"
proof (induction rest arbitrary: groups)
  case (Cons x rest)
  obtain h names where x: "x = (h, names)" by (metis surj_pair)
  have f: "filter (\<lambda>x. x = TypeGo gv t) (map (TypeGo h) ts) = (if h = gv then map (TypeGo gv) (filter (\<lambda>s. s = t) ts) else [])"
    for ts by (induction ts) auto
  show ?case using Cons.IH[of "fst h # groups"] Cons.prems
    by (auto simp: x target_defs Let_def f)
qed (simp add: generators_of_def)

theorem controllers_generated_once:
  assumes "distinct (map fst tbg)" "gv \<in> fst ` set tbg"
  shows "filter (\<lambda>x. x = FactoryGo (fst gv)) (generators_of (GetTargets pkg gs tbg)) = [FactoryGo (fst gv)] \<and>
    filter (\<lambda>x. x = TypeGo gv t) (generators_of (GetTargets pkg gs tbg))
      = map (TypeGo gv) (filter (\<lambda>s. s = t) (types_at tbg gv))"
  using assms targets_loop_types[of tbg gv t pkg gs tbg "[]"] targets_loop_factories[of "fst gv" pkg gs tbg tbg "[]"]
  by (cases gv) (auto simp: GetTargets_def split: if_splits)

theorem controllers_generated_once_witness:
  "filter (\<lambda>x. x = FactoryGo ''apps'') (generators_of (GetTargets ''out'' []
     [((''apps'', ''v1''), [\<lparr>n_Package = ''k8s.io/api/apps/v1'', n_Name = ''Deployment''\<rparr>]), ((''apps'', ''v1beta1''), [])]))
    = [FactoryGo ''apps'']"
proof -
  let ?tbg = "[((''apps'', ''v1''), [\<lparr>n_Package = ''k8s.io/api/apps/v1'', n_Name = ''Deployment''\<rparr>]), ((''apps'', ''v1beta1''), [])]"
  have "distinct (map fst ?tbg)" "(''apps'', ''v1'') \<in> fst ` set ?tbg" by simp_all
  from controllers_generated_once[OF this, of "''out''" "[]"] show ?thesis by simp
qed

subsection \<open>main.go: copying the generated files\<close>

text \<open>\<open>pkgSplit[:3]\<close> panics for a package of fewer than three parts: \<open>None\<close>.\<close>

definition sourcePackagePath :: "string \<Rightarrow> string \<Rightarrow> string option" where
  "sourcePackagePath outputBase pkgName =
     (let pkgSplit = Split pkgName ''/'' in
      if length pkgSplit < 3 then None else Some (under outputBase (Join (take 3 pkgSplit) ''/'')))"

datatype fsop = MkdirAll string | OpenRead string | CreateFile string | CopyBytes string string | StatFile string | Chmod string

text \<open>\<open>copyFile\<close>: five operations, up to the first that fails.\<close>

fun fs_run :: "(fsop \<Rightarrow> goerr option) \<Rightarrow> fsop list \<Rightarrow> fsop list \<Rightarrow> goerr option \<times> fsop list" where
  "fs_run sys [] trace = (None, trace)"
| "fs_run sys (x # xs) trace =
     (case sys x of Some err \<Rightarrow> (Some err, trace @ [x]) | None \<Rightarrow> fs_run sys xs (trace @ [x]))"

definition copyFile :: "(fsop \<Rightarrow> goerr option) \<Rightarrow> string \<Rightarrow> string \<Rightarrow> fsop list \<Rightarrow> goerr option \<times> fsop list" where
  "copyFile sys src dst trace = fs_run sys [OpenRead src, CreateFile dst, CopyBytes src dst, StatFile src, Chmod dst] trace"

text \<open>The path without the package in front of it. A missing entry has no \<open>info\<close>, and asking it panics: the flag
  of the state.\<close>

definition new_path :: "string \<Rightarrow> string \<Rightarrow> string" where
  "new_path pkg path = (case Index path pkg of None \<Rightarrow> path | Some i \<Rightarrow> take i path @ ''.'' @ drop (i + length pkg) path)"

definition copy_visit :: "(fsop \<Rightarrow> goerr option) \<Rightarrow> string \<Rightarrow> (fsop list \<times> bool) walkfn" where
  "copy_visit sys pkg path name dir err = (\<lambda>(trace, panicked).
     if err \<noteq> None \<and> \<not> dir then (Some (WalkErr (Err ''nil pointer'')), trace, True)
     else case (if dir then fs_run sys [MkdirAll (new_path pkg path)] trace else copyFile sys path (new_path pkg path) trace) of
         (e, trace) \<Rightarrow> (map_option WalkErr e, trace, panicked))"

fun copy_first :: "(fsop \<Rightarrow> goerr option) \<Rightarrow> (string \<Rightarrow> (string \<times> ftree) option) \<Rightarrow> string list \<Rightarrow> (goerr option \<times> fsop list) option" where
  "copy_first sys disk [] = Some (None, [])"
| "copy_first sys disk (pkg # pkgs) =
     (case disk pkg of
        None \<Rightarrow> copy_first sys disk pkgs
      | Some (name, t) \<Rightarrow>
          (case Walk (copy_visit sys pkg) pkg name t ([], False) of
             (e, trace, panicked) \<Rightarrow> if panicked then None else Some (e, trace)))"

text \<open>\<open>order\<close> is the order in which the map of paths is visited.\<close>

definition copyGoPathToModules ::
    "(fsop \<Rightarrow> goerr option) \<Rightarrow> (string \<Rightarrow> (string \<times> ftree) option) \<Rightarrow> (string list \<Rightarrow> string list)
     \<Rightarrow> string \<Rightarrow> string \<Rightarrow> typesbygroup \<Rightarrow> (goerr option \<times> fsop list) option" where
  "copyGoPathToModules sys disk order outputBase pkg tbg =
     (let paths = map (sourcePackagePath outputBase) (concat (map (map n_Package \<circ> snd) tbg) @ [pkg]) in
      if None \<in> set paths then None else copy_first sys disk (order (remdups (map the paths))))"

text \<open>The loop returns from its first path that exists: with types in two modules only the files of one are
  copied, and which one depends on the order of a map.\<close>

definition two_modules :: typesbygroup where
  "two_modules = [((''a'', ''v1''), [\<lparr>n_Package = ''x.io/a/m1/v1'', n_Name = ''A''\<rparr>])]"

definition disk0 :: "string \<Rightarrow> (string \<times> ftree) option" where
  "disk0 p = (if p = ''/tmp/x.io/a/m1'' then Some (''m1'', Dir None [(''a.go'', File ''a'')])
     else if p = ''/tmp/x.io/b/m2'' then Some (''m2'', Dir None [(''b.go'', File ''b'')]) else None)"

lemma copies_one_module:
  "map_option (filter (\<lambda>x. case x of CreateFile _ \<Rightarrow> True | _ \<Rightarrow> False) \<circ> snd)
     (copyGoPathToModules (\<lambda>_. None) disk0 id ''/tmp'' ''x.io/b/m2'' two_modules) = Some [CreateFile ''./a.go'']"
  "map_option (filter (\<lambda>x. case x of CreateFile _ \<Rightarrow> True | _ \<Rightarrow> False) \<circ> snd)
     (copyGoPathToModules (\<lambda>_. None) disk0 rev ''/tmp'' ''x.io/b/m2'' two_modules) = Some [CreateFile ''./b.go'']"
  by code_simp+

end
