(* ===== verification/Apply_Settled.thy ===== *)
theory Apply_Settled
  imports Apply_Objects
begin

section \<open>apply: a second apply changes nothing\<close>

text \<open>
  When the cluster holds what \<open>apply\<close> wants, \<open>apply\<close> only reads. The cluster may hold more than was
  sent: the server fills in defaults, a status and a creation timestamp. What the three-way merges
  of apimachinery do with such documents is the hypothesis \<open>merges_ok\<close>.
\<close>

subsection \<open>Documents\<close>

text \<open>\<open>holds_map c m\<close>: the document \<open>c\<close> has every field of \<open>m\<close> with its value, and may have more in maps.\<close>

fun holds_val :: "val \<Rightarrow> val \<Rightarrow> bool" and holds_map :: "gomap \<Rightarrow> gomap \<Rightarrow> bool" where
  "holds_val c (VMap m) = (case c of VMap c \<Rightarrow> holds_map c m | _ \<Rightarrow> False)"
| "holds_val c v = (c = v)"
| "holds_map c [] = True"
| "holds_map c ((k, v) # m) = ((case map_of c k of None \<Rightarrow> False | Some w \<Rightarrow> holds_val w v) \<and> holds_map c m)"

text \<open>\<open>kept_map o m\<close>: nothing of \<open>o\<close> is gone in \<open>m\<close>: every key is there, maps are maps again, a list is the
  same but for values that were cut, and no other value became null.\<close>

fun kept_val :: "val \<Rightarrow> val \<Rightarrow> bool" and kept_map :: "gomap \<Rightarrow> gomap \<Rightarrow> bool" where
  "kept_val (VMap old) w = (case w of VMap m \<Rightarrow> kept_map old m | _ \<Rightarrow> False)"
| "kept_val (VSlice old) w = (case w of VSlice vs \<Rightarrow> old = pruneList vs | _ \<Rightarrow> False)"
| "kept_val v w = (case w of VMap _ \<Rightarrow> False | VSlice _ \<Rightarrow> False | VNil \<Rightarrow> v = VNil | _ \<Rightarrow> True)"
| "kept_map [] m = True"
| "kept_map ((k, v) # old) m = ((case map_of m k of None \<Rightarrow> False | Some w \<Rightarrow> kept_val v w) \<and> kept_map old m)"

definition doc :: "env \<Rightarrow> string \<Rightarrow> gomap result" where
  "doc env s = (if s = '''' then Inr [] else e_unmarshal env s)"

definition without_timestamp :: "gomap \<Rightarrow> gomap" where
  "without_timestamp m = fst (removeCreationTimestamp m)"

text \<open>A patch without effect: empty, or only for the creation timestamp, which a typed object has as null.\<close>

definition idle_patch :: "env \<Rightarrow> string \<Rightarrow> bool" where
  "idle_patch env p \<longleftrightarrow> p = ''{}'' \<or> (\<exists>v. e_unmarshal env p = Inr [(''metadata'', VMap [(''creationTimestamp'', v)])])"

text \<open>A three-way merge deletes what the modified document lost against the original, and changes what the
  current one does not have as the modified one. The keys by which it matches the elements of lists are not
  among the values that were cut (\<open>knownListKeys\<close>).\<close>

definition merges_ok :: "env \<Rightarrow> bool" where
  "merges_ok env \<longleftrightarrow>
     (\<forall>original modified current a m c l p.
        doc env original = Inr a \<and> doc env modified = Inr m \<and> doc env current = Inr c
          \<and> kept_map a m \<and> holds_map c (without_timestamp m)
          \<and> (e_strategic env original modified current l = Inr p
             \<or> e_jsonmerge env original modified current = Inr p) \<longrightarrow> idle_patch env p)"

subsection \<open>One object\<close>

definition diffPatches_of :: "desiredset \<Rightarrow> gvk \<Rightarrow> objmeta \<Rightarrow> string list" where
  "diffPatches_of ds gvk md =
     (let patches = (\<lambda>key. case map_of (ds_diffPatches ds) (PatchKey gvk key) of None \<Rightarrow> [] | Some ps \<Rightarrow> ps) in
      patches (key_of md) @ patches (ObjectKey '''' ''''))"

text \<open>No field was lost since the last apply, and none differs now.\<close>

definition no_change :: "env \<Rightarrow> string \<times> string \<times> string \<Rightarrow> bool" where
  "no_change env docs = (case docs of (original, modified, current) \<Rightarrow>
     (case (doc env original, doc env modified, doc env current) of
        (Inr a, Inr m, Inr c) \<Rightarrow> kept_map a m \<and> holds_map c (without_timestamp m)
      | _ \<Rightarrow> False))"

text \<open>The existing object agrees with the desired one: the documents that \<open>apply\<close> compares can be made and
  merged, and show no change.\<close>

definition agrees :: "env \<Rightarrow> desiredset \<Rightarrow> gvk \<Rightarrow> robj \<Rightarrow> robj \<Rightarrow> bool" where
  "agrees env ds gvk old new =
     (case Accessor old of Inl _ \<Rightarrow> False | Inr md \<Rightarrow>
      (case originalAndModified env gvk md new of Inl _ \<Rightarrow> False | Inr (original, modified) \<Rightarrow>
       (case e_marshalObj env old of Inl _ \<Rightarrow> False | Inr current \<Rightarrow>
        let original = (if ds_ignorePreviousApplied ds then '''' else original); diffs = diffPatches_of ds gvk md in
        \<not> isl (doPatch env gvk original modified current diffs) \<and>
        (case stripIgnores env original modified current diffs of
           Inl _ \<Rightarrow> False | Inr docs \<Rightarrow> no_change env docs))))"

lemma sanitize_idle: "idle_patch env p \<Longrightarrow> p \<noteq> ''{}'' \<Longrightarrow> sanitizePatch env p False = Inr ''{}''"
  by (auto simp: idle_patch_def sanitizePatch_def sanitize_data_def del_top_def removeCreationTimestamp_def
      emptyMaps_def ToMapInterface_def obj_read_def split: val.splits)

lemma no_change_idle:
  assumes "merges_ok env" "stripIgnores env original modified current diffs = Inr docs" "no_change env docs"
    "doPatch env gvk original modified current diffs = Inr (pt, p)"
  shows "idle_patch env p"
proof -
  obtain a b c where docs: "docs = (a, b, c)" by (cases docs)
  with assms(2,4) have "\<exists>l. e_strategic env a b c l = Inr p \<or> e_jsonmerge env a b c = Inr p"
    by (auto simp: doPatch_def split: sum.splits if_splits)
  with assms(1,3) show ?thesis
    unfolding merges_ok_def no_change_def docs by (auto split: sum.splits) blast+
qed

lemma agrees_no_patch:
  assumes "merges_ok env" "agrees env ds gvk old new"
  shows "\<exists>md. Accessor old = Inr md \<and>
    compute_patch env gvk (ds_ignorePreviousApplied ds) old new (diffPatches_of ds gvk md) = Inr (md, None)"
proof -
  from assms(2) obtain md where md: "Accessor old = Inr md" by (auto simp: agrees_def split: sum.splits)
  with assms(2) obtain original modified where om: "originalAndModified env gvk md new = Inr (original, modified)"
    by (auto simp: agrees_def split: sum.splits)
  with assms(2) md obtain current where c: "e_marshalObj env old = Inr current"
    by (auto simp: agrees_def split: sum.splits)
  note h = md om c
  from assms(2) obtain docs where
    d: "\<not> isl (doPatch env gvk (if ds_ignorePreviousApplied ds then '''' else original) modified current
        (diffPatches_of ds gvk md))"
      "stripIgnores env (if ds_ignorePreviousApplied ds then '''' else original) modified current
        (diffPatches_of ds gvk md) = Inr docs" "no_change env docs"
  proof (cases "stripIgnores env (if ds_ignorePreviousApplied ds then '''' else original) modified current
      (diffPatches_of ds gvk md)")
    case (Inr docs)
    with assms(2) h that[of docs] show thesis by (simp add: agrees_def)
  qed (use assms(2) h in \<open>simp add: agrees_def\<close>)
  from d(1) obtain pt p where p: "doPatch env gvk (if ds_ignorePreviousApplied ds then '''' else original)
      modified current (diffPatches_of ds gvk md) = Inr (pt, p)"
    by (metis isl_def old.prod.exhaust sum.exhaust)
  from no_change_idle[OF assms(1) d(2,3) p] have "idle_patch env p" .
  with h p sanitize_idle[of env p] show ?thesis by (auto simp: compute_patch_def)
qed

lemma compareObjects_eq:
  "\<not> ds_createPlan ds \<Longrightarrow> Accessor old = Inr md \<Longrightarrow> compareObjects env ds gvk reconciler patcher old new s =
    (case applyPatch env gvk reconciler patcher (ds_ignorePreviousApplied ds) old new (diffPatches_of ds gvk md) s of
       (Inl e, s) \<Rightarrow> (Some e, s) | (Inr _, s) \<Rightarrow> (None, s))"
  by (simp add: compareObjects_def diffPatches_of_def Let_def)

lemma agrees_compareObjects:
  assumes "merges_ok env" "\<not> ds_createPlan ds" "agrees env ds gvk old new"
  shows "compareObjects env ds gvk reconciler patcher old new s = (None, s)"
  using agrees_no_patch[OF assms(1,3)] compareObjects_eq[OF assms(2)] by (auto simp: applyPatch_def)

subsection \<open>One kind\<close>

text \<open>Nothing to create, to change or to delete: every desired object exists and agrees, and every other
  existing object is not to be pruned or is desired under another version.\<close>

definition kind_settled :: "env \<Rightarrow> desiredset \<Rightarrow> gvk \<Rightarrow> objbykey \<Rightarrow> objbykey \<Rightarrow> bool" where
  "kind_settled env ds gvk objs existing \<longleftrightarrow>
     (\<forall>k \<in> set (map fst objs). case map_of existing k of None \<Rightarrow> False
        | Some old \<Rightarrow> agrees env ds gvk old (the (map_of objs k))) \<and>
     (\<forall>(k, old) \<in> set existing. map_of objs k = None \<and> shouldPrune old \<longrightarrow> filterCrossVersion ds gvk [k] = [])"

lemma filterCrossVersion_Nil:
  "(\<forall>k \<in> set ks. filterCrossVersion ds gvk [k] = []) \<Longrightarrow> filterCrossVersion ds gvk ks = []"
  by (auto simp: filterCrossVersion_def Let_def filter_empty_conv split: if_splits)

lemma fold_same: "(\<And>x. x \<in> set xs \<Longrightarrow> f x s = s) \<Longrightarrow> fold f xs s = s"
  by (induction xs) auto

lemma sortObjectKeys_simps [simp]:
  "set (sortObjectKeys ks) = set ks" "sortObjectKeys ks = [] \<longleftrightarrow> ks = []"
  by (auto simp: sortObjectKeys_def) (metis set_empty set_sort)

lemma process_settled:
  assumes "merges_ok env" "\<not> ds_createPlan ds"
    and obs: "observe env ds sel gvk objs s = (Inr (nsed, client, objs', existing), s1)"
    and set: "kind_settled env ds gvk objs' existing"
  shows "process env ds sel gvk objs s = s1"
proof -
  obtain c d u where cmp: "compareSets existing objs' = (c, d, u)" by (cases "compareSets existing objs'")
  have ex: "k \<in> set (map fst objs') \<Longrightarrow> \<exists>old. map_of existing k = Some old \<and>
      agrees env ds gvk old (the (map_of objs' k))" for k
    using set by (auto simp: kind_settled_def split: option.splits)
  have "filter (\<lambda>k. map_of existing k = None) (map fst objs') = []"
    using ex by (fastforce simp: filter_empty_conv)
  with cmp have c: "c = []" by (auto simp: compareSets_def Let_def)
  have "\<forall>(k, old) \<in> set existing. map_of objs' k = None \<and> shouldPrune old \<longrightarrow> filterCrossVersion ds gvk [k] = []"
    using set by (simp add: kind_settled_def)
  with cmp have "\<forall>k \<in> set d. filterCrossVersion ds gvk [k] = []"
    by (fastforce simp: compareSets_def Let_def)
  then have d: "filterCrossVersion ds gvk d = []" by (rule filterCrossVersion_Nil)
  have u: "updateF env ds nsed client gvk r p existing objs' k s1 = s1" if "k \<in> set u" for k r p
  proof -
    from that cmp have "k \<in> set (map fst objs')" by (auto simp: compareSets_def Let_def)
    with ex obtain old where "map_of existing k = Some old" "agrees env ds gvk old (the (map_of objs' k))" by blast
    with agrees_compareObjects[OF assms(1,2)] show ?thesis by (simp add: updateF_def)
  qed
  have "fold (updateF env ds nsed client gvk r p existing objs') u s1 = s1" for r p
    by (rule fold_same) (rule u)
  then show ?thesis
    by (simp add: process_def obs cmp assms(2) run_work_def c d split: option.split)
qed

subsection \<open>The whole set\<close>

lemma sum_False: "(case r of Inl _ \<Rightarrow> False | Inr x \<Rightarrow> P x) \<longleftrightarrow> (\<exists>x. r = Inr x \<and> P x)"
  by (auto split: sum.split)

text \<open>Kind by kind, in the order of \<open>apply\<close>: what can be observed is settled.\<close>

fun quiet_run :: "env \<Rightarrow> desiredset \<Rightarrow> string \<Rightarrow> objbygvk \<Rightarrow> gvk list \<Rightarrow> st \<Rightarrow> bool" where
  "quiet_run env ds sel objs [] s = True"
| "quiet_run env ds sel objs (gvk # gvks) s =
     (case observe env ds sel gvk (case map_of objs gvk of None \<Rightarrow> [] | Some m \<Rightarrow> m) s of
        (Inl e, s) \<Rightarrow> False
      | (Inr (nsed, client, objs', existing), s) \<Rightarrow>
          kind_settled env ds gvk objs' existing \<and> quiet_run env ds sel objs gvks s)"

definition with_remove :: "desiredset \<Rightarrow> desiredset" where
  "with_remove ds =
     (case ds_objs ds of None \<Rightarrow> ds\<lparr>ds_remove := True\<rparr>
      | Some os \<Rightarrow> if os_Len os = 0 then ds\<lparr>ds_remove := True\<rparr> else ds)"

definition quiet_apply :: "env \<Rightarrow> desiredset \<Rightarrow> st \<Rightarrow> bool" where
  "quiet_apply env ds s =
     (let ds = with_remove ds in
      ds_Err ds s = None \<and>
      (case GetLabelsAndAnnotations env (ds_setID ds) (ds_owner ds) of Inl _ \<Rightarrow> False
       | Inr (labelSet, annotationSet) \<Rightarrow>
         (case injectLabelsAndAnnotations ds labelSet annotationSet of Inl _ \<Rightarrow> False
          | Inr objList \<Rightarrow>
            (case runInjectors env ds objList of Inl _ \<Rightarrow> False
             | Inr objList \<Rightarrow>
               quiet_run env ds (GetSelector labelSet) (collect env objList)
                 (case ds_objs ds of None \<Rightarrow> [] | Some os \<Rightarrow> GVKOrder os (knownGVK ds))
                 (getRateLimit ds (smap_get (Some labelSet) LabelHash) s)))))"

subsubsection \<open>Observing reports nothing\<close>

definition same_report :: "st \<Rightarrow> st \<Rightarrow> bool" where
  "same_report s s' \<longleftrightarrow> s_errs s' = s_errs s \<and> s_plan s' = s_plan s"

lemma same_report_simps [simp]: "same_report s s" "same_report s (api c s)"
  by (simp_all add: same_report_def api_def)

lemma same_report_trans: "same_report s s' \<Longrightarrow> same_report s' s'' \<Longrightarrow> same_report s s''"
  by (simp add: same_report_def)

lemma same_report_case:
  assumes "same_report s (snd r)" "\<And>e. same_report (snd r) (snd (g e (snd r)))"
    "\<And>x. same_report (snd r) (snd (f x (snd r)))"
  shows "same_report s (snd (case r of (Inl e, s1) \<Rightarrow> g e s1 | (Inr x, s1) \<Rightarrow> f x s1))"
  using assms by (cases r; cases "fst r") (auto intro: same_report_trans)

lemma clients_client_report: "same_report s (snd (clients_client env gvk s))"
  by (auto simp: clients_client_def same_report_def api_def Let_def split: option.split sum.split)

lemma IsNamespaced_report: "same_report s (snd (IsNamespaced env gvk s))"
  unfolding IsNamespaced_def
  by (auto split: option.split intro!: same_report_case[OF clients_client_report])

lemma getControllerAndClient_report: "same_report s (snd (getControllerAndClient env ds gvk s))"
  unfolding getControllerAndClient_def Let_def
  by (rule same_report_case[OF clients_client_report], simp, rule same_report_case) simp_all

lemma assignOwnerReference_report: "same_report s (snd (assignOwnerReference env ds gvk objs s))"
  unfolding assignOwnerReference_def
  by (auto split: option.split sum.split intro!: same_report_case[OF IsNamespaced_report])

lemma prepare_objs_report: "same_report s (snd (prepare_objs env ds gvk nsed objs s))"
  using assignOwnerReference_report[of s env ds gvk objs]
  by (auto simp: prepare_objs_def split: sum.splits prod.splits)

lemma multiNamespaceList_report: "same_report s (snd (snd (multiNamespaceList env nss client sel s)))"
proof (induction nss arbitrary: s)
  case (Cons ns nss)
  from same_report_trans[OF _ Cons.IH[of "api (CList client (Some ns) sel) s"], of s] show ?case
    by (auto simp: Let_def split: sum.splits prod.splits)
qed simp

lemma ds_list_report: "same_report s (snd (ds_list env ds nsed informer client sel objs s))"
proof -
  have a: "same_report s (snd (snd (allNamespaceList env client sel s)))"
    by (auto simp: allNamespaceList_def Let_def split: sum.splits)
  have b: "same_report s (snd (listByHash env i h ns s))" for i h ns
    by (auto simp: listByHash_def Let_def split: sum.splits prod.splits option.splits)
  have m: "same_report s (snd (case r of (items, err, s1) \<Rightarrow> case add_objs items [] [] of (objs, errs) \<Rightarrow>
      (case NewErrors (errs @ f err) of None \<Rightarrow> (Inr objs, s1) | Some e \<Rightarrow> (Inl e, s1))))"
    if "same_report s (snd (snd r))" for r :: "robj list \<times> goerr option \<times> st" and f
    using that by (cases r) (simp split: prod.split option.split)
  have c: "same_report s (snd (case r of (items, err) \<Rightarrow> case add_objs items [] [] of (objs, errs) \<Rightarrow>
      (case NewErrors (errs @ f err) of None \<Rightarrow> (Inr objs, api c s) | Some e \<Rightarrow> (Inl e, api c s))))"
    for r :: "robj list \<times> goerr option" and f c
    by (cases r) (simp split: prod.split option.split)
  show ?thesis
  proof (cases informer)
    case None
    show ?thesis
      unfolding ds_list_def Let_def None option.case by (rule m) (simp add: a multiNamespaceList_report)
  next
    case (Some i)
    show ?thesis
    proof (cases "getIndexableHash ds i sel")
      case None
      show ?thesis unfolding ds_list_def Let_def Some None option.case by (rule c)
    next
      case h: (Some h)
      show ?thesis unfolding ds_list_def Let_def Some h option.case by (rule b)
    qed
  qed
qed

lemma observe_report: "same_report s (snd (observe env ds sel gvk objs s))"
proof -
  have l: "same_report s (snd (case ds_list env ds nsed c cl sel objs s of
      (Inl e, s) \<Rightarrow> (Inl (Wrap ''failed to list'' e), s)
    | (Inr existing, s) \<Rightarrow> (Inr (nsed, cl, objs, existing), s)))" for nsed c cl objs s
    by (rule same_report_case[OF ds_list_report]) simp_all
  show ?thesis
    unfolding observe_def
  proof (rule same_report_case[OF getControllerAndClient_report], goal_cases)
    case (2 x)
    obtain c cl where x: "x = (c, cl)" by (cases x)
    show ?case
      unfolding x prod.case
      by (rule same_report_case[OF IsNamespaced_report]) (auto intro!: same_report_case[OF prepare_objs_report] l)
  qed simp
qed

text \<open>A step that only reads, and leaves errors and plan alone.\<close>

definition only_reads :: "st \<Rightarrow> st \<Rightarrow> bool" where
  "only_reads s s' \<longleftrightarrow> emits is_read s s' \<and> same_report s s'"

lemma only_reads_trans: "only_reads s s' \<Longrightarrow> only_reads s' s'' \<Longrightarrow> only_reads s s''"
  by (auto simp: only_reads_def intro: emits_trans same_report_trans)

lemma quiet_run_reads:
  assumes "merges_ok env" "\<not> ds_createPlan ds" "quiet_run env ds sel objs gvks s"
  shows "only_reads s (fold (\<lambda>gvk s. process env ds sel gvk
      (case map_of objs gvk of None \<Rightarrow> [] | Some m \<Rightarrow> m) s) gvks s)"
  using assms(3)
proof (induction gvks arbitrary: s)
  case (Cons gvk gvks)
  let ?objs = "case map_of objs gvk of None \<Rightarrow> [] | Some m \<Rightarrow> m"
  from Cons.prems obtain nsed client objs' existing s1 where
    o: "observe env ds sel gvk ?objs s = (Inr (nsed, client, objs', existing), s1)"
      "kind_settled env ds gvk objs' existing" "quiet_run env ds sel objs gvks s1"
    by (auto split: prod.splits sum.splits)
  have "only_reads s s1"
    using observe_emits[of s env ds sel gvk ?objs] observe_report[of s env ds sel gvk ?objs] o(1)
    by (simp add: only_reads_def)
  with Cons.IH[OF o(3)] process_settled[OF assms(1,2) o(1,2)] show ?case
    by (auto intro: only_reads_trans)
qed (simp add: only_reads_def)


text \<open>A concrete run: the config map that is wanted is there, with a field more than was sent.\<close>

definition settled_ds :: desiredset where
  "settled_ds = sample_ds\<lparr>ds_objs := Some (os_Add (e_kinds env0) [Some cm_obj] os_new)\<rparr>"

definition settled_env :: env where
  "settled_env = env0\<lparr>a_list := (\<lambda>_. Inr [cm_obj\<lparr>o_body := [(''data'', VMap [])]\<rparr>])\<rparr>"

lemma merges_ok_settled_env: "merges_ok settled_env"
  by (simp add: merges_ok_def settled_env_def env0_def idle_patch_def)


end
