(* ===== verification/Apply_Roundtrip.thy ===== *)
theory Apply_Roundtrip
  imports Apply_Settled
begin

section \<open>apply: what was created needs no patch\<close>

text \<open>
  The applied annotation is a cut copy of the object, and what \<open>apply\<close> compares with later is that copy
  prepared again. That an object stored as it was sent \<open>agrees\<close> (Apply_Settled) with the object that
  was wanted rests on nothing being lost on the way: cutting, removing the creation timestamp and
  setting the annotation again keep every field of the document.
\<close>

subsection \<open>Documents that keep everything\<close>

lemma kept_map_iff: "kept_map old m \<longleftrightarrow> (\<forall>(k, v) \<in> set old. \<exists>w. map_of m k = Some w \<and> kept_val v w)"
  by (induction old) (auto split: option.splits)

lemma kept_map_of: "kept_map old m \<Longrightarrow> map_of old k = Some v \<Longrightarrow> \<exists>w. map_of m k = Some w \<and> kept_val v w"
  by (auto simp: kept_map_iff dest!: map_of_SomeD)

lemma kept_delete: "kept_map old m \<Longrightarrow> kept_map (AList.delete k old) m"
  by (auto simp: kept_map_iff dest!: set_delete_subset)

lemma kept_VMap [simp]: "kept_val (VMap o1) w \<longleftrightarrow> (\<exists>m1. w = VMap m1 \<and> kept_map o1 m1)"
  by (cases w) auto

declare kept_val.simps(1) [simp del]

lemma wf_map_entries: "wf_map d \<Longrightarrow> \<forall>(k, v) \<in> set d. map_of d k = Some v"
  by (auto simp: wf_map_iff intro: map_of_is_SomeI)

lemma kept_prune_in:
  shows "vs = (vs :: val list)" and "wf_map d \<Longrightarrow> \<not> b \<Longrightarrow> \<forall>(k, v) \<in> set d. map_of m k = Some v \<Longrightarrow> kept_map (pruneValues d b) m"
proof (induction vs and d b arbitrary: and m rule: pruneList_pruneValues.induct)
  case (4 k v data isList)
  have tl: "kept_map (pruneValues data isList) m" using 4 by (auto simp: wf_val_lists)
  have m: "map_of m k = Some v" and v: "wf_val v" using 4 by (auto simp: wf_val_lists)
  show ?case
  proof (cases v)
    case (VMap t)
    with 4(2)[OF VMap, of t] v wf_map_entries[of t] have "kept_map (pruneValues t False) t" by blast
    with VMap m tl 4(6) show ?thesis by simp
  qed (use m tl 4 in auto)
qed simp_all

lemma kept_prune: "wf_map d \<Longrightarrow> kept_map (pruneValues d False) d"
  using kept_prune_in(2)[of d False d] wf_map_entries by blast

lemma kept_without_timestamp: "kept_map old m \<Longrightarrow> kept_map (without_timestamp old) m"
proof -
  assume k: "kept_map old m"
  have "kept_map (AList.update ''metadata'' (VMap (AList.delete ''creationTimestamp'' o1)) old) m"
    if o1: "map_of old ''metadata'' = Some (VMap o1)" for o1
  proof -
    from kept_map_of[OF k o1] obtain m1 where "map_of m ''metadata'' = Some (VMap m1)" "kept_map o1 m1"
      by auto
    with k show ?thesis
      by (auto simp: kept_map_iff[of "AList.update _ _ _"] kept_map_iff[of old] kept_delete dest!: set_update_cases)
  qed
  with k show ?thesis
    by (auto simp: without_timestamp_def removeCreationTimestamp_def ToMapInterface_def split: option.split val.splits)
qed

lemma kept_update:
  assumes "kept_map old m" "wf_map old" "kept_val x y"
  shows "kept_map (AList.update k x old) (AList.update k y m)"
proof -
  have d: "distinct (map fst (AList.update k x old))"
    using assms(2) by (simp add: distinct_update wf_map_iff)
  have "\<exists>w. map_of (AList.update k y m) k' = Some w \<and> kept_val v w" if "(k', v) \<in> set (AList.update k x old)" for k' v
  proof -
    from that d have "map_of (AList.update k x old) k' = Some v" by (simp add: map_of_is_SomeI)
    with assms(3) kept_map_of[OF assms(1), of k' v] show ?thesis by (auto simp: map_of_update split: if_splits)
  qed
  then show ?thesis by (auto simp: kept_map_iff)
qed

lemma kept_Put:
  "kept_map old m \<Longrightarrow> wf_map old \<Longrightarrow> kept_val x y \<Longrightarrow> \<not> blocked m ks \<Longrightarrow>
   kept_map (PutValue_loop old x ks) (PutValue_loop m y ks)"
proof (induction old x ks arbitrary: m rule: PutValue_loop.induct)
  case (3 old x k k2 ks)
  show ?case
  proof (cases "map_of old k")
    case None
    show ?thesis
    proof (cases "map_of m k")
      case m: None
      have "\<not> blocked [] (k2 # ks)" by (cases ks) simp_all
      from 3(1)[OF None _ _ 3(5) this] None m 3 show ?thesis by (simp add: kept_update)
    next
      case (Some w)
      with 3(6) obtain m1 where "w = VMap m1" "\<not> blocked m1 (k2 # ks)" by (auto split: val.splits)
      with 3(1)[OF None _ _ 3(5), of m1] None Some 3 show ?thesis by (simp add: kept_update)
    qed
  next
    case (Some v)
    from kept_map_of[OF 3(3) Some] obtain w where w: "map_of m k = Some w" "kept_val v w" by blast
    with 3(6) obtain m1 where m1: "w = VMap m1" "\<not> blocked m1 (k2 # ks)" by (auto split: val.splits)
    with w obtain o1 where "v = VMap o1" "kept_map o1 m1" by (cases v) auto
    with 3(2)[of v o1 m1] Some w m1 3 wf_map_of[OF 3(4) Some] show ?thesis by (auto intro!: kept_update)
  qed
qed (auto intro: kept_update)

subsection \<open>Documents of objects\<close>

abbreviation applied_path :: "string list" where
  "applied_path \<equiv> [''metadata'', ''annotations'', LabelApplied]"

text \<open>The document of an object after \<open>prepareObjectForCreate\<close>.\<close>

definition set_doc :: "gvk \<Rightarrow> string \<Rightarrow> gomap \<Rightarrow> gomap" where
  "set_doc gvk applied d =
     AList.update ''kind'' (VStr (g_kind gvk))
       (AList.update ''apiVersion'' (VStr (gv_String gvk)) (PutValue_loop d (VStr applied) applied_path))"

definition with_applied :: "gvk \<Rightarrow> string \<Rightarrow> objmeta \<Rightarrow> robj \<Rightarrow> robj" where
  "with_applied gvk applied m obj =
     obj\<lparr>o_meta := Some (m\<lparr>m_annotations := Some (AList.update LabelApplied applied
         (case m_annotations m of None \<Rightarrow> [] | Some a \<Rightarrow> a))\<rparr>), o_gvk := gvk\<rparr>"

text \<open>Encoding an object gives its document, and the annotation, the version and the kind that are set on
  the object are found in the document that is marshalled.\<close>

definition faithful :: "env \<Rightarrow> gvk \<Rightarrow> robj \<Rightarrow> gomap \<Rightarrow> bool" where
  "faithful env gvk obj d \<longleftrightarrow> e_encodeToMap env obj = Inr d \<and> wf_map d \<and>
     (\<forall>m applied b. o_meta obj = Some m \<and> e_marshalObj env (with_applied gvk applied m obj) = Inr b \<longrightarrow>
        doc env b = Inr (set_doc gvk applied d))"

definition json_ok :: "env \<Rightarrow> bool" where
  "json_ok env \<longleftrightarrow> (\<forall>m b. e_marshal env m = Inr b \<longrightarrow> b \<noteq> [] \<and> hd b = CHR ''{'' \<and> e_unmarshal env b = Inr m)"

lemma prepare_cases:
  assumes "faithful env gvk obj d" "prepareObjectForCreate env gvk obj = Inr obj'"
  obtains b m where "e_marshal env (pruneValues d False) = Inr b" "o_meta obj = Some m"
    "obj' = with_applied gvk (appliedToAnnotation env b) m obj"
  using assms
  by (auto simp: prepareObjectForCreate_def serializeApplied_def faithful_def with_applied_def Accessor_def Let_def
      split: sum.splits option.splits)

lemma prepared_annotation:
  assumes "faithful env gvk obj d" "prepareObjectForCreate env gvk obj = Inr obj'" "o_meta obj' = Some ms"
  shows "\<exists>b. e_marshal env (pruneValues d False) = Inr b
    \<and> smap_get (m_annotations ms) LabelApplied = appliedToAnnotation env b"
  using prepare_cases[OF assms(1,2)]
proof cases
  case (1 b m)
  with assms(3) show ?thesis by (auto simp: with_applied_def smap_get_def update_conv')
qed

lemma prepared_doc:
  assumes "faithful env gvk obj d" "prepareObjectForCreate env gvk obj = Inr obj'" "e_marshalObj env obj' = Inr t"
  shows "\<exists>b. e_marshal env (pruneValues d False) = Inr b \<and> doc env t = Inr (set_doc gvk (appliedToAnnotation env b) d)"
  using prepare_cases[OF assms(1,2)] assms(1,3) unfolding faithful_def by metis

lemma without_timestamp_unblocked: "\<not> blocked d applied_path \<Longrightarrow> \<not> blocked (without_timestamp d) applied_path"
  by (auto simp: without_timestamp_def removeCreationTimestamp_def ToMapInterface_def map_of_update delete_conv'
      split: option.splits val.splits)

lemma kept_set_doc:
  assumes "kept_map old m" "wf_map old" "\<not> blocked m applied_path"
  shows "kept_map (set_doc gvk x old) (set_doc gvk y m)"
  unfolding set_doc_def
  by (intro kept_update kept_Put assms wf_intros) simp_all

lemma wf_without_timestamp: "wf_map d \<Longrightarrow> wf_map (without_timestamp d)"
  by (auto simp: without_timestamp_def removeCreationTimestamp_def ToMapInterface_def
      split: option.splits val.splits intro!: wf_intros dest: wf_map_of)

text \<open>What \<open>apply\<close> reads back as the original is kept in what it would send now.\<close>

definition original_doc :: "gomap \<Rightarrow> gomap" where
  "original_doc d = without_timestamp (pruneValues d False)"

lemma original_doc_kept: "wf_map d \<Longrightarrow> kept_map (original_doc d) d"
  unfolding original_doc_def by (intro kept_without_timestamp kept_prune)

lemma wf_original_doc: "wf_map d \<Longrightarrow> wf_map (original_doc d)"
  unfolding original_doc_def using wf_pruneValues[of d False] by (intro wf_without_timestamp) simp

lemma original_of_prepared:
  assumes "codec_ok env" "json_ok env" "e_marshal env (pruneValues d False) = Inr b"
    and "smap_get (m_annotations md) LabelApplied = appliedToAnnotation env b"
  shows "getOriginalObject env gvk md = (case prepareObjectForCreate env gvk (e_fromMap env (original_doc d)) of
     Inl e \<Rightarrow> Inl e | Inr x \<Rightarrow> Inr (Some x))"
proof -
  from assms(2,3) have j: "b \<noteq> [] \<and> hd b = CHR ''{'' \<and> e_unmarshal env b = Inr (pruneValues d False)"
    by (simp add: json_ok_def)
  then have "appliedFromAnnotation env (appliedToAnnotation env b) = b"
    by (intro applied_roundtrip assms(1)) simp
  with j assms(4) show ?thesis by (simp add: getOriginalObject_def original_doc_def without_timestamp_def)
qed

subsection \<open>Created objects agree\<close>

text \<open>The existing object is the desired one as it was sent, perhaps with more fields.\<close>

definition stored_as_sent :: "env \<Rightarrow> gvk \<Rightarrow> gomap \<Rightarrow> robj \<Rightarrow> robj \<Rightarrow> bool" where
  "stored_as_sent env gvk d sent old =
     (case (o_meta sent, o_meta old, e_marshalObj env old) of
        (Some ms, Some md, Inr current) \<Rightarrow>
          smap_get (m_annotations md) LabelApplied = smap_get (m_annotations ms) LabelApplied \<and>
          (case doc env current of
             Inl _ \<Rightarrow> False
           | Inr c \<Rightarrow> holds_map c (without_timestamp (set_doc gvk (smap_get (m_annotations ms) LabelApplied) d)))
      | _ \<Rightarrow> False)"

lemma created_agrees:
  assumes "codec_ok env" "json_ok env" "ds_diffPatches ds = []"
    and new: "faithful env gvk new d" "faithful env gvk (e_fromMap env (original_doc d)) (original_doc d)"
      "\<not> blocked d applied_path"
    and sent: "prepareObjectForCreate env gvk new = Inr sent" and old: "stored_as_sent env gvk d sent old"
    and comp: "compute_patch env gvk (ds_ignorePreviousApplied ds) old new [] = Inr q"
  shows "agrees env ds gvk old new"
proof -
  from old obtain ms md current c where old: "o_meta sent = Some ms" "o_meta old = Some md"
    "smap_get (m_annotations md) LabelApplied = smap_get (m_annotations ms) LabelApplied"
    "e_marshalObj env old = Inr current" "doc env current = Inr c"
    "holds_map c (without_timestamp (set_doc gvk (smap_get (m_annotations ms) LabelApplied) d))"
    by (auto simp: stored_as_sent_def split: option.splits sum.splits)
  have diffs: "diffPatches_of ds gvk md = []" by (simp add: diffPatches_of_def assms(3))
  let ?ig = "\<lambda>x. if ds_ignorePreviousApplied ds then '''' else x"
  from comp old(2,4) obtain original modified r where
    om: "originalAndModified env gvk md new = Inr (original, modified)"
    and p: "doPatch env gvk (?ig original) modified current [] = Inr r"
    by (auto simp: compute_patch_def Accessor_def split: sum.splits)
  obtain b where b: "e_marshal env (pruneValues d False) = Inr b"
    and ann: "smap_get (m_annotations ms) LabelApplied = appliedToAnnotation env b"
    using prepared_annotation[OF new(1) sent old(1)] by blast
  have "getOriginalObject env gvk md = (case prepareObjectForCreate env gvk (e_fromMap env (original_doc d)) of
     Inl e \<Rightarrow> Inl e | Inr x \<Rightarrow> Inr (Some x))"
    by (rule original_of_prepared[OF assms(1,2) b]) (simp add: old(3) ann)
  with om sent obtain o0 where o0: "prepareObjectForCreate env gvk (e_fromMap env (original_doc d)) = Inr o0"
      "e_marshalObj env o0 = Inr original" and m: "e_marshalObj env sent = Inr modified"
    by (auto simp: originalAndModified_def getOriginalBytes_def split: sum.splits)
  from prepared_doc[OF new(2) o0] obtain a0 where a0: "doc env original = Inr (set_doc gvk a0 (original_doc d))" by blast
  from prepared_doc[OF new(1) sent m] b ann have dm:
    "doc env modified = Inr (set_doc gvk (smap_get (m_annotations ms) LabelApplied) d)" by simp
  have wf: "wf_map d" using new(1) by (simp add: faithful_def)
  have "no_change env (?ig original, modified, current)"
    using kept_set_doc[OF original_doc_kept[OF wf] wf_original_doc[OF wf] new(3)] a0 dm old(5,6)
    by (simp add: no_change_def doc_def[of env "''''"])
  with om p old(2,4) diffs show ?thesis by (simp add: agrees_def Accessor_def)
qed

subsection \<open>Property\<close>


text \<open>A concrete run: a config map with a value of seventy bytes, which the annotation cuts; the server has
  added a status and a creation timestamp.\<close>

definition rt_data :: gomap where
  "rt_data = [(''data'', VMap [(''k'', VStr (replicate 70 CHR ''x''))])]"

definition rt_doc :: gomap where
  "rt_doc = [(''metadata'', VMap [(''creationTimestamp'', VNil), (''name'', VStr ''a'')])] @ rt_data"

definition rt_new :: robj where
  "rt_new = cm_obj\<lparr>o_body := rt_doc\<rparr>"

definition rt_sent :: robj where
  "rt_sent = with_applied cm_gvk ''A{1'' (meta0 ''ns'' ''a'') rt_new"

definition rt_original :: robj where
  "rt_original = with_applied cm_gvk ''A{2'' (meta0 '''' '''') (e_fromMap env0 (original_doc rt_doc))"

definition rt_current :: gomap where
  "rt_current = AList.update ''metadata'' (VMap [(''creationTimestamp'', VStr ''2024''), (''name'', VStr ''a''),
       (''annotations'', VMap [(LabelApplied, VStr ''A{1'')])]) (set_doc cm_gvk ''A{1'' rt_doc) @ [(''status'', VMap [])]"

definition rt_old :: robj where
  "rt_old = rt_sent\<lparr>o_body := rt_current\<rparr>"

definition rt_docs :: "(string \<times> gomap) list" where
  "rt_docs = [(''{1'', pruneValues rt_doc False), (''{2'', original_doc rt_doc)]"

definition rt_env :: env where
  "rt_env = env0\<lparr>
     e_marshal := (\<lambda>m. if m = pruneValues rt_doc False then Inr ''{1''
        else if m = original_doc rt_doc then Inr ''{2'' else Inl (Err ''json'')),
     e_marshalObj := (\<lambda>x. if x = rt_sent then Inr ''sent'' else if x = rt_original then Inr ''original''
        else if x = rt_old then Inr ''current'' else Inl (Err ''json'')),
     e_unmarshal := (\<lambda>s. case map_of (rt_docs @ [(''sent'', set_doc cm_gvk ''A{1'' rt_doc),
         (''original'', set_doc cm_gvk ''A{2'' (original_doc rt_doc)), (''current'', rt_current), (''{}'', [])]) s of
        None \<Rightarrow> Inl (Err ''json'') | Some m \<Rightarrow> Inr m)\<rparr>"

lemma rt_docs_distinct:
  "original_doc rt_doc \<noteq> pruneValues rt_doc False" "original_doc rt_doc \<noteq> rt_doc" "rt_current \<noteq> rt_doc"
  "original_doc rt_doc \<noteq> rt_current"
  by code_simp+

lemma rt_faithful:
  "faithful rt_env cm_gvk rt_new rt_doc"
  "faithful rt_env cm_gvk (e_fromMap rt_env (original_doc rt_doc)) (original_doc rt_doc)"
proof -
  have wf: "wf_map rt_doc" by code_simp
  have e: "e_encodeToMap rt_env x = Inr (o_body x)" "e_fromMap rt_env m = e_fromMap env0 m" for x m
    by (simp_all add: rt_env_def env0_def)
  have u: "doc rt_env ''sent'' = Inr (set_doc cm_gvk ''A{1'' rt_doc)"
    "doc rt_env ''original'' = Inr (set_doc cm_gvk ''A{2'' (original_doc rt_doc))"
    by (simp_all add: doc_def rt_env_def rt_docs_def)
  have b: "o_body rt_sent = rt_doc" "o_body rt_original = original_doc rt_doc" "o_body rt_old = rt_current"
    by (simp_all add: rt_sent_def rt_original_def rt_old_def with_applied_def rt_new_def)
  have marshal: "e_marshalObj rt_env x = Inr t \<Longrightarrow>
      (x = rt_sent \<and> t = ''sent'') \<or> (x = rt_original \<and> t = ''original'') \<or> x = rt_old" for x t
    by (auto simp: rt_env_def split: if_splits)
  have ann: "a = a'" if "with_applied cm_gvk a m x = with_applied cm_gvk a' m x" "m_annotations m = None" for a a' m x
  proof -
    from that(1) have "m_annotations (the (o_meta (with_applied cm_gvk a m x)))
        = m_annotations (the (o_meta (with_applied cm_gvk a' m x)))" by simp
    with that(2) show ?thesis by (simp add: with_applied_def)
  qed
  have body: "o_body (with_applied g a m x) = o_body x" for g a m x by (simp add: with_applied_def)
  have n: "m_annotations (meta0 x y) = None" for x y by (simp add: meta0_def)
  have 1: "doc rt_env t = Inr (set_doc cm_gvk a rt_doc)"
    if "o_meta rt_new = Some m" "e_marshalObj rt_env (with_applied cm_gvk a m rt_new) = Inr t" for m a t
  proof -
    from that(1) have m: "m = meta0 ''ns'' ''a''" by (simp add: rt_new_def cm_obj_def)
    have "o_body (with_applied cm_gvk a m rt_new) = rt_doc" by (simp add: body rt_new_def)
    with marshal[OF that(2)] b rt_docs_distinct have s: "with_applied cm_gvk a m rt_new = rt_sent" "t = ''sent''" by metis+
    then have "a = ''A{1''" using ann[OF _ n] unfolding rt_sent_def m by blast
    with s(2) u show ?thesis by simp
  qed
  have 2: "doc rt_env t = Inr (set_doc cm_gvk a (original_doc rt_doc))"
    if "o_meta (e_fromMap env0 (original_doc rt_doc)) = Some m"
      "e_marshalObj rt_env (with_applied cm_gvk a m (e_fromMap env0 (original_doc rt_doc))) = Inr t" for m a t
  proof -
    from that(1) have m: "m = meta0 '''' ''''" by simp
    have "o_body (with_applied cm_gvk a m (e_fromMap env0 (original_doc rt_doc))) = original_doc rt_doc"
      by (simp add: body)
    with marshal[OF that(2)] b rt_docs_distinct have
      s: "with_applied cm_gvk a m (e_fromMap env0 (original_doc rt_doc)) = rt_original" "t = ''original''" by metis+
    then have "a = ''A{2''" using ann[OF _ n] unfolding rt_original_def m by blast
    with s(2) u show ?thesis by simp
  qed
  show "faithful rt_env cm_gvk rt_new rt_doc"
    using 1 wf by (simp add: faithful_def e rt_new_def)
  show "faithful rt_env cm_gvk (e_fromMap rt_env (original_doc rt_doc)) (original_doc rt_doc)"
    unfolding e(2) faithful_def using 2 wf_original_doc[OF wf] by (simp add: e)
qed


end
