(* ===== verification/Apply_Converges.thy ===== *)
theory Apply_Converges
  imports Apply_Roundtrip
begin

section \<open>apply: the second run changes nothing\<close>

text \<open>
  Two runs of \<open>process\<close> for one kind, the first on a cluster without any of the objects. The cache of clients
  makes the second run prepare the same objects; what the first created is what the second lists, by the
  law \<open>lists_created\<close> of the API server; and Apply_Roundtrip shows that nothing is left to do.
\<close>

subsection \<open>The cache only grows\<close>

definition cache_le :: "clients \<Rightarrow> clients \<Rightarrow> bool" where
  "cache_le c d \<longleftrightarrow> map_of (cl_clients c) \<subseteq>\<^sub>m map_of (cl_clients d) \<and> map_of (cl_namespaced c) \<subseteq>\<^sub>m map_of (cl_namespaced d)"

lemma cache_le_refl [simp]: "cache_le c c"
  by (simp add: cache_le_def)

lemma cache_le_trans: "cache_le c d \<Longrightarrow> cache_le d e \<Longrightarrow> cache_le c e"
  unfolding cache_le_def by (auto intro: map_le_trans)

text \<open>A step keeps the cache coherent and lets it grow.\<close>

definition cache_grows :: "st \<Rightarrow> st \<Rightarrow> bool" where
  "cache_grows s s' \<longleftrightarrow> (clients_inv (s_clients s) \<longrightarrow> clients_inv (s_clients s') \<and> cache_le (s_clients s) (s_clients s'))"

lemma cache_grows_refl [simp]: "cache_grows s s"
  by (simp add: cache_grows_def)

lemma cache_grows_same: "s_clients s' = s_clients s \<Longrightarrow> cache_grows s s'"
  by (simp add: cache_grows_def)

lemma cache_grows_trans: "cache_grows s s' \<Longrightarrow> cache_grows s' s'' \<Longrightarrow> cache_grows s s''"
  by (auto simp: cache_grows_def intro: cache_le_trans)

lemma cache_grows_case:
  assumes "cache_grows s (snd r)" "\<And>e. cache_grows (snd r) (snd (g e (snd r)))" "\<And>x. cache_grows (snd r) (snd (f x (snd r)))"
  shows "cache_grows s (snd (case r of (Inl e, s1) \<Rightarrow> g e s1 | (Inr x, s1) \<Rightarrow> f x s1))"
  using assms by (cases r; cases "fst r") (auto intro: cache_grows_trans)

lemma s_clients_api [simp]: "s_clients (api c s) = s_clients s" "s_clients (add_err e s) = s_clients s"
  by (simp_all add: api_def add_err_def)

lemma clients_client_grows: "cache_grows s (snd (clients_client env gvk s))"
proof -
  have "cache_le (s_clients s) (s_clients (snd (clients_client env gvk s)))" if i: "clients_inv (s_clients s)"
  proof (cases "map_of (cl_clients (s_clients s)) gvk")
    case None
    with i have "map_of (cl_namespaced (s_clients s)) gvk = None" unfolding clients_inv_def by (metis domIff)
    with None show ?thesis
      by (auto simp: clients_client_def cache_le_def map_le_def update_conv' Let_def
          split: option.split sum.split)
  qed (simp add: clients_client_def)
  then show ?thesis using clients_client_inv by (simp add: cache_grows_def)
qed

lemma IsNamespaced_grows: "cache_grows s (snd (IsNamespaced env gvk s))"
  unfolding IsNamespaced_def
  by (auto split: option.split intro!: cache_grows_case[OF clients_client_grows])

lemma informer_grows: "cache_grows s (snd (if b then let s = api (CInformer gvk) s in (a_informer env (s_calls s), s) else (Inr i, s)))"
  by (auto simp: Let_def intro: cache_grows_same)

lemma getControllerAndClient_grows: "cache_grows s (snd (getControllerAndClient env ds gvk s))"
  unfolding getControllerAndClient_def
  by (rule cache_grows_case[OF clients_client_grows], simp, unfold Let_def, rule cache_grows_case[OF informer_grows[unfolded Let_def]])
    simp_all

lemma assignOwnerReference_grows: "cache_grows s (snd (assignOwnerReference env ds gvk objs s))"
  unfolding assignOwnerReference_def
  by (auto split: option.split sum.split intro!: cache_grows_case[OF IsNamespaced_grows])

lemma prepare_objs_grows: "cache_grows s (snd (prepare_objs env ds gvk nsed objs s))"
  unfolding prepare_objs_def
  by (rule cache_grows_case) (simp_all add: assignOwnerReference_grows)

subsection \<open>What was answered is answered again\<close>

lemma clients_client_again:
  assumes "clients_client env gvk s = (Inr c, s')" "cache_le (s_clients s') (s_clients t)"
  shows "clients_client env gvk t = (Inr c, t)"
proof -
  from clients_client_cached[OF assms(1)] have "map_of (cl_clients (s_clients s')) gvk = Some c" by blast
  with assms(2) have "map_of (cl_clients (s_clients t)) gvk = Some c"
    unfolding cache_le_def map_le_def by (metis domI)
  then show ?thesis by (simp add: clients_client_def)
qed

lemma IsNamespaced_again:
  assumes "clients_inv (s_clients s)" "IsNamespaced env gvk s = (Inr b, s')" "cache_le (s_clients s') (s_clients t)"
  shows "IsNamespaced env gvk t = (Inr b, t)"
proof -
  have "map_of (cl_namespaced (s_clients s')) gvk = Some b"
  proof (cases "map_of (cl_namespaced (s_clients s)) gvk")
    case (Some x)
    with assms(2) show ?thesis by (simp add: IsNamespaced_def)
  next
    case None
    with assms(2) obtain c where c: "clients_client env gvk s = (Inr c, s')"
      and b: "b = (case map_of (cl_namespaced (s_clients s')) gvk of None \<Rightarrow> False | Some b \<Rightarrow> b)"
      by (auto simp: IsNamespaced_def split: prod.splits sum.splits)
    from clients_client_cached[OF c] have "map_of (cl_clients (s_clients s')) gvk = Some c" by blast
    moreover have "clients_inv (s_clients s')"
      using clients_client_inv[OF assms(1), of env gvk] c by simp
    ultimately obtain y where "map_of (cl_namespaced (s_clients s')) gvk = Some y"
      unfolding clients_inv_def by (metis domD domI)
    with b show ?thesis by simp
  qed
  with assms(3) have "map_of (cl_namespaced (s_clients t)) gvk = Some b"
    unfolding cache_le_def map_le_def by (metis domI)
  then show ?thesis by (simp add: IsNamespaced_def)
qed

lemma getControllerAndClient_again:
  assumes "getControllerAndClient env ds gvk s = (Inr (i, c), s')" "cache_le (s_clients s') (s_clients t)"
    and "getControllerAndClient env ds gvk t = (Inr (i2, c2), t')"
  shows "c2 = c \<and> s_clients t' = s_clients t"
proof -
  from assms(1) obtain s1 where c: "clients_client env gvk s = (Inr c, s1)" "s_clients s' = s_clients s1"
    by (auto simp: getControllerAndClient_def Let_def split: prod.splits sum.splits if_splits)
  with assms(2) have "clients_client env gvk t = (Inr c, t)" by (auto intro: clients_client_again)
  with assms(3) show ?thesis
    by (auto simp: getControllerAndClient_def Let_def split: prod.splits sum.splits if_splits)
qed

lemma assignOwnerReference_again:
  assumes "clients_inv (s_clients s)" "assignOwnerReference env ds gvk objs s = (Inr x, s')"
    and "cache_le (s_clients s') (s_clients t)"
  shows "assignOwnerReference env ds gvk objs t = (Inr x, t)"
proof -
  from assms(2) obtain ob om og b s1 where o1: "ds_owner ds = Some ob" "Accessor ob = Inr om" "gvk_Get (e_kinds env) ob = Inr og"
    "IsNamespaced env og s = (Inr b, s1)"
    by (auto simp: assignOwnerReference_def split: option.splits sum.splits prod.splits if_splits)
  have inv: "clients_inv (s_clients s1)" using IsNamespaced_grows[of s env og] o1(4) assms(1) by (simp add: cache_grows_def)
  show ?thesis
  proof (cases "objs = []")
    case True
    with assms(2,3) o1 have "IsNamespaced env og t = (Inr b, t)"
      by (intro IsNamespaced_again[OF assms(1) o1(4)]) (simp add: assignOwnerReference_def)
    with assms(2) o1 True show ?thesis by (simp add: assignOwnerReference_def)
  next
    case False
    with assms(2) o1 obtain n where n: "IsNamespaced env gvk s1 = (Inr n, s')"
      "visit_all (assign_visit ds og om b n) (e_range env (map fst objs)) objs = Inr x"
      by (auto simp: assignOwnerReference_def split: sum.splits prod.splits)
    have "cache_le (s_clients s1) (s_clients s')" using IsNamespaced_grows[of s1 env gvk] n(1) inv by (simp add: cache_grows_def)
    then have "IsNamespaced env og t = (Inr b, t)"
      by (intro IsNamespaced_again[OF assms(1) o1(4)] cache_le_trans[OF _ assms(3)])
    moreover have "IsNamespaced env gvk t = (Inr n, t)" by (rule IsNamespaced_again[OF inv n(1) assms(3)])
    ultimately show ?thesis using o1 n(2) False by (simp add: assignOwnerReference_def)
  qed
qed

lemma prepare_objs_again:
  assumes "clients_inv (s_clients s)" "prepare_objs env ds gvk nsed objs s = (Inr x, s')"
    and "cache_le (s_clients s') (s_clients t)"
  shows "prepare_objs env ds gvk nsed objs t = (Inr x, t)"
proof (cases "ds_setOwnerReference ds \<and> ds_owner ds \<noteq> None")
  case True
  with assms(2) obtain y where y: "assignOwnerReference env ds gvk objs s = (Inr y, s')"
    and x: "(if nsed then adjustNamespace env ds y else clearNamespace env y) = Inr x"
    by (auto simp: prepare_objs_def split: prod.splits sum.splits)
  from assignOwnerReference_again[OF assms(1) y assms(3)] x True show ?thesis by (simp add: prepare_objs_def)
next
  case False
  from assms(2) show ?thesis unfolding prepare_objs_def if_not_P[OF False] by auto
qed

lemma observe_parts:
  assumes "observe env ds sel gvk objs s = (Inr (nsed, client, objs', existing), s')"
  obtains i sa sb sc where "getControllerAndClient env ds gvk s = (Inr (i, client), sa)"
    "IsNamespaced env gvk sa = (Inr nsed, sb)" "prepare_objs env ds gvk nsed objs sb = (Inr objs', sc)"
    "ds_list env ds nsed i client sel objs' sc = (Inr existing, s')"
  using assms by (auto simp: observe_def split: prod.splits sum.splits if_splits)

lemma ds_list_clients: "s_clients (snd (ds_list env ds nsed informer client sel objs s)) = s_clients s"
proof -
  have mn: "s_clients (snd (snd (multiNamespaceList env nss client sel s))) = s_clients s" for nss s
  proof (induction nss arbitrary: s)
    case (Cons ns nss)
    from Cons.IH[of "api (CList client (Some ns) sel) s"] show ?case
      by (auto simp: Let_def split: sum.splits prod.splits)
  qed simp
  have an: "s_clients (snd (snd (allNamespaceList env client sel s))) = s_clients s"
    by (auto simp: allNamespaceList_def Let_def split: sum.splits)
  have lh: "s_clients (snd (listByHash env i h ns s)) = s_clients s" for i h ns
    by (auto simp: listByHash_def Let_def split: sum.splits prod.splits option.splits)
  have m: "s_clients (snd (case r of (items, err, s1) \<Rightarrow> case add_objs items [] [] of (objs, errs) \<Rightarrow>
      (case NewErrors (errs @ f err) of None \<Rightarrow> (Inr objs, s1) | Some e \<Rightarrow> (Inl e, s1)))) = s_clients (snd (snd r))"
    for r :: "robj list \<times> goerr option \<times> st" and f
    by (cases r) (simp split: prod.split option.split)
  have c: "s_clients (snd (case r of (items, err) \<Rightarrow> case add_objs items [] [] of (objs, errs) \<Rightarrow>
      (case NewErrors (errs @ f err) of None \<Rightarrow> (Inr objs, s1) | Some e \<Rightarrow> (Inl e, s1)))) = s_clients s1"
    for r :: "robj list \<times> goerr option" and f and s1 :: st
    by (cases r) (simp split: prod.split option.split)
  show ?thesis
  proof (cases informer)
    case None
    show ?thesis unfolding ds_list_def Let_def None option.case m by (simp add: an mn)
  next
    case (Some i)
    show ?thesis
    proof (cases "getIndexableHash ds i sel")
      case None
      show ?thesis unfolding ds_list_def Let_def Some None option.case c by simp
    next
      case h: (Some h)
      show ?thesis unfolding ds_list_def Let_def Some h option.case by (rule lh)
    qed
  qed
qed

text \<open>A later run that observes at all prepares the same objects for the same client.\<close>

lemma observe_again:
  assumes "clients_inv (s_clients s)" "observe env ds sel gvk objs s = (Inr (nsed, client, objs', existing), s')"
    and "cache_le (s_clients s') (s_clients t)"
    and "observe env ds sel gvk objs t = (Inr (nsed2, client2, objs2, existing2), t')"
  shows "nsed2 = nsed \<and> client2 = client \<and> objs2 = objs'"
proof -
  from assms(2) obtain i sa sb sc where 1: "getControllerAndClient env ds gvk s = (Inr (i, client), sa)"
    "IsNamespaced env gvk sa = (Inr nsed, sb)" "prepare_objs env ds gvk nsed objs sb = (Inr objs', sc)"
    "ds_list env ds nsed i client sel objs' sc = (Inr existing, s')" by (rule observe_parts)
  from assms(4) obtain j ta tb tc where 2: "getControllerAndClient env ds gvk t = (Inr (j, client2), ta)"
    "IsNamespaced env gvk ta = (Inr nsed2, tb)" "prepare_objs env ds gvk nsed2 objs tb = (Inr objs2, tc)"
    by (rule observe_parts)
  have inva: "clients_inv (s_clients sa)" using getControllerAndClient_grows[of s env ds gvk] 1(1) assms(1) by (simp add: cache_grows_def)
  have invb: "clients_inv (s_clients sb)" "cache_le (s_clients sa) (s_clients sb)"
    using IsNamespaced_grows[of sa env gvk] 1(2) inva by (simp_all add: cache_grows_def)
  have c: "cache_le (s_clients sb) (s_clients sc)"
    using prepare_objs_grows[of sb env ds gvk nsed objs] 1(3) invb(1) by (simp add: cache_grows_def)
  have "s_clients s' = s_clients sc" using ds_list_clients[of env ds nsed i client sel objs' sc] 1(4) by simp
  with assms(3) have ct: "cache_le (s_clients sc) (s_clients t)" by simp
  then have bt: "cache_le (s_clients sb) (s_clients t)" by (rule cache_le_trans[OF c])
  then have at: "cache_le (s_clients sa) (s_clients t)" by (rule cache_le_trans[OF invb(2)])
  from getControllerAndClient_again[OF 1(1) at 2(1)] have cl: "client2 = client" "s_clients ta = s_clients t" by auto
  have "IsNamespaced env gvk ta = (Inr nsed, ta)"
    by (rule IsNamespaced_again[OF inva 1(2)]) (simp add: cl(2) bt)
  with 2(2) have n: "nsed2 = nsed" "tb = ta" by auto
  have "prepare_objs env ds gvk nsed objs ta = (Inr objs', ta)"
    by (rule prepare_objs_again[OF invb(1) 1(3)]) (simp add: cl(2) ct)
  with 2(3) n cl(1) show ?thesis by simp
qed

subsection \<open>The first run\<close>

text \<open>No other object has one of the names: a create request is not answered that the object exists.\<close>

definition names_free :: "env \<Rightarrow> bool" where
  "names_free env \<longleftrightarrow> (\<forall>h. \<not> IsAlreadyExists (a_create env h)) \<and>
     (\<forall>obj e. toUnstructured env obj = Inl e \<longrightarrow> \<not> IsAlreadyExists (Some e))"

lemma createF_free:
  assumes "names_free env"
  shows "\<exists>s' es. createF env ds nsed client gvk objs k (w, s) = (w, s') \<and> s_clients s' = s_clients s \<and>
    s_errs s' = s_errs s @ es \<and> (create_call env nsed client gvk objs k = None \<longrightarrow> es \<noteq> [])"
proof (cases "prepareObjectForCreate env gvk (the (map_of objs k))")
  case (Inl e)
  then show ?thesis by (simp add: createF_def add_err_def)
next
  case (Inr obj)
  show ?thesis
  proof (cases "toUnstructured env obj")
    case (Inl e)
    with assms Inr show ?thesis by (simp add: createF_def ds_create_def names_free_def add_err_def)
  next
    case u: (Inr u)
    with assms Inr show ?thesis
      by (auto simp: createF_def ds_create_def names_free_def Let_def create_call_def add_err_def api_def split: option.split)
  qed
qed

lemma fold_createF_free:
  assumes "names_free env"
  shows "\<exists>s' es. fold (createF env ds nsed client gvk objs) ks (w, s) = (w, s') \<and> s_clients s' = s_clients s \<and>
    s_errs s' = s_errs s @ es \<and> (es = [] \<longrightarrow> (\<forall>k \<in> set ks. create_call env nsed client gvk objs k \<noteq> None))"
proof (induction ks arbitrary: s)
  case (Cons k ks)
  from createF_free[OF assms, of ds nsed client gvk objs k w s] obtain s1 e1 where 1: "createF env ds nsed client gvk objs k (w, s) = (w, s1)"
    "s_clients s1 = s_clients s" "s_errs s1 = s_errs s @ e1" "create_call env nsed client gvk objs k = None \<longrightarrow> e1 \<noteq> []"
    by (elim exE conjE) (rule that)
  from Cons.IH[of s1] obtain s' e2 where 2: "fold (createF env ds nsed client gvk objs) ks (w, s1) = (w, s')"
    "s_clients s' = s_clients s1" "s_errs s' = s_errs s1 @ e2"
    "e2 = [] \<longrightarrow> (\<forall>k \<in> set ks. create_call env nsed client gvk objs k \<noteq> None)"
    by (elim exE conjE) (rule that)
  show ?case
    by (rule exI[of _ s'], rule exI[of _ "e1 @ e2"]) (use 1 2 in auto)
qed simp

text \<open>The first run finds nothing, and reports no error: it has made a create request for every object.\<close>

lemma first_run:
  assumes "names_free env" "\<not> ds_createPlan ds"
    and obs: "observe env ds sel gvk objs s = (Inr (nsed, client, objs', []), s1)"
    and errs: "s_errs (process env ds sel gvk objs s) = s_errs s"
  shows "s_clients (process env ds sel gvk objs s) = s_clients s1"
    and "k \<in> set (map fst objs') \<Longrightarrow> \<exists>c. create_call env nsed client gvk objs' k = Some c
      \<and> c \<in> set (new_calls s1 (process env ds sel gvk objs s))"
proof -
  let ?w = "\<lparr>w_toUpdate = [], w_existing = []\<rparr>" and ?ks = "sortObjectKeys (map fst objs')"
  have cmp: "compareSets [] objs' = (?ks, [], [])"
    by (simp add: compareSets_def sortObjectKeys_def Let_def)
  obtain s' es where f: "fold (createF env ds nsed client gvk objs') ?ks (?w, s1) = (?w, s')"
    "s_clients s' = s_clients s1" "s_errs s' = s_errs s1 @ es"
    "es = [] \<longrightarrow> (\<forall>k \<in> set ?ks. create_call env nsed client gvk objs' k \<noteq> None)"
    using fold_createF_free[OF assms(1), of ds nsed client gvk objs' ?ks ?w s1] by (elim exE conjE) (rule that)
  have p: "process env ds sel gvk objs s = s'"
    by (simp add: process_def obs cmp assms(2) run_work_def f(1) filterCrossVersion_def Let_def split: option.split)
  from f(2) show "s_clients (process env ds sel gvk objs s) = s_clients s1" by (simp add: p)
  have "s_errs s1 = s_errs s" using observe_report[of s env ds sel gvk objs] obs by (simp add: same_report_def)
  with errs f(3) p have "es = []" by simp
  with f(4) have all: "\<forall>k \<in> set (map fst objs'). create_call env nsed client gvk objs' k \<noteq> None" by simp
  show "\<exists>c. create_call env nsed client gvk objs' k = Some c \<and> c \<in> set (new_calls s1 (process env ds sel gvk objs s))"
    if k: "k \<in> set (map fst objs')" for k
  proof -
    from all k obtain c where c: "create_call env nsed client gvk objs' k = Some c" by auto
    from fold_createF_calls[OF f(1)] have
      "filter (\<lambda>c. \<not> is_get c) (new_calls s1 s') = List.map_filter (create_call env nsed client gvk objs') ?ks" by blast
    moreover have "c \<in> set (List.map_filter (create_call env nsed client gvk objs') ?ks)"
      using c k by (auto simp: List.map_filter_def image_iff intro!: bexI[of _ k])
    ultimately have "c \<in> set (new_calls s1 s')" by (metis filter_is_subset subsetD)
    with c p show ?thesis by blast
  qed
qed

subsection \<open>The second run\<close>

text \<open>The law of the API server: an object whose creation was requested is listed under its key as it was
  sent, and nothing is listed beside the desired objects.\<close>

definition lists_created :: "env \<Rightarrow> gvk \<Rightarrow> bool \<Rightarrow> gvr \<Rightarrow> objbykey \<Rightarrow> call list \<Rightarrow> objbykey \<Rightarrow> bool" where
  "lists_created env gvk nsed client objs calls existing \<longleftrightarrow>
     set (map fst existing) \<subseteq> set (map fst objs) \<and>
     (\<forall>k \<in> set (map fst objs). \<forall>sent u d. prepareObjectForCreate env gvk (the (map_of objs k)) = Inr sent \<and> toUnstructured env sent = Inr u
        \<and> CCreate client (scope nsed (k_namespace k)) u \<in> set calls \<and> e_encodeToMap env (the (map_of objs k)) = Inr d
        \<longrightarrow> (\<exists>old. map_of existing k = Some old \<and> stored_as_sent env gvk d sent old))"

text \<open>The documents of the desired objects are those of their encodings.\<close>

definition desired_faithful :: "env \<Rightarrow> gvk \<Rightarrow> objbykey \<Rightarrow> bool" where
  "desired_faithful env gvk objs \<longleftrightarrow> (\<forall>k \<in> set (map fst objs). \<exists>d.
     faithful env gvk (the (map_of objs k)) d \<and>
     faithful env gvk (e_fromMap env (original_doc d)) (original_doc d) \<and> \<not> blocked d applied_path)"


text \<open>A concrete run: the server lists the config map of Apply_Roundtrip once it was created.\<close>

definition conv_env :: env where
  "conv_env = rt_env\<lparr>a_list := (\<lambda>h. if list_ex (\<lambda>c. case c of CCreate _ _ _ \<Rightarrow> True | _ \<Rightarrow> False) h
     then Inr [rt_old] else Inr [])\<rparr>"

definition conv_objs :: objbykey where
  "conv_objs = [(cm_key, rt_new)]"

definition conv_state :: st where
  "conv_state = process conv_env sample_ds ''h'' cm_gvk conv_objs st0"

lemma faithful_conv: "faithful conv_env gvk obj d = faithful rt_env gvk obj d" "e_fromMap conv_env = e_fromMap rt_env"
  by (simp_all add: faithful_def doc_def conv_env_def)


end
