(* ===== verification/Apply_Errors.thy ===== *)
theory Apply_Errors
  imports Apply_Settled
begin

section \<open>apply: no failure goes unreported\<close>

text \<open>
  \<open>apply\<close> goes on after an error, so its one result has to account for every request it made. A step is
  judged by the relation \<open>accounts\<close>: when it reports nothing, every request it made was answered without
  error. The answer to a create request that the object already exists is no failure: \<open>apply\<close> reads the
  object and updates it.
\<close>

text \<open>The last request of a history was answered without error.\<close>

definition answered :: "env \<Rightarrow> call list \<Rightarrow> bool" where
  "answered env h =
     (case last h of
        CDiscover _ \<Rightarrow> \<not> isl (a_discover env h)
      | CInformer _ \<Rightarrow> \<not> isl (a_informer env h)
      | CCreate _ _ _ \<Rightarrow> a_create env h = None \<or> IsAlreadyExists (a_create env h)
      | CGet _ _ _ \<Rightarrow> \<not> isl (a_get env h)
      | CDelete _ _ _ \<Rightarrow> a_delete env h = None
      | CPatch _ _ _ _ _ \<Rightarrow> a_patch env h = None
      | CUserPatch _ _ _ _ _ \<Rightarrow> a_patch env h = None
      | CReconcile _ _ _ \<Rightarrow> \<not> isl (a_reconcile env h)
      | CList _ _ _ \<Rightarrow> \<not> isl (a_list env h)
      | CCacheList _ _ _ \<Rightarrow> snd (a_cachelist env h) = None
      | CIndex _ _ \<Rightarrow> \<not> isl (a_index env h)
      | _ \<Rightarrow> True)"

text \<open>Every request after the history \<open>h\<close> was.\<close>

fun all_answered :: "env \<Rightarrow> call list \<Rightarrow> call list \<Rightarrow> bool" where
  "all_answered env h [] = True"
| "all_answered env h (c # cs) = (answered env (h @ [c]) \<and> all_answered env (h @ [c]) cs)"

lemma all_answered_append [simp]:
  "all_answered env h (cs @ ds) = (all_answered env h cs \<and> all_answered env (h @ cs) ds)"
  by (induction cs arbitrary: h) simp_all

definition accounts :: "env \<Rightarrow> st \<Rightarrow> st \<Rightarrow> bool \<Rightarrow> bool" where
  "accounts env s s' ok \<longleftrightarrow> (\<exists>cs. s_calls s' = s_calls s @ cs \<and> (ok \<longrightarrow> all_answered env (s_calls s) cs))"

named_theorems acc \<open>steps account for their requests\<close>

lemma accounts_refl [simp]: "accounts env s s ok"
  by (simp add: accounts_def)

lemma accounts_same: "s_calls s' = s_calls s \<Longrightarrow> accounts env s s' ok"
  by (simp add: accounts_def)

lemma accounts_api: "(ok \<Longrightarrow> answered env (s_calls s @ [c])) \<Longrightarrow> accounts env s (api c s) ok"
  by (simp add: accounts_def)

lemma accounts_trans: "accounts env s s1 ok1 \<Longrightarrow> accounts env s1 s2 ok2 \<Longrightarrow> (ok \<Longrightarrow> ok1 \<and> ok2) \<Longrightarrow> accounts env s s2 ok"
  by (auto simp: accounts_def)

lemma accounts_case:
  assumes "accounts env s (snd r) (\<not> isl (fst r))"
    and "\<And>e. isl (fst (g e (snd r))) \<and> s_calls (snd (g e (snd r))) = s_calls (snd r)"
    and "\<And>x. accounts env (snd r) (snd (f x (snd r))) (\<not> isl (fst (f x (snd r))))"
  shows "accounts env s (snd (case r of (Inl e, s1) \<Rightarrow> g e s1 | (Inr x, s1) \<Rightarrow> f x s1))
    (\<not> isl (fst (case r of (Inl e, s1) \<Rightarrow> g e s1 | (Inr x, s1) \<Rightarrow> f x s1)))"
proof (cases r)
  case (Pair a s1)
  show ?thesis
  proof (cases a)
    case (Inl e)
    with assms(1) assms(2)[of e] Pair show ?thesis by (auto simp: accounts_def)
  next
    case (Inr x)
    with assms(1) assms(3)[of x] Pair show ?thesis by (auto intro: accounts_trans)
  qed
qed

subsection \<open>Observing\<close>

lemma clients_client_acc: "accounts env s (snd (clients_client env gvk s)) (\<not> isl (fst (clients_client env gvk s)))"
  by (auto simp: clients_client_def Let_def accounts_def answered_def split: option.split sum.split)

lemma IsNamespaced_acc: "accounts env s (snd (IsNamespaced env gvk s)) (\<not> isl (fst (IsNamespaced env gvk s)))"
  unfolding IsNamespaced_def
  by (auto split: option.split intro!: accounts_case[OF clients_client_acc])

lemma informer_acc:
  "accounts env s (snd (if b then let s = api (CInformer gvk) s in (a_informer env (s_calls s), s) else (Inr i, s)))
     (\<not> isl (fst (if b then let s = api (CInformer gvk) s in (a_informer env (s_calls s), s) else (Inr i, s))))"
  by (auto simp: Let_def answered_def intro!: accounts_api)

lemma getControllerAndClient_acc:
  "accounts env s (snd (getControllerAndClient env ds gvk s)) (\<not> isl (fst (getControllerAndClient env ds gvk s)))"
  unfolding getControllerAndClient_def
  by (rule accounts_case[OF clients_client_acc], simp, unfold Let_def, rule accounts_case[OF informer_acc[unfolded Let_def]])
    simp_all

lemma assignOwnerReference_acc:
  "accounts env s (snd (assignOwnerReference env ds gvk objs s)) (\<not> isl (fst (assignOwnerReference env ds gvk objs s)))"
  unfolding assignOwnerReference_def
  by (auto split: option.split sum.split intro!: accounts_case[OF IsNamespaced_acc])

lemma prepare_objs_acc:
  "accounts env s (snd (prepare_objs env ds gvk nsed objs s)) (\<not> isl (fst (prepare_objs env ds gvk nsed objs s)))"
  unfolding prepare_objs_def
  by (rule accounts_case) (simp_all add: assignOwnerReference_acc)

lemma multiNamespaceList_acc:
  "accounts env s (snd (snd (multiNamespaceList env nss client sel s)))
     (fst (snd (multiNamespaceList env nss client sel s)) = None)"
proof (induction nss arbitrary: s)
  case (Cons ns nss)
  let ?s = "api (CList client (Some ns) sel) s"
  obtain items e s' where m: "multiNamespaceList env nss client sel ?s = (items, e, s')"
    by (cases "multiNamespaceList env nss client sel ?s")
  from Cons.IH[of ?s] have "accounts env ?s s' (e = None)" by (simp add: m)
  then show ?case
    by (cases "a_list env (s_calls ?s)")
      (auto simp: Let_def m answered_def intro!: accounts_trans[of env s ?s "\<not> isl (a_list env (s_calls ?s))"] accounts_api)
qed simp

lemma allNamespaceList_acc:
  "accounts env s (snd (snd (allNamespaceList env client sel s))) (fst (snd (allNamespaceList env client sel s)) = None)"
  by (auto simp: allNamespaceList_def Let_def answered_def isl_def split: sum.splits intro!: accounts_api)

lemma listByHash_acc:
  "accounts env s (snd (listByHash env i h ns s)) (\<not> isl (fst (listByHash env i h ns s)))"
  by (auto simp: listByHash_def Let_def answered_def isl_def split: sum.splits prod.splits option.splits intro!: accounts_api)

lemma ds_list_acc:
  "accounts env s (snd (ds_list env ds nsed informer client sel objs s))
     (\<not> isl (fst (ds_list env ds nsed informer client sel objs s)))"
proof -
  have m: "accounts env s (snd q) (\<not> isl (fst q))"
    if "accounts env s (snd (snd r)) (fst (snd r) = None)"
      "q = (case r of (items, err, s1) \<Rightarrow> case add_objs items [] [] of (objs, errs) \<Rightarrow>
        (case NewErrors (errs @ (case err of None \<Rightarrow> [] | Some e \<Rightarrow> [Some e])) of
           None \<Rightarrow> (Inr objs, s1) | Some e \<Rightarrow> (Inl e, s1)))"
    for r :: "robj list \<times> goerr option \<times> st" and q
    using that
    by (cases r) (auto simp: accounts_def NewErrors_None_iff split: prod.split option.split)
  have c: "accounts env s (snd q) (\<not> isl (fst q))"
    if "accounts env s s1 (snd r = None)"
      "q = (case r of (items, err) \<Rightarrow> case add_objs items [] [] of (objs, errs) \<Rightarrow>
        (case NewErrors (errs @ (case err of None \<Rightarrow> [] | Some e \<Rightarrow> [Some e])) of
           None \<Rightarrow> (Inr objs, s1) | Some e \<Rightarrow> (Inl e, s1)))"
    for r :: "robj list \<times> goerr option" and s1 q
    using that by (cases r) (auto simp: accounts_def NewErrors_None_iff split: prod.split option.split)
  show ?thesis
  proof (cases informer)
    case None
    show ?thesis
      unfolding ds_list_def Let_def None option.case
      by (rule m[OF _ refl]) (simp add: allNamespaceList_acc multiNamespaceList_acc)
  next
    case (Some i)
    show ?thesis
    proof (cases "getIndexableHash ds i sel")
      case None
      show ?thesis
        unfolding ds_list_def Let_def Some None option.case
        by (rule c[OF _ refl]) (auto simp: answered_def intro!: accounts_api)
    next
      case h: (Some h)
      show ?thesis unfolding ds_list_def Let_def Some h option.case by (rule listByHash_acc)
    qed
  qed
qed

lemma observe_acc:
  "accounts env s (snd (observe env ds sel gvk objs s)) (\<not> isl (fst (observe env ds sel gvk objs s)))"
  unfolding observe_def
proof (rule accounts_case[OF getControllerAndClient_acc], goal_cases)
  case (2 x)
  obtain c cl where x: "x = (c, cl)" by (cases x)
  show ?case
    unfolding x prod.case
    by (rule accounts_case[OF IsNamespaced_acc])
      (auto intro!: accounts_case[OF prepare_objs_acc] accounts_case[OF ds_list_acc])
qed simp

subsection \<open>Updating\<close>

lemma run_patcher_acc:
  "accounts env s (snd (run_patcher env p ns name pt data s)) (fst (run_patcher env p ns name pt data s) = None)"
proof (cases p)
  case (PPlan g)
  then show ?thesis by (auto simp: run_patcher_def split: sum.split intro: accounts_same)
qed (simp_all add: run_patcher_def Let_def answered_def accounts_api)

lemma run_reconciler_acc:
  "accounts env s (snd (run_reconciler env n a b s)) (\<not> isl (fst (run_reconciler env n a b s)))"
  by (simp add: run_reconciler_def Let_def answered_def accounts_api)

lemma send_patch_acc:
  "accounts env s (snd (send_patch env p m pt data s)) (\<not> isl (fst (send_patch env p m pt data s)))"
  using run_patcher_acc[of env s p "m_namespace m" "m_name m" pt data]
  by (auto simp: send_patch_def split: prod.splits option.splits)

lemma applyPatch_acc:
  "accounts env s (snd (applyPatch env gvk r p ign old new diffs s))
     (\<not> isl (fst (applyPatch env gvk r p ign old new diffs s)))"
proof -
  have r: "accounts env s (snd (case run_reconciler env n a b s of
      (Inl e, s) \<Rightarrow> (Inl e, s)
    | (Inr handled, s) \<Rightarrow> if handled then (Inr True, s) else send_patch env p m pt data s))
     (\<not> isl (fst (case run_reconciler env n a b s of
      (Inl e, s) \<Rightarrow> (Inl e, s)
    | (Inr handled, s) \<Rightarrow> if handled then (Inr True, s) else send_patch env p m pt data s)))"
    for n a b m pt data
    by (rule accounts_case[OF run_reconciler_acc]) (simp_all add: send_patch_acc)
  show ?thesis
    by (auto simp: applyPatch_def send_patch_acc r split: sum.split option.split)
qed

lemma compareObjects_acc:
  "accounts env s (snd (compareObjects env ds gvk r p old new s)) (fst (compareObjects env ds gvk r p old new s) = None)"
proof -
  have s: "accounts env s' (snd (case q of (Inl e, s) \<Rightarrow> (Some e, s) | (Inr x, s) \<Rightarrow> (None, s)))
      (fst (case q of (Inl e, s) \<Rightarrow> (Some e, s) | (Inr x, s) \<Rightarrow> (None, s)) = None)"
    if "accounts env s' (snd q) (\<not> isl (fst q))" for q :: "bool result \<times> st" and s'
    using that by (cases q; cases "fst q") auto
  have p: "accounts env s s' ok" if "accounts env (s\<lparr>s_plan := x\<rparr>) s' ok" for x s' ok
    using that by (simp add: accounts_def)
  show ?thesis
    by (cases "ds_createPlan ds")
      (auto simp: compareObjects_def Let_def split: sum.split intro: s[OF applyPatch_acc] p[OF s[OF applyPatch_acc]])
qed

text \<open>Requests of an update leave the errors reported so far alone.\<close>

lemma run_patcher_errs: "s_errs (snd (run_patcher env p ns name pt data s)) = s_errs s"
  by (cases p) (auto simp: run_patcher_def Let_def api_def split: sum.split)

lemma send_patch_errs [simp]: "s_errs (snd (send_patch env p m pt data s)) = s_errs s"
  using run_patcher_errs[of env p "m_namespace m" "m_name m" pt data s]
  by (auto simp: send_patch_def split: prod.splits option.splits)

lemma applyPatch_errs [simp]: "s_errs (snd (applyPatch env gvk r p ign old new diffs s)) = s_errs s"
  by (auto simp: applyPatch_def run_reconciler_def Let_def api_def split: sum.split option.split)

lemma compareObjects_errs: "s_errs (snd (compareObjects env ds gvk r p old new s)) = s_errs s"
proof -
  have s: "snd (case q of (Inl e, s) \<Rightarrow> (Some e, s) | (Inr x, s) \<Rightarrow> (None, s)) = snd q"
    for q :: "bool result \<times> st" by (cases q; cases "fst q") auto
  show ?thesis by (simp add: compareObjects_def Let_def s split: sum.split)
qed

subsection \<open>Reporting\<close>

text \<open>A step that collects its errors.\<close>

definition reports :: "env \<Rightarrow> st \<Rightarrow> st \<Rightarrow> bool" where
  "reports env s s' \<longleftrightarrow> (\<exists>es. s_errs s' = s_errs s @ es \<and> None \<notin> set es \<and> accounts env s s' (es = []))"

lemma reports_refl [simp]: "reports env s s"
  by (simp add: reports_def)

lemma reports_trans: "reports env s s1 \<Longrightarrow> reports env s1 s2 \<Longrightarrow> reports env s s2"
  unfolding reports_def by (auto intro: accounts_trans)

lemma reports_fold:
  assumes "\<And>x s. reports env s (f x s)"
  shows "reports env s (fold f xs s)"
  by (induction xs arbitrary: s) (auto intro: reports_trans assms)

lemma reports_add_err: "accounts env s s1 False \<Longrightarrow> s_errs s1 = s_errs s \<Longrightarrow> reports env s (add_err e s1)"
  by (auto simp: reports_def add_err_def accounts_def)

lemma reports_same_errs: "accounts env s s1 True \<Longrightarrow> s_errs s1 = s_errs s \<Longrightarrow> reports env s s1"
  by (auto simp: reports_def)

lemma accounts_weaken: "accounts env s s' ok \<Longrightarrow> accounts env s s' False"
  by (auto simp: accounts_def)

lemma ds_delete_acc:
  "accounts env s (snd (ds_delete env ds nsed ns n client force gvk s)) (fst (ds_delete env ds nsed ns n client force gvk s) = None)"
  "s_errs (snd (ds_delete env ds nsed ns n client force gvk s)) = s_errs s"
  by (auto simp: ds_delete_def Let_def answered_def api_def intro!: accounts_api[unfolded api_def])

lemma deleteF_reports: "reports env s (deleteF env ds nsed client gvk force k s)"
proof -
  obtain e s1 where d: "ds_delete env ds nsed (k_namespace k) (k_name k) client force gvk s = (e, s1)" by fastforce
  with ds_delete_acc[where env = env and s = s] have "accounts env s s1 (e = None)" "s_errs s1 = s_errs s"
    by (metis fst_conv snd_conv)+
  with d show ?thesis
    by (auto simp: deleteF_def intro: reports_add_err accounts_weaken reports_same_errs split: option.split)
qed

lemma updateF_reports: "reports env s (updateF env ds nsed client gvk r p existing objs k s)"
proof -
  obtain e s1 where c: "compareObjects env ds gvk r p (the (map_of existing k)) (the (map_of objs k)) s = (e, s1)"
    by fastforce
  with compareObjects_acc compareObjects_errs have s1: "accounts env s s1 (e = None)" "s_errs s1 = s_errs s"
    by (metis fst_conv snd_conv)+
  have "reports env s (add_err x (deleteF env ds nsed client gvk True k s1))" if "e \<noteq> None" for x
  proof -
    from deleteF_reports[of env s1 ds nsed client gvk True k] obtain es where
      "s_errs (deleteF env ds nsed client gvk True k s1) = s_errs s1 @ es" "None \<notin> set es"
      "accounts env s1 (deleteF env ds nsed client gvk True k s1) (es = [])" by (auto simp: reports_def)
    with s1 show ?thesis by (auto simp: reports_def add_err_def accounts_def)
  qed
  with c s1 show ?thesis
    by (auto simp: updateF_def intro: reports_add_err accounts_weaken reports_same_errs split: option.split)
qed

text \<open>Creating: only an object that exists already, and could be read, is taken over without an error.\<close>

lemma createF_reports: "reports env (snd ws) (snd (createF env ds nsed client gvk objs k ws))"
proof -
  obtain w s where ws: "ws = (w, s)" by (cases ws)
  show ?thesis
  proof (cases "prepareObjectForCreate env gvk (the (map_of objs k))")
    case (Inl e)
    then show ?thesis by (simp add: ws createF_def reports_add_err)
  next
    case (Inr obj)
    obtain err s1 where c: "ds_create env nsed (k_namespace k) client obj s = (err, s1)" by fastforce
    obtain g s2 where g: "ds_get env nsed (k_namespace k) (k_name k) client s1 = (g, s2)" by fastforce
    from c have 1: "accounts env s s1 (err = None \<or> IsAlreadyExists err)" "s_errs s1 = s_errs s"
      by (auto simp: ds_create_def Let_def answered_def api_def split: sum.splits intro!: accounts_api[unfolded api_def])
    from g have 2: "accounts env s1 s2 (\<not> isl g)" "s_errs s2 = s_errs s1"
      by (auto simp: ds_get_def Let_def answered_def api_def intro!: accounts_api[unfolded api_def])
    have 3: "accounts env s s2 (IsAlreadyExists err \<and> \<not> isl g)" by (rule accounts_trans[OF 1(1) 2(1)]) auto
    show ?thesis
    proof (cases "IsAlreadyExists err")
      case True
      with Inr c g 1 2 3 show ?thesis
        by (auto simp: ws createF_def split: sum.split option.split
            intro!: reports_same_errs reports_add_err elim: accounts_weaken)
    next
      case False
      with Inr c 1 show ?thesis
        by (auto simp: ws createF_def split: option.split
            intro!: reports_same_errs reports_add_err elim: accounts_weaken)
    qed
  qed
qed

lemma fold_createF_reports: "reports env (snd ws) (snd (fold (createF env ds nsed client gvk objs) ks ws))"
proof (induction ks arbitrary: ws)
  case (Cons k ks)
  show ?case using reports_trans[OF createF_reports Cons.IH] by simp
qed simp

lemma run_work_reports:
  "reports env s (run_work env ds nsed client gvk r p existing objs toCreate toDelete toUpdate s)"
proof -
  obtain w s1 where f: "fold (createF env ds nsed client gvk objs) toCreate
      (\<lparr>w_toUpdate = toUpdate, w_existing = existing\<rparr>, s) = (w, s1)" by fastforce
  with fold_createF_reports[of env "(\<lparr>w_toUpdate = toUpdate, w_existing = existing\<rparr>, s)"] have
    "reports env s s1" by (metis snd_conv)
  then show ?thesis
    unfolding run_work_def f Let_def prod.case
    by (intro reports_trans[OF _ reports_trans[OF reports_fold reports_fold]] updateF_reports deleteF_reports)
qed

lemma reports_plan: "reports env (s\<lparr>s_plan := x\<rparr>) s' \<Longrightarrow> reports env s s'"
  by (simp add: reports_def accounts_def)

lemma process_reports: "reports env s (process env ds sel gvk objs s)"
proof -
  obtain r s1 where o: "observe env ds sel gvk objs s = (r, s1)" by fastforce
  with observe_acc[of env s ds sel gvk objs] observe_report[of s env ds sel gvk objs]
  have 1: "accounts env s s1 (\<not> isl r)" "s_errs s1 = s_errs s" by (simp_all add: same_report_def)
  show ?thesis
  proof (cases r)
    case (Inl e)
    with o 1 show ?thesis by (simp add: process_def reports_add_err accounts_weaken)
  next
    case (Inr q)
    obtain nsed client objs' existing where q: "q = (nsed, client, objs', existing)" by (cases q)
    obtain tc td tu where cmp: "compareSets existing objs' = (tc, td, tu)" by (cases "compareSets existing objs'")
    from 1 Inr have "reports env s s1" by (auto intro: reports_same_errs)
    then show ?thesis
      unfolding process_def o Inr q sum.case prod.case cmp Let_def
      by (auto intro!: reports_trans[of env s s1] run_work_reports) (rule reports_plan, rule run_work_reports)
  qed
qed

subsection \<open>Property\<close>


text \<open>A concrete run: the object that is to be created is there already, under a lister that did not see it.\<close>

definition exists_env :: env where
  "exists_env = settled_env\<lparr>a_list := (\<lambda>_. Inr []), a_create := (\<lambda>_. Some (AlreadyExists ''exists'')),
     a_get := (\<lambda>_. Inr cm_obj)\<rparr>"


end
