(* ===== verification/Generated.thy ===== *)
theory Generated
  imports Generic_Spec
begin

section \<open>Generated controllers: pkg/generated/controllers\<close>

text \<open>
  What the code generator wrote for the kinds of this library: for every version the controllers it offers
  (\<open>interface.go\<close>), and for every kind with a status the registration of status and generating handlers. The
  fourteen files with handlers are the same text but for the name of the kind and its controller; the
  handlers are those of \<open>Generic_Handlers\<close>, and a registration is that text at the kind. The theorems compose
  the two handlers a registration makes.
\<close>

subsection \<open>The kinds\<close>

record genkind =
  gk_gvk :: gvk
  gk_resource :: string
  gk_namespaced :: bool

definition mk_kind :: "string \<Rightarrow> string \<Rightarrow> string \<Rightarrow> string \<Rightarrow> bool \<Rightarrow> genkind" where
  "mk_kind g v k resource namespaced =
     \<lparr>gk_gvk = mk_gvk g v k, gk_resource = resource, gk_namespaced = namespaced\<rparr>"

definition CustomResourceDefinition_kind :: genkind where
  "CustomResourceDefinition_kind = mk_kind ''apiextensions.k8s.io'' ''v1'' ''CustomResourceDefinition'' ''customresourcedefinitions'' False"

definition APIService_kind :: genkind where
  "APIService_kind = mk_kind ''apiregistration.k8s.io'' ''v1'' ''APIService'' ''apiservices'' False"

definition DaemonSet_kind :: genkind where
  "DaemonSet_kind = mk_kind ''apps'' ''v1'' ''DaemonSet'' ''daemonsets'' True"

definition Deployment_kind :: genkind where
  "Deployment_kind = mk_kind ''apps'' ''v1'' ''Deployment'' ''deployments'' True"

definition StatefulSet_kind :: genkind where
  "StatefulSet_kind = mk_kind ''apps'' ''v1'' ''StatefulSet'' ''statefulsets'' True"

definition Job_kind :: genkind where
  "Job_kind = mk_kind ''batch'' ''v1'' ''Job'' ''jobs'' True"

definition Namespace_kind :: genkind where
  "Namespace_kind = mk_kind '''' ''v1'' ''Namespace'' ''namespaces'' False"

definition Node_kind :: genkind where
  "Node_kind = mk_kind '''' ''v1'' ''Node'' ''nodes'' False"

definition PersistentVolume_kind :: genkind where
  "PersistentVolume_kind = mk_kind '''' ''v1'' ''PersistentVolume'' ''persistentvolumes'' False"

definition PersistentVolumeClaim_kind :: genkind where
  "PersistentVolumeClaim_kind = mk_kind '''' ''v1'' ''PersistentVolumeClaim'' ''persistentvolumeclaims'' True"

definition Pod_kind :: genkind where
  "Pod_kind = mk_kind '''' ''v1'' ''Pod'' ''pods'' True"

definition ResourceQuota_kind :: genkind where
  "ResourceQuota_kind = mk_kind '''' ''v1'' ''ResourceQuota'' ''resourcequotas'' True"

definition Service_kind :: genkind where
  "Service_kind = mk_kind '''' ''v1'' ''Service'' ''services'' True"

definition Ingress_kind :: genkind where
  "Ingress_kind = mk_kind ''extensions'' ''v1beta1'' ''Ingress'' ''ingresses'' True"

definition admissionregistration_v1 :: "genkind list" where
  "admissionregistration_v1 =
     [mk_kind ''admissionregistration.k8s.io'' ''v1'' ''MutatingWebhookConfiguration'' ''mutatingwebhookconfigurations'' False,
      mk_kind ''admissionregistration.k8s.io'' ''v1'' ''ValidatingWebhookConfiguration'' ''validatingwebhookconfigurations'' False]"

definition apiextensions_v1 :: "genkind list" where
  "apiextensions_v1 =
     [CustomResourceDefinition_kind]"

definition apiregistration_v1 :: "genkind list" where
  "apiregistration_v1 =
     [APIService_kind]"

definition apps_v1 :: "genkind list" where
  "apps_v1 =
     [DaemonSet_kind,
      Deployment_kind,
      StatefulSet_kind]"

definition batch_v1 :: "genkind list" where
  "batch_v1 =
     [Job_kind]"

definition coordination_v1 :: "genkind list" where
  "coordination_v1 =
     [mk_kind ''coordination.k8s.io'' ''v1'' ''Lease'' ''leases'' True]"

definition core_v1 :: "genkind list" where
  "core_v1 =
     [mk_kind '''' ''v1'' ''ConfigMap'' ''configmaps'' True,
      mk_kind '''' ''v1'' ''Endpoints'' ''endpoints'' True,
      mk_kind '''' ''v1'' ''Event'' ''events'' True,
      mk_kind '''' ''v1'' ''LimitRange'' ''limitranges'' True,
      Namespace_kind,
      Node_kind,
      PersistentVolume_kind,
      PersistentVolumeClaim_kind,
      Pod_kind,
      ResourceQuota_kind,
      mk_kind '''' ''v1'' ''Secret'' ''secrets'' True,
      Service_kind,
      mk_kind '''' ''v1'' ''ServiceAccount'' ''serviceaccounts'' True]"

definition discovery_v1 :: "genkind list" where
  "discovery_v1 =
     [mk_kind ''discovery.k8s.io'' ''v1'' ''EndpointSlice'' ''endpointslices'' True]"

definition extensions_v1beta1 :: "genkind list" where
  "extensions_v1beta1 =
     [Ingress_kind]"

definition networking_v1 :: "genkind list" where
  "networking_v1 =
     [mk_kind ''networking.k8s.io'' ''v1'' ''NetworkPolicy'' ''networkpolicies'' True]"

definition rbac_v1 :: "genkind list" where
  "rbac_v1 =
     [mk_kind ''rbac.authorization.k8s.io'' ''v1'' ''ClusterRole'' ''clusterroles'' False,
      mk_kind ''rbac.authorization.k8s.io'' ''v1'' ''ClusterRoleBinding'' ''clusterrolebindings'' False,
      mk_kind ''rbac.authorization.k8s.io'' ''v1'' ''Role'' ''roles'' True,
      mk_kind ''rbac.authorization.k8s.io'' ''v1'' ''RoleBinding'' ''rolebindings'' True]"

definition storage_v1 :: "genkind list" where
  "storage_v1 =
     [mk_kind ''storage.k8s.io'' ''v1'' ''StorageClass'' ''storageclasses'' False]"

definition generated_kinds :: "genkind list" where
  "generated_kinds = admissionregistration_v1 @ apiextensions_v1 @ apiregistration_v1 @ apps_v1 @ batch_v1 @ coordination_v1 @ core_v1 @ discovery_v1 @ extensions_v1beta1 @ networking_v1 @ rbac_v1 @ storage_v1"

subsection \<open>Registration\<close>

text \<open>The world of a handler: the comparison of statuses, the clock at the three times it is read, the
  update of a status, and what an apply returns.\<close>

record genworld =
  gw_same :: "status \<Rightarrow> status \<Rightarrow> bool"
  gw_now1 :: string
  gw_now2 :: string
  gw_now3 :: string
  gw_update :: "node \<Rightarrow> node \<times> goerr option"
  gw_apply :: "desiredset \<Rightarrow> robj list \<Rightarrow> goerr option"

text \<open>What a registered handler does with a key and the object of the cache, if there still is one: the
  object, the error and the status it sends (\<open>None\<close> is a panic), the state of the generating handler, and
  the applies.\<close>

type_synonym reaction = "genhandler \<Rightarrow> string \<Rightarrow> node option
  \<Rightarrow> (node option \<times> goerr option \<times> node option) option \<times> genhandler \<times> (desiredset \<times> robj list) list"

type_synonym statushandler = "genhandler \<Rightarrow> node \<Rightarrow> status
  \<Rightarrow> (status \<times> goerr option) \<times> genhandler \<times> (desiredset \<times> robj list) list"

definition status_reaction :: "genworld \<Rightarrow> string \<Rightarrow> statushandler \<Rightarrow> reaction" where
  "status_reaction w cnd hdl a key obj =
     (case obj of
        None \<Rightarrow> (status_sync (gw_same w) (gw_now1 w) (gw_now2 w) (gw_now3 w) cnd (\<lambda>o' st. (st, None))
                  (gw_update w) None, a, [])
      | Some ob \<Rightarrow>
          (case hdl a ob (n_status ob) of
             (r, a', applies) \<Rightarrow>
               (status_sync (gw_same w) (gw_now1 w) (gw_now2 w) (gw_now3 w) cnd (\<lambda>o' st. r) (gw_update w) (Some ob),
                a', applies)))"

definition RegisterStatusHandler ::
    "genworld \<Rightarrow> string \<Rightarrow> string \<Rightarrow> statushandler \<Rightarrow> (string \<times> reaction) list \<Rightarrow> (string \<times> reaction) list" where
  "RegisterStatusHandler w cnd name handler handlers = handlers @ [(name, status_reaction w cnd handler)]"

definition remove_reaction :: "genworld \<Rightarrow> reaction" where
  "remove_reaction w a key obj =
     (case gen_Remove (gw_apply w) a key obj of ((r, err), a', applies) \<Rightarrow> (Some (r, err, None), a', applies))"

type_synonym generator = "node \<Rightarrow> status \<Rightarrow> robj list \<times> status \<times> goerr option"

type_synonym registration = "genworld \<Rightarrow> desiredset \<Rightarrow> string \<Rightarrow> string \<Rightarrow> generator
  \<Rightarrow> GeneratingHandlerOptions option \<Rightarrow> (string \<times> reaction) list \<Rightarrow> genhandler \<times> (string \<times> reaction) list"

definition RegisterGeneratingHandler :: "genkind \<Rightarrow> registration" where
  "RegisterGeneratingHandler k w apply cnd name handler opts handlers =
     (let statusHandler =
            \<lparr>gh_opts = (case opts of None \<Rightarrow> no_options | Some o' \<Rightarrow> o'), gh_gvk = gk_gvk k, gh_name = name,
             gh_apply = apply, gh_seen = []\<rparr>;
          handlers = handlers @ [(name, remove_reaction w)] in
      (statusHandler, RegisterStatusHandler w cnd name (gen_Handle handler (gw_apply w)) handlers))"

definition RegisterCustomResourceDefinitionGeneratingHandler :: registration where
  "RegisterCustomResourceDefinitionGeneratingHandler = RegisterGeneratingHandler CustomResourceDefinition_kind"

definition RegisterAPIServiceGeneratingHandler :: registration where
  "RegisterAPIServiceGeneratingHandler = RegisterGeneratingHandler APIService_kind"

definition RegisterDaemonSetGeneratingHandler :: registration where
  "RegisterDaemonSetGeneratingHandler = RegisterGeneratingHandler DaemonSet_kind"

definition RegisterDeploymentGeneratingHandler :: registration where
  "RegisterDeploymentGeneratingHandler = RegisterGeneratingHandler Deployment_kind"

definition RegisterStatefulSetGeneratingHandler :: registration where
  "RegisterStatefulSetGeneratingHandler = RegisterGeneratingHandler StatefulSet_kind"

definition RegisterJobGeneratingHandler :: registration where
  "RegisterJobGeneratingHandler = RegisterGeneratingHandler Job_kind"

definition RegisterNamespaceGeneratingHandler :: registration where
  "RegisterNamespaceGeneratingHandler = RegisterGeneratingHandler Namespace_kind"

definition RegisterNodeGeneratingHandler :: registration where
  "RegisterNodeGeneratingHandler = RegisterGeneratingHandler Node_kind"

definition RegisterPersistentVolumeGeneratingHandler :: registration where
  "RegisterPersistentVolumeGeneratingHandler = RegisterGeneratingHandler PersistentVolume_kind"

definition RegisterPersistentVolumeClaimGeneratingHandler :: registration where
  "RegisterPersistentVolumeClaimGeneratingHandler = RegisterGeneratingHandler PersistentVolumeClaim_kind"

definition RegisterPodGeneratingHandler :: registration where
  "RegisterPodGeneratingHandler = RegisterGeneratingHandler Pod_kind"

definition RegisterResourceQuotaGeneratingHandler :: registration where
  "RegisterResourceQuotaGeneratingHandler = RegisterGeneratingHandler ResourceQuota_kind"

definition RegisterServiceGeneratingHandler :: registration where
  "RegisterServiceGeneratingHandler = RegisterGeneratingHandler Service_kind"

definition RegisterIngressGeneratingHandler :: registration where
  "RegisterIngressGeneratingHandler = RegisterGeneratingHandler Ingress_kind"

definition generated_handlers :: "(genkind \<times> registration) list" where
  "generated_handlers =
     [(CustomResourceDefinition_kind, RegisterCustomResourceDefinitionGeneratingHandler),
      (APIService_kind, RegisterAPIServiceGeneratingHandler),
      (DaemonSet_kind, RegisterDaemonSetGeneratingHandler),
      (Deployment_kind, RegisterDeploymentGeneratingHandler),
      (StatefulSet_kind, RegisterStatefulSetGeneratingHandler),
      (Job_kind, RegisterJobGeneratingHandler),
      (Namespace_kind, RegisterNamespaceGeneratingHandler),
      (Node_kind, RegisterNodeGeneratingHandler),
      (PersistentVolume_kind, RegisterPersistentVolumeGeneratingHandler),
      (PersistentVolumeClaim_kind, RegisterPersistentVolumeClaimGeneratingHandler),
      (Pod_kind, RegisterPodGeneratingHandler),
      (ResourceQuota_kind, RegisterResourceQuotaGeneratingHandler),
      (Service_kind, RegisterServiceGeneratingHandler),
      (Ingress_kind, RegisterIngressGeneratingHandler)]"

subsection \<open>Properties\<close>

text \<open>The controllers that are offered: no kind and no resource twice, and the resource of every kind is the
  plural that the rest of the library guesses from the kind.\<close>

lemmas generated_defs = generated_kinds_def admissionregistration_v1_def apiextensions_v1_def apiregistration_v1_def
  apps_v1_def batch_v1_def coordination_v1_def core_v1_def discovery_v1_def extensions_v1beta1_def networking_v1_def
  rbac_v1_def storage_v1_def CustomResourceDefinition_kind_def APIService_kind_def DaemonSet_kind_def
  Deployment_kind_def StatefulSet_kind_def Job_kind_def Namespace_kind_def Node_kind_def PersistentVolume_kind_def
  PersistentVolumeClaim_kind_def Pod_kind_def ResourceQuota_kind_def Service_kind_def Ingress_kind_def
  mk_kind_def mk_gvk_def

lemma lower_letters:
  "map toLowerC ''ABCDEFGHIJKLMNOPQRSTUVWXYZ'' = ''abcdefghijklmnopqrstuvwxyz''"
  "map toLowerC ''abcdefghijklmnopqrstuvwxyz'' = ''abcdefghijklmnopqrstuvwxyz''"
  by code_simp+

lemmas letters = lower_letters[simplified]

lemma generated_plurals: "list_all (\<lambda>k. gk_resource k = GuessPluralName (ToLower (g_kind (gk_gvk k)))) generated_kinds"
  by (simp add: generated_defs GuessPluralName_def EqualFold_def ToLower_def ContainsAny_def letters
    suffix_to_prefix numeral_eq_Suc)

lemma generated_distinct: "distinct (map gk_gvk generated_kinds)"
  by (simp add: generated_defs)

lemma generated_resources_distinct: "distinct (map (\<lambda>k. (g_group (gk_gvk k), gk_resource k)) generated_kinds)"
  by (simp add: generated_defs)

lemma generated_handlers_kinds: "set (map fst generated_handlers) \<subseteq> set generated_kinds"
  by (simp add: generated_handlers_def generated_kinds_def core_v1_def apps_v1_def batch_v1_def apiextensions_v1_def
    apiregistration_v1_def extensions_v1beta1_def)

theorem generated_resources:
  "distinct (map gk_gvk generated_kinds)
   \<and> distinct (map (\<lambda>k. (g_group (gk_gvk k), gk_resource k)) generated_kinds)
   \<and> list_all (\<lambda>k. gk_resource k = GuessPluralName (ToLower (g_kind (gk_gvk k)))) generated_kinds
   \<and> set (map fst generated_handlers) \<subseteq> set generated_kinds"
  by (intro conjI generated_distinct generated_resources_distinct generated_plurals generated_handlers_kinds)

subsubsection \<open>A registration\<close>

lemma registered:
  "(k, register) \<in> set generated_handlers \<Longrightarrow> register = RegisterGeneratingHandler k"
  unfolding generated_handlers_def
  by (auto simp: RegisterCustomResourceDefinitionGeneratingHandler_def RegisterAPIServiceGeneratingHandler_def
  RegisterDaemonSetGeneratingHandler_def RegisterDeploymentGeneratingHandler_def
  RegisterStatefulSetGeneratingHandler_def RegisterJobGeneratingHandler_def
  RegisterNamespaceGeneratingHandler_def RegisterNodeGeneratingHandler_def
  RegisterPersistentVolumeGeneratingHandler_def RegisterPersistentVolumeClaimGeneratingHandler_def
  RegisterPodGeneratingHandler_def RegisterResourceQuotaGeneratingHandler_def
  RegisterServiceGeneratingHandler_def RegisterIngressGeneratingHandler_def)

definition started :: "genkind \<Rightarrow> desiredset \<Rightarrow> string \<Rightarrow> GeneratingHandlerOptions option \<Rightarrow> genhandler" where
  "started k ds name opts =
     \<lparr>gh_opts = (case opts of None \<Rightarrow> no_options | Some o' \<Rightarrow> o'), gh_gvk = gk_gvk k, gh_name = name,
      gh_apply = ds, gh_seen = []\<rparr>"

lemma RegisterGeneratingHandler_eq:
  "RegisterGeneratingHandler k w ds cnd name generate opts [] =
     (started k ds name opts,
      [(name, remove_reaction w), (name, status_reaction w cnd (gen_Handle generate (gw_apply w)))])"
  by (simp add: RegisterGeneratingHandler_def RegisterStatusHandler_def started_def)

text \<open>The key of an object: its name, after the namespace and a slash when it has one.\<close>

definition object_key :: "objmeta \<Rightarrow> string" where
  "object_key m = (if m_namespace m = '''' then m_name m else m_namespace m @ ''/'' @ m_name m)"

text \<open>Names without slashes and spaces, as the API server demands them.\<close>

definition plain_name :: "string \<Rightarrow> bool" where
  "plain_name s \<longleftrightarrow> CHR ''/'' \<notin> set s \<and> TrimSpace s = s"

lemma RSplit_object_key:
  "plain_name (m_namespace m) \<Longrightarrow> plain_name (m_name m) \<Longrightarrow>
   kv_RSplit (object_key m) ''/'' = (m_namespace m, m_name m)"
  by (auto simp: object_key_def plain_name_def kv_RSplit_found[where cs = "[]", simplified] kv_RSplit_absent)

lemma object_key_seen:
  "object_key (n_meta obj) = seen_key obj \<longleftrightarrow> m_namespace (n_meta obj) \<noteq> ''''"
  by (auto simp: object_key_def seen_key_def)



subsubsection \<open>Concrete runs\<close>

definition world0 :: genworld where
  "world0 = \<lparr>gw_same = (=), gw_now1 = ''t1'', gw_now2 = ''t2'', gw_now3 = ''t3'', gw_update = (\<lambda>o'. (o', None)),
     gw_apply = (\<lambda>ds objs. Some (Err ''forbidden''))\<rparr>"

definition once :: GeneratingHandlerOptions where
  "once = no_options\<lparr>UniqueApplyForResourceVersion := True\<rparr>"

definition deployment0 :: node where
  "deployment0 = \<lparr>n_gvk = gk_gvk Deployment_kind, n_meta = meta0 ''ns'' ''web'',
     n_status = \<lparr>st_conditions = [], st_rest = ''old''\<rparr>\<rparr>"

definition begun :: genhandler where
  "begun = fst (RegisterDeploymentGeneratingHandler world0 (newDesiredSet [] [] []) ''Ready'' ''h'' gen0 (Some once) [])"

definition reactions :: "(string \<times> reaction) list" where
  "reactions = snd (RegisterDeploymentGeneratingHandler world0 (newDesiredSet [] [] []) ''Ready'' ''h'' gen0 (Some once) [])"

lemma reactions_of: "(Deployment_kind, RegisterDeploymentGeneratingHandler) \<in> set generated_handlers"
  "RegisterDeploymentGeneratingHandler world0 (newDesiredSet [] [] []) ''Ready'' ''h'' gen0 (Some once) [] = (begun, reactions)"
  by (simp_all add: generated_handlers_def begun_def reactions_def)



end
