(* ===== verification/Generic_Controller.thy ===== *)
theory Generic_Controller
  imports Generic_Factory Generic_Spec
begin

section \<open>Registering handlers on a controller: pkg/generic/controller.go\<close>

text \<open>
  How handlers get onto a controller, and what it passes on to the shared controller of lasso, which is
  kept as the list of registered handlers and the list of requests. A shared controller has objects of
  one type only, so that the type assertions of the adapters are total functions here. The theorem
  composes the removal handlers that several users register on one controller.
\<close>

subsection \<open>Registration\<close>

type_synonym gen_handler = "string \<Rightarrow> robj option \<Rightarrow> handled"

datatype queue_call = QEnqueue string string | QEnqueueAfter string string nat

record shared_controller =
  sc_gvk :: gvk
  sc_handlers :: "(string \<times> gen_handler) list"
  sc_queue :: "queue_call list"

definition AddGenericHandler :: "string \<Rightarrow> gen_handler \<Rightarrow> shared_controller \<Rightarrow> shared_controller" where
  "AddGenericHandler name hdl c = c\<lparr>sc_handlers := sc_handlers c @ [(name, hdl)]\<rparr>"

definition AddGenericRemoveHandler :: "updater \<Rightarrow> string \<Rightarrow> handler \<Rightarrow> shared_controller \<Rightarrow> shared_controller" where
  "AddGenericRemoveHandler upd name hdl c = AddGenericHandler name (NewRemoveHandler name upd hdl) c"

text \<open>A typed handler as a generic one (\<open>FromObjectHandlerToHandler\<close> with total assertions).\<close>

definition typed_handler ::
    "(string \<Rightarrow> 't option \<Rightarrow> 't option \<times> goerr option) \<Rightarrow> (robj \<Rightarrow> 't) \<Rightarrow> ('t \<Rightarrow> robj) \<Rightarrow> handler" where
  "typed_handler sync conv back key obj =
     (case FromObjectHandlerToHandler sync (\<lambda>ob. Some (conv ob)) back key obj of
        None \<Rightarrow> (None, None) | Some r \<Rightarrow> r)"

text \<open>A handler of changes calls what was registered for every key and object.\<close>

definition calling :: "handler \<Rightarrow> gen_handler" where
  "calling hdl key obj =
     (case hdl key obj of (r, err) \<Rightarrow> (r, err, case obj of None \<Rightarrow> [] | Some ob \<Rightarrow> [HHandler ob]))"

definition OnChange ::
    "(robj \<Rightarrow> 't) \<Rightarrow> ('t \<Rightarrow> robj) \<Rightarrow> string \<Rightarrow> (string \<Rightarrow> 't option \<Rightarrow> 't option \<times> goerr option)
     \<Rightarrow> shared_controller \<Rightarrow> shared_controller" where
  "OnChange conv back name sync c = AddGenericHandler name (calling (typed_handler sync conv back)) c"

definition OnRemove ::
    "(robj \<Rightarrow> 't) \<Rightarrow> ('t \<Rightarrow> robj) \<Rightarrow> updater \<Rightarrow> string \<Rightarrow> (string \<Rightarrow> 't option \<Rightarrow> 't option \<times> goerr option)
     \<Rightarrow> shared_controller \<Rightarrow> shared_controller" where
  "OnRemove conv back upd name sync c =
     AddGenericHandler name (NewRemoveHandler name upd (typed_handler sync conv back)) c"

definition Enqueue :: "string \<Rightarrow> string \<Rightarrow> shared_controller \<Rightarrow> shared_controller" where
  "Enqueue namespace name c = c\<lparr>sc_queue := sc_queue c @ [QEnqueue namespace name]\<rparr>"

definition EnqueueAfter :: "string \<Rightarrow> string \<Rightarrow> nat \<Rightarrow> shared_controller \<Rightarrow> shared_controller" where
  "EnqueueAfter namespace name duration c = c\<lparr>sc_queue := sc_queue c @ [QEnqueueAfter namespace name duration]\<rparr>"

definition GroupVersionKind :: "shared_controller \<Rightarrow> gvk" where
  "GroupVersionKind c = sc_gvk c"

definition nn_Enqueue :: "string \<Rightarrow> shared_controller \<Rightarrow> shared_controller" where
  "nn_Enqueue name c = Enqueue NamespaceAll name c"

definition nn_EnqueueAfter :: "string \<Rightarrow> nat \<Rightarrow> shared_controller \<Rightarrow> shared_controller" where
  "nn_EnqueueAfter name duration c = EnqueueAfter NamespaceAll name duration c"

text \<open>\<open>WithImpersonation\<close> of a controller without namespaces; the client it gets back from the controller
  it wraps is always a controller, so the assertion does not fail.\<close>

definition nn_WithImpersonation ::
    "('w, 't, 'l) embeddedClient result \<Rightarrow> ('w, 't, 'l) ctrl \<Rightarrow> ('w, 't, 'l) ctrl result" where
  "nn_WithImpersonation newClient c =
     (case ctrl_WithImpersonation newClient c of
        Inl err \<Rightarrow> Inl (Wrap ''failed to make new client'' err)
      | Inr newCtrl \<Rightarrow> Inr newCtrl)"

subsection \<open>Removing one finalizer keeps the others\<close>

lemma remove_loop_keeps:
  "x \<in> set arr \<Longrightarrow> x \<noteq> key \<Longrightarrow> \<forall>k \<in> set ks. k < length arr \<Longrightarrow>
   remove_loop key ks arr nf = nf \<or> x \<in> set (remove_loop key ks arr nf)"
proof (induction key ks arr nf rule: remove_loop.induct)
  case (2 key k ks arr nf)
  show ?case
  proof (cases "arr ! k = key")
    case True
    let ?joined = "take k arr @ drop (k + 1) arr"
    from 2(5) have k: "k < length arr" by simp
    have "set arr = insert (arr ! k) (set ?joined)"
      using id_take_nth_drop[OF k] by (metis Suc_eq_plus1 list.simps(15) set_append sup.commute Un_insert_right)
    with 2(3,4) True have x: "x \<in> set ?joined" by auto
    have "\<forall>i \<in> set ks. i < length (?joined @ drop (length ?joined) arr)" using 2(5) k by auto
    with 2(2)[OF _ refl] True x 2(4) show ?thesis by (auto simp: Let_def)
  next
    case False
    with 2 show ?thesis by simp
  qed
qed simp

lemma remove_loop_others:
  assumes "x \<in> set arr" "x \<noteq> key" "\<forall>k \<in> set ks. k < length arr" "\<exists>k \<in> set ks. arr ! k = key"
  shows "x \<in> set (remove_loop key ks arr nf)"
  using assms(3,4)
proof (induction ks)
  case (Cons k ks)
  show ?case
  proof (cases "arr ! k = key")
    case True
    let ?joined = "take k arr @ drop (k + 1) arr"
    from Cons(2) have k: "k < length arr" by simp
    have "set arr = insert (arr ! k) (set ?joined)"
      using id_take_nth_drop[OF k] by (metis Suc_eq_plus1 list.simps(15) set_append sup.commute Un_insert_right)
    with assms(1,2) True have x: "x \<in> set ?joined" by auto
    have "\<forall>i \<in> set ks. i < length (?joined @ drop (length ?joined) arr)" using Cons(2) k by auto
    with remove_loop_keeps[OF _ assms(2) this, of ?joined] x True show ?thesis by (auto simp: Let_def)
  next
    case False
    with Cons show ?thesis by simp
  qed
qed simp

lemma constructFinalizerKey_inj [simp]: "constructFinalizerKey m = constructFinalizerKey n \<longleftrightarrow> m = n"
  by (simp add: constructFinalizerKey_def)

text \<open>What a removal handler writes back has every finalizer of the object it started from but its own.\<close>

definition keeps_finalizers :: "handler \<Rightarrow> bool" where
  "keeps_finalizers hdl \<longleftrightarrow> (\<forall>key obj new. hdl key (Some obj) = (Some new, None) \<longrightarrow>
     o_meta new \<noteq> None \<and> set (finalizers_of obj) \<subseteq> set (finalizers_of new))"

lemma removeFinalizer_writes:
  assumes "HUpdate o' \<in> set (snd (snd (removeFinalizer name upd obj)))"
  shows "o_meta o' \<noteq> None \<and> set (finalizers_of obj) - {constructFinalizerKey name} \<subseteq> set (finalizers_of o')"
proof -
  let ?F = "constructFinalizerKey name"
  from assms obtain m where m: "o_meta obj = Some m" "?F \<in> set (m_finalizers m)"
    "o' = set_meta (m\<lparr>m_finalizers := remove_loop ?F [0..<length (m_finalizers m)] (m_finalizers m) []\<rparr>) obj"
    by (auto simp: removeFinalizer_def hasFinalizer_iff finalizers_of_def Accessor_def Let_def
        split: if_splits option.splits prod.splits)
  from m(2) have "\<exists>k \<in> set [0..<length (m_finalizers m)]. m_finalizers m ! k = ?F"
    by (auto simp: in_set_conv_nth)
  then have "x \<in> set (m_finalizers m) \<Longrightarrow> x \<noteq> ?F \<Longrightarrow>
      x \<in> set (remove_loop ?F [0..<length (m_finalizers m)] (m_finalizers m) [])" for x
    by (rule remove_loop_others[rotated 3]) simp_all
  with m show ?thesis by (auto simp: finalizers_of_def set_meta_def)
qed

lemma addFinalizer_writes:
  "HUpdate o' \<in> set (snd (snd (addFinalizer name upd obj))) \<Longrightarrow>
   o_meta o' \<noteq> None \<and> set (finalizers_of obj) \<subseteq> set (finalizers_of o')"
  by (auto simp: addFinalizer_def finalizers_of_def Accessor_def Let_def set_meta_def
      split: if_splits option.splits prod.splits)

lemma no_handler_calls:
  "HHandler ob \<notin> set (snd (snd (addFinalizer name upd obj)))"
  "HHandler ob \<notin> set (snd (snd (removeFinalizer name upd obj)))"
  by (auto simp: addFinalizer_def removeFinalizer_def Accessor_def Let_def split: option.split prod.split)

lemma remove_sync_writes:
  assumes "keeps_finalizers hdl" "HUpdate o' \<in> set (snd (snd (remove_sync name upd hdl key (Some obj))))"
  shows "o_meta o' \<noteq> None \<and> set (finalizers_of obj) - {constructFinalizerKey name} \<subseteq> set (finalizers_of o')"
proof -
  from assms(2) obtain m where m: "o_meta obj = Some m"
    by (auto simp: remove_sync_def Accessor_def split: option.splits)
  show ?thesis
  proof (cases "m_deletionTimestamp m = None")
    case True
    with assms(2) m have "HUpdate o' \<in> set (snd (snd (addFinalizer name upd obj)))"
      by (simp add: remove_sync_def Accessor_def)
    from addFinalizer_writes[OF this] show ?thesis by auto
  next
    case False
    with assms(2) m obtain new where h: "hdl key (Some obj) = (new, None)"
      and w: "HUpdate o' \<in> set (snd (snd (removeFinalizer name upd (case new of None \<Rightarrow> obj | Some o' \<Rightarrow> o'))))"
      by (auto simp: remove_sync_def Accessor_def split: if_splits prod.splits option.splits)
    have "set (finalizers_of obj) \<subseteq> set (finalizers_of (case new of None \<Rightarrow> obj | Some o' \<Rightarrow> o'))"
      using assms(1) h by (auto simp: keeps_finalizers_def split: option.split)
    with removeFinalizer_writes[OF w] show ?thesis by auto
  qed
qed

subsection \<open>Several removal handlers on one controller\<close>

type_synonym 't typed_sync = "string \<Rightarrow> 't option \<Rightarrow> 't option \<times> goerr option"

text \<open>What the users of a controller register, in order.\<close>

definition register_all ::
    "(robj \<Rightarrow> 't) \<Rightarrow> ('t \<Rightarrow> robj) \<Rightarrow> updater \<Rightarrow> (string \<times> 't typed_sync) list \<Rightarrow> shared_controller \<Rightarrow> shared_controller" where
  "register_all conv back upd regs c = fold (\<lambda>(name, sync). OnRemove conv back upd name sync) regs c"

lemma register_all_handlers:
  "sc_handlers (register_all conv back upd regs c) =
     sc_handlers c @ map (\<lambda>(name, sync). (name, NewRemoveHandler name upd (typed_handler sync conv back))) regs"
  unfolding register_all_def
  by (induction regs arbitrary: c) (auto simp: OnRemove_def AddGenericHandler_def)

text \<open>The object in the cluster, and the handlers that have succeeded on it since it was deleted. As in
  \<open>Generic_Spec\<close>, a deleted object stays while it has finalizers, other clients leave the finalizers of
  the handlers alone, and an update of a handler succeeds or changes nothing. A sync runs one of the
  handlers of the controller; \<open>hdls\<close> says which handler was registered under which name.\<close>

record shared_world =
  sw_obj :: "robj option"
  sw_done :: "string set"

fun run_calls :: "string \<Rightarrow> (robj \<Rightarrow> bool) \<Rightarrow> bool \<Rightarrow> hcall list \<Rightarrow> shared_world \<Rightarrow> shared_world" where
  "run_calls name succeeds ok [] w = w"
| "run_calls name succeeds ok (HHandler obj # cs) w =
     run_calls name succeeds ok cs (if succeeds obj then w\<lparr>sw_done := insert name (sw_done w)\<rparr> else w)"
| "run_calls name succeeds ok (HUpdate obj # cs) w =
     run_calls name succeeds ok cs (if ok then w\<lparr>sw_obj := stored obj\<rparr> else w)"

inductive shared_step :: "(string \<times> handler) list \<Rightarrow> shared_controller \<Rightarrow> shared_world \<Rightarrow> shared_world \<Rightarrow> bool"
  for hdls c where
  delete: "sw_obj w = Some obj \<Longrightarrow> o_meta obj = Some m \<Longrightarrow>
     shared_step hdls c w (w\<lparr>sw_obj := stored (set_meta (m\<lparr>m_deletionTimestamp := Some t\<rparr>) obj)\<rparr>)"
| others: "sw_obj w = Some obj \<Longrightarrow> o_meta obj' \<noteq> None \<Longrightarrow>
     set (finalizers_of obj) \<inter> range constructFinalizerKey \<subseteq> set (finalizers_of obj') \<Longrightarrow>
     shared_step hdls c w (w\<lparr>sw_obj := stored obj'\<rparr>)"
| sync: "sw_obj w = Some obj \<Longrightarrow> (name, hdl) \<in> set hdls \<Longrightarrow> (name, h) \<in> set (sc_handlers c) \<Longrightarrow>
     shared_step hdls c w
       (run_calls name (\<lambda>ob. snd (hdl key (Some ob)) = None) ok (snd (snd (h key (Some obj)))) w)"

inductive shared_run :: "(string \<times> handler) list \<Rightarrow> shared_controller \<Rightarrow> shared_world \<Rightarrow> shared_world \<Rightarrow> bool"
  for hdls c where
  start: "shared_run hdls c w w"
| step: "shared_run hdls c w w1 \<Longrightarrow> shared_step hdls c w1 w2 \<Longrightarrow> shared_run hdls c w w2"

text \<open>Every handler has succeeded, or the object is there with its finalizer.\<close>

definition holds_for :: "string \<Rightarrow> shared_world \<Rightarrow> bool" where
  "holds_for n w \<longleftrightarrow> n \<in> sw_done w \<or>
     (\<exists>obj. sw_obj w = Some obj \<and> o_meta obj \<noteq> None \<and> constructFinalizerKey n \<in> set (finalizers_of obj))"

lemma holds_for_stored:
  "o_meta obj \<noteq> None \<Longrightarrow> constructFinalizerKey n \<in> set (finalizers_of obj) \<Longrightarrow> holds_for n (w\<lparr>sw_obj := stored obj\<rparr>)"
  by (auto simp: holds_for_def stored_def)

lemma run_calls_done: "n \<in> sw_done w \<Longrightarrow> n \<in> sw_done (run_calls name succeeds ok cs w)"
  by (induction name succeeds ok cs w rule: run_calls.induct) auto

lemma run_calls_holds:
  assumes "\<forall>o'. HUpdate o' \<in> set cs \<longrightarrow> o_meta o' \<noteq> None \<and> constructFinalizerKey n \<in> set (finalizers_of o')"
  shows "holds_for n w \<Longrightarrow> holds_for n (run_calls name succeeds ok cs w)"
  using assms
proof (induction name succeeds ok cs w rule: run_calls.induct)
  case (3 name succeeds ok obj cs w)
  then show ?case by (auto simp: holds_for_stored)
qed (auto simp: holds_for_def)

lemma remove_sync_holds:
  assumes "holds_for n w" "sw_obj w = Some obj" "keeps_finalizers hdl"
  shows "holds_for n (run_calls name (\<lambda>ob. snd (hdl key (Some ob)) = None) ok
      (snd (snd (remove_sync name upd hdl key (Some obj)))) w)"
    (is "holds_for n (run_calls name ?succ ok ?cs w)")
proof (cases "n \<in> sw_done w")
  case True
  then show ?thesis by (simp add: holds_for_def run_calls_done)
next
  case False
  with assms(1,2) have obj: "o_meta obj \<noteq> None" "constructFinalizerKey n \<in> set (finalizers_of obj)"
    by (auto simp: holds_for_def)
  show ?thesis
  proof (cases "n = name")
    case False
    have "o_meta o' \<noteq> None \<and> constructFinalizerKey n \<in> set (finalizers_of o')" if "HUpdate o' \<in> set ?cs" for o'
      using remove_sync_writes[OF assms(3) that] obj(2) False by auto
    then have "\<forall>o'. HUpdate o' \<in> set ?cs \<longrightarrow> o_meta o' \<noteq> None \<and> constructFinalizerKey n \<in> set (finalizers_of o')"
      by blast
    with assms(1) show ?thesis by (rule run_calls_holds[rotated])
  next
    case True
    show ?thesis
    proof (cases "deleted_obj obj \<and> ?succ obj")
      case d: True
      with obj True obtain cs where "?cs = HHandler obj # cs"
        using remove_sync_calls_shape[of obj name hdl key upd] by blast
      with d True show ?thesis by (simp add: holds_for_def run_calls_done)
    next
      case False
      with obj True have "?cs = (if deleted_obj obj then [HHandler obj] else [])"
        using remove_sync_calls_fail[of obj name hdl key upd] by simp
      with False assms(1) show ?thesis by auto
    qed
  qed
qed

lemma shared_step_holds:
  assumes "shared_step hdls c w w'" "holds_for n w" "n \<in> fst ` set hdls"
    and "\<And>name h hdl. (name, h) \<in> set (sc_handlers c) \<Longrightarrow> (name, hdl) \<in> set hdls \<Longrightarrow>
      h = NewRemoveHandler name upd hdl \<and> keeps_finalizers hdl"
  shows "holds_for n w'"
  using assms(1,2)
proof (cases rule: shared_step.cases)
  case (delete obj m t)
  with assms(2) show ?thesis
    by (auto simp: holds_for_def stored_def finalizers_of_def set_meta_def)
next
  case (others obj obj')
  show ?thesis
  proof (cases "n \<in> sw_done w")
    case False
    with assms(2) others have "constructFinalizerKey n \<in> set (finalizers_of obj')" by (auto simp: holds_for_def)
    with others show ?thesis by (simp add: holds_for_stored)
  qed (use others in \<open>simp add: holds_for_def\<close>)
next
  case (sync obj name hdl h key ok)
  with assms(4)[OF sync(4,3)] remove_sync_holds[OF assms(2) sync(2)] show ?thesis
    by (simp add: NewRemoveHandler_def)
qed

text \<open>C16: Any number of users may register removal handlers on one controller with \<open>OnRemove\<close>, under different
  names: an object that carries the finalizers of all of them is not gone from the cluster before the
  handler of every one of them has succeeded, in whatever order the handlers run, fail and write, and
  whatever else happens to the object. The handlers may change the object, but not its finalizers.\<close>

theorem OnRemove_composes:
  assumes "distinct (map fst regs)" "sc_handlers c0 = []" "c = register_all conv back upd regs c0"
    and "hdls = map (\<lambda>(name, sync). (name, typed_handler sync conv back)) regs"
    and keep: "\<forall>(name, hdl) \<in> set hdls. keeps_finalizers hdl"
    and run: "shared_run hdls c w w'"
    and obj: "sw_obj w = Some obj" "o_meta obj \<noteq> None"
      "\<forall>(name, hdl) \<in> set hdls. constructFinalizerKey name \<in> set (finalizers_of obj)"
    and gone: "sw_obj w' = None"
  shows "fst ` set regs \<subseteq> sw_done w'"
proof
  fix n assume n: "n \<in> fst ` set regs"
  then have nh: "n \<in> fst ` set hdls" unfolding assms(4) by force
  have reg: "h = NewRemoveHandler name upd hdl \<and> keeps_finalizers hdl"
    if "(name, h) \<in> set (sc_handlers c)" "(name, hdl) \<in> set hdls" for name h hdl
    using that keep eq_key_imp_eq_value[OF assms(1)]
    by (auto simp: assms(2-4) register_all_handlers)
  from nh obj have "holds_for n w" by (auto simp: holds_for_def)
  with run have "holds_for n w'"
    by (induction rule: shared_run.induct) (auto intro: shared_step_holds[OF _ _ nh reg])
  with gone show "n \<in> sw_done w'" by (simp add: holds_for_def)
qed

text \<open>A concrete run: two handlers, and a deleted object with both finalizers; both run, and it is gone.\<close>

definition cleaner :: "string \<Rightarrow> robj option \<Rightarrow> robj option \<times> goerr option" where
  "cleaner key obj = (None, None)"

definition two_regs :: "(string \<times> robj typed_sync) list" where
  "two_regs = [(''a'', cleaner), (''b'', cleaner)]"

definition two_hdls :: "(string \<times> handler) list" where
  "two_hdls = map (\<lambda>(name, sync). (name, typed_handler sync id id)) two_regs"

definition two_controller :: shared_controller where
  "two_controller = register_all id id (\<lambda>ob. (Some ob, None)) two_regs
     \<lparr>sc_gvk = gvk_zero, sc_handlers = [], sc_queue = []\<rparr>"

definition two_obj :: robj where
  "two_obj = with_finalizers [''wrangler.cattle.io/a'', ''wrangler.cattle.io/b''] leaving"

definition two_sync :: "string \<Rightarrow> shared_world \<Rightarrow> shared_world" where
  "two_sync name w =
     (case (sw_obj w, map_of (sc_handlers two_controller) name) of
        (Some obj, Some h) \<Rightarrow> run_calls name (\<lambda>ob. snd (typed_handler cleaner id id ''k'' (Some ob)) = None) True
            (snd (snd (h ''k'' (Some obj)))) w
      | _ \<Rightarrow> w)"

lemma two_sync_step:
  "sw_obj w \<noteq> None \<Longrightarrow> name \<in> {''a'', ''b''} \<Longrightarrow> shared_step two_hdls two_controller w (two_sync name w)"
proof -
  assume "sw_obj w \<noteq> None" and n: "name \<in> {''a'', ''b''}"
  then obtain obj where o': "sw_obj w = Some obj" by blast
  from n obtain h where h: "map_of (sc_handlers two_controller) name = Some h"
    by (auto simp: two_controller_def register_all_handlers two_regs_def)
  from n have "(name, typed_handler cleaner id id) \<in> set two_hdls"
    by (auto simp: two_hdls_def two_regs_def)
  from shared_step.sync[OF o' this map_of_SomeD[OF h], of "''k''" True] show ?thesis
    by (simp add: two_sync_def o' h)
qed

theorem OnRemove_composes_witness:
  "{''a'', ''b''} \<subseteq> sw_done (two_sync ''b'' (two_sync ''a'' \<lparr>sw_obj = Some two_obj, sw_done = {}\<rparr>))"
proof -
  let ?w = "\<lparr>sw_obj = Some two_obj, sw_done = {}\<rparr>"
  have o1: "sw_obj (two_sync ''a'' ?w) \<noteq> None" and o2: "sw_obj (two_sync ''b'' (two_sync ''a'' ?w)) = None"
    by code_simp+
  have run: "shared_run two_hdls two_controller ?w (two_sync ''b'' (two_sync ''a'' ?w))"
    by (rule shared_run.step[OF shared_run.step[OF shared_run.start]]; rule two_sync_step) (use o1 in simp_all)
  have d: "distinct (map fst two_regs)" by (simp add: two_regs_def)
  have k: "\<forall>(name, hdl) \<in> set two_hdls. keeps_finalizers hdl"
    by (auto simp: two_hdls_def two_regs_def keeps_finalizers_def typed_handler_def FromObjectHandlerToHandler_def
        cleaner_def)
  have "o_meta two_obj \<noteq> None" by code_simp
  moreover have f: "finalizers_of two_obj = [''wrangler.cattle.io/a'', ''wrangler.cattle.io/b'']" by code_simp
  have "\<forall>(name, hdl) \<in> set two_hdls. constructFinalizerKey name \<in> set (finalizers_of two_obj)"
    by (auto simp: f two_hdls_def two_regs_def constructFinalizerKey_def finalizerKey_def)
  ultimately have "fst ` set two_regs \<subseteq> sw_done (two_sync ''b'' (two_sync ''a'' ?w))"
    using OnRemove_composes[OF d _ two_controller_def two_hdls_def k run _ _ _ o2] by simp
  then show ?thesis by (simp add: two_regs_def)
qed

end
