(* ===== verification/Spec2Isabelle.thy ===== *)
theory Spec2Isabelle
  imports Condition Apply_Objects Apply_Owner Summary_Kinds Generic_Spec Broadcast Leader
    Schema_OpenAPI Schema_Reflect Needacert_Spec Webhook Crd_Install Related Apply_Reconcilers Patch
    Yaml_Export Summary_Access Startup Codegen Apply_Converges Apply_Errors Generated Generic_Controller
begin

text \<open>
  This library models the core logic of rancher/wrangler, a Go toolkit for Kubernetes
  controllers, and proves what makes it correct.

  The parts and how they interact. A controller describes the objects it wants, and package
  \<open>apply\<close> brings the cluster to that state: it prepares the desired objects (owner references,
  namespaces, injected labels), computes from the previous state in an annotation, the desired
  and the current object what to patch, and creates, replaces, patches and deletes objects.
  Package \<open>objectset\<close> holds the desired objects by kind and key, package \<open>gvk\<close> finds their
  kind, packages \<open>condition\<close> and \<open>kstatus\<close> record the outcome in the status of the owner, and
  package \<open>summary\<close> reads such statuses into one state for a user. All of them work on
  unstructured values through package \<open>data\<close>.

  Conventions. Go strings are byte strings; case mapping and white space are ASCII. A Go map is
  an association list with distinct keys whose order stands for one iteration order, so lemmas
  hold for every order; a nil map or slice that the code tells from an empty one is an option.
  A call that can fail is a sum with the error on the left; a panic is \<open>None\<close>. Integers of
  fixed width are words. Code outside the repository (the API server, informers, discovery, the
  JSON and patch libraries, digests and compression, clocks) is an argument: a field of a record
  such as \<open>env\<close> of \<open>Apply_Env\<close>, \<open>senv\<close> of \<open>Summary_Core\<close> or \<open>capi\<close> of \<open>Needacert\<close>. Answers of the cluster
  depend on all calls made before, so the environment can change between calls; the calls are
  recorded in the state, and properties speak about that record. Hypotheses on an argument
  state documented behaviour and are named: \<open>range_ok\<close> (ranging over a map visits each key
  once), \<open>codec_ok\<close> and \<open>codecs_ok\<close> (decoding undoes encoding), \<open>api_ok\<close> and \<open>lib_ok\<close> (a secret that
  was written is read back, a certificate has the names it was made with), \<open>yaml_ok\<close> (a document reads
  back and separators split documents), \<open>slash_keys\<close> (queue keys are namespace, slash, name),
  \<open>answers_by_default\<close> (an environment uses the default reconcilers), \<open>merges_ok\<close> (a three-way merge
  of documents that show no change is empty but for the creation timestamp), \<open>faithful\<close> and \<open>json_ok\<close> (the
  document of an object, and JSON reading back), \<open>names_free\<close> (no create request meets an object of the
  name). Each property with a
  hypothesis has a witness that evaluates it on a sample environment (\<open>env0\<close>, \<open>senv0\<close>).

  Theories and the code they model (paths under \<open>src/pkg\<close>):

  \<open>Go_Prelude\<close>: the functions of Go's \<open>strings\<close> package the code calls, and loops that fill maps.

  \<open>Go_Error\<close>: error values and \<open>merr/error.go\<close>.

  \<open>Utils\<close>: \<open>kv/split.go\<close>, \<open>name/name.go\<close> (bounded names), \<open>slice/contains.go\<close>,
  \<open>stringset/stringset.go\<close> (contract \<open>string_set\<close>), \<open>seen/strings.go\<close>.

  \<open>Data\<close>: \<open>data/values.go\<close>, \<open>data/data.go\<close>, \<open>data/merge.go\<close> and \<open>data/convert/convert.go\<close>:
  values, paths (contract \<open>path_store\<close>: a path that was written is read back, independent
  paths are not touched), merging, conversions.

  \<open>Condition\<close>: \<open>condition/condition.go\<close>, \<open>genericcondition/condition.go\<close> and
  \<open>kstatus/kstatus.go\<close>; contract \<open>condition_store\<close> for sequences of updates by name.

  \<open>Objects\<close>: kinds, metadata and keys; \<open>gvk/get.go\<close>. \<open>Object_Set\<close>:
  \<open>objectset/objectset.go\<close>; contract \<open>object_index\<close> shared by the two indexes.

  \<open>Apply_Env\<close>: the environment and state of a run of \<open>apply\<close>, the cached clients of
  \<open>apply/client_factory.go\<close> and \<open>apply/apply.go\<close>, and the options of
  \<open>apply/desiredset.go\<close>. \<open>Apply_Compare\<close>: \<open>apply/desiredset_compare.go\<close>, from the applied
  annotation to the patch request. \<open>Apply_Process\<close>: \<open>apply/desiredset_process.go\<close> and
  \<open>desiredset_crud.go\<close>, one kind at a time. \<open>Apply_Objects\<close>: \<open>apply/desiredset_apply.go\<close>,
  preparation, labels, the hash and the loop over kinds. \<open>Apply_Owner\<close>:
  \<open>apply/desiredset_owner.go\<close>. \<open>Apply_Spec\<close>: which requests \<open>apply\<close> makes. \<open>Apply_Settled\<close>: a cluster
  that holds what is wanted is only read, with a decidable description of such a cluster
  (\<open>quiet_apply\<close>). \<open>Apply_Roundtrip\<close>: an object as \<open>apply\<close> created it needs no patch. \<open>Apply_Converges\<close>: so a
  second run of a kind changes nothing, the API server listing what the first created
  (\<open>lists_created\<close>). \<open>Apply_Errors\<close>: the error \<open>apply\<close> returns accounts for every request that failed.

  \<open>Summary_Core\<close>: \<open>summary/summary.go\<close>, \<open>condition.go\<close>, \<open>gvk.go\<close> and the tables of
  \<open>summarizers.go\<close>. \<open>Summary_Rules\<close>: the summarizers of \<open>summarizers.go\<close>,
  \<open>cattletypes.go\<close> and \<open>coretypes.go\<close>. \<open>Summary_CAPI\<close>: Cluster API kinds,
  \<open>operations.go\<close>, \<open>summarized.go\<close> and the pipeline. \<open>Summary_Spec\<close> and
  \<open>Summary_Kinds\<close>: the properties; contracts \<open>growing\<close> (a list of summarizers only adds) and
  \<open>settled\<close> (a decided state stays).

  \<open>Generic_Handlers\<close>: \<open>generic/remove.go\<close> (finalizers), \<open>generic/generating.go\<close>, the cache
  of \<open>generic/cache.go\<close>, and the status and generating handlers that the code generator writes
  for every kind, in the copy of \<open>generated/controllers/core/v1/node.go\<close>. \<open>Generic_Spec\<close>: the
  life of an object with a finalizer and the calls of the handlers. \<open>Generated\<close>: the kinds of
  \<open>generated/controllers\<close> and the registration of their handlers, with the two handlers of a
  registration composed. \<open>Generic_Controller\<close>: the registration of handlers in
  \<open>generic/controller.go\<close>, and any number of removal handlers on one controller.

  \<open>Broadcast\<close>: \<open>broadcast/generic.go\<close> as a state machine of its critical sections. \<open>Leader\<close>:
  \<open>leader/manager.go\<close> and \<open>leader/leader.go\<close>, a state machine and a retry loop.

  \<open>Schema_Types\<close>: \<open>schemas/definition\<close>, \<open>schemas/types.go\<close>, \<open>schemas/validation\<close>.
  \<open>Schema_Mappers\<close>: the mappers of \<open>schemas/mappers\<close> on data. \<open>Schema_Store\<close>: schemas behind
  pointers (a heap, since schemas refer to each other in cycles), \<open>schemas/schemas.go\<close>, the
  schema changes of the mappers, and \<open>schemas/mapper.go\<close>. \<open>Schema_Spec\<close>: what the mappers do
  to data and undo again; contract \<open>mapper_chain\<close> (a chain of undoable steps is undoable).
  \<open>Schema_Safety\<close>: mapped data fits the mapped schema, and the recursion of the mappers ends.
  \<open>Schema_OpenAPI\<close>: \<open>schemas/openapi/generate.go\<close>. \<open>Schema_Reflect\<close>:
  \<open>schemas/reflection.go\<close> over a table of Go types.

  \<open>Apply_Reconcilers\<close>: \<open>apply/reconcilers.go\<close> and the entry points of \<open>apply/apply.go\<close>.
  \<open>Patch\<close>: \<open>patch/style.go\<close> with the interleaving of its critical sections, \<open>patch/apply.go\<close>,
  \<open>gvk/detect.go\<close> and \<open>apply/injectors/registry.go\<close>. \<open>Yaml_Export\<close>: \<open>yaml/yaml.go\<close>.

  \<open>Needacert\<close>: \<open>needacert/needacert.go\<close>, certificates for the webhooks that ask for them, with the
  certificate library, caches and clients in a record \<open>capi\<close> over a world. \<open>Needacert_Spec\<close>: the
  refinement of \<open>generateSecret\<close> to keeping or replacing a certificate, and what the webhooks
  carry. \<open>Related\<close>: \<open>relatedresource\<close> and \<open>trigger\<close>, which keys a change enqueues; it composes
  with \<open>Needacert\<close> in \<open>secret_requeues_services\<close>. \<open>Webhook\<close>: \<open>webhook/router.go\<close> and
  \<open>webhook/match.go\<close>. \<open>Crd_Define\<close> and \<open>Crd_Install\<close>: \<open>crd/init.go\<close>, \<open>crd/print.go\<close> and
  \<open>crd/crd.go\<close>, describing custom resource definitions and waiting for them on a server that moves.

  \<open>Summary_Access\<close>: the clients, listers and informers of package \<open>summary\<close>.
  \<open>Generic_Factory\<close>: \<open>generic/factory.go\<close>, \<open>generic/controller.go\<close> and the listing of
  \<open>generic/cache.go\<close>. \<open>Startup\<close>: \<open>start/all.go\<close> over the factories of \<open>Generic_Factory\<close>,
  \<open>clients/clients.go\<close>, \<open>schemes/all.go\<close>, \<open>k8scheck/wait.go\<close>, and the state machines of
  \<open>signals/signal.go\<close> and \<open>ticker/ticker.go\<close>. \<open>Files\<close>: \<open>cleanup/cleanup.go\<close> with the walk of
  \<open>path/filepath\<close>, \<open>resolvehome/main.go\<close>, \<open>kubeconfig/loader.go\<close>, \<open>randomtoken/token.go\<close>.
  \<open>Codegen\<close>: what \<open>controller-gen\<close> decides (\<open>main.go\<close>, \<open>args/groupversion.go\<close>,
  \<open>generators/client_generator.go\<close>, \<open>generators/util.go\<close>).

  What the lemmas show. For \<open>apply\<close>: which deletes, creates, patches and replacements are
  requested, that a dry run requests no change, that a settled cluster is only read and what was
  created is settled, that a second run changes nothing, that no failed request goes unreported, that owner references, namespaces and labels
  are right for every iteration order, that cleaning and cutting of recorded objects is
  idempotent and loses only what it should, that the client cache is coherent, and that an
  orphan is purged only when its owner is gone. For the object set: its indexes agree with the
  list and the order of kinds is complete. For conditions: what each setter leaves in the
  status. For summaries: well-formed results, errors that are never lost, which condition
  decides a state, which relationships a pod has. For handlers: no object goes without its cleanup, by one
  handler or several, the condition of a generating handler says how its apply went, and a gone
  object takes with it what was generated for it.
  For the broadcaster and the leader: no channel is misused, one election. For schemas: round trips,
  typing and termination. For certificates: a run keeps a valid certificate and replaces any
  other, the next check comes in time, each webhook carries the bundle of its secret. For the
  router: only a handler allows a request, and a covered route is dead. For definitions: what is
  reported installed was seen established, and columns end exactly on types that do not contain
  themselves. For the factories: controllers start on synced caches, one factory or many. For
  exported objects, patches, triggers and generated files: round trips, answers that do not depend
  on the interleaving, queues that settle, and exact sets. For the helpers: exact results and bounds.

  Bounds and termination. Loops are structural recursions or folds over lists; \<open>MergeMaps\<close>,
  \<open>Split\<close> and the pruning of values have termination proofs. The recursion of schema mappers,
  of OpenAPI generation and of reflection follows pointers and has fuel, and \<open>None\<close> stands for
  not returning: \<open>registered_mapping_returns\<close> and \<open>openapi_generation_ends\<close> show that enough
  fuel gives the result and more fuel the same. The retry loop of a leader and the wait for
  the server may run for ever and are partial functions; waiting for a definition asks \<open>ticks\<close>
  times at most, as many as the timeout has polls. Reading columns from a type and draining a queue have fuel, and
  \<open>columns_end\<close> and \<open>all_key_settles\<close> show how much is enough. Numbers of the code are kept where they matter: 64 bytes per string in the
  applied annotation, 63 characters for names, 64-bit words for generations and replica counts.

  Not modelled: the generated factories and mocks, which repeat forwarding methods, the templates
  of the code generator, methods that only forward to lasso or client-go (informers, indexers,
  watches), the conversion of definitions to v1beta1, the rate limiter, log output, and
  third-party code. The manifest lists every package.
\<close>

end
